(* ===== verification/Prelude.thy ===== *)
theory Prelude
  imports Main "HOL-Library.AList" "HOL-Library.Monad_Syntax" "HOL-Library.Multiset"
begin

text \<open>
  Shared vocabulary of the development: JSON values and Python dictionaries as
  association lists, the exceptions the modelled code raises, the few string
  functions it uses, and the generic lemmas every component relies on.

  A Python \<open>dict\<close> is an association list with distinct keys in insertion
  order: \<open>d.get(k)\<close> is \<^term>\<open>map_of d k\<close>, \<open>d[k] = v\<close> is
  \<^term>\<open>AList.update k v d\<close> (an existing key keeps its place, a new one goes to
  the end), \<open>del d[k]\<close> is \<^term>\<open>AList.delete k d\<close>.  A string is a list of
  characters; the code points above 255 are outside the model.
\<close>

section \<open>JSON values and dictionaries\<close>

text \<open>
  \<open>JTime t\<close> is the ISO-8601 string of the instant \<open>t\<close> (microseconds since
  the epoch, UTC): the rendering and parsing of timestamps belongs to pydantic, so
  the model carries the instant.
\<close>

datatype json =
    JNull
  | JBool bool
  | JInt int
  | JStr string
  | JTime int
  | JList "json list"
  | JObj "(string \<times> json) list"

type_synonym doc = "(string \<times> json) list"

text \<open>Only hashable values may be dictionary keys or set members.\<close>

fun hashable :: "json \<Rightarrow> bool" where
  "hashable (JList _) = False"
| "hashable (JObj _) = False"
| "hashable _ = True"

text \<open>\<open>d.update(e)\<close>, also \<open>{**d, **e}\<close>.\<close>

definition dict_update :: "('k \<times> 'v) list \<Rightarrow> ('k \<times> 'v) list \<Rightarrow> ('k \<times> 'v) list" where
  "dict_update d e = fold (\<lambda>(k, v). AList.update k v) e d"

text \<open>\<open>{k: v for k, v in d.items() if k not in ks}\<close>.\<close>

definition dict_without :: "'k list \<Rightarrow> ('k \<times> 'v) list \<Rightarrow> ('k \<times> 'v) list" where
  "dict_without ks d = filter (\<lambda>(k, _). k \<notin> set ks) d"

declare map_of_eq_Some_iff [simp del] Some_eq_map_of_iff [simp del]

abbreviation keys :: "('k \<times> 'v) list \<Rightarrow> 'k list" where
  "keys d \<equiv> map fst d"

lemma dict_update_simps [simp]:
  "dict_update d [] = d"
  "dict_update d ((k, v) # e) = dict_update (AList.update k v d) e"
  by (simp_all add: dict_update_def)

lemma dict_update_append: "dict_update d (e @ e') = dict_update (dict_update d e) e'"
  by (simp add: dict_update_def)

lemma distinct_keys_update [simp]: "distinct (keys d) \<Longrightarrow> distinct (keys (AList.update k v d))"
  by (rule distinct_update)

lemma distinct_keys_dict_update [simp]: "distinct (keys d) \<Longrightarrow> distinct (keys (dict_update d e))"
  by (induction e arbitrary: d) (auto simp: distinct_update)

lemma set_keys_dict_update: "set (keys (dict_update d e)) = set (keys d) \<union> set (keys e)"
proof (induction e arbitrary: d)
  case (Cons p e)
  then show ?case
    by (cases p) (simp add: dom_update Un_assoc)
qed simp

lemma map_of_dict_update:
  "distinct (keys e) \<Longrightarrow>
     map_of (dict_update d e) k = (case map_of e k of Some v \<Rightarrow> Some v | None \<Rightarrow> map_of d k)"
proof (induction e arbitrary: d)
  case (Cons p e)
  obtain a v where p: "p = (a, v)" by (cases p)
  with Cons.prems have "a \<notin> set (keys e)" and "distinct (keys e)" by auto
  then have "map_of e a = None" by (simp add: map_of_eq_None_iff)
  with Cons.IH [OF \<open>distinct (keys e)\<close>, of "AList.update a v d"] p show ?case
    by (auto simp: update_conv' split: option.splits)
qed simp

lemma distinct_keys_filter [simp]: "distinct (keys d) \<Longrightarrow> distinct (keys (filter P d))"
  by (induction d) auto

lemma map_of_filter_key:
  "map_of (filter (\<lambda>(k, _). P k) d) k = (if P k then map_of d k else None)"
  by (induction d) auto

lemma distinct_keys_without [simp]: "distinct (keys d) \<Longrightarrow> distinct (keys (dict_without ks d))"
  by (simp add: dict_without_def)

lemma map_of_without: "map_of (dict_without ks d) k = (if k \<in> set ks then None else map_of d k)"
  unfolding dict_without_def by (subst map_of_filter_key) simp

lemma dict_without_id: "set ks \<inter> set (keys d) = {} \<Longrightarrow> dict_without ks d = d"
  unfolding dict_without_def by (rule filter_True) force

lemma update_notin: "k \<notin> set (keys d) \<Longrightarrow> AList.update k v d = d @ [(k, v)]"
  by (induction d) auto

lemma dict_update_fresh:
  "distinct (keys (d @ e)) \<Longrightarrow> dict_update d e = d @ e"
proof (induction e arbitrary: d)
  case (Cons p e)
  obtain a v where p: "p = (a, v)" by (cases p)
  with Cons.prems have "AList.update a v d = d @ [p]"
    by (simp add: update_notin)
  with Cons.IH [of "d @ [p]"] Cons.prems p show ?case by simp
qed simp

lemma distinct_keys_delete [simp]: "distinct (keys d) \<Longrightarrow> distinct (keys (AList.delete k d))"
  by (rule distinct_delete)

lemma map_of_delete_same [simp]: "map_of (AList.delete k d) k = None"
  by (simp add: delete_conv')

lemma set_keys_delete: "set (keys (AList.delete k d)) = set (keys d) - {k}"
  by (simp add: delete_keys)

lemma set_keys_update: "set (keys (AList.update k v d)) = insert k (set (keys d))"
  by (simp add: update_keys insert_absorb)

lemma in_values_iff: "distinct (keys d) \<Longrightarrow> v \<in> set (map snd d) \<longleftrightarrow> (\<exists>k. map_of d k = Some v)"
  by (force simp: map_of_eq_Some_iff)

section \<open>Strings\<close>

text \<open>The white space \<open>str.strip\<close> removes, below code point 256.\<close>

definition py_isspace :: "char \<Rightarrow> bool" where
  "py_isspace c = (let n = of_char c :: nat in
     9 \<le> n \<and> n \<le> 13 \<or> 28 \<le> n \<and> n \<le> 32 \<or> n = 133 \<or> n = 160)"

definition blank :: "string \<Rightarrow> bool" where
  \<comment> \<open>\<open>not s.strip()\<close>\<close>
  "blank s = list_all py_isspace s"

definition strip :: "string \<Rightarrow> string" where
  "strip s = rev (dropWhile py_isspace (rev (dropWhile py_isspace s)))"

definition rstrip :: "string \<Rightarrow> string" where
  "rstrip s = rev (dropWhile py_isspace (rev s))"

definition starts_with :: "string \<Rightarrow> string \<Rightarrow> bool" where
  "starts_with s p = (take (length p) s = p)"

definition lower_char :: "char \<Rightarrow> char" where
  \<comment> \<open>\<open>str.lower\<close> on Latin-1 letters\<close>
  "lower_char c = (let n = of_char c :: nat in
     if 65 \<le> n \<and> n \<le> 90 \<or> 192 \<le> n \<and> n \<le> 222 \<and> n \<noteq> 215 then char_of (n + 32) else c)"

definition lower :: "string \<Rightarrow> string" where
  "lower s = map lower_char s"

fun show_nat :: "nat \<Rightarrow> string" where
  "show_nat n = (if n < 10 then [char_of (48 + n)]
                 else show_nat (n div 10) @ [char_of (48 + n mod 10)])"

declare show_nat.simps [simp del]

lemma blank_Nil [simp]: "blank []"
  by (simp add: blank_def)

lemma blank_strip_empty: "blank s \<longleftrightarrow> strip s = []"
proof
  assume "blank s"
  then have "dropWhile py_isspace s = []"
    by (metis blank_def dropWhile_eq_Nil_conv list_all_iff)
  then show "strip s = []" by (simp only: strip_def rev.simps dropWhile.simps)
next
  assume "strip s = []"
  then have "\<forall>c \<in> set (dropWhile py_isspace s). py_isspace c"
    by (simp add: strip_def dropWhile_eq_Nil_conv)
  then have "dropWhile py_isspace s = []"
    by (metis dropWhile_eq_Cons_conv list.set_intros(1) neq_Nil_conv)
  then show "blank s" by (simp add: blank_def list_all_iff dropWhile_eq_Nil_conv)
qed

lemma starts_with_iff: "starts_with s p \<longleftrightarrow> (\<exists>t. s = p @ t)"
  unfolding starts_with_def by (metis append_take_drop_id append_eq_conv_conj)

lemma digit_inj: "i < 10 \<Longrightarrow> j < 10 \<Longrightarrow> (char_of (48 + i) :: char) = char_of (48 + j) \<Longrightarrow> i = (j::nat)"
  using arg_cong [of "char_of (48 + i) :: char" "char_of (48 + j)" "of_char :: char \<Rightarrow> nat"] by simp

lemma show_nat_nonempty [simp]: "show_nat n \<noteq> []"
  by (subst show_nat.simps) simp

lemma show_nat_small: "n < 10 \<Longrightarrow> show_nat n = [char_of (48 + n)]"
  by (simp add: show_nat.simps [of n])

lemma show_nat_big: "\<not> n < 10 \<Longrightarrow> show_nat n = show_nat (n div 10) @ [char_of (48 + n mod 10)]"
  by (simp add: show_nat.simps [of n])

lemma show_nat_inj: "show_nat m = show_nat n \<Longrightarrow> m = n"
proof (induction m arbitrary: n rule: show_nat.induct)
  case (1 m)
  show ?case
  proof (cases "m < 10 \<or> n < 10")
    case True
    then have "m < 10 \<and> n < 10"
      using "1.prems" show_nat_nonempty [of "m div 10"] show_nat_nonempty [of "n div 10"]
      by (cases "m < 10"; cases "n < 10") (auto simp: show_nat_small show_nat_big append_eq_Cons_conv)
    with "1.prems" show ?thesis by (auto simp: show_nat_small intro: digit_inj)
  next
    case False
    with "1.prems" have "show_nat (m div 10) = show_nat (n div 10)"
      and d: "(char_of (48 + m mod 10) :: char) = char_of (48 + n mod 10)"
      by (simp_all add: show_nat_big)
    with "1.IH" False have "m div 10 = n div 10" by simp
    moreover from d have "m mod 10 = n mod 10" by (rule digit_inj [rotated 2]) simp_all
    ultimately show ?thesis by (metis mult_div_mod_eq)
  qed
qed

lemma show_nat_eq_iff [simp]: "show_nat m = show_nat n \<longleftrightarrow> m = n"
  by (auto dest: show_nat_inj)

section \<open>Exceptions\<close>

text \<open>
  An exception is its Python class and the reason that picks the \<open>raise\<close> out of
  the others of that class in the same operation (not the message text).
\<close>

datatype exc =
    ValueError string
  | KeyError string
  | TypeError string
  | ValidationError string
  | RecordTooLargeError
  | RuntimeError string
  | ThreadError string
  | CheckpointError string
  | ProposalError string
  | OwnershipError string
  | FileNotFoundError string

type_synonym 'a result = "exc + 'a"

fun is_ok :: "'a result \<Rightarrow> bool" where
  "is_ok (Inl _) = False"
| "is_ok (Inr _) = True"

lemma is_ok_iff: "is_ok r \<longleftrightarrow> (\<exists>x. r = Inr x)"
  by (cases r) auto

section \<open>Lists, options and sorting\<close>

definition the_default :: "'a \<Rightarrow> 'a option \<Rightarrow> 'a" where
  "the_default d x = (case x of Some v \<Rightarrow> v | None \<Rightarrow> d)"

lemma the_default_simps [simp]: "the_default d (Some v) = v" "the_default d None = d"
  by (simp_all add: the_default_def)

text \<open>All results of a partial map, or \<open>None\<close> at the first failure.\<close>

fun map_opt :: "('a \<Rightarrow> 'b option) \<Rightarrow> 'a list \<Rightarrow> 'b list option" where
  "map_opt f [] = Some []"
| "map_opt f (x # xs) = do { y \<leftarrow> f x; ys \<leftarrow> map_opt f xs; Some (y # ys) }"

lemma map_opt_Some_iff:
  "map_opt f xs = Some ys \<longleftrightarrow> list_all2 (\<lambda>x y. f x = Some y) xs ys"
proof (induction xs arbitrary: ys)
  case (Cons x xs)
  show ?case
  proof (cases ys)
    case (Cons y ys')
    with Cons.IH [of ys'] show ?thesis by (cases "f x") (auto split: Option.bind_splits)
  qed (auto split: Option.bind_splits)
qed auto

lemma map_opt_total: "(\<And>x. x \<in> set xs \<Longrightarrow> f x = Some (g x)) \<Longrightarrow> map_opt f xs = Some (map g xs)"
  by (induction xs) auto

lemma map_opt_None_iff: "map_opt f xs = None \<longleftrightarrow> (\<exists>x \<in> set xs. f x = None)"
  by (induction xs) (auto split: Option.bind_splits)

lemma map_opt_set: "map_opt f xs = Some ys \<Longrightarrow> set ys = {y. \<exists>x \<in> set xs. f x = Some y}"
proof (induction xs arbitrary: ys)
  case (Cons x xs)
  then show ?case by (fastforce split: Option.bind_splits)
qed simp

lemma map_opt_length: "map_opt f xs = Some ys \<Longrightarrow> length ys = length xs"
  by (induction xs arbitrary: ys) (auto split: Option.bind_splits)

lemma set_sort_key [simp]: "set (sort_key f xs) = set xs"
  by simp

lemma find_Some_in: "List.find P xs = Some x \<Longrightarrow> x \<in> set xs \<and> P x"
  by (induction xs) (auto split: if_splits)

lemma find_append: "List.find P (xs @ ys) = (case List.find P xs of None \<Rightarrow> List.find P ys | Some x \<Rightarrow> Some x)"
  by (induction xs) auto

lemma find_None: "List.find P xs = None \<longleftrightarrow> (\<forall>x \<in> set xs. \<not> P x)"
  by (induction xs) auto

lemma find_rev_split:
  "List.find P (rev xs) = Some x \<Longrightarrow> \<exists>as bs. xs = as @ x # bs \<and> P x \<and> (\<forall>b \<in> set bs. \<not> P b)"
proof (induction xs rule: rev_induct)
  case (snoc y ys)
  show ?case
  proof (cases "P y")
    case True
    with snoc.prems show ?thesis by (intro exI [of _ ys] exI [of _ "[]"]) simp
  next
    case False
    with snoc obtain as bs where "ys = as @ x # bs" "P x" "\<forall>b \<in> set bs. \<not> P b" by auto
    with False show ?thesis by (intro exI [of _ as] exI [of _ "bs @ [y]"]) simp
  qed
qed simp

lemma alist_update_same: "(\<And>v. (k, v) \<in> set m \<Longrightarrow> v = w) \<Longrightarrow> set (AList.update k w m) = insert (k, w) (set m)"
proof (induction m)
  case (Cons p m)
  obtain a b where p: "p = (a, b)" by (cases p)
  show ?case using Cons.IH Cons.prems by (auto simp: p)
qed simp

text \<open>A comprehension whose element raises stops there.\<close>

fun map_res :: "('a \<Rightarrow> 'b result) \<Rightarrow> 'a list \<Rightarrow> 'b list result" where
  "map_res f [] = Inr []"
| "map_res f (x # xs) = (case f x of
     Inl e \<Rightarrow> Inl e
   | Inr y \<Rightarrow> (case map_res f xs of Inl e \<Rightarrow> Inl e | Inr ys \<Rightarrow> Inr (y # ys)))"

lemma map_res_snoc: "map_res f xs = Inr ys \<Longrightarrow> f x = Inr y \<Longrightarrow> map_res f (xs @ [x]) = Inr (ys @ [y])"
  by (induction xs arbitrary: ys) (auto split: sum.splits)

lemma map_res_total: "(\<And>x. x \<in> set xs \<Longrightarrow> f x = Inr (g x)) \<Longrightarrow> map_res f xs = Inr (map g xs)"
  by (induction xs) auto

lemma map_res_Inr_iff: "map_res f xs = Inr ys \<longleftrightarrow> list_all2 (\<lambda>x y. f x = Inr y) xs ys"
proof (induction xs arbitrary: ys)
  case (Cons x xs)
  show ?case
  proof (cases ys)
    case (Cons y ys')
    with Cons.IH [of ys'] show ?thesis by (auto split: sum.splits)
  qed (auto split: sum.splits)
qed auto

text \<open>Python truth of a JSON value.\<close>

fun truthy :: "json \<Rightarrow> bool" where
  "truthy JNull = False"
| "truthy (JBool b) = b"
| "truthy (JInt i) = (i \<noteq> 0)"
| "truthy (JStr s) = (s \<noteq> [])"
| "truthy (JTime _) = True"
| "truthy (JList xs) = (xs \<noteq> [])"
| "truthy (JObj d) = (d \<noteq> [])"

end
