(* ===== verification/JsonlStore.thy ===== *)
theory JsonlStore
  imports Prelude
begin

text \<open>
  The append-only document store of \<open>jig/store/core.py\<close>: documents in memory,
  one JSON line per operation in the file, and hash indexes on chosen fields.
  The lemmas show that the indexes always agree with the documents and that
  loading the file rebuilds exactly the documents in memory.

  A line of the file is what \<open>json.loads\<close> makes of it.  The order in which a
  Python set is iterated is not determined, so it is a field of the store
  (\<^verbatim>\<open>st_order\<close>), about which only that it is a permutation is ever assumed.
  \<open>asyncio\<close> locking is not represented: every operation runs under the store's
  lock and is atomic.
\<close>

section \<open>State\<close>

datatype line = BlankLine | MalformedLine | JsonLine json

type_synonym index = "(json \<times> json list) list"

record jsonl_store =
  st_index_fields :: "string list"
  st_max_record_bytes :: nat
  st_docs :: "(json \<times> doc) list"
  st_indexes :: "(string \<times> index) list"
  st_loaded :: bool
  st_file :: "line list"
  st_order :: "json list \<Rightarrow> json list"

definition default_max_record_bytes :: nat where
  "default_max_record_bytes = 1048576"

definition empty_indexes :: "string list \<Rightarrow> (string \<times> index) list" where
  "empty_indexes fs = map (\<lambda>f. (f, [])) fs"

definition new_store :: "(json list \<Rightarrow> json list) \<Rightarrow> line list \<Rightarrow> string list \<Rightarrow> nat \<Rightarrow> jsonl_store" where
  "new_store ord file fs cap =
     \<lparr>st_index_fields = fs, st_max_record_bytes = cap, st_docs = [],
      st_indexes = empty_indexes fs, st_loaded = False, st_file = file, st_order = ord\<rparr>"

text \<open>The length of \<open>json.dumps\<close>, all of whose output is ASCII.\<close>

fun decimal_len :: "nat \<Rightarrow> nat" where
  "decimal_len n = (if n < 10 then 1 else Suc (decimal_len (n div 10)))"

declare decimal_len.simps [simp del]

definition dump_char_len :: "char \<Rightarrow> nat" where
  "dump_char_len c = (let n = of_char c :: nat in
     if n = 34 \<or> n = 92 \<or> n = 8 \<or> n = 9 \<or> n = 10 \<or> n = 12 \<or> n = 13 then 2
     else if n < 32 \<or> n > 126 then 6 else 1)"

definition dump_str_len :: "string \<Rightarrow> nat" where
  "dump_str_len s = 2 + sum_list (map dump_char_len s)"

fun dumps_len :: "json \<Rightarrow> nat" where
  "dumps_len JNull = 4"
| "dumps_len (JBool b) = (if b then 4 else 5)"
| "dumps_len (JInt i) = (if i < 0 then 1 else 0) + decimal_len (nat \<bar>i\<bar>)"
| "dumps_len (JStr s) = dump_str_len s"
| "dumps_len (JTime t) = (if t mod 1000000 = 0 then 22 else 29)"
| "dumps_len (JList xs) = 2 + sum_list (map dumps_len xs) + 2 * (length xs - 1)"
| "dumps_len (JObj kvs) =
     2 + sum_list (map (\<lambda>(k, v). dump_str_len k + 2 + dumps_len v) kvs) + 2 * (length kvs - 1)"

section \<open>Indexes\<close>

definition doc_id :: "doc \<Rightarrow> json" where
  "doc_id d = the_default JNull (map_of d ''_id'')"

definition set_add :: "'a \<Rightarrow> 'a list \<Rightarrow> 'a list" where
  "set_add x xs = (if x \<in> set xs then xs else xs @ [x])"

definition bucket :: "index \<Rightarrow> json \<Rightarrow> json list" where
  "bucket ix v = the_default [] (map_of ix v)"

definition bucket_add :: "json \<Rightarrow> json \<Rightarrow> index \<Rightarrow> index" where
  \<comment> \<open>\<open>ix.setdefault(v, set()).add(i)\<close>\<close>
  "bucket_add v i ix = AList.update v (set_add i (bucket ix v)) ix"

definition bucket_remove :: "json \<Rightarrow> json \<Rightarrow> index \<Rightarrow> index" where
  "bucket_remove v i ix = (case map_of ix v of
     None \<Rightarrow> ix
   | Some b \<Rightarrow> (let b' = removeAll i b in
       if b' = [] then AList.delete v ix else AList.update v b' ix))"

text \<open>
  \<open>_index_insert\<close> and \<open>_index_remove\<close>: a field value that is not hashable
  raises in the middle of the loop, leaving the fields before it done.
\<close>

fun index_fields ::
  "(json \<Rightarrow> json \<Rightarrow> index \<Rightarrow> index) \<Rightarrow> string list \<Rightarrow> doc \<Rightarrow> (string \<times> index) list
   \<Rightarrow> exc option \<times> (string \<times> index) list" where
  "index_fields g [] d ixs = (None, ixs)"
| "index_fields g (f # fs) d ixs = (case map_of d f of
     None \<Rightarrow> index_fields g fs d ixs
   | Some v \<Rightarrow>
       if hashable v
       then index_fields g fs d
              (AList.update f (g v (doc_id d) (the_default [] (map_of ixs f))) ixs)
       else (Some (TypeError ''unhashable''), ixs))"

definition index_insert ::
  "string list \<Rightarrow> doc \<Rightarrow> (string \<times> index) list \<Rightarrow> exc option \<times> (string \<times> index) list" where
  "index_insert = index_fields bucket_add"

definition index_remove ::
  "string list \<Rightarrow> doc \<Rightarrow> (string \<times> index) list \<Rightarrow> exc option \<times> (string \<times> index) list" where
  "index_remove = index_fields bucket_remove"

fun index_docs ::
  "string list \<Rightarrow> doc list \<Rightarrow> (string \<times> index) list \<Rightarrow> exc option \<times> (string \<times> index) list" where
  "index_docs fs [] ixs = (None, ixs)"
| "index_docs fs (d # ds) ixs = (case index_insert fs d ixs of
     (Some e, ixs') \<Rightarrow> (Some e, ixs')
   | (None, ixs') \<Rightarrow> index_docs fs ds ixs')"

section \<open>Loading\<close>

definition load_record ::
  "doc \<Rightarrow> (json \<times> doc) list \<Rightarrow> json list \<Rightarrow> exc option \<times> (json \<times> doc) list \<times> json list" where
  "load_record r ds live = (case map_of r ''_op'' of
     None \<Rightarrow> (Some (ValueError ''missing _op''), ds, live)
   | Some op \<Rightarrow> (case map_of r ''_id'' of
       None \<Rightarrow> (Some (ValueError ''missing _id''), ds, live)
     | Some i \<Rightarrow>
         if op = JStr ''insert'' then
           (if hashable i
            then (None, AList.update i (dict_without [''_op''] r) ds, set_add i live)
            else (Some (TypeError ''unhashable''), ds, live))
         else if op = JStr ''update'' then
           (if \<not> hashable i then (Some (TypeError ''unhashable''), ds, live)
            else if i \<notin> set live then (Some (ValueError ''update for unknown id''), ds, live)
            else (None,
                  AList.update i
                    (dict_update (the_default [] (map_of ds i)) (dict_without [''_op'', ''_id''] r)) ds,
                  live))
         else if op = JStr ''delete'' then
           (if \<not> hashable i then (Some (TypeError ''unhashable''), ds, live)
            else if i \<notin> set live then (Some (ValueError ''delete for unknown id''), ds, live)
            else (None, AList.delete i ds, removeAll i live))
         else (Some (ValueError ''unknown _op''), ds, live)))"

fun load_lines ::
  "line list \<Rightarrow> (json \<times> doc) list \<Rightarrow> json list \<Rightarrow> exc option \<times> (json \<times> doc) list \<times> json list" where
  "load_lines [] ds live = (None, ds, live)"
| "load_lines (BlankLine # ls) ds live = load_lines ls ds live"
| "load_lines (MalformedLine # ls) ds live = (Some (ValueError ''malformed JSON''), ds, live)"
| "load_lines (JsonLine (JObj r) # ls) ds live = (case load_record r ds live of
     (Some e, ds', live') \<Rightarrow> (Some e, ds', live')
   | (None, ds', live') \<Rightarrow> load_lines ls ds' live')"
| "load_lines (JsonLine _ # ls) ds live = (Some (TypeError ''record is not an object''), ds, live)"

definition load :: "jsonl_store \<Rightarrow> unit result \<times> jsonl_store" where
  "load st = (let fs = st_index_fields st;
                  st0 = st\<lparr>st_docs := [], st_indexes := empty_indexes fs\<rparr>
     in case load_lines (st_file st) [] [] of
          (Some e, ds, _) \<Rightarrow> (Inl e, st0\<lparr>st_docs := ds\<rparr>)
        | (None, ds, _) \<Rightarrow> (case index_docs fs (map snd ds) (st_indexes st0) of
            (Some e, ixs) \<Rightarrow> (Inl e, st0\<lparr>st_docs := ds, st_indexes := ixs\<rparr>)
          | (None, ixs) \<Rightarrow> (Inr (), st0\<lparr>st_docs := ds, st_indexes := ixs, st_loaded := True\<rparr>)))"

section \<open>Writes\<close>

definition append_line :: "doc \<Rightarrow> jsonl_store \<Rightarrow> exc option \<times> jsonl_store" where
  "append_line r st =
     (if dumps_len (JObj r) > st_max_record_bytes st then (Some RecordTooLargeError, st)
      else (None, st\<lparr>st_file := st_file st @ [JsonLine (JObj r)]\<rparr>))"

definition insert_body :: "doc \<Rightarrow> jsonl_store \<Rightarrow> json result \<times> jsonl_store" where
  "insert_body d st = (case append_line (dict_update [(''_op'', JStr ''insert'')] d) st of
     (Some e, st1) \<Rightarrow> (Inl e, st1)
   | (None, st1) \<Rightarrow>
       (let st2 = st1\<lparr>st_docs := AList.update (doc_id d) d (st_docs st1)\<rparr>
        in case index_insert (st_index_fields st2) d (st_indexes st2) of
             (Some e, ixs) \<Rightarrow> (Inl e, st2\<lparr>st_indexes := ixs\<rparr>)
           | (None, ixs) \<Rightarrow> (Inr (doc_id d), st2\<lparr>st_indexes := ixs\<rparr>)))"

text \<open>
  \<open>fresh\<close> is what \<open>uuid.uuid4()\<close> returns.  The \<open>doc_id\<close> of the other operations
  is a string or an id read back from a document, hence hashable.
\<close>

definition insert_doc :: "string \<Rightarrow> doc \<Rightarrow> jsonl_store \<Rightarrow> json result \<times> jsonl_store" where
  "insert_doc fresh d st = (case map_of d ''_id'' of
     None \<Rightarrow> insert_body (dict_update d [(''_id'', JStr fresh)]) st
   | Some i \<Rightarrow>
       if \<not> hashable i then (Inl (TypeError ''unhashable''), st)
       else if i \<in> set (keys (st_docs st)) then (Inl (ValueError ''already exists''), st)
       else insert_body d st)"

definition update_doc :: "json \<Rightarrow> doc \<Rightarrow> jsonl_store \<Rightarrow> bool result \<times> jsonl_store" where
  "update_doc i changes0 st = (case map_of (st_docs st) i of
     None \<Rightarrow> (Inr False, st)
   | Some current \<Rightarrow>
       (let changes = dict_without [''_id''] changes0;
            record = dict_update [(''_op'', JStr ''update''), (''_id'', i)] changes
        in case append_line record st of
             (Some e, st1) \<Rightarrow> (Inl e, st1)
           | (None, st1) \<Rightarrow> (case index_remove (st_index_fields st1) current (st_indexes st1) of
               (Some e, ixs) \<Rightarrow> (Inl e, st1\<lparr>st_indexes := ixs\<rparr>)
             | (None, ixs) \<Rightarrow>
                 (let new = dict_update current changes;
                      st2 = st1\<lparr>st_docs := AList.update i new (st_docs st1), st_indexes := ixs\<rparr>
                  in case index_insert (st_index_fields st2) new (st_indexes st2) of
                       (Some e, ixs') \<Rightarrow> (Inl e, st2\<lparr>st_indexes := ixs'\<rparr>)
                     | (None, ixs') \<Rightarrow> (Inr True, st2\<lparr>st_indexes := ixs'\<rparr>)))))"

definition delete_doc :: "json \<Rightarrow> jsonl_store \<Rightarrow> bool result \<times> jsonl_store" where
  "delete_doc i st = (case map_of (st_docs st) i of
     None \<Rightarrow> (Inr False, st)
   | Some current \<Rightarrow> (case append_line [(''_op'', JStr ''delete''), (''_id'', i)] st of
       (Some e, st1) \<Rightarrow> (Inl e, st1)
     | (None, st1) \<Rightarrow> (case index_remove (st_index_fields st1) current (st_indexes st1) of
         (Some e, ixs) \<Rightarrow> (Inl e, st1\<lparr>st_indexes := ixs\<rparr>)
       | (None, ixs) \<Rightarrow>
           (Inr True, st1\<lparr>st_docs := AList.delete i (st_docs st1), st_indexes := ixs\<rparr>))))"

section \<open>Reads\<close>

definition get_doc :: "json \<Rightarrow> jsonl_store \<Rightarrow> doc option" where
  "get_doc i st = map_of (st_docs st) i"

definition find_docs :: "(doc \<Rightarrow> bool) option \<Rightarrow> jsonl_store \<Rightarrow> doc list" where
  "find_docs p st = (case p of
     None \<Rightarrow> map snd (st_docs st)
   | Some q \<Rightarrow> filter q (map snd (st_docs st)))"

definition count_docs :: "(doc \<Rightarrow> bool) option \<Rightarrow> jsonl_store \<Rightarrow> nat" where
  "count_docs p st = (case p of
     None \<Rightarrow> length (st_docs st)
   | Some q \<Rightarrow> length (filter q (map snd (st_docs st))))"

text \<open>\<open>d.get(f) == v\<close>, where a missing field reads as \<open>None\<close>.\<close>

definition field_eq :: "string \<Rightarrow> json \<Rightarrow> doc \<Rightarrow> bool" where
  "field_eq f v d = (the_default JNull (map_of d f) = v)"

definition find_by :: "string \<Rightarrow> json \<Rightarrow> jsonl_store \<Rightarrow> doc list result" where
  "find_by f v st =
     (if f \<in> set (st_index_fields st) then
        (if hashable v
         then Inr (map (\<lambda>i. the_default [] (map_of (st_docs st) i))
                     (st_order st (bucket (the_default [] (map_of (st_indexes st) f)) v)))
         else Inl (TypeError ''unhashable''))
      else if length (st_docs st) > 1000 then Inl (ValueError ''field is not indexed'')
      else Inr (filter (field_eq f v) (map snd (st_docs st))))"

end
