(* ===== verification/JsonlStoreInv.thy ===== *)
theory JsonlStoreInv
  imports JsonlStore
begin

text \<open>
  Correctness of \<open>jig/store/core.py\<close>: the store invariant (indexes agree with
  the documents, the file replays to the documents), its preservation by every
  operation, and what each operation does to the abstract map from ids to documents.
\<close>

section \<open>Index correctness\<close>

definition good_index :: "(json \<Rightarrow> json \<Rightarrow> bool) \<Rightarrow> index \<Rightarrow> bool" where
  "good_index P ix \<longleftrightarrow> distinct (keys ix) \<and>
     (\<forall>v. map_of ix v \<noteq> Some [] \<and> distinct (bucket ix v) \<and> set (bucket ix v) = {i. P i v})"

definition index_ok :: "string list \<Rightarrow> (json \<rightharpoonup> doc) \<Rightarrow> (string \<times> index) list \<Rightarrow> bool" where
  "index_ok fs m ixs \<longleftrightarrow> (\<forall>f \<in> set fs. \<exists>ix. map_of ixs f = Some ix \<and>
     good_index (\<lambda>i v. \<exists>d. m i = Some d \<and> map_of d f = Some v) ix)"

lemma set_set_add [simp]: "set (set_add x xs) = insert x (set xs)"
  by (auto simp: set_add_def)

lemma distinct_set_add [simp]: "distinct xs \<Longrightarrow> distinct (set_add x xs)"
  by (auto simp: set_add_def)

lemma set_add_nonempty [simp]: "set_add x xs \<noteq> []"
  by (auto simp: set_add_def)

lemma set_add_idem [simp]: "set_add x (set_add x xs) = set_add x xs"
  by (simp add: set_add_def)

lemma bucket_update: "bucket (AList.update v b ix) w = (if w = v then b else bucket ix w)"
  by (simp add: bucket_def update_conv')

lemma bucket_delete: "bucket (AList.delete v ix) w = (if w = v then [] else bucket ix w)"
  by (simp add: bucket_def delete_conv')

lemma bucket_add_idem: "bucket_add v i (bucket_add v i ix) = bucket_add v i ix"
  by (simp add: bucket_add_def bucket_update)

lemma bucket_remove_idem: "bucket_remove v i (bucket_remove v i ix) = bucket_remove v i ix"
  by (auto simp: bucket_remove_def Let_def update_conv' split: option.splits)

lemma good_index_add:
  "good_index P ix \<Longrightarrow> good_index (\<lambda>j w. P j w \<or> j = i \<and> w = v) (bucket_add v i ix)"
  by (auto simp: good_index_def bucket_add_def bucket_update update_conv')

lemma good_index_remove:
  assumes "good_index P ix"
  shows "good_index (\<lambda>j w. P j w \<and> \<not> (j = i \<and> w = v)) (bucket_remove v i ix)"
proof (cases "map_of ix v")
  case None
  then have "bucket ix v = []" by (simp add: bucket_def)
  with assms have "\<not> P j v" for j unfolding good_index_def by (metis empty_iff list.set(1) mem_Collect_eq)
  with assms None show ?thesis by (auto simp: good_index_def bucket_remove_def)
next
  case (Some b)
  then have "bucket ix v = b" by (simp add: bucket_def)
  with assms have b: "distinct b" "set b = {i. P i v}" and d: "distinct (keys ix)"
    by (auto simp: good_index_def)
  show ?thesis
  proof (cases "removeAll i b = []")
    case True
    with b have "P j v \<Longrightarrow> j = i" for j by (auto simp: removeAll_filter_not_eq filter_empty_conv)
    with True Some assms b show ?thesis
      by (auto simp: good_index_def bucket_remove_def bucket_delete delete_conv' distinct_delete)
  next
    case False
    with Some assms b show ?thesis
      by (auto simp: good_index_def bucket_remove_def bucket_update update_conv' Let_def distinct_removeAll)
  qed
qed

lemma good_index_cong: "(\<And>i v. P i v \<longleftrightarrow> Q i v) \<Longrightarrow> good_index P ix = good_index Q ix"
  by (simp add: good_index_def)

lemma index_fields_map_of:
  assumes "\<And>v i ix. g v i (g v i ix) = g v i ix"
    and "\<forall>f \<in> set fs. \<forall>v. map_of d f = Some v \<longrightarrow> hashable v"
  shows "\<exists>ixs'. index_fields g fs d ixs = (None, ixs') \<and>
    (\<forall>f. map_of ixs' f = (case map_of d f of
        Some v \<Rightarrow> if f \<in> set fs then Some (g v (doc_id d) (the_default [] (map_of ixs f)))
                  else map_of ixs f
      | None \<Rightarrow> map_of ixs f))"
  using assms(2)
proof (induction fs arbitrary: ixs)
  case Nil
  then show ?case by (auto split: option.splits)
next
  case (Cons f fs)
  show ?case
  proof (cases "map_of d f")
    case None
    with Cons show ?thesis by (fastforce split: option.splits)
  next
    case (Some v)
    with Cons.prems have h: "hashable v" by simp
    let ?ixs = "AList.update f (g v (doc_id d) (the_default [] (map_of ixs f))) ixs"
    from Cons.IH [of ?ixs] Cons.prems obtain ixs' where
      eq: "index_fields g fs d ?ixs = (None, ixs')" and
      mo: "\<forall>f'. map_of ixs' f' = (case map_of d f' of
        Some v \<Rightarrow> if f' \<in> set fs then Some (g v (doc_id d) (the_default [] (map_of ?ixs f')))
                  else map_of ?ixs f'
      | None \<Rightarrow> map_of ?ixs f')" by auto
    from eq Some h have "index_fields g (f # fs) d ixs = (None, ixs')" by simp
    moreover have "map_of ixs' f' = (case map_of d f' of
        Some v \<Rightarrow> if f' \<in> set (f # fs) then Some (g v (doc_id d) (the_default [] (map_of ixs f')))
                  else map_of ixs f'
      | None \<Rightarrow> map_of ixs f')" for f'
      using mo Some assms(1) by (auto simp: update_conv' split: option.splits)
    ultimately show ?thesis by blast
  qed
qed

lemma index_insert_ok:
  assumes ok: "index_ok fs m ixs" and new: "m i = None" and id: "doc_id d = i"
    and h: "\<forall>f \<in> set fs. \<forall>v. map_of d f = Some v \<longrightarrow> hashable v"
  obtains ixs' where "index_insert fs d ixs = (None, ixs')" "index_ok fs (m(i \<mapsto> d)) ixs'"
proof -
  from index_fields_map_of [where g = bucket_add, OF bucket_add_idem h, of ixs]
  obtain ixs' where eq: "index_fields bucket_add fs d ixs = (None, ixs')" and
    mo: "\<forall>f. map_of ixs' f = (case map_of d f of
        Some v \<Rightarrow> if f \<in> set fs then Some (bucket_add v (doc_id d) (the_default [] (map_of ixs f)))
                  else map_of ixs f
      | None \<Rightarrow> map_of ixs f)" by blast
  have "\<exists>ix'. map_of ixs' f = Some ix' \<and>
      good_index (\<lambda>j v. \<exists>d'. (m(i \<mapsto> d)) j = Some d' \<and> map_of d' f = Some v) ix'"
    if f: "f \<in> set fs" for f
  proof -
    from ok f obtain ix where ix: "map_of ixs f = Some ix"
      and g: "good_index (\<lambda>i v. \<exists>d. m i = Some d \<and> map_of d f = Some v) ix"
      by (auto simp: index_ok_def)
    show ?thesis
    proof (cases "map_of d f")
      case None
      have "good_index (\<lambda>j v. \<exists>d'. (m(i \<mapsto> d)) j = Some d' \<and> map_of d' f = Some v) ix"
        using g new None by (subst good_index_cong [where Q = "\<lambda>i v. \<exists>d. m i = Some d \<and> map_of d f = Some v"]) auto
      with mo None ix show ?thesis by simp
    next
      case (Some v)
      have "good_index (\<lambda>j v. \<exists>d'. (m(i \<mapsto> d)) j = Some d' \<and> map_of d' f = Some v) (bucket_add v i ix)"
        using good_index_add [OF g, of i v] new Some
        by (subst good_index_cong [where Q = "\<lambda>j w. (\<exists>d. m j = Some d \<and> map_of d f = Some w) \<or> j = i \<and> w = v"]) auto
      with mo Some ix f id show ?thesis by simp
    qed
  qed
  then have "index_ok fs (m(i \<mapsto> d)) ixs'" by (simp add: index_ok_def)
  with eq that show thesis by (simp add: index_insert_def)
qed

lemma index_remove_ok:
  assumes ok: "index_ok fs m ixs" and cur: "m i = Some d" and id: "doc_id d = i"
    and h: "\<forall>f \<in> set fs. \<forall>v. map_of d f = Some v \<longrightarrow> hashable v"
  obtains ixs' where "index_remove fs d ixs = (None, ixs')" "index_ok fs (m(i := None)) ixs'"
proof -
  from index_fields_map_of [where g = bucket_remove, OF bucket_remove_idem h, of ixs]
  obtain ixs' where eq: "index_fields bucket_remove fs d ixs = (None, ixs')" and
    mo: "\<forall>f. map_of ixs' f = (case map_of d f of
        Some v \<Rightarrow> if f \<in> set fs then Some (bucket_remove v (doc_id d) (the_default [] (map_of ixs f)))
                  else map_of ixs f
      | None \<Rightarrow> map_of ixs f)" by blast
  have "\<exists>ix'. map_of ixs' f = Some ix' \<and>
      good_index (\<lambda>j v. \<exists>d'. (m(i := None)) j = Some d' \<and> map_of d' f = Some v) ix'"
    if f: "f \<in> set fs" for f
  proof -
    from ok f obtain ix where ix: "map_of ixs f = Some ix"
      and g: "good_index (\<lambda>i v. \<exists>d. m i = Some d \<and> map_of d f = Some v) ix"
      by (auto simp: index_ok_def)
    show ?thesis
    proof (cases "map_of d f")
      case None
      have "good_index (\<lambda>j v. \<exists>d'. (m(i := None)) j = Some d' \<and> map_of d' f = Some v) ix"
        using g cur None by (subst good_index_cong [where Q = "\<lambda>i v. \<exists>d. m i = Some d \<and> map_of d f = Some v"]) auto
      with mo None ix show ?thesis by simp
    next
      case (Some v)
      have "good_index (\<lambda>j v. \<exists>d'. (m(i := None)) j = Some d' \<and> map_of d' f = Some v) (bucket_remove v i ix)"
        using good_index_remove [OF g, of i v] cur Some
        by (subst good_index_cong [where Q = "\<lambda>j w. (\<exists>d. m j = Some d \<and> map_of d f = Some w) \<and> \<not> (j = i \<and> w = v)"]) auto
      with mo Some ix f id show ?thesis by simp
    qed
  qed
  then have "index_ok fs (m(i := None)) ixs'" by (simp add: index_ok_def)
  with eq that show thesis by (simp add: index_remove_def)
qed

lemma index_ok_empty: "index_ok fs Map.empty (empty_indexes fs)"
proof -
  have "map_of (map (\<lambda>f. (f, [])) fs) f = Some []" if "f \<in> set fs" for f
    using that by (induction fs) auto
  then show ?thesis unfolding index_ok_def empty_indexes_def
    by (intro ballI exI [of _ "[]"] conjI) (simp_all add: good_index_def bucket_def)
qed

section \<open>The store invariant\<close>

text \<open>
  A stored document is a dictionary with its own id, without an \<open>_op\<close> field, whose
  indexed values are hashable.
\<close>

definition doc_ok :: "string list \<Rightarrow> json \<Rightarrow> doc \<Rightarrow> bool" where
  "doc_ok fs i d \<longleftrightarrow> distinct (keys d) \<and> map_of d ''_id'' = Some i \<and> hashable i \<and>
     ''_op'' \<notin> set (keys d) \<and> (\<forall>f \<in> set fs. \<forall>v. map_of d f = Some v \<longrightarrow> hashable v)"

definition store_inv :: "jsonl_store \<Rightarrow> bool" where
  "store_inv st \<longleftrightarrow> distinct (keys (st_docs st)) \<and>
     (\<forall>(i, d) \<in> set (st_docs st). doc_ok (st_index_fields st) i d) \<and>
     load_lines (st_file st) [] [] = (None, st_docs st, keys (st_docs st)) \<and>
     index_ok (st_index_fields st) (map_of (st_docs st)) (st_indexes st) \<and>
     (\<forall>xs. mset (st_order st xs) = mset xs)"

lemma doc_ok_id: "doc_ok fs i d \<Longrightarrow> doc_id d = i"
  by (simp add: doc_ok_def doc_id_def)

lemma doc_ok_hashable: "doc_ok fs i d \<Longrightarrow> \<forall>f \<in> set fs. \<forall>v. map_of d f = Some v \<longrightarrow> hashable v"
  by (simp add: doc_ok_def)

lemma store_inv_doc_ok: "store_inv st \<Longrightarrow> map_of (st_docs st) i = Some d \<Longrightarrow> doc_ok (st_index_fields st) i d"
  unfolding store_inv_def by (blast dest: map_of_SomeD)

lemma load_lines_snoc:
  assumes "load_lines ls ds live = (None, ds', live')"
  shows "load_lines (ls @ [JsonLine (JObj r)]) ds live = load_record r ds' live'"
  using assms
proof (induction ls ds live rule: load_lines.induct)
  case (4 r' ls ds live)
  then show ?case by (cases "load_record r' ds live" rule: prod_cases3) (auto split: option.splits)
qed (auto split: prod.splits option.splits)

lemma load_insert_record:
  assumes "distinct (keys d)" "''_op'' \<notin> set (keys d)" "map_of d ''_id'' = Some i" "hashable i"
  shows "load_record (dict_update [(''_op'', JStr ''insert'')] d) ds live
         = (None, AList.update i d ds, set_add i live)"
proof -
  from assms have "dict_update [(''_op'', JStr ''insert'')] d = (''_op'', JStr ''insert'') # d"
    by (subst dict_update_fresh) auto
  moreover have "dict_without [''_op''] ((''_op'', JStr ''insert'') # d) = d"
    using assms(2) dict_without_id [of "[''_op'']" d] by (simp add: dict_without_def)
  ultimately show ?thesis using assms(3,4) by (simp add: load_record_def)
qed

lemma load_update_record:
  assumes "distinct (keys ch)" "''_op'' \<notin> set (keys ch)" "''_id'' \<notin> set (keys ch)"
    and "i \<in> set live" "hashable i"
  shows "load_record (dict_update [(''_op'', JStr ''update''), (''_id'', i)] ch) ds live
         = (None, AList.update i (dict_update (the_default [] (map_of ds i)) ch) ds, live)"
proof -
  from assms have
    "dict_update [(''_op'', JStr ''update''), (''_id'', i)] ch = (''_op'', JStr ''update'') # (''_id'', i) # ch"
    by (subst dict_update_fresh) auto
  moreover have "dict_without [''_op'', ''_id''] ((''_op'', JStr ''update'') # (''_id'', i) # ch) = ch"
    using assms(2,3) dict_without_id [of "[''_op'', ''_id'']" ch] by (simp add: dict_without_def)
  ultimately show ?thesis using assms(4,5) by (simp add: load_record_def)
qed

section \<open>insert\<close>

text \<open>What \<open>insert\<close> stores: the document with its id added at the end if it had none.\<close>

definition stored_doc :: "string \<Rightarrow> doc \<Rightarrow> doc" where
  "stored_doc fresh d = (if map_of d ''_id'' = None then d @ [(''_id'', JStr fresh)] else d)"

definition insertable :: "jsonl_store \<Rightarrow> doc \<Rightarrow> bool" where
  \<comment> \<open>a dictionary that \<open>insert\<close> can store without corrupting index or log\<close>
  "insertable st d \<longleftrightarrow> distinct (keys d) \<and> ''_op'' \<notin> set (keys d) \<and>
     (\<forall>v. map_of d ''_id'' = Some v \<longrightarrow> hashable v) \<and>
     (\<forall>f \<in> set (st_index_fields st). \<forall>v. map_of d f = Some v \<longrightarrow> hashable v)"

lemma update_append_new: "i \<notin> set (keys ds) \<Longrightarrow> AList.update i d ds = ds @ [(i, d)]"
  by (rule update_notin)

lemma insert_body_inv:
  assumes inv: "store_inv st" and new: "i \<notin> set (keys (st_docs st))"
    and ok: "doc_ok (st_index_fields st) i d"
    and fits: "dumps_len (JObj (dict_update [(''_op'', JStr ''insert'')] d)) \<le> st_max_record_bytes st"
  obtains st' where "insert_body d st = (Inr i, st')" "store_inv st'"
    "st_docs st' = st_docs st @ [(i, d)]" "st_index_fields st' = st_index_fields st"
    "st_max_record_bytes st' = st_max_record_bytes st" "st_order st' = st_order st"
    "st_file st' = st_file st @ [JsonLine (JObj (dict_update [(''_op'', JStr ''insert'')] d))]"
proof -
  let ?fs = "st_index_fields st" and ?ds = "st_docs st"
  let ?line = "JsonLine (JObj (dict_update [(''_op'', JStr ''insert'')] d))"
  from inv have dist: "distinct (keys ?ds)" and docs: "\<forall>(i, d) \<in> set ?ds. doc_ok ?fs i d"
    and log: "load_lines (st_file st) [] [] = (None, ?ds, keys ?ds)"
    and ix: "index_ok ?fs (map_of ?ds) (st_indexes st)"
    and ord: "\<forall>xs. mset (st_order st xs) = mset xs"
    by (auto simp: store_inv_def)
  from new have none: "map_of ?ds i = None" by (simp add: map_of_eq_None_iff)
  obtain ixs' where ixs': "index_insert ?fs d (st_indexes st) = (None, ixs')"
    and iok: "index_ok ?fs ((map_of ?ds)(i \<mapsto> d)) ixs'"
    by (rule index_insert_ok [OF ix none doc_ok_id [OF ok] doc_ok_hashable [OF ok]])
  define st' where "st' = st\<lparr>st_file := st_file st @ [?line], st_docs := ?ds @ [(i, d)], st_indexes := ixs'\<rparr>"
  have eq: "insert_body d st = (Inr i, st')"
    using fits ixs' doc_ok_id [OF ok] new
    by (simp add: insert_body_def append_line_def st'_def Let_def update_append_new)
  have "load_lines (st_file st') [] [] = (None, st_docs st', keys (st_docs st'))"
    using load_lines_snoc [OF log] load_insert_record [of d i] ok new
    by (simp add: st'_def doc_ok_def update_append_new set_add_def)
  moreover have "map_of (?ds @ [(i, d)]) = (map_of ?ds)(i \<mapsto> d)"
    using new by (auto simp: fun_eq_iff map_add_def map_of_eq_None_iff [symmetric] split: option.splits)
  ultimately have "store_inv st'"
    using dist docs new ok ord iok by (auto simp: store_inv_def st'_def)
  with eq show thesis by (rule that) (simp_all add: st'_def)
qed

lemma stored_doc_ok:
  assumes "insertable st d" and "doc_id (stored_doc fresh d) = i"
  shows "doc_ok (st_index_fields st) i (stored_doc fresh d)"
proof -
  have "''_id'' \<notin> set (keys d)" if "map_of d ''_id'' = None"
    using that by (simp add: map_of_eq_None_iff)
  with assms show ?thesis
    by (auto simp: insertable_def stored_doc_def doc_ok_def doc_id_def map_add_def split: option.splits if_splits)
qed

lemma stored_doc_id:
  "map_of (stored_doc fresh d) ''_id'' = Some (the_default (JStr fresh) (map_of d ''_id''))"
  by (auto simp: stored_doc_def map_add_def split: option.splits)

lemma insert_doc_body:
  assumes "insertable st d" and "doc_id (stored_doc fresh d) \<notin> set (keys (st_docs st))"
  shows "insert_doc fresh d st = insert_body (stored_doc fresh d) st"
proof (cases "map_of d ''_id''")
  case None
  then have "''_id'' \<notin> set (keys d)" by (simp add: map_of_eq_None_iff)
  with None show ?thesis by (simp add: insert_doc_def stored_doc_def update_notin)
next
  case (Some i)
  with assms show ?thesis by (simp add: insert_doc_def stored_doc_def doc_id_def insertable_def)
qed

definition insert_record :: "string \<Rightarrow> doc \<Rightarrow> doc" where
  "insert_record fresh d = dict_update [(''_op'', JStr ''insert'')] (stored_doc fresh d)"

lemma insert_doc_too_large:
  assumes "insertable st d" "doc_id (stored_doc fresh d) \<notin> set (keys (st_docs st))"
    and "dumps_len (JObj (insert_record fresh d)) > st_max_record_bytes st"
  shows "insert_doc fresh d st = (Inl RecordTooLargeError, st)"
  using assms by (simp add: insert_doc_body insert_body_def append_line_def insert_record_def)

lemma insert_doc_ok:
  assumes "store_inv st" "insertable st d" "doc_id (stored_doc fresh d) = i"
    and "i \<notin> set (keys (st_docs st))"
    and "dumps_len (JObj (insert_record fresh d)) \<le> st_max_record_bytes st"
  obtains st' where "insert_doc fresh d st = (Inr i, st')" "store_inv st'"
    "st_docs st' = st_docs st @ [(i, stored_doc fresh d)]"
    "st_index_fields st' = st_index_fields st"
    "st_max_record_bytes st' = st_max_record_bytes st" "st_order st' = st_order st"
    "st_file st' = st_file st @ [JsonLine (JObj (insert_record fresh d))]"
proof -
  have "insert_doc fresh d st = insert_body (stored_doc fresh d) st"
    using assms by (intro insert_doc_body) simp_all
  then show thesis
    using insert_body_inv [OF assms(1,4) stored_doc_ok [OF assms(2,3)]] assms(5) that
    by (auto simp: insert_record_def)
qed

lemma insert_doc_dup:
  assumes "map_of d ''_id'' = Some i" "hashable i" "i \<in> set (keys (st_docs st))"
  shows "insert_doc fresh d st = (Inl (ValueError ''already exists''), st)"
  using assms by (simp add: insert_doc_def)

lemma insert_doc_inv:
  assumes "store_inv st" "insertable st d" "JStr fresh \<notin> set (keys (st_docs st))"
  shows "store_inv (snd (insert_doc fresh d st))"
proof (cases "doc_id (stored_doc fresh d) \<in> set (keys (st_docs st))")
  case True
  with assms(3) obtain i where "map_of d ''_id'' = Some i" "i \<in> set (keys (st_docs st))"
    by (auto simp: doc_id_def stored_doc_id the_default_def split: option.splits)
  with assms show ?thesis by (simp add: insert_doc_def insertable_def)
next
  case False
  show ?thesis
  proof (cases "dumps_len (JObj (insert_record fresh d)) \<le> st_max_record_bytes st")
    case True
    obtain st' where "insert_doc fresh d st = (Inr (doc_id (stored_doc fresh d)), st')" "store_inv st'"
      by (rule insert_doc_ok [OF assms(1,2) refl False True])
    then show ?thesis by simp
  qed (use insert_doc_too_large [OF assms(2) False] assms(1) in simp)
qed

section \<open>update\<close>

definition updatable :: "jsonl_store \<Rightarrow> doc \<Rightarrow> bool" where
  "updatable st ch \<longleftrightarrow> distinct (keys ch) \<and> ''_op'' \<notin> set (keys ch) \<and>
     (\<forall>f \<in> set (st_index_fields st). \<forall>v. map_of ch f = Some v \<longrightarrow> hashable v)"

definition changed_doc :: "doc \<Rightarrow> doc \<Rightarrow> doc" where
  "changed_doc d ch = dict_update d (dict_without [''_id''] ch)"

definition update_record :: "json \<Rightarrow> doc \<Rightarrow> doc" where
  "update_record i ch =
     dict_update [(''_op'', JStr ''update''), (''_id'', i)] (dict_without [''_id''] ch)"

lemma changed_doc_get:
  "distinct (keys ch) \<Longrightarrow> map_of (changed_doc d ch) k =
     (case map_of ch k of Some v \<Rightarrow> if k = ''_id'' then map_of d k else Some v | None \<Rightarrow> map_of d k)"
  by (auto simp: changed_doc_def map_of_dict_update map_of_without split: option.splits)

lemma changed_doc_ok:
  assumes "doc_ok (st_index_fields st) i d" "updatable st ch"
  shows "doc_ok (st_index_fields st) i (changed_doc d ch)"
proof -
  have "set (keys (changed_doc d ch)) \<subseteq> set (keys d) \<union> set (keys ch)"
    unfolding changed_doc_def set_keys_dict_update by (auto simp: dict_without_def)
  moreover have "distinct (keys (changed_doc d ch))"
    using assms(1) by (simp add: changed_doc_def doc_ok_def)
  moreover have "map_of (changed_doc d ch) ''_id'' = Some i"
    using assms by (simp add: changed_doc_get doc_ok_def updatable_def split: option.splits)
  moreover have "hashable v" if "f \<in> set (st_index_fields st)" "map_of (changed_doc d ch) f = Some v" for f v
    using that assms by (auto simp: changed_doc_get doc_ok_def updatable_def split: option.splits if_splits)
  ultimately show ?thesis
    using assms by (auto simp: doc_ok_def updatable_def)
qed

lemma map_of_update_fun: "map_of (AList.update k v d) = (map_of d)(k \<mapsto> v)"
  by (rule update_conv')

lemma map_of_delete_fun: "map_of (AList.delete k d) = (map_of d)(k := None)"
  by (rule delete_conv')

lemma set_alist_update:
  "distinct (keys d) \<Longrightarrow> p \<in> set (AList.update k v d) \<Longrightarrow> p = (k, v) \<or> p \<in> set d"
  by (induction d) (auto split: if_splits)

lemma update_doc_none: "map_of (st_docs st) i = None \<Longrightarrow> update_doc i ch st = (Inr False, st)"
  by (simp add: update_doc_def)

lemma update_doc_too_large:
  assumes "map_of (st_docs st) i = Some d"
    and "dumps_len (JObj (update_record i ch)) > st_max_record_bytes st"
  shows "update_doc i ch st = (Inl RecordTooLargeError, st)"
  using assms by (simp add: update_doc_def append_line_def update_record_def)

lemma update_doc_ok:
  assumes inv: "store_inv st" and cur: "map_of (st_docs st) i = Some d"
    and upd: "updatable st ch"
    and fits: "dumps_len (JObj (update_record i ch)) \<le> st_max_record_bytes st"
  obtains st' where "update_doc i ch st = (Inr True, st')" "store_inv st'"
    "st_docs st' = AList.update i (changed_doc d ch) (st_docs st)"
    "st_index_fields st' = st_index_fields st"
    "st_max_record_bytes st' = st_max_record_bytes st" "st_order st' = st_order st"
    "st_file st' = st_file st @ [JsonLine (JObj (update_record i ch))]"
proof -
  let ?fs = "st_index_fields st" and ?ds = "st_docs st" and ?new = "changed_doc d ch"
  let ?line = "JsonLine (JObj (update_record i ch))"
  from inv have dist: "distinct (keys ?ds)" and docs: "\<forall>(i, d) \<in> set ?ds. doc_ok ?fs i d"
    and log: "load_lines (st_file st) [] [] = (None, ?ds, keys ?ds)"
    and ix: "index_ok ?fs (map_of ?ds) (st_indexes st)"
    and ord: "\<forall>xs. mset (st_order st xs) = mset xs"
    by (auto simp: store_inv_def)
  from inv cur have ok: "doc_ok ?fs i d" by (rule store_inv_doc_ok)
  from ok upd have okn: "doc_ok ?fs i ?new" by (rule changed_doc_ok)
  obtain ixs where ixs: "index_remove ?fs d (st_indexes st) = (None, ixs)"
    and iok: "index_ok ?fs ((map_of ?ds)(i := None)) ixs"
    by (rule index_remove_ok [OF ix cur doc_ok_id [OF ok] doc_ok_hashable [OF ok]])
  obtain ixs' where ixs': "index_insert ?fs ?new ixs = (None, ixs')"
    and iok': "index_ok ?fs (((map_of ?ds)(i := None))(i \<mapsto> ?new)) ixs'"
    by (rule index_insert_ok [OF iok _ doc_ok_id [OF okn] doc_ok_hashable [OF okn]]) simp
  define st' where "st' = st\<lparr>st_file := st_file st @ [?line],
    st_docs := AList.update i ?new ?ds, st_indexes := ixs'\<rparr>"
  have eq: "update_doc i ch st = (Inr True, st')"
    using cur fits ixs ixs'
    by (simp add: update_doc_def append_line_def st'_def Let_def update_record_def changed_doc_def)
  have i_in: "i \<in> set (keys ?ds)"
    using cur by (metis domI dom_map_of_conv_image_fst list.set_map)
  have "load_lines (st_file st') [] [] = (None, st_docs st', keys (st_docs st'))"
  proof -
    have "load_record (update_record i ch) ?ds (keys ?ds)
        = (None, AList.update i (dict_update (the_default [] (map_of ?ds i))
            (dict_without [''_id''] ch)) ?ds, keys ?ds)"
      unfolding update_record_def
      by (rule load_update_record) (use upd i_in ok in \<open>auto simp: updatable_def dict_without_def doc_ok_def\<close>)
    then show ?thesis
      using load_lines_snoc [OF log] cur i_in by (simp add: st'_def changed_doc_def update_keys)
  qed
  moreover have "\<forall>(j, e) \<in> set (AList.update i ?new ?ds). doc_ok ?fs j e"
    using docs okn set_alist_update [OF dist] by fast
  moreover have "index_ok ?fs (map_of (AList.update i ?new ?ds)) ixs'"
    using iok' by (simp add: map_of_update_fun)
  ultimately have "store_inv st'"
    using dist ord by (simp add: store_inv_def st'_def)
  with eq show thesis by (rule that) (simp_all add: st'_def)
qed

lemma update_doc_inv:
  assumes "store_inv st" "updatable st ch"
  shows "store_inv (snd (update_doc i ch st))"
proof (cases "map_of (st_docs st) i")
  case (Some d)
  show ?thesis
  proof (cases "dumps_len (JObj (update_record i ch)) \<le> st_max_record_bytes st")
    case True
    obtain st' where "update_doc i ch st = (Inr True, st')" "store_inv st'"
      by (rule update_doc_ok [OF assms(1) Some assms(2) True])
    then show ?thesis by simp
  qed (use update_doc_too_large [OF Some] assms(1) in simp)
qed (use assms in \<open>simp add: update_doc_none\<close>)

section \<open>delete\<close>

lemma delete_doc_ok:
  assumes inv: "store_inv st" and cur: "map_of (st_docs st) i = Some d"
    and fits: "dumps_len (JObj [(''_op'', JStr ''delete''), (''_id'', i)]) \<le> st_max_record_bytes st"
  obtains st' where "delete_doc i st = (Inr True, st')" "store_inv st'"
    "st_docs st' = AList.delete i (st_docs st)"
    "st_index_fields st' = st_index_fields st"
    "st_max_record_bytes st' = st_max_record_bytes st" "st_order st' = st_order st"
proof -
  let ?fs = "st_index_fields st" and ?ds = "st_docs st"
  let ?line = "JsonLine (JObj [(''_op'', JStr ''delete''), (''_id'', i)])"
  from inv have dist: "distinct (keys ?ds)" and docs: "\<forall>(i, d) \<in> set ?ds. doc_ok ?fs i d"
    and log: "load_lines (st_file st) [] [] = (None, ?ds, keys ?ds)"
    and ix: "index_ok ?fs (map_of ?ds) (st_indexes st)"
    and ord: "\<forall>xs. mset (st_order st xs) = mset xs"
    by (auto simp: store_inv_def)
  from inv cur have ok: "doc_ok ?fs i d" by (rule store_inv_doc_ok)
  obtain ixs where ixs: "index_remove ?fs d (st_indexes st) = (None, ixs)"
    and iok: "index_ok ?fs ((map_of ?ds)(i := None)) ixs"
    by (rule index_remove_ok [OF ix cur doc_ok_id [OF ok] doc_ok_hashable [OF ok]])
  define st' where "st' = st\<lparr>st_file := st_file st @ [?line],
    st_docs := AList.delete i ?ds, st_indexes := ixs\<rparr>"
  have eq: "delete_doc i st = (Inr True, st')"
    using cur fits ixs by (simp add: delete_doc_def append_line_def st'_def)
  have i_in: "i \<in> set (keys ?ds)"
    using cur by (metis domI dom_map_of_conv_image_fst list.set_map)
  have "load_lines (st_file st') [] [] = (None, st_docs st', keys (st_docs st'))"
    using load_lines_snoc [OF log] i_in ok by (simp add: st'_def load_record_def delete_keys doc_ok_def)
  moreover have "\<forall>(j, e) \<in> set (AList.delete i ?ds). doc_ok ?fs j e"
    using docs by (auto simp: AList.delete_eq)
  moreover have "index_ok ?fs (map_of (AList.delete i ?ds)) ixs"
    using iok by (simp add: map_of_delete_fun)
  ultimately have "store_inv st'"
    using dist ord by (simp add: store_inv_def st'_def)
  with eq show thesis by (rule that) (simp_all add: st'_def)
qed

lemma delete_doc_inv:
  assumes "store_inv st"
  shows "store_inv (snd (delete_doc i st))"
proof (cases "map_of (st_docs st) i")
  case (Some d)
  show ?thesis
  proof (cases "dumps_len (JObj [(''_op'', JStr ''delete''), (''_id'', i)]) \<le> st_max_record_bytes st")
    case True
    obtain st' where "delete_doc i st = (Inr True, st')" "store_inv st'"
      by (rule delete_doc_ok [OF assms Some True])
    then show ?thesis by simp
  qed (use Some assms in \<open>simp add: delete_doc_def append_line_def\<close>)
qed (use assms in \<open>simp add: delete_doc_def\<close>)

section \<open>load\<close>

lemma index_docs_ok:
  assumes "index_ok fs m ixs" "distinct (keys ds)" "\<forall>(i, d) \<in> set ds. doc_ok fs i d \<and> m i = None"
  obtains ixs' where "index_docs fs (map snd ds) ixs = (None, ixs')" "index_ok fs (m ++ map_of ds) ixs'"
  using assms
proof (induction ds arbitrary: m ixs thesis)
  case Nil
  then show ?case by simp
next
  case (Cons p ds)
  obtain i d where p: "p = (i, d)" by (cases p)
  from Cons.prems p have ok: "doc_ok fs i d" and none: "m i = None" by auto
  obtain ixs1 where 1: "index_insert fs d ixs = (None, ixs1)" "index_ok fs (m(i \<mapsto> d)) ixs1"
    by (rule index_insert_ok [where m = m, OF Cons.prems(2) none doc_ok_id [OF ok] doc_ok_hashable [OF ok]])
  have rest: "\<forall>(j, e) \<in> set ds. doc_ok fs j e \<and> (m(i \<mapsto> d)) j = None" and dist: "distinct (keys ds)"
    using Cons.prems(3,4) p by force+
  obtain ixs2 where
    2: "index_docs fs (map snd ds) ixs1 = (None, ixs2)" "index_ok fs (m(i \<mapsto> d) ++ map_of ds) ixs2"
    by (rule Cons.IH [OF _ 1(2) dist rest])
  have "i \<notin> set (keys ds)" using Cons.prems(3) p by simp
  then have "m(i \<mapsto> d) ++ map_of ds = m ++ map_of (p # ds)"
    using p by (auto simp: fun_eq_iff map_add_def map_of_eq_None_iff [symmetric] split: option.splits)
  with 2(2) have "index_ok fs (m ++ map_of (p # ds)) ixs2" by (simp only:)
  moreover from 1(1) 2(1) p have "index_docs fs (map snd (p # ds)) ixs = (None, ixs2)" by simp
  ultimately show ?case by (rule Cons.prems(1) [rotated])
qed

lemma load_ok:
  assumes log: "load_lines (st_file st) [] [] = (None, ds, live)"
    and dist: "distinct (keys ds)" and docs: "\<forall>(i, d) \<in> set ds. doc_ok (st_index_fields st) i d"
    and live: "live = keys ds" and ord: "\<forall>xs. mset (st_order st xs) = mset xs"
  obtains st' where "load st = (Inr (), st')" "store_inv st'" "st_docs st' = ds" "st_loaded st'"
    "st_index_fields st' = st_index_fields st" "st_file st' = st_file st"
    "st_max_record_bytes st' = st_max_record_bytes st" "st_order st' = st_order st"
proof -
  let ?fs = "st_index_fields st"
  have "\<forall>(i, d) \<in> set ds. doc_ok ?fs i d \<and> Map.empty i = (None :: doc option)" using docs by simp
  from index_docs_ok [OF index_ok_empty dist this] obtain ixs where
    ixs: "index_docs ?fs (map snd ds) (empty_indexes ?fs) = (None, ixs)"
    "index_ok ?fs (map_of ds) ixs" by auto
  let ?st = "st\<lparr>st_docs := ds, st_indexes := ixs, st_loaded := True\<rparr>"
  have "load st = (Inr (), ?st)" using log ixs(1) by (simp add: load_def Let_def)
  moreover have "store_inv ?st"
    using assms ixs(2) by (simp add: store_inv_def)
  ultimately show thesis by (rule that) simp_all
qed

lemma load_restores:
  assumes "store_inv st" and "\<forall>xs. mset (ord xs) = mset xs"
  obtains st' where "load (new_store ord (st_file st) (st_index_fields st) cap) = (Inr (), st')"
    "store_inv st'" "st_docs st' = st_docs st" "st_loaded st'"
    "st_index_fields st' = st_index_fields st" "st_max_record_bytes st' = cap" "st_order st' = ord"
proof -
  let ?new = "new_store ord (st_file st) (st_index_fields st) cap"
  from assms have log: "load_lines (st_file ?new) [] [] = (None, st_docs st, keys (st_docs st))"
    and d: "distinct (keys (st_docs st))"
    and docs: "\<forall>(i, d) \<in> set (st_docs st). doc_ok (st_index_fields ?new) i d"
    and ord: "\<forall>xs. mset (st_order ?new xs) = mset xs"
    by (simp_all add: store_inv_def new_store_def)
  obtain st' where "load ?new = (Inr (), st')" "store_inv st'" "st_docs st' = st_docs st" "st_loaded st'"
    "st_index_fields st' = st_index_fields ?new" "st_max_record_bytes st' = st_max_record_bytes ?new"
    "st_order st' = st_order ?new"
    by (rule load_ok [OF log d docs refl ord])
  with that show thesis by (simp add: new_store_def)
qed

lemma store_inv_empty:
  "\<forall>xs. mset (ord xs) = mset xs \<Longrightarrow> store_inv (new_store ord [] fs cap)"
  by (simp add: store_inv_def new_store_def index_ok_empty)

section \<open>find_by\<close>

lemma mset_pick:
  assumes "distinct (keys ds)" "distinct is" "set is = {i. \<exists>d. map_of ds i = Some d \<and> P d}"
  shows "mset (map (\<lambda>i. the_default [] (map_of ds i)) is) = mset (filter P (map snd ds))"
proof -
  let ?f = "\<lambda>i. (i, the_default [] (map_of ds i))"
  have "distinct (map ?f is)"
    using assms(2) by (simp add: distinct_map inj_on_def)
  moreover have "distinct (filter (P \<circ> snd) ds)"
    using assms(1) by (simp add: distinct_map)
  moreover have "set (map ?f is) = set (filter (P \<circ> snd) ds)"
    using assms(1,3) by (auto simp: map_of_eq_Some_iff image_iff)
  ultimately have "mset (map ?f is) = mset (filter (P \<circ> snd) ds)"
    by (metis set_eq_iff_mset_eq_distinct)
  then have "mset (map snd (map ?f is)) = mset (map snd (filter (P \<circ> snd) ds))"
    by (metis mset_map)
  then show ?thesis by (simp add: comp_def filter_map del: mset_map mset_filter)
qed

lemma find_by_indexed:
  assumes "store_inv st" "f \<in> set (st_index_fields st)" "hashable v"
  obtains ds where "find_by f v st = Inr ds"
    "mset ds = mset (filter (\<lambda>d. map_of d f = Some v) (map snd (st_docs st)))"
proof -
  from assms obtain ix where ix: "map_of (st_indexes st) f = Some ix"
    and g: "good_index (\<lambda>i v. \<exists>d. map_of (st_docs st) i = Some d \<and> map_of d f = Some v) ix"
    and dist: "distinct (keys (st_docs st))" and ord: "\<And>xs. mset (st_order st xs) = mset xs"
    by (auto simp: store_inv_def index_ok_def)
  let ?is = "st_order st (bucket ix v)"
  have m: "mset ?is = mset (bucket ix v)" by (rule ord)
  have "distinct ?is" "set ?is = {i. \<exists>d. map_of (st_docs st) i = Some d \<and> map_of d f = Some v}"
    using g m by (auto simp: good_index_def dest: mset_eq_setD) (metis mset_eq_imp_distinct_iff)
  from mset_pick [OF dist this] show thesis
    by (rule that [rotated]) (use assms ix in \<open>simp add: find_by_def\<close>)
qed

lemma find_by_indexed_set:
  assumes "store_inv st" "f \<in> set (st_index_fields st)" "hashable v"
  obtains ds where "find_by f v st = Inr ds"
    "set ds = {d. \<exists>i. map_of (st_docs st) i = Some d \<and> map_of d f = Some v}"
proof -
  obtain ds where ds: "find_by f v st = Inr ds"
    "mset ds = mset (filter (\<lambda>d. map_of d f = Some v) (map snd (st_docs st)))"
    by (rule find_by_indexed [OF assms])
  have "distinct (keys (st_docs st))" using assms by (simp add: store_inv_def)
  then have "set ds = {d. \<exists>i. map_of (st_docs st) i = Some d \<and> map_of d f = Some v}"
    unfolding mset_eq_setD [OF ds(2)] set_filter in_values_iff [OF \<open>distinct _\<close>] by blast
  with ds(1) show thesis by (rule that)
qed

end
