(* ===== verification/StoreCollection.thy ===== *)
theory StoreCollection
  imports JsonlStoreInv
begin

text \<open>
  \<open>jig/store/collection.py\<close> and \<open>jig/store/models.py\<close>: keyword queries and
  upserts over the document store, the typed collections whose documents are
  dumped and validated by a model class, and the cache of open collections.

  A model class is a pair of functions, \<open>dump\<close> (\<open>model_dump\<close>) and \<open>validate\<close>
  (\<open>model_validate\<close>, \<open>None\<close> when it raises \<open>ValidationError\<close>).  The
  locale \<^verbatim>\<open>stored_model\<close> states what a class must satisfy for its collection to be
  well behaved; every model class of the development interprets it.
\<close>

section \<open>Collection\<close>

definition matches_all :: "doc \<Rightarrow> doc \<Rightarrow> bool" where
  \<comment> \<open>\<open>all(d.get(k) == v for k, v in kw.items())\<close>\<close>
  "matches_all kw d = list_all (\<lambda>(k, v). field_eq k v d) kw"

definition find_where :: "doc \<Rightarrow> jsonl_store \<Rightarrow> doc list result" where
  "find_where kw st =
     (if kw = [] then Inr (find_docs None st)
      else (case List.find (\<lambda>k. k \<in> set (st_index_fields st)) (keys kw) of
        Some ix \<Rightarrow> (case find_by ix (the_default JNull (map_of kw ix)) st of
            Inl e \<Rightarrow> Inl e
          | Inr candidates \<Rightarrow>
              (let remaining = dict_without [ix] kw
               in if remaining = [] then Inr candidates
                  else Inr (filter (matches_all remaining) candidates)))
      | None \<Rightarrow> Inr (filter (matches_all kw) (find_docs None st))))"

definition find_one_where :: "doc \<Rightarrow> jsonl_store \<Rightarrow> doc option result" where
  "find_one_where kw st = (case find_where kw st of
     Inl e \<Rightarrow> Inl e
   | Inr [] \<Rightarrow> Inr None
   | Inr (d # _) \<Rightarrow> Inr (Some d))"

definition upsert :: "string \<Rightarrow> doc \<Rightarrow> doc \<Rightarrow> jsonl_store \<Rightarrow> json result \<times> jsonl_store" where
  "upsert fresh match d st = (case find_one_where match st of
     Inl e \<Rightarrow> (Inl e, st)
   | Inr (Some existing) \<Rightarrow>
       (let i = doc_id existing in case update_doc i d st of
          (Inl e, st') \<Rightarrow> (Inl e, st')
        | (Inr _, st') \<Rightarrow> (Inr i, st'))
   | Inr None \<Rightarrow> insert_doc fresh d st)"

section \<open>TypedCollection\<close>

definition tc_insert :: "('m \<Rightarrow> doc) \<Rightarrow> string \<Rightarrow> 'm \<Rightarrow> jsonl_store \<Rightarrow> json result \<times> jsonl_store" where
  "tc_insert dump fresh m st = insert_doc fresh (dump m) st"

definition to_model :: "(doc \<Rightarrow> 'm option) \<Rightarrow> doc \<Rightarrow> 'm result" where
  "to_model validate d = (case validate d of
     None \<Rightarrow> Inl (ValidationError ''model'')
   | Some m \<Rightarrow> Inr m)"

definition to_models :: "(doc \<Rightarrow> 'm option) \<Rightarrow> doc list \<Rightarrow> 'm list result" where
  "to_models validate ds = (case map_opt validate ds of
     None \<Rightarrow> Inl (ValidationError ''model'')
   | Some ms \<Rightarrow> Inr ms)"

definition tc_get :: "(doc \<Rightarrow> 'm option) \<Rightarrow> string \<Rightarrow> jsonl_store \<Rightarrow> 'm option result" where
  "tc_get validate i st = (case get_doc (JStr i) st of
     None \<Rightarrow> Inr None
   | Some d \<Rightarrow> (case to_model validate d of Inl e \<Rightarrow> Inl e | Inr m \<Rightarrow> Inr (Some m)))"

definition tc_find :: "(doc \<Rightarrow> 'm option) \<Rightarrow> ('m \<Rightarrow> bool) option \<Rightarrow> jsonl_store \<Rightarrow> 'm list result" where
  "tc_find validate p st = (case to_models validate (find_docs None st) of
     Inl e \<Rightarrow> Inl e
   | Inr ms \<Rightarrow> Inr (case p of None \<Rightarrow> ms | Some q \<Rightarrow> filter q ms))"

definition tc_find_where :: "(doc \<Rightarrow> 'm option) \<Rightarrow> doc \<Rightarrow> jsonl_store \<Rightarrow> 'm list result" where
  "tc_find_where validate kw st = (case find_where kw st of
     Inl e \<Rightarrow> Inl e
   | Inr ds \<Rightarrow> to_models validate ds)"

definition tc_find_one_where :: "(doc \<Rightarrow> 'm option) \<Rightarrow> doc \<Rightarrow> jsonl_store \<Rightarrow> 'm option result" where
  "tc_find_one_where validate kw st = (case find_one_where kw st of
     Inl e \<Rightarrow> Inl e
   | Inr None \<Rightarrow> Inr None
   | Inr (Some d) \<Rightarrow> (case to_model validate d of Inl e \<Rightarrow> Inl e | Inr m \<Rightarrow> Inr (Some m)))"

definition tc_upsert ::
  "('m \<Rightarrow> doc) \<Rightarrow> string \<Rightarrow> doc \<Rightarrow> 'm \<Rightarrow> jsonl_store \<Rightarrow> json result \<times> jsonl_store" where
  "tc_upsert dump fresh match m st = upsert fresh match (dump m) st"

section \<open>Database\<close>

text \<open>
  The cache of open collections: name, the index fields it was opened with, the
  model class (its name) and the collection.  Reading a file is \<open>disk\<close>.
\<close>

record db_entry =
  db_index :: "string list"
  db_model :: "string option"
  db_store :: jsonl_store

type_synonym database = "(string \<times> db_entry) list"

definition open_collection ::
  "(string \<Rightarrow> line list) \<Rightarrow> (json list \<Rightarrow> json list) \<Rightarrow> string \<Rightarrow> string list option \<Rightarrow> string option
   \<Rightarrow> database \<Rightarrow> jsonl_store result \<times> database" where
  "open_collection disk ord name ixf model db =
     (let key_index = the_default [] ixf
      in case map_of db name of
        Some c \<Rightarrow>
          (if ixf \<noteq> None \<and> db_index c \<noteq> key_index
           then (Inl (ValueError ''different index_fields''), db)
           else if model \<noteq> None \<and> db_model c \<noteq> model
           then (Inl (ValueError ''different model''), db)
           else (Inr (db_store c), db))
      | None \<Rightarrow>
          (case load (new_store ord (disk name) key_index default_max_record_bytes) of
             (Inl e, _) \<Rightarrow> (Inl e, db)
           | (Inr _, st) \<Rightarrow>
               (Inr st, AList.update name \<lparr>db_index = key_index, db_model = model, db_store = st\<rparr> db)))"

section \<open>Queries\<close>

text \<open>
  Under the invariant \<open>find_where\<close> returns, in some order, the documents that
  satisfy every condition, whichever index it goes through: a condition on an
  indexed field must not be \<open>None\<close>, since the index has no entry for a missing field.
\<close>

lemma field_eq_iff: "v \<noteq> JNull \<Longrightarrow> field_eq f v d \<longleftrightarrow> map_of d f = Some v"
  by (auto simp: field_eq_def the_default_def split: option.splits)

lemma matches_all_Cons [simp]: "matches_all ((k, v) # kw) d \<longleftrightarrow> field_eq k v d \<and> matches_all kw d"
  by (simp add: matches_all_def)

lemma matches_all_Nil [simp]: "matches_all [] d"
  by (simp add: matches_all_def)

lemma matches_all_split:
  assumes "distinct (keys kw)" "map_of kw k = Some v"
  shows "matches_all kw d \<longleftrightarrow> field_eq k v d \<and> matches_all (dict_without [k] kw) d"
proof -
  from assms have kv: "(k, v) \<in> set kw" and uniq: "\<And>w. (k, w) \<in> set kw \<Longrightarrow> w = v"
    by (auto dest: map_of_SomeD)
  show ?thesis
  proof
    assume "matches_all kw d"
    with kv show "field_eq k v d \<and> matches_all (dict_without [k] kw) d"
      by (auto simp: matches_all_def list_all_iff dict_without_def)
  next
    assume m: "field_eq k v d \<and> matches_all (dict_without [k] kw) d"
    have "field_eq j w d" if "(j, w) \<in> set kw" for j w
      using that m uniq by (cases "j = k") (auto simp: matches_all_def list_all_iff dict_without_def)
    then show "matches_all kw d" by (auto simp: matches_all_def list_all_iff)
  qed
qed

definition searchable :: "jsonl_store \<Rightarrow> doc \<Rightarrow> bool" where
  "searchable st kw \<longleftrightarrow> distinct (keys kw) \<and>
     (\<forall>(k, v) \<in> set kw. k \<in> set (st_index_fields st) \<longrightarrow> hashable v \<and> v \<noteq> JNull)"

lemma find_where_ok:
  assumes inv: "store_inv st" and s: "searchable st kw"
  obtains ds where "find_where kw st = Inr ds"
    "mset ds = mset (filter (matches_all kw) (map snd (st_docs st)))"
proof (cases "List.find (\<lambda>k. k \<in> set (st_index_fields st)) (keys kw)")
  case None
  show thesis
  proof (cases "kw = []")
    case True
    then show thesis by (intro that [of "map snd (st_docs st)"]) (simp_all add: find_where_def find_docs_def)
  next
    case False
    with None show thesis
      by (intro that [of "filter (matches_all kw) (map snd (st_docs st))"])
        (simp_all add: find_where_def find_docs_def)
  qed
next
  case (Some ix)
  then have ix: "ix \<in> set (keys kw)" "ix \<in> set (st_index_fields st)" by (auto dest: find_Some_in)
  then obtain v where v: "map_of kw ix = Some v"
    by (metis domD dom_map_of_conv_image_fst list.set_map)
  with s ix have h: "hashable v" "v \<noteq> JNull" and dist: "distinct (keys kw)"
    by (auto simp: searchable_def dest!: map_of_SomeD)
  obtain cs where cs: "find_by ix v st = Inr cs"
    "mset cs = mset (filter (\<lambda>d. map_of d ix = Some v) (map snd (st_docs st)))"
    by (rule find_by_indexed [OF inv ix(2) h(1)])
  let ?rest = "dict_without [ix] kw"
  have "kw \<noteq> []" using v by auto
  then have fw: "find_where kw st = Inr (if ?rest = [] then cs else filter (matches_all ?rest) cs)"
    using Some v cs(1) by (simp add: find_where_def Let_def)
  have "mset (filter (matches_all ?rest) cs) = mset (filter (matches_all kw) (map snd (st_docs st)))"
    using cs(2) matches_all_split [OF dist v] field_eq_iff [OF h(2)]
    by (simp add: filter_filter_mset conj_commute)
  moreover have "filter (matches_all ?rest) cs = cs" if "?rest = []"
    using that by simp
  ultimately show thesis using fw by (intro that [OF fw]) auto
qed

lemma find_where_set:
  assumes "store_inv st" "searchable st kw"
  obtains ds where "find_where kw st = Inr ds"
    "set ds = {d. (\<exists>i. map_of (st_docs st) i = Some d) \<and> matches_all kw d}"
proof -
  obtain ds where ds: "find_where kw st = Inr ds"
    "mset ds = mset (filter (matches_all kw) (map snd (st_docs st)))"
    by (rule find_where_ok [OF assms])
  have "distinct (keys (st_docs st))" using assms by (simp add: store_inv_def)
  then have "set ds = {d. (\<exists>i. map_of (st_docs st) i = Some d) \<and> matches_all kw d}"
    unfolding mset_eq_setD [OF ds(2)] set_filter in_values_iff [OF \<open>distinct _\<close>] by blast
  with ds(1) show thesis by (rule that)
qed

section \<open>Collections of a model class\<close>

text \<open>
  The contract between a collection and its model class, and what a collection of
  such a class promises: what was inserted is read back, an update is read back as
  the validation of the patched document, other documents stay as they were.
\<close>

definition coll_inv ::
  "string list \<Rightarrow> (doc \<Rightarrow> 'm option) \<Rightarrow> ('m \<Rightarrow> string) \<Rightarrow> jsonl_store \<Rightarrow> bool" where
  "coll_inv idx validate ident st \<longleftrightarrow> store_inv st \<and> st_index_fields st = idx \<and>
     (\<forall>i d. map_of (st_docs st) i = Some d \<longrightarrow>
        (\<exists>m. validate d = Some m \<and> i = JStr (ident m)))"

lemma coll_invD:
  assumes "coll_inv idx validate ident st"
  shows "store_inv st" "st_index_fields st = idx"
    "map_of (st_docs st) i = Some d \<Longrightarrow> \<exists>m. validate d = Some m \<and> i = JStr (ident m)"
  using assms by (auto simp: coll_inv_def)

lemma coll_inv_empty:
  "\<forall>xs. mset (ord xs) = mset xs \<Longrightarrow> coll_inv idx validate ident (new_store ord [] idx cap)"
  using store_inv_empty [of ord idx cap] by (simp add: coll_inv_def new_store_def)

lemma tc_get_Some: "get_doc (JStr i) st = Some d \<Longrightarrow> validate d = Some m \<Longrightarrow> tc_get validate i st = Inr (Some m)"
  by (simp add: tc_get_def to_model_def)

lemma tc_get_None: "get_doc (JStr i) st = None \<Longrightarrow> tc_get validate i st = Inr None"
  by (simp add: tc_get_def)

lemma coll_get_total:
  assumes "coll_inv idx validate ident st"
  shows "\<exists>r. tc_get validate i st = Inr r \<and> (\<forall>m. r = Some m \<longrightarrow> ident m = i)"
proof (cases "get_doc (JStr i) st")
  case (Some d)
  with coll_invD(3) [OF assms] obtain m where "validate d = Some m" "i = ident m"
    by (fastforce simp: get_doc_def)
  with Some show ?thesis by (simp add: tc_get_Some)
qed (simp add: tc_get_None)

lemma coll_update:
  assumes inv: "coll_inv idx validate ident st" and cur: "get_doc (JStr i) st = Some d"
    and ch: "distinct (keys ch)" "''_op'' \<notin> set (keys ch)"
      "\<forall>f \<in> set idx. \<forall>v. map_of ch f = Some v \<longrightarrow> hashable v"
    and new: "validate (changed_doc d ch) = Some m'" "ident m' = i"
    and fits: "dumps_len (JObj (update_record (JStr i) ch)) \<le> st_max_record_bytes st"
  obtains st' where "update_doc (JStr i) ch st = (Inr True, st')" "coll_inv idx validate ident st'"
    "st_docs st' = AList.update (JStr i) (changed_doc d ch) (st_docs st)"
    "tc_get validate i st' = Inr (Some m')"
    "st_max_record_bytes st' = st_max_record_bytes st"
proof -
  from inv ch have upd: "updatable st ch" by (simp add: updatable_def coll_invD)
  obtain st' where st': "update_doc (JStr i) ch st = (Inr True, st')" "store_inv st'"
    "st_docs st' = AList.update (JStr i) (changed_doc d ch) (st_docs st)"
    "st_index_fields st' = st_index_fields st" "st_max_record_bytes st' = st_max_record_bytes st"
    by (rule update_doc_ok [OF coll_invD(1) [OF inv] cur [unfolded get_doc_def] upd fits])
  have "coll_inv idx validate ident st'"
    using inv st' new by (auto simp: coll_inv_def map_of_update_fun)
  moreover have "tc_get validate i st' = Inr (Some m')"
    using new st'(3) by (intro tc_get_Some [where d = "changed_doc d ch"])
      (simp_all add: get_doc_def map_of_update_fun)
  ultimately show thesis using st'(1,3,5) by (intro that [of st'])
qed

lemma coll_update_fails:
  assumes "get_doc (JStr i) st = Some d"
    and "dumps_len (JObj (update_record (JStr i) ch)) > st_max_record_bytes st"
  shows "update_doc (JStr i) ch st = (Inl RecordTooLargeError, st)"
  using update_doc_too_large assms by (simp add: get_doc_def)

locale stored_model =
  fixes idx :: "string list"
    and dump :: "'m \<Rightarrow> doc"
    and validate :: "doc \<Rightarrow> 'm option"
    and ident :: "'m \<Rightarrow> string"
    and valid :: "'m \<Rightarrow> bool"
  assumes roundtrip: "valid m \<Longrightarrow> validate (dump m) = Some m"
    and dump_id: "map_of (dump m) ''_id'' = Some (JStr (ident m))"
    and dump_distinct: "distinct (keys (dump m))"
    and dump_no_op: "''_op'' \<notin> set (keys (dump m))"
    and dump_index: "f \<in> set idx \<Longrightarrow> map_of (dump m) f = Some v \<Longrightarrow> hashable v"
begin

lemma insertable_dump: "st_index_fields st = idx \<Longrightarrow> insertable st (dump m)"
  using dump_id dump_distinct dump_no_op dump_index by (simp add: insertable_def)

lemma stored_dump: "stored_doc fresh (dump m) = dump m"
  by (simp add: stored_doc_def dump_id)

lemma insert_duplicate:
  "JStr (ident m) \<in> set (keys (st_docs st)) \<Longrightarrow>
     tc_insert dump fresh m st = (Inl (ValueError ''already exists''), st)"
  using dump_id by (simp add: tc_insert_def insert_doc_dup)

lemma insert_too_large:
  assumes "st_index_fields st = idx" "JStr (ident m) \<notin> set (keys (st_docs st))"
    and "dumps_len (JObj (insert_record fresh (dump m))) > st_max_record_bytes st"
  shows "tc_insert dump fresh m st = (Inl RecordTooLargeError, st)"
  unfolding tc_insert_def
  by (rule insert_doc_too_large [OF insertable_dump [OF assms(1)] _ assms(3)])
    (use assms(2) in \<open>simp add: stored_dump doc_id_def dump_id\<close>)

lemma insert_reads_back:
  assumes inv: "coll_inv idx validate ident st" and ok: "valid m"
    and new: "JStr (ident m) \<notin> set (keys (st_docs st))"
    and fits: "dumps_len (JObj (insert_record fresh (dump m))) \<le> st_max_record_bytes st"
  obtains st' where "tc_insert dump fresh m st = (Inr (JStr (ident m)), st')"
    "coll_inv idx validate ident st'" "st_docs st' = st_docs st @ [(JStr (ident m), dump m)]"
    "tc_get validate (ident m) st' = Inr (Some m)"
    "st_max_record_bytes st' = st_max_record_bytes st"
proof -
  have id: "doc_id (stored_doc fresh (dump m)) = JStr (ident m)"
    by (simp add: stored_dump doc_id_def dump_id)
  obtain st' where st': "insert_doc fresh (dump m) st = (Inr (JStr (ident m)), st')" "store_inv st'"
    "st_docs st' = st_docs st @ [(JStr (ident m), stored_doc fresh (dump m))]"
    "st_index_fields st' = st_index_fields st" "st_max_record_bytes st' = st_max_record_bytes st"
    by (rule insert_doc_ok [OF coll_invD(1) [OF inv] insertable_dump [OF coll_invD(2) [OF inv]] id new fits])
  have docs: "st_docs st' = st_docs st @ [(JStr (ident m), dump m)]"
    using st'(3) by (simp add: stored_dump)
  have m: "map_of (st_docs st') = (map_of (st_docs st))(JStr (ident m) \<mapsto> dump m)"
    using new docs by (auto simp: fun_eq_iff map_add_def map_of_eq_None_iff [symmetric] split: option.splits)
  have "coll_inv idx validate ident st'"
    using inv st'(2,4) roundtrip [OF ok] by (auto simp: coll_inv_def m)
  moreover have "tc_get validate (ident m) st' = Inr (Some m)"
    using roundtrip [OF ok] by (intro tc_get_Some [where d = "dump m"]) (simp_all add: get_doc_def m)
  moreover have "tc_insert dump fresh m st = (Inr (JStr (ident m)), st')"
    using st'(1) by (simp add: tc_insert_def)
  ultimately show thesis using docs st'(5) by (intro that [of st'])
qed

lemma insert_cases:
  assumes "coll_inv idx validate ident st" "valid m"
  shows "(\<exists>e. tc_insert dump fresh m st = (Inl e, st)) \<or>
    (\<exists>st'. tc_insert dump fresh m st = (Inr (JStr (ident m)), st') \<and> coll_inv idx validate ident st' \<and>
       JStr (ident m) \<notin> set (keys (st_docs st)) \<and>
       st_docs st' = st_docs st @ [(JStr (ident m), dump m)] \<and>
       st_max_record_bytes st' = st_max_record_bytes st)"
proof (cases "JStr (ident m) \<in> set (keys (st_docs st))")
  case True
  then show ?thesis by (simp add: insert_duplicate)
next
  case False
  show ?thesis
  proof (cases "dumps_len (JObj (insert_record fresh (dump m))) \<le> st_max_record_bytes st")
    case True
    show ?thesis
      by (rule insert_reads_back [OF assms False True]) (use False in blast)
  next
    case le: False
    show ?thesis
      using insert_too_large [OF coll_invD(2) [OF assms(1)] False] le by auto
  qed
qed

end

end
