(* ===== verification/StoreProps.thy ===== *)
theory StoreProps
  imports StoreCollection
begin

text \<open>
  The life of a store as a step relation (inserts, updates, deletes and restarts of
  the process, in any order) and the properties every reachable store has.
\<close>

definition permutes :: "(json list \<Rightarrow> json list) \<Rightarrow> bool" where
  \<comment> \<open>iteration order of a set: any, but every element once\<close>
  "permutes ord \<longleftrightarrow> (\<forall>xs. mset (ord xs) = mset xs)"

definition reopen :: "(json list \<Rightarrow> json list) \<Rightarrow> nat \<Rightarrow> jsonl_store \<Rightarrow> unit result \<times> jsonl_store" where
  \<comment> \<open>a new process: the same file and index fields, nothing in memory\<close>
  "reopen ord cap st = load (new_store ord (st_file st) (st_index_fields st) cap)"

inductive store_step :: "jsonl_store \<Rightarrow> jsonl_store \<Rightarrow> bool" where
  step_insert: "insertable st d \<Longrightarrow> JStr fresh \<notin> set (keys (st_docs st)) \<Longrightarrow>
     store_step st (snd (insert_doc fresh d st))"
| step_update: "updatable st ch \<Longrightarrow> store_step st (snd (update_doc i ch st))"
| step_delete: "store_step st (snd (delete_doc i st))"
| step_restart: "permutes ord \<Longrightarrow> store_step st (snd (reopen ord cap st))"

inductive_cases store_stepE: "store_step st st'"

abbreviation store_reachable :: "string list \<Rightarrow> jsonl_store \<Rightarrow> bool" where
  "store_reachable idx st \<equiv>
     (\<exists>ord cap. permutes ord \<and> store_step\<^sup>*\<^sup>* (new_store ord [] idx cap) st)"

lemma insert_body_index_fields: "st_index_fields (snd (insert_body d st)) = st_index_fields st"
  by (auto simp: insert_body_def append_line_def Let_def split: option.splits prod.splits)

lemma insert_index_fields: "st_index_fields (snd (insert_doc fresh d st)) = st_index_fields st"
  by (simp add: insert_doc_def insert_body_index_fields split: option.splits)

lemma update_index_fields: "st_index_fields (snd (update_doc i ch st)) = st_index_fields st"
  by (auto simp: update_doc_def append_line_def Let_def split: option.splits prod.splits)

lemma delete_index_fields: "st_index_fields (snd (delete_doc i st)) = st_index_fields st"
  by (auto simp: delete_doc_def append_line_def Let_def split: option.splits prod.splits)

lemma reopen_restores:
  assumes "store_inv st" "permutes ord"
  obtains st' where "reopen ord cap st = (Inr (), st')" "store_inv st'" "st_docs st' = st_docs st"
    "st_index_fields st' = st_index_fields st"
  using load_restores [OF assms(1), of ord cap] assms(2) unfolding reopen_def permutes_def by metis

lemma store_step_inv:
  "store_step st st' \<Longrightarrow> store_inv st \<Longrightarrow> store_inv st' \<and> st_index_fields st' = st_index_fields st"
proof (induction rule: store_step.induct)
  case (step_restart ord st cap)
  obtain st' where "reopen ord cap st = (Inr (), st')" "store_inv st'" "st_index_fields st' = st_index_fields st"
    by (rule reopen_restores [OF step_restart(2,1)])
  then show ?case by simp
qed (simp_all add: insert_doc_inv update_doc_inv delete_doc_inv insert_index_fields update_index_fields
    delete_index_fields)

lemma store_steps_inv:
  "store_step\<^sup>*\<^sup>* st st' \<Longrightarrow> store_inv st \<Longrightarrow> store_inv st' \<and> st_index_fields st' = st_index_fields st"
  by (induction rule: rtranclp_induct) (auto dest: store_step_inv)

lemma store_reachable_inv:
  assumes "store_reachable idx st"
  shows "store_inv st" "st_index_fields st = idx"
proof -
  from assms obtain ord cap where "permutes ord" "store_step\<^sup>*\<^sup>* (new_store ord [] idx cap) st" by blast
  moreover from \<open>permutes ord\<close> have "store_inv (new_store ord [] idx cap)"
    by (simp add: permutes_def store_inv_empty)
  ultimately show "store_inv st" "st_index_fields st = idx"
    using store_steps_inv [of _ st] by (auto simp: new_store_def)
qed

section \<open>Durability\<close>


text \<open>A store with one document, for the witnesses.\<close>

definition demo_doc :: doc where
  "demo_doc = [(''_id'', JStr ''a''), (''ticket_id'', JStr ''t'')]"

definition demo_store :: jsonl_store where
  "demo_store = snd (insert_doc ''u'' demo_doc (new_store (\<lambda>xs. xs) [] [''ticket_id''] 1000))"

lemma demo_reachable: "store_reachable [''ticket_id''] demo_store"
proof -
  have "store_step (new_store (\<lambda>xs. xs) [] [''ticket_id''] 1000) demo_store"
    unfolding demo_store_def
    by (rule step_insert) (simp_all add: insertable_def new_store_def demo_doc_def)
  moreover have "permutes (\<lambda>xs. xs)" by (simp add: permutes_def)
  ultimately show ?thesis by (meson r_into_rtranclp)
qed


section \<open>Queries\<close>

text \<open>
  Whichever index it goes through, \<open>find_where\<close> on a reachable store returns,
  each once, exactly the documents that satisfy every condition.
\<close>

theorem find_where_exact:
  assumes "store_reachable idx st" "searchable st kw"
  shows "\<exists>ds. find_where kw st = Inr ds \<and> mset ds = mset (filter (matches_all kw) (find_docs None st))"
  using find_where_ok [OF store_reachable_inv(1) [OF assms(1)] assms(2)] by (metis find_docs_def option.case(1))

theorem find_where_exact_witness:
  "\<exists>ds. find_where [(''kind'', JNull), (''ticket_id'', JStr ''t'')] demo_store = Inr ds \<and>
     mset ds = mset (filter (matches_all [(''kind'', JNull), (''ticket_id'', JStr ''t'')]) (find_docs None demo_store))"
proof (rule find_where_exact [OF demo_reachable])
  show "searchable demo_store [(''kind'', JNull), (''ticket_id'', JStr ''t'')]"
    using store_reachable_inv(2) [OF demo_reachable] by (simp add: searchable_def)
qed

section \<open>The record cap\<close>

definition line_fits :: "nat \<Rightarrow> line \<Rightarrow> bool" where
  "line_fits n l = (case l of JsonLine j \<Rightarrow> dumps_len j \<le> n | _ \<Rightarrow> True)"

lemma index_fields_exc: "fst (index_fields g fs d ixs) \<noteq> Some RecordTooLargeError"
  by (induction g fs d ixs rule: index_fields.induct) (auto split: option.splits)

abbreviation log_fits :: "nat \<Rightarrow> jsonl_store \<Rightarrow> bool" where
  "log_fits n st \<equiv> list_all (line_fits n) (st_file st)"

lemma append_line_cases:
  obtains "append_line r st = (Some RecordTooLargeError, st)"
  | st' where "append_line r st = (None, st')"
      "\<And>n. n = st_max_record_bytes st \<Longrightarrow> log_fits n st \<Longrightarrow> log_fits n st'"
proof (cases "dumps_len (JObj r) > st_max_record_bytes st")
  case False
  then show thesis
    by (intro that(2) [of "st\<lparr>st_file := st_file st @ [JsonLine (JObj r)]\<rparr>"])
      (simp_all add: append_line_def line_fits_def)
qed (simp add: that(1) append_line_def)

lemma insert_body_fits:
  assumes "log_fits (st_max_record_bytes st) st"
  shows "log_fits (st_max_record_bytes st) (snd (insert_body d st))"
    and "fst (insert_body d st) = Inl RecordTooLargeError \<Longrightarrow> snd (insert_body d st) = st"
proof -
  let ?r = "dict_update [(''_op'', JStr ''insert'')] d"
  have "log_fits (st_max_record_bytes st) (snd (insert_body d st)) \<and>
    (fst (insert_body d st) = Inl RecordTooLargeError \<longrightarrow> snd (insert_body d st) = st)"
  proof (rule append_line_cases [of ?r st])
    fix st1 assume a: "append_line ?r st = (None, st1)"
      "\<And>n. n = st_max_record_bytes st \<Longrightarrow> log_fits n st \<Longrightarrow> log_fits n st1"
    define ii where "ii = index_insert (st_index_fields st1) d (st_indexes st1)"
    have "fst ii \<noteq> Some RecordTooLargeError"
      unfolding ii_def index_insert_def by (rule index_fields_exc)
    then show ?thesis using a assms
      by (cases ii; cases "fst ii") (auto simp: insert_body_def Let_def ii_def)
  qed (use assms in \<open>simp add: insert_body_def\<close>)
  then show "log_fits (st_max_record_bytes st) (snd (insert_body d st))"
    and "fst (insert_body d st) = Inl RecordTooLargeError \<Longrightarrow> snd (insert_body d st) = st" by auto
qed

lemma insert_fits:
  assumes "log_fits (st_max_record_bytes st) st"
  shows "log_fits (st_max_record_bytes st) (snd (insert_doc fresh d st)) \<and>
    (fst (insert_doc fresh d st) = Inl RecordTooLargeError \<longrightarrow> snd (insert_doc fresh d st) = st)"
  using insert_body_fits [OF assms] assms by (simp add: insert_doc_def split: option.splits)

lemma update_fits:
  assumes "log_fits (st_max_record_bytes st) st"
  shows "log_fits (st_max_record_bytes st) (snd (update_doc i ch st)) \<and>
    (fst (update_doc i ch st) = Inl RecordTooLargeError \<longrightarrow> snd (update_doc i ch st) = st)"
proof (cases "map_of (st_docs st) i")
  case (Some cur)
  let ?ch = "dict_without [''_id''] ch"
  show ?thesis
  proof (rule append_line_cases [of "dict_update [(''_op'', JStr ''update''), (''_id'', i)] ?ch" st])
    fix st1 assume a: "append_line (dict_update [(''_op'', JStr ''update''), (''_id'', i)] ?ch) st = (None, st1)"
      "\<And>n. n = st_max_record_bytes st \<Longrightarrow> log_fits n st \<Longrightarrow> log_fits n st1"
    obtain x ixs where r: "index_remove (st_index_fields st1) cur (st_indexes st1) = (x, ixs)" by fastforce
    obtain y ixs' where n: "index_insert (st_index_fields st1) (dict_update cur ?ch) ixs = (y, ixs')" by fastforce
    have "x \<noteq> Some RecordTooLargeError" "y \<noteq> Some RecordTooLargeError"
      using index_fields_exc [of bucket_remove] index_fields_exc [of bucket_add] r n
      unfolding index_remove_def index_insert_def by (metis fst_conv)+
    with a r n Some assms show ?thesis
      by (cases x; cases y) (auto simp: update_doc_def Let_def)
  qed (use assms Some in \<open>simp add: update_doc_def Let_def\<close>)
qed (use assms in \<open>simp add: update_doc_def\<close>)

lemma delete_fits:
  assumes "log_fits (st_max_record_bytes st) st"
  shows "log_fits (st_max_record_bytes st) (snd (delete_doc i st)) \<and>
    (fst (delete_doc i st) = Inl RecordTooLargeError \<longrightarrow> snd (delete_doc i st) = st)"
proof (cases "map_of (st_docs st) i")
  case (Some cur)
  show ?thesis
  proof (rule append_line_cases [of "[(''_op'', JStr ''delete''), (''_id'', i)]" st])
    fix st1 assume a: "append_line [(''_op'', JStr ''delete''), (''_id'', i)] st = (None, st1)"
      "\<And>n. n = st_max_record_bytes st \<Longrightarrow> log_fits n st \<Longrightarrow> log_fits n st1"
    obtain x ixs where r: "index_remove (st_index_fields st1) cur (st_indexes st1) = (x, ixs)" by fastforce
    have "x \<noteq> Some RecordTooLargeError"
      using index_fields_exc [of bucket_remove] r unfolding index_remove_def by (metis fst_conv)
    with a r Some assms show ?thesis
      by (cases x) (auto simp: delete_doc_def Let_def)
  qed (use assms Some in \<open>simp add: delete_doc_def\<close>)
qed (use assms in \<open>simp add: delete_doc_def\<close>)

text \<open>
  The record cap holds for every document whatsoever: inserting, updating and
  deleting never leave a line in the log longer than the cap, and what is refused
  for its size leaves the store as it was.
\<close>

theorem store_record_cap:
  assumes "log_fits (st_max_record_bytes st) st"
  shows "log_fits (st_max_record_bytes st) (snd (insert_doc fresh d st)) \<and>
    log_fits (st_max_record_bytes st) (snd (update_doc i d st)) \<and>
    log_fits (st_max_record_bytes st) (snd (delete_doc i st)) \<and>
    (fst (insert_doc fresh d st) = Inl RecordTooLargeError \<longrightarrow> snd (insert_doc fresh d st) = st) \<and>
    (fst (update_doc i d st) = Inl RecordTooLargeError \<longrightarrow> snd (update_doc i d st) = st) \<and>
    (fst (delete_doc i st) = Inl RecordTooLargeError \<longrightarrow> snd (delete_doc i st) = st)"
  using insert_fits [OF assms] update_fits [OF assms] delete_fits [OF assms] by blast

theorem store_record_cap_witness:
  "log_fits 1000 (snd (insert_doc ''u2'' [(''x'', JInt 1)] demo_store))"
proof -
  have f: "st_max_record_bytes demo_store = 1000 \<and> log_fits 1000 demo_store"
    by (simp add: demo_store_def demo_doc_def new_store_def insert_doc_def insert_body_def append_line_def
        Let_def line_fits_def index_insert_def bucket_add_def empty_indexes_def)
  then show ?thesis using store_record_cap [of demo_store "''u2''" "[(''x'', JInt 1)]" JNull] by simp
qed

section \<open>A document with an \<open>_op\<close> key\<close>

lemma index_fields_ok:
  "\<forall>f \<in> set fs. \<forall>v. map_of d f = Some v \<longrightarrow> hashable v \<Longrightarrow> fst (index_fields g fs d ixs) = None"
  by (induction g fs d ixs rule: index_fields.induct) (auto split: option.splits)

text \<open>
  \<open>insert\<close> builds its log record as \<open>{"_op": "insert", **doc}\<close>, so a document
  that itself has an \<open>_op\<close> key replaces the operation: the insert succeeds, and the
  next process cannot load the file any more.
\<close>

theorem op_key_corrupts_log:
  assumes inv: "store_inv st" and op: "map_of d ''_op'' = Some v"
    "v \<notin> {JStr ''insert'', JStr ''update'', JStr ''delete''}"
    and id: "map_of d ''_id'' = Some i" "hashable i" "i \<notin> set (keys (st_docs st))"
    and d: "distinct (keys d)" "\<forall>f \<in> set (st_index_fields st). \<forall>v. map_of d f = Some v \<longrightarrow> hashable v"
    and fits: "dumps_len (JObj (dict_update [(''_op'', JStr ''insert'')] d)) \<le> st_max_record_bytes st"
  shows "\<exists>st'. insert_doc fresh d st = (Inr i, st') \<and> fst (reopen ord cap st') = Inl (ValueError ''unknown _op'')"
proof -
  let ?r = "dict_update [(''_op'', JStr ''insert'')] d"
  let ?st1 = "st\<lparr>st_file := st_file st @ [JsonLine (JObj ?r)], st_docs := AList.update i d (st_docs st)\<rparr>"
  obtain x ixs where ix: "index_insert (st_index_fields st) d (st_indexes st) = (x, ixs)" by fastforce
  then have "x = None" using index_fields_ok [OF d(2)] unfolding index_insert_def by (metis fst_conv)
  with ix id fits have ins: "insert_doc fresh d st = (Inr i, ?st1\<lparr>st_indexes := ixs\<rparr>)"
    by (simp add: insert_doc_def insert_body_def append_line_def doc_id_def Let_def)
  have r: "map_of ?r ''_op'' = Some v" "map_of ?r ''_id'' = Some i"
    using op id d(1) by (simp_all add: map_of_dict_update)
  from inv have "load_lines (st_file st) [] [] = (None, st_docs st, keys (st_docs st))"
    by (simp add: store_inv_def)
  then have "load_lines (st_file st @ [JsonLine (JObj ?r)]) [] [] =
      (Some (ValueError ''unknown _op''), st_docs st, keys (st_docs st))"
    using op(2) by (simp add: load_lines_snoc load_record_def r)
  then show ?thesis using ins by (simp add: reopen_def load_def new_store_def Let_def)
qed

theorem op_key_corrupts_log_witness:
  "\<exists>st'. insert_doc ''u'' [(''_id'', JStr ''b''), (''_op'', JStr ''review'')] (new_store (\<lambda>xs. xs) [] [] 1000) =
     (Inr (JStr ''b''), st') \<and> fst (reopen rev 1000 st') = Inl (ValueError ''unknown _op'')"
proof (rule op_key_corrupts_log)
  show "store_inv (new_store (\<lambda>xs. xs) [] [] 1000)" by (simp add: store_inv_empty)
qed (simp_all add: new_store_def, simp_all add: dump_str_len_def dump_char_len_def)

section \<open>Open collections\<close>

lemma open_collection_result:
  assumes "open_collection disk ord name ixf model db = (Inr st, db')"
  obtains c where "map_of db' name = Some c" "db_store c = st" "ixf = None \<or> db_index c = the_default [] ixf"
proof (cases "map_of db name")
  case (Some c)
  with assms show thesis by (intro that [of c]) (auto simp: open_collection_def Let_def split: if_splits)
next
  case None
  let ?c = "\<lparr>db_index = the_default [] ixf, db_model = model, db_store = st\<rparr>"
  from None assms have "db' = AList.update name ?c db"
    by (auto simp: open_collection_def Let_def split: sum.splits prod.splits)
  then show thesis by (intro that [of ?c]) (simp_all add: update_conv')
qed

text \<open>
  The cache of open collections hands out one store per name: opening a name
  that is open, with the same schema or with none, gives the cached store and changes
  nothing, and a different schema is refused without touching the cache.
\<close>

theorem open_collection_cached:
  assumes "open_collection disk ord name ixf model db = (Inr st, db')"
  shows "open_collection disk' ord' name None None db' = (Inr st, db') \<and>
    (ixf \<noteq> None \<longrightarrow> open_collection disk' ord' name ixf None db' = (Inr st, db')) \<and>
    (ixf \<noteq> None \<longrightarrow> ix \<noteq> the_default [] ixf \<longrightarrow>
      open_collection disk' ord' name (Some ix) m db' = (Inl (ValueError ''different index_fields''), db'))"
proof -
  obtain c where c: "map_of db' name = Some c" "db_store c = st" "ixf = None \<or> db_index c = the_default [] ixf"
    by (rule open_collection_result [OF assms])
  then show ?thesis by (cases ixf) (simp_all add: open_collection_def)
qed

theorem open_collection_cached_witness:
  "open_collection (\<lambda>_. []) rev ''x'' None None
     [(''x'', \<lparr>db_index = [''a''], db_model = None, db_store = demo_store\<rparr>)] =
   (Inr demo_store, [(''x'', \<lparr>db_index = [''a''], db_model = None, db_store = demo_store\<rparr>)])"
proof -
  let ?db = "[(''x'', \<lparr>db_index = [''a''], db_model = None, db_store = demo_store\<rparr>)]"
  have "open_collection (\<lambda>_. []) id ''x'' (Some [''a'']) None ?db = (Inr demo_store, ?db)"
    by (simp add: open_collection_def)
  from open_collection_cached [OF this] show ?thesis by blast
qed

end
