(* ===== verification/Codec.thy ===== *)
theory Codec
  imports StoreCollection
begin

text \<open>
  Field codecs shared by the model classes: how a field is dumped to JSON and read
  back.  Reading is strict, it accepts what dumping writes (and the default of a
  missing field); pydantic's further coercions (a number for a string, say) are not
  modelled.  \<open>None\<close> is a \<open>ValidationError\<close>.
\<close>

text \<open>
  What a default factory may draw while a record is validated: the clock and a
  supply of \<open>uuid4\<close> values.
\<close>

record ctx =
  cx_now :: int
  cx_uuid :: "nat \<Rightarrow> string"

definition jopt :: "string option \<Rightarrow> json" where
  "jopt x = (case x of None \<Rightarrow> JNull | Some s \<Rightarrow> JStr s)"

definition jint_opt :: "int option \<Rightarrow> json" where
  "jint_opt x = (case x of None \<Rightarrow> JNull | Some i \<Rightarrow> JInt i)"

definition jtime_opt :: "int option \<Rightarrow> json" where
  "jtime_opt x = (case x of None \<Rightarrow> JNull | Some t \<Rightarrow> JTime t)"

definition jstrs :: "string list \<Rightarrow> json" where
  "jstrs xs = JList (map JStr xs)"

fun as_str :: "json \<Rightarrow> string option" where
  "as_str (JStr s) = Some s"
| "as_str _ = None"

fun as_obj :: "json \<Rightarrow> doc option" where
  "as_obj (JObj d) = Some d"
| "as_obj _ = None"

definition guard :: "bool \<Rightarrow> unit option" where
  "guard b = (if b then Some () else None)"

definition fld_str :: "string \<Rightarrow> doc \<Rightarrow> string option" where
  "fld_str k d = (case map_of d k of Some (JStr s) \<Rightarrow> Some s | _ \<Rightarrow> None)"

definition fld_str_or :: "string \<Rightarrow> string \<Rightarrow> doc \<Rightarrow> string option" where
  "fld_str_or k dflt d = (case map_of d k of None \<Rightarrow> Some dflt | Some (JStr s) \<Rightarrow> Some s | _ \<Rightarrow> None)"

definition fld_opt :: "string \<Rightarrow> doc \<Rightarrow> string option option" where
  "fld_opt k d = (case map_of d k of
     None \<Rightarrow> Some None | Some JNull \<Rightarrow> Some None | Some (JStr s) \<Rightarrow> Some (Some s) | _ \<Rightarrow> None)"

definition fld_int_opt :: "string \<Rightarrow> doc \<Rightarrow> int option option" where
  "fld_int_opt k d = (case map_of d k of
     None \<Rightarrow> Some None | Some JNull \<Rightarrow> Some None | Some (JInt i) \<Rightarrow> Some (Some i) | _ \<Rightarrow> None)"

definition fld_bool_or :: "string \<Rightarrow> bool \<Rightarrow> doc \<Rightarrow> bool option" where
  "fld_bool_or k dflt d = (case map_of d k of None \<Rightarrow> Some dflt | Some (JBool b) \<Rightarrow> Some b | _ \<Rightarrow> None)"

definition fld_strs :: "string \<Rightarrow> doc \<Rightarrow> string list option" where
  \<comment> \<open>a list of strings, \<open>default_factory=list\<close>\<close>
  "fld_strs k d = (case map_of d k of None \<Rightarrow> Some [] | Some (JList xs) \<Rightarrow> map_opt as_str xs | _ \<Rightarrow> None)"

definition fld_obj :: "string \<Rightarrow> doc \<Rightarrow> doc option" where
  \<comment> \<open>an object, \<open>default_factory=dict\<close>\<close>
  "fld_obj k d = (case map_of d k of None \<Rightarrow> Some [] | Some (JObj e) \<Rightarrow> Some e | _ \<Rightarrow> None)"

definition fld_time :: "string \<Rightarrow> doc \<Rightarrow> int option" where
  "fld_time k d = (case map_of d k of Some (JTime t) \<Rightarrow> Some t | _ \<Rightarrow> None)"

definition fld_time_or :: "string \<Rightarrow> int \<Rightarrow> doc \<Rightarrow> int option" where
  "fld_time_or k now d = (case map_of d k of None \<Rightarrow> Some now | Some (JTime t) \<Rightarrow> Some t | _ \<Rightarrow> None)"

definition fld_time_opt :: "string \<Rightarrow> doc \<Rightarrow> int option option" where
  "fld_time_opt k d = (case map_of d k of
     None \<Rightarrow> Some None | Some JNull \<Rightarrow> Some None | Some (JTime t) \<Rightarrow> Some (Some t) | _ \<Rightarrow> None)"

definition fld_id :: "ctx \<Rightarrow> doc \<Rightarrow> string option" where
  \<comment> \<open>\<open>StoreModel.id\<close>: the alias first, then (\<open>populate_by_name\<close>) the name, then the factory\<close>
  "fld_id cx d = (case map_of d ''_id'' of
     Some (JStr s) \<Rightarrow> Some s | Some _ \<Rightarrow> None | None \<Rightarrow> fld_str_or ''id'' (cx_uuid cx 0) d)"

text \<open>A value with a \<open>Literal\<close> type.\<close>

definition opt_in :: "string list \<Rightarrow> string option \<Rightarrow> bool" where
  "opt_in xs x = (case x of None \<Rightarrow> True | Some s \<Rightarrow> s \<in> set xs)"

text \<open>\<open>raw.get(k, x)\<close>, \<open>d.setdefault(k, v)\<close>.\<close>

definition dict_get :: "json \<Rightarrow> string \<Rightarrow> doc \<Rightarrow> json" where
  "dict_get x k d = the_default x (map_of d k)"

definition setdefault :: "string \<Rightarrow> json \<Rightarrow> doc \<Rightarrow> doc" where
  "setdefault k v d = (if map_of d k = None then AList.update k v d else d)"

lemma dict_get_Some: "map_of d k = Some v \<Longrightarrow> dict_get x k d = v"
  by (simp add: dict_get_def)

lemma map_of_setdefault:
  "map_of (setdefault k v d) j = (if j = k \<and> map_of d k = None then Some v else map_of d j)"
  by (simp add: setdefault_def update_conv')

named_theorems codec

lemma map_opt_as_str [simp]: "map_opt as_str (map JStr xs) = Some xs"
  by (induction xs) auto

lemma guard_simps [simp]: "guard True = Some ()" "guard False = None"
  by (simp_all add: guard_def)

lemma guard_Some_iff [simp]: "guard b = Some u \<longleftrightarrow> b"
  by (simp add: guard_def)

lemma fld_str_dump [codec]: "map_of d k = Some (JStr s) \<Longrightarrow> fld_str k d = Some s"
  by (simp add: fld_str_def)

lemma fld_str_or_dump [codec]: "map_of d k = Some (JStr s) \<Longrightarrow> fld_str_or k x d = Some s"
  by (simp add: fld_str_or_def)

lemma fld_opt_dump [codec]: "map_of d k = Some (jopt x) \<Longrightarrow> fld_opt k d = Some x"
  by (cases x) (simp_all add: fld_opt_def jopt_def)

lemma fld_int_opt_dump [codec]: "map_of d k = Some (jint_opt x) \<Longrightarrow> fld_int_opt k d = Some x"
  by (cases x) (simp_all add: fld_int_opt_def jint_opt_def)

lemma fld_bool_or_dump [codec]: "map_of d k = Some (JBool b) \<Longrightarrow> fld_bool_or k x d = Some b"
  by (simp add: fld_bool_or_def)

lemma fld_strs_dump [codec]: "map_of d k = Some (jstrs xs) \<Longrightarrow> fld_strs k d = Some xs"
  by (simp add: fld_strs_def jstrs_def)

lemma fld_obj_dump [codec]: "map_of d k = Some (JObj e) \<Longrightarrow> fld_obj k d = Some e"
  by (simp add: fld_obj_def)

lemma fld_time_dump [codec]: "map_of d k = Some (JTime t) \<Longrightarrow> fld_time k d = Some t"
  by (simp add: fld_time_def)

lemma fld_time_or_dump [codec]: "map_of d k = Some (JTime t) \<Longrightarrow> fld_time_or k x d = Some t"
  by (simp add: fld_time_or_def)

lemma fld_time_opt_dump [codec]: "map_of d k = Some (jtime_opt x) \<Longrightarrow> fld_time_opt k d = Some x"
  by (cases x) (simp_all add: fld_time_opt_def jtime_opt_def)

lemma hashable_jopt [simp]: "hashable (jopt x)"
  by (simp add: jopt_def split: option.splits)

lemma fld_id_dump [codec]: "map_of d ''_id'' = Some (JStr s) \<Longrightarrow> fld_id cx d = Some s"
  by (simp add: fld_id_def)

text \<open>Reading a field of an updated dictionary.\<close>

named_theorems fld_update

lemma map_of_dict_update_if:
  "distinct (keys ch) \<Longrightarrow> map_of (dict_update d ch) k = (if k \<in> set (keys ch) then map_of ch k else map_of d k)"
  by (auto simp: map_of_dict_update map_of_eq_None_iff [symmetric] split: option.splits)

lemma fld_str_update [fld_update]: "distinct (keys ch) \<Longrightarrow>
    fld_str k (dict_update d ch) = (if k \<in> set (keys ch) then fld_str k ch else fld_str k d)"
  by (simp add: fld_str_def map_of_dict_update_if)

lemma fld_str_or_update [fld_update]: "distinct (keys ch) \<Longrightarrow>
    fld_str_or k x (dict_update d ch) = (if k \<in> set (keys ch) then fld_str_or k x ch else fld_str_or k x d)"
  by (simp add: fld_str_or_def map_of_dict_update_if)

lemma fld_opt_update [fld_update]: "distinct (keys ch) \<Longrightarrow>
    fld_opt k (dict_update d ch) = (if k \<in> set (keys ch) then fld_opt k ch else fld_opt k d)"
  by (simp add: fld_opt_def map_of_dict_update_if)

lemma fld_int_opt_update [fld_update]: "distinct (keys ch) \<Longrightarrow>
    fld_int_opt k (dict_update d ch) = (if k \<in> set (keys ch) then fld_int_opt k ch else fld_int_opt k d)"
  by (simp add: fld_int_opt_def map_of_dict_update_if)

lemma fld_bool_or_update [fld_update]: "distinct (keys ch) \<Longrightarrow>
    fld_bool_or k x (dict_update d ch) = (if k \<in> set (keys ch) then fld_bool_or k x ch else fld_bool_or k x d)"
  by (simp add: fld_bool_or_def map_of_dict_update_if)

lemma fld_strs_update [fld_update]: "distinct (keys ch) \<Longrightarrow>
    fld_strs k (dict_update d ch) = (if k \<in> set (keys ch) then fld_strs k ch else fld_strs k d)"
  by (simp add: fld_strs_def map_of_dict_update_if)

lemma fld_obj_update [fld_update]: "distinct (keys ch) \<Longrightarrow>
    fld_obj k (dict_update d ch) = (if k \<in> set (keys ch) then fld_obj k ch else fld_obj k d)"
  by (simp add: fld_obj_def map_of_dict_update_if)

lemma fld_time_update [fld_update]: "distinct (keys ch) \<Longrightarrow>
    fld_time k (dict_update d ch) = (if k \<in> set (keys ch) then fld_time k ch else fld_time k d)"
  by (simp add: fld_time_def map_of_dict_update_if)

lemma fld_time_or_update [fld_update]: "distinct (keys ch) \<Longrightarrow>
    fld_time_or k x (dict_update d ch) = (if k \<in> set (keys ch) then fld_time_or k x ch else fld_time_or k x d)"
  by (simp add: fld_time_or_def map_of_dict_update_if)

lemma fld_time_opt_update [fld_update]: "distinct (keys ch) \<Longrightarrow>
    fld_time_opt k (dict_update d ch) = (if k \<in> set (keys ch) then fld_time_opt k ch else fld_time_opt k d)"
  by (simp add: fld_time_opt_def map_of_dict_update_if)

end
