(* ===== verification/SafePath.thy ===== *)
theory SafePath
  imports Prelude
begin

text \<open>
  \<open>jig/safe_path.py\<close> and the id check of \<open>jig/schemas/_validators.py\<close>: which
  strings may become a path segment, a file name or an id, and the two joins that
  keep an external path under its root.  A path is the list of its components; the
  file system's \<open>Path.resolve\<close> (symbolic links included) is a parameter.
\<close>

section \<open>Character classes and the regular expressions\<close>

definition lower_alnum :: "char \<Rightarrow> bool" where
  "lower_alnum c = (let n = of_char c :: nat in 97 \<le> n \<and> n \<le> 122 \<or> 48 \<le> n \<and> n \<le> 57)"

definition newline :: char where
  "newline = CHR 0x0A"

text \<open>\<open>re.match(r"^[F][P]*$", s)\<close>: \<open>$\<close> also matches before a final newline.\<close>

definition re_match :: "(char \<Rightarrow> bool) \<Rightarrow> (char \<Rightarrow> bool) \<Rightarrow> string \<Rightarrow> bool" where
  "re_match F P s = (case s of
     [] \<Rightarrow> False
   | c # cs \<Rightarrow> F c \<and> (list_all P cs \<or> cs \<noteq> [] \<and> last cs = newline \<and> list_all P (butlast cs)))"

definition max_segment_len :: nat where
  "max_segment_len = 100"

definition segment_char :: "char \<Rightarrow> bool" where
  "segment_char c = (lower_alnum c \<or> c = CHR ''_'' \<or> c = CHR ''-'')"

definition filename_char :: "char \<Rightarrow> bool" where
  "filename_char c = (segment_char c \<or> c = CHR ''.'')"

definition is_safe_path_segment :: "string \<Rightarrow> bool" where
  "is_safe_path_segment s = (if s = [] \<or> length s > max_segment_len then False
     else re_match lower_alnum segment_char s)"

definition is_safe_filename :: "string \<Rightarrow> bool" where
  "is_safe_filename s = (if s = [] \<or> length s > max_segment_len then False
     else if s = ''.'' \<or> s = ''..'' then False
     else re_match lower_alnum filename_char s)"

definition validate_safe_path_segment :: "string \<Rightarrow> string result" where
  "validate_safe_path_segment s =
     (if \<not> is_safe_path_segment s then Inl (ValueError ''not a safe path segment'') else Inr s)"

text \<open>\<open>str.split(sep)\<close> on one character.\<close>

fun split_on :: "char \<Rightarrow> string \<Rightarrow> string list" where
  "split_on c [] = [[]]"
| "split_on c (x # xs) = (if x = c then [] # split_on c xs
     else (case split_on c xs of [] \<Rightarrow> [[x]] | w # ws \<Rightarrow> (x # w) # ws))"

definition validate_kebab_id :: "string \<Rightarrow> string result" where
  \<comment> \<open>\<open>fullmatch\<close> of \<open>[a-z0-9]+(-[a-z0-9]+)*\<close>\<close>
  "validate_kebab_id s =
     (if \<not> list_all (\<lambda>w. w \<noteq> [] \<and> list_all lower_alnum w) (split_on (CHR ''-'') s)
      then Inl (ValueError ''must be kebab-case'') else Inr s)"

section \<open>Joins\<close>

type_synonym path = "string list"

definition is_relative_to :: "path \<Rightarrow> path \<Rightarrow> bool" where
  "is_relative_to p root = (take (length root) p = root)"

fun first_error :: "('a \<Rightarrow> 'b result) \<Rightarrow> 'a list \<Rightarrow> exc option" where
  "first_error f [] = None"
| "first_error f (x # xs) = (case f x of Inl e \<Rightarrow> Some e | Inr _ \<Rightarrow> first_error f xs)"

definition safe_join :: "(path \<Rightarrow> path) \<Rightarrow> path \<Rightarrow> string list \<Rightarrow> path result" where
  "safe_join resolve root segs =
     (if segs = [] then Inl (ValueError ''at least one segment'')
      else (case first_error validate_safe_path_segment segs of
        Some e \<Rightarrow> Inl e
      | None \<Rightarrow> (let candidate = root @ segs
          in if \<not> is_relative_to (resolve candidate) (resolve root)
             then Inl (ValueError ''resolves outside root'') else Inr candidate)))"

definition part_error :: "string \<Rightarrow> unit result" where
  "part_error p =
     (if p = [] then Inl (ValueError ''empty segments'')
      else if p = ''.'' \<or> p = ''..'' then Inl (ValueError ''traversal segment'')
      else if CHR 0x5C \<in> set p then Inl (ValueError ''backslash'')
      else if starts_with p ''.'' then Inl (ValueError ''hidden-file segment'')
      else Inr ())"

definition safe_resolve_within :: "(path \<Rightarrow> path) \<Rightarrow> path \<Rightarrow> string \<Rightarrow> path result" where
  "safe_resolve_within resolve root rel =
     (if rel = [] then Inl (ValueError ''must be non-empty'')
      else if starts_with rel ''/'' \<or> starts_with rel [CHR 0x5C] then Inl (ValueError ''must not be absolute'')
      else if CHR 0x00 \<in> set rel then Inl (ValueError ''NUL byte'')
      else (let parts = split_on (CHR ''/'') rel
        in case first_error part_error parts of
          Some e \<Rightarrow> Inl e
        | None \<Rightarrow> (let candidate = resolve (root @ parts)
            in if \<not> is_relative_to candidate (resolve root)
               then Inl (ValueError ''resolves outside root'') else Inr candidate)))"

section \<open>Lemmas\<close>

lemma first_error_None: "first_error f xs = None \<longleftrightarrow> (\<forall>x \<in> set xs. is_ok (f x))"
  by (induction xs) (auto split: sum.splits)

lemma split_on_nonempty [simp]: "split_on c s \<noteq> []"
  by (induction s) (auto split: list.splits)

lemma split_on_chars: "w \<in> set (split_on c s) \<Longrightarrow> set w \<subseteq> set s - {c}"
  by (induction s arbitrary: w) (fastforce split: if_splits list.splits)+

lemma is_ok_validate_segment [simp]: "is_ok (validate_safe_path_segment s) = is_safe_path_segment s"
  by (simp add: validate_safe_path_segment_def)

lemma re_match_chars:
  "re_match F P s \<Longrightarrow> c \<in> set (tl s) \<Longrightarrow> P c \<or> c = newline"
  by (cases s) (auto simp: re_match_def list_all_iff split: list.splits,
      metis in_set_butlast_appendI append_butlast_last_id Un_iff set_append list.set(1) list.simps(15) singletonD insert_iff empty_iff)

lemma safe_segment_chars:
  "is_safe_path_segment s \<Longrightarrow> c \<in> set s \<Longrightarrow> segment_char c \<or> c = newline"
  using re_match_chars [of lower_alnum segment_char s c]
  by (cases s) (auto simp: is_safe_path_segment_def re_match_def segment_char_def split: if_splits)

lemma safe_segment_first: "is_safe_path_segment s \<Longrightarrow> s \<noteq> [] \<and> lower_alnum (hd s)"
  by (cases s) (simp_all add: is_safe_path_segment_def re_match_def split: if_splits)

lemma segment_char_safe:
  "segment_char c \<or> c = newline \<Longrightarrow> c \<noteq> CHR ''/'' \<and> c \<noteq> CHR 0x5C \<and> c \<noteq> CHR ''.'' \<and> c \<noteq> CHR '' '' \<and> c \<noteq> CHR 0x00"
  by (auto simp: segment_char_def lower_alnum_def newline_def)

section \<open>Properties\<close>

text \<open>
  What a joined path can be: \<open>safe_join\<close> returns the root with the given
  segments and nothing else, it resolves under the resolved root, and no segment is
  empty, contains a separator, a dot or a NUL, or starts with a dash.
\<close>

theorem safe_join_contained:
  assumes "safe_join resolve root segs = Inr p"
  shows "p = root @ segs \<and> is_relative_to (resolve p) (resolve root) \<and> segs \<noteq> [] \<and>
    (\<forall>s \<in> set segs. s \<noteq> [] \<and> length s \<le> max_segment_len \<and> hd s \<noteq> CHR ''-'' \<and>
       set s \<inter> {CHR ''/'', CHR 0x5C, CHR ''.'', CHR '' '', CHR 0x00} = {})"
proof -
  from assms have p: "p = root @ segs" "is_relative_to (resolve p) (resolve root)" "segs \<noteq> []"
    and ok: "\<forall>s \<in> set segs. is_safe_path_segment s"
    by (auto simp: safe_join_def first_error_None Let_def split: if_splits option.splits)
  have "s \<noteq> [] \<and> length s \<le> max_segment_len \<and> hd s \<noteq> CHR ''-'' \<and>
       set s \<inter> {CHR ''/'', CHR 0x5C, CHR ''.'', CHR '' '', CHR 0x00} = {}" if "s \<in> set segs" for s
  proof -
    from ok that have s: "is_safe_path_segment s" by blast
    have "\<And>c. c \<in> set s \<Longrightarrow> c \<noteq> CHR ''/'' \<and> c \<noteq> CHR 0x5C \<and> c \<noteq> CHR ''.'' \<and> c \<noteq> CHR '' '' \<and> c \<noteq> CHR 0x00"
      using safe_segment_chars [OF s] segment_char_safe by blast
    moreover have "hd s \<noteq> CHR ''-''" using safe_segment_first [OF s] by (auto simp: lower_alnum_def)
    moreover have "length s \<le> max_segment_len" using s by (simp add: is_safe_path_segment_def split: if_splits)
    ultimately show ?thesis using safe_segment_first [OF s] by auto
  qed
  with p show ?thesis by blast
qed

theorem safe_join_contained_witness:
  "safe_join id [''srv''] [''jig-1'', ''src''] = Inr ([''srv''] @ [''jig-1'', ''src'']) \<and>
   is_relative_to (id [''srv'', ''jig-1'', ''src'']) [''srv'']"
proof -
  have "safe_join id [''srv''] [''jig-1'', ''src''] = Inr [''srv'', ''jig-1'', ''src'']"
    by (simp add: safe_join_def validate_safe_path_segment_def is_safe_path_segment_def re_match_def
        segment_char_def lower_alnum_def max_segment_len_def is_relative_to_def)
  with safe_join_contained [OF this] show ?thesis by simp
qed

text \<open>
  An agent's relative path that \<open>safe_resolve_within\<close> accepts resolves under the
  resolved root, and its components contain no traversal, hidden, empty or backslash
  segment and no NUL; what it returns is the resolution of the root with exactly
  those components.
\<close>

theorem safe_resolve_within_contained:
  assumes "safe_resolve_within resolve root rel = Inr p"
  shows "is_relative_to p (resolve root) \<and> p = resolve (root @ split_on (CHR ''/'') rel) \<and>
    (\<forall>s \<in> set (split_on (CHR ''/'') rel). s \<noteq> [] \<and> hd s \<noteq> CHR ''.'' \<and> set s \<inter> {CHR ''/'', CHR 0x5C, CHR 0x00} = {})"
proof -
  from assms have p: "is_relative_to p (resolve root)" "p = resolve (root @ split_on (CHR ''/'') rel)"
    and nul: "CHR 0x00 \<notin> set rel" and ok: "\<forall>s \<in> set (split_on (CHR ''/'') rel). is_ok (part_error s)"
    by (auto simp: safe_resolve_within_def first_error_None Let_def split: if_splits option.splits)
  have "s \<noteq> [] \<and> hd s \<noteq> CHR ''.'' \<and> set s \<inter> {CHR ''/'', CHR 0x5C, CHR 0x00} = {}"
    if s: "s \<in> set (split_on (CHR ''/'') rel)" for s
    using ok s nul split_on_chars [OF s]
    by (cases s) (auto simp: part_error_def starts_with_def split: if_splits)
  with p show ?thesis by blast
qed

theorem safe_resolve_within_contained_witness:
  "is_relative_to (id [''srv'', ''src'', ''README.md'']) (id [''srv''])"
proof -
  have "safe_resolve_within id [''srv''] ''src/README.md'' = Inr [''srv'', ''src'', ''README.md'']"
    by (simp add: safe_resolve_within_def part_error_def starts_with_def is_relative_to_def)
  with safe_resolve_within_contained [OF this] show ?thesis by simp
qed

text \<open>
  The segment check accepts a trailing newline: \<open>re.match\<close> with \<open>$\<close> succeeds
  before it, so a safe segment followed by a newline is safe too, although a newline
  is not in the documented alphabet.
\<close>

theorem safe_segment_accepts_newline:
  assumes "is_safe_path_segment s" "length s < max_segment_len" "newline \<notin> set s"
  shows "is_safe_path_segment (s @ [newline])"
proof (cases s)
  case (Cons c cs)
  have "cs \<noteq> [] \<Longrightarrow> last cs \<noteq> newline" using assms(3) Cons last_in_set [of cs] by force
  with Cons assms have "lower_alnum c" "list_all segment_char cs"
    by (auto simp: is_safe_path_segment_def re_match_def split: if_splits)
  with Cons assms(2) show ?thesis by (simp add: is_safe_path_segment_def re_match_def)
qed (use assms in \<open>simp add: is_safe_path_segment_def\<close>)

theorem safe_segment_accepts_newline_witness:
  "is_safe_path_segment (''jig-1'' @ [newline])"
  by (rule safe_segment_accepts_newline)
    (simp_all add: is_safe_path_segment_def re_match_def segment_char_def lower_alnum_def max_segment_len_def newline_def)

end
