(* ===== verification/TicketText.thy ===== *)
theory TicketText
  imports Prelude
begin

text \<open>
  The acceptance-criteria scan of \<open>jig/ticket.py\<close>: the three line classes its
  regular expressions define, the scan as the code writes it, and its equivalence
  with a statement about the lines.
\<close>

section \<open>Lines\<close>

definition line_break :: "char \<Rightarrow> bool" where
  "line_break c = (let n = of_char c :: nat in 10 \<le> n \<and> n \<le> 13 \<or> 28 \<le> n \<and> n \<le> 30 \<or> n = 133)"

text \<open>\<open>str.splitlines()\<close>: no line follows a final line break.\<close>

fun splitlines_from :: "string \<Rightarrow> string \<Rightarrow> string list" where
  "splitlines_from acc [] = (if acc = [] then [] else [rev acc])"
| "splitlines_from acc (c # cs) =
    (if c = CHR 0x0D \<and> cs \<noteq> [] \<and> hd cs = CHR 0x0A then rev acc # splitlines_from [] (tl cs)
     else if line_break c then rev acc # splitlines_from [] cs
     else splitlines_from (c # acc) cs)"

definition splitlines :: "string \<Rightarrow> string list" where
  "splitlines s = splitlines_from [] s"

definition blank_char :: "char \<Rightarrow> bool" where
  "blank_char c = (c = CHR '' '' \<or> c = CHR 0x09)"

definition ac_labels :: "string list" where
  "ac_labels = [''acceptance criteria'', ''acceptance'', ''acs'', ''done when'', ''done-when'']"

text \<open>\<open>[ \t]*:?[ \t]*$\<close>\<close>

definition colon_end :: "string \<Rightarrow> bool" where
  "colon_end s = (let r = dropWhile blank_char s
     in list_all blank_char (if r \<noteq> [] \<and> hd r = CHR '':'' then tl r else r))"

text \<open>\<open>label[ \t]*:?\*\*[ \t]*:?[ \t]*$\<close>, after the label.\<close>

definition bold_end :: "string \<Rightarrow> bool" where
  "bold_end s = (let r = dropWhile blank_char s; r = (if r \<noteq> [] \<and> hd r = CHR '':'' then tl r else r)
     in starts_with r ''**'' \<and> colon_end (drop 2 r))"

definition after_label :: "(string \<Rightarrow> bool) \<Rightarrow> string \<Rightarrow> bool" where
  "after_label k s = list_ex (\<lambda>l. starts_with (lower s) l \<and> k (drop (length l) s)) ac_labels"

definition ac_heading :: "string \<Rightarrow> bool" where
  "ac_heading line = (let s = dropWhile blank_char line;
       hashes = length (takeWhile ((=) (CHR ''#'')) s); r = drop hashes s
     in (hashes = 2 \<or> hashes = 3) \<and> r \<noteq> [] \<and> blank_char (hd r) \<and> after_label colon_end (dropWhile blank_char r)
        \<or> starts_with s ''**'' \<and> after_label bold_end (drop 2 s))"

definition digit_char :: "char \<Rightarrow> bool" where
  "digit_char c = (let n = of_char c :: nat in 48 \<le> n \<and> n \<le> 57)"

text \<open>What follows the marker: \<open>[ \t]+\S\<close>.\<close>

definition bullet_text :: "string \<Rightarrow> bool" where
  "bullet_text s = (s \<noteq> [] \<and> blank_char (hd s) \<and>
     (let r = dropWhile blank_char s in r \<noteq> [] \<and> \<not> py_isspace (hd r)))"

definition bullet :: "string \<Rightarrow> bool" where
  "bullet line = (let s = dropWhile blank_char line; ds = takeWhile digit_char s; r = drop (length ds) s
     in s \<noteq> [] \<and> (hd s = CHR ''-'' \<or> hd s = CHR ''*'') \<and> bullet_text (tl s)
        \<or> ds \<noteq> [] \<and> r \<noteq> [] \<and> hd r = CHR ''.'' \<and> bullet_text (tl r))"

definition other_heading :: "string \<Rightarrow> bool" where
  "other_heading line = (let s = dropWhile blank_char line;
       hashes = length (takeWhile ((=) (CHR ''#'')) s); r = drop hashes s;
       b = drop 2 s; inner = takeWhile ((\<noteq>) (CHR ''*'')) b; t = drop (length inner) b
     in 1 \<le> hashes \<and> hashes \<le> 6 \<and> r \<noteq> [] \<and> blank_char (hd r)
        \<or> starts_with s ''**'' \<and> inner \<noteq> [] \<and> starts_with t ''**'' \<and> colon_end (drop 2 t))"

section \<open>The scan\<close>

fun ac_scan :: "bool \<Rightarrow> string list \<Rightarrow> bool" where
  "ac_scan in_ac [] = False"
| "ac_scan in_ac (line # lines) =
    (if ac_heading line then ac_scan True lines
     else if \<not> in_ac then ac_scan in_ac lines
     else if bullet line then True
     else if other_heading line then ac_scan False lines
     else ac_scan in_ac lines)"

definition has_acceptance_criteria_section :: "string \<Rightarrow> bool" where
  "has_acceptance_criteria_section d = (if d = [] then False else ac_scan False (splitlines d))"

section \<open>What it accepts\<close>

definition section_break :: "string \<Rightarrow> bool" where
  "section_break l \<longleftrightarrow> other_heading l \<and> \<not> ac_heading l \<and> \<not> bullet l"

definition open_bullet :: "string list \<Rightarrow> bool" where
  \<comment> \<open>a bullet with no section break before it\<close>
  "open_bullet ls \<longleftrightarrow> (\<exists>bs b cs. ls = bs @ b # cs \<and> bullet b \<and> \<not> ac_heading b \<and> (\<forall>x \<in> set bs. \<not> section_break x))"

definition ac_section :: "string list \<Rightarrow> bool" where
  "ac_section ls \<longleftrightarrow> (\<exists>as h rest. ls = as @ h # rest \<and> ac_heading h \<and> open_bullet rest)"

lemma open_bullet_Nil [simp]: "\<not> open_bullet []"
  by (simp add: open_bullet_def)

lemma open_bullet_Cons:
  "open_bullet (l # ls) \<longleftrightarrow> bullet l \<and> \<not> ac_heading l \<or> \<not> section_break l \<and> open_bullet ls"
proof
  assume "open_bullet (l # ls)"
  then obtain bs b cs where d: "l # ls = bs @ b # cs" "bullet b" "\<not> ac_heading b" "\<forall>x \<in> set bs. \<not> section_break x"
    by (auto simp: open_bullet_def)
  show "bullet l \<and> \<not> ac_heading l \<or> \<not> section_break l \<and> open_bullet ls"
    using d by (cases bs) (auto simp: open_bullet_def)
next
  assume "bullet l \<and> \<not> ac_heading l \<or> \<not> section_break l \<and> open_bullet ls"
  then show "open_bullet (l # ls)"
  proof
    assume "bullet l \<and> \<not> ac_heading l"
    then show ?thesis
      unfolding open_bullet_def by - (rule exI [of _ "[]"], rule exI [of _ l], rule exI [of _ ls], simp)
  next
    assume l: "\<not> section_break l \<and> open_bullet ls"
    then obtain bs b cs where "ls = bs @ b # cs" "bullet b" "\<not> ac_heading b" "\<forall>x \<in> set bs. \<not> section_break x"
      by (auto simp: open_bullet_def)
    with l show ?thesis
      unfolding open_bullet_def by - (rule exI [of _ "l # bs"], rule exI [of _ b], rule exI [of _ cs], simp)
  qed
qed

lemma ac_section_Nil [simp]: "\<not> ac_section []"
  by (simp add: ac_section_def)

lemma ac_section_Cons: "ac_section (l # ls) \<longleftrightarrow> ac_heading l \<and> open_bullet ls \<or> ac_section ls"
proof
  assume "ac_section (l # ls)"
  then obtain as h rest where "l # ls = as @ h # rest" "ac_heading h" "open_bullet rest"
    by (auto simp: ac_section_def)
  then show "ac_heading l \<and> open_bullet ls \<or> ac_section ls"
    by (cases as) (auto simp: ac_section_def)
next
  assume "ac_heading l \<and> open_bullet ls \<or> ac_section ls"
  then show "ac_section (l # ls)"
  proof
    assume "ac_heading l \<and> open_bullet ls"
    then show ?thesis
      unfolding ac_section_def by - (rule exI [of _ "[]"], rule exI [of _ l], rule exI [of _ ls], simp)
  next
    assume "ac_section ls"
    then obtain as h rest where "ls = as @ h # rest" "ac_heading h" "open_bullet rest"
      by (auto simp: ac_section_def)
    then show ?thesis
      unfolding ac_section_def by - (rule exI [of _ "l # as"], rule exI [of _ h], rule exI [of _ rest], simp)
  qed
qed

lemma ac_scan_spec: "ac_scan in_ac ls \<longleftrightarrow> in_ac \<and> open_bullet ls \<or> ac_section ls"
proof (induction ls arbitrary: in_ac)
  case (Cons l ls)
  show ?case
    by (auto simp: Cons.IH ac_section_Cons open_bullet_Cons section_break_def)
qed simp

text \<open>
  The scan for acceptance criteria accepts a description exactly when one of its
  lines is an acceptance heading and a later line is a bullet, with no section
  break (another heading or a bold label) between the two; prose in between does not
  matter.
\<close>

theorem acceptance_criteria_spec:
  "has_acceptance_criteria_section d \<longleftrightarrow>
    (\<exists>as h bs b cs. splitlines d = as @ h # bs @ b # cs \<and> ac_heading h \<and> bullet b \<and> \<not> ac_heading b \<and>
       list_all (\<lambda>x. \<not> section_break x) bs)"
proof -
  have "has_acceptance_criteria_section d \<longleftrightarrow> ac_section (splitlines d)"
    by (simp add: has_acceptance_criteria_section_def ac_scan_spec splitlines_def)
  then show ?thesis
    unfolding ac_section_def open_bullet_def list_all_iff by blast
qed

end
