(* ===== verification/Ticket.thy ===== *)
theory Ticket
  imports Codec SafePath TicketText
begin

text \<open>
  The ticket model of \<open>jig/ticket.py\<close>: its enumerations, fields and validators, the
  migration of old records, the dump and the validation of a JSON record.
\<close>

section \<open>Enumerations\<close>

datatype work_type = WFeature | WBugfix | WRefactor | WSpike | WPerf | WMigration | WDocs | WBrief | WProfile | WArchitecture | WOnboardScan | WPlanning | WCanonicalize

fun show_work_type :: "work_type \<Rightarrow> string" where
  "show_work_type WFeature = ''feature''"
| "show_work_type WBugfix = ''bugfix''"
| "show_work_type WRefactor = ''refactor''"
| "show_work_type WSpike = ''spike''"
| "show_work_type WPerf = ''perf''"
| "show_work_type WMigration = ''migration''"
| "show_work_type WDocs = ''docs''"
| "show_work_type WBrief = ''brief''"
| "show_work_type WProfile = ''profile''"
| "show_work_type WArchitecture = ''architecture''"
| "show_work_type WOnboardScan = ''onboard_scan''"
| "show_work_type WPlanning = ''planning''"
| "show_work_type WCanonicalize = ''canonicalize''"

definition all_work_type :: "work_type list" where
  "all_work_type = [WFeature, WBugfix, WRefactor, WSpike, WPerf, WMigration, WDocs, WBrief, WProfile, WArchitecture, WOnboardScan, WPlanning, WCanonicalize]"

definition read_work_type :: "string \<Rightarrow> work_type option" where
  "read_work_type s = List.find (\<lambda>x. show_work_type x = s) all_work_type"

lemma read_work_type_show [simp]: "read_work_type (show_work_type x) = Some x"
  by (cases x) (simp_all add: read_work_type_def all_work_type_def)

lemma all_work_type_UNIV: "set all_work_type = UNIV"
  using work_type.exhaust by (auto simp: all_work_type_def)

datatype size = SXs | SS | SM | SL | SXl

fun show_size :: "size \<Rightarrow> string" where
  "show_size SXs = ''xs''"
| "show_size SS = ''s''"
| "show_size SM = ''m''"
| "show_size SL = ''l''"
| "show_size SXl = ''xl''"

definition all_size :: "size list" where
  "all_size = [SXs, SS, SM, SL, SXl]"

definition read_size :: "string \<Rightarrow> size option" where
  "read_size s = List.find (\<lambda>x. show_size x = s) all_size"

lemma read_size_show [simp]: "read_size (show_size x) = Some x"
  by (cases x) (simp_all add: read_size_def all_size_def)

lemma all_size_UNIV: "set all_size = UNIV"
  using size.exhaust by (auto simp: all_size_def)

datatype ticket_status = StProposed | StOpen | StInProgress | StBlocked | StNeedsInfo | StFailed | StMergeConflict | StResolved | StClosed

fun show_status :: "ticket_status \<Rightarrow> string" where
  "show_status StProposed = ''proposed''"
| "show_status StOpen = ''open''"
| "show_status StInProgress = ''in_progress''"
| "show_status StBlocked = ''blocked''"
| "show_status StNeedsInfo = ''needs_info''"
| "show_status StFailed = ''failed''"
| "show_status StMergeConflict = ''merge_conflict''"
| "show_status StResolved = ''resolved''"
| "show_status StClosed = ''closed''"

definition all_ticket_status :: "ticket_status list" where
  "all_ticket_status = [StProposed, StOpen, StInProgress, StBlocked, StNeedsInfo, StFailed, StMergeConflict, StResolved, StClosed]"

definition read_status :: "string \<Rightarrow> ticket_status option" where
  "read_status s = List.find (\<lambda>x. show_status x = s) all_ticket_status"

lemma read_status_show [simp]: "read_status (show_status x) = Some x"
  by (cases x) (simp_all add: read_status_def all_ticket_status_def)

lemma all_ticket_status_UNIV: "set all_ticket_status = UNIV"
  using ticket_status.exhaust by (auto simp: all_ticket_status_def)

section \<open>Fields\<close>

record touches =
  to_modules :: "string list"
  to_capabilities :: "string list"
  to_exposed_apis :: "string list"
  to_emitted_events :: "string list"
  to_consumed_events :: "string list"
  to_data_stores :: "string list"
  to_behavioral_contracts :: "string list"
  to_data_contracts :: "string list"
  to_routes :: "string list"
  to_migrations :: "string list"
  to_env_vars :: "string list"

definition touches_fields :: "string list" where
  "touches_fields = [''modules'', ''capabilities'', ''exposed_apis'', ''emitted_events'', ''consumed_events'', ''data_stores'', ''behavioral_contracts'', ''data_contracts'', ''routes'', ''migrations'', ''env_vars'']"

definition no_touches :: touches where
  "no_touches = \<lparr>to_modules = [], to_capabilities = [], to_exposed_apis = [], to_emitted_events = [], to_consumed_events = [], to_data_stores = [], to_behavioral_contracts = [], to_data_contracts = [], to_routes = [], to_migrations = [], to_env_vars = []\<rparr>"

definition dump_touches :: "touches \<Rightarrow> doc" where
  "dump_touches t = [(''modules'', jstrs (to_modules t)),
     (''capabilities'', jstrs (to_capabilities t)),
     (''exposed_apis'', jstrs (to_exposed_apis t)),
     (''emitted_events'', jstrs (to_emitted_events t)),
     (''consumed_events'', jstrs (to_consumed_events t)),
     (''data_stores'', jstrs (to_data_stores t)),
     (''behavioral_contracts'', jstrs (to_behavioral_contracts t)),
     (''data_contracts'', jstrs (to_data_contracts t)),
     (''routes'', jstrs (to_routes t)),
     (''migrations'', jstrs (to_migrations t)),
     (''env_vars'', jstrs (to_env_vars t))]"

definition parse_touches :: "doc \<Rightarrow> touches option" where
  "parse_touches d = do {
     guard (list_all (\<lambda>k. k \<in> set touches_fields) (keys d));
     x0 \<leftarrow> fld_strs ''modules'' d;
     x1 \<leftarrow> fld_strs ''capabilities'' d;
     x2 \<leftarrow> fld_strs ''exposed_apis'' d;
     x3 \<leftarrow> fld_strs ''emitted_events'' d;
     x4 \<leftarrow> fld_strs ''consumed_events'' d;
     x5 \<leftarrow> fld_strs ''data_stores'' d;
     x6 \<leftarrow> fld_strs ''behavioral_contracts'' d;
     x7 \<leftarrow> fld_strs ''data_contracts'' d;
     x8 \<leftarrow> fld_strs ''routes'' d;
     x9 \<leftarrow> fld_strs ''migrations'' d;
     x10 \<leftarrow> fld_strs ''env_vars'' d;
     Some \<lparr>to_modules = x0, to_capabilities = x1, to_exposed_apis = x2, to_emitted_events = x3, to_consumed_events = x4, to_data_stores = x5, to_behavioral_contracts = x6, to_data_contracts = x7, to_routes = x8, to_migrations = x9, to_env_vars = x10\<rparr> }"

lemma parse_touches_dump: "parse_touches (dump_touches t) = Some t"
  by (simp add: parse_touches_def dump_touches_def touches_fields_def codec)

definition fld_work_type :: "doc \<Rightarrow> work_type option" where
  "fld_work_type d = do { s \<leftarrow> fld_str ''work_type'' d; read_work_type s }"

definition fld_size :: "doc \<Rightarrow> size option" where
  "fld_size d = do { s \<leftarrow> fld_str_or ''size'' ''m'' d; read_size s }"

definition fld_status :: "doc \<Rightarrow> ticket_status option" where
  "fld_status d = do { s \<leftarrow> fld_str_or ''status'' ''open'' d; read_status s }"

definition strip_title_backticks :: "string \<Rightarrow> string" where
  "strip_title_backticks s = filter (\<lambda>c. c \<noteq> CHR 0x60) s"

definition fld_title :: "doc \<Rightarrow> string option" where
  "fld_title d = map_option strip_title_backticks (fld_str ''title'' d)"

fun as_str_pair :: "string \<times> json \<Rightarrow> (string \<times> string) option" where
  "as_str_pair (k, JStr v) = Some (k, v)"
| "as_str_pair _ = None"

definition as_str_dict :: "json \<Rightarrow> (string \<times> string) list option" where
  "as_str_dict j = do { d \<leftarrow> as_obj j; map_opt as_str_pair d }"

definition fld_examples :: "doc \<Rightarrow> (string \<times> string) list list option" where
  "fld_examples d = (case map_of d ''examples'' of
     None \<Rightarrow> Some [] | Some (JList xs) \<Rightarrow> map_opt as_str_dict xs | _ \<Rightarrow> None)"

definition jexamples :: "(string \<times> string) list list \<Rightarrow> json" where
  "jexamples xs = JList (map (\<lambda>e. JObj (map (apsnd JStr) e)) xs)"

definition fld_touches :: "doc \<Rightarrow> touches option" where
  "fld_touches d = (case map_of d ''touches'' of
     None \<Rightarrow> Some no_touches | Some (JObj e) \<Rightarrow> parse_touches e | _ \<Rightarrow> None)"

record ticket =
  tk_id :: string
  tk_work_type :: work_type
  tk_size :: size
  tk_status :: ticket_status
  tk_key :: string
  tk_title :: string
  tk_description :: string
  tk_assignee :: "string option"
  tk_derived_from :: "string option"
  tk_parent_id :: "string option"
  tk_blocks :: "string list"
  tk_blocked_by :: "string list"
  tk_workflow :: string
  tk_labels :: "string list"
  tk_created_by :: string
  tk_created_at :: int
  tk_updated_at :: int
  tk_suite_id :: "string option"
  tk_module_id :: "string option"
  tk_capability_ids :: "string list"
  tk_epic_id :: "string option"
  tk_layer :: "string option"
  tk_dev_tier :: "string option"
  tk_reviewer_set :: "string list"
  tk_context_hints :: doc
  tk_risks_addressed :: "string list"
  tk_done_when :: "string option"
  tk_examples :: "(string \<times> string) list list"
  tk_touches :: touches
  tk_visual_references :: "string list"
  tk_deferred_at :: "int option"
  tk_contract_amendment :: "string option"
  tk_block_reason :: "string option"

definition ticket_fields :: "string list" where
  \<comment> \<open>the field names of the model, \<open>_id\<close> apart\<close>
  "ticket_fields = [''work_type'', ''size'', ''status'', ''key'', ''title'', ''description'', ''assignee'', ''derived_from'', ''parent_id'', ''blocks'', ''blocked_by'', ''workflow'', ''labels'', ''created_by'', ''created_at'', ''updated_at'', ''suite_id'', ''module_id'', ''capability_ids'', ''epic_id'', ''layer'', ''dev_tier'', ''reviewer_set'', ''context_hints'', ''risks_addressed'', ''done_when'', ''examples'', ''touches'', ''visual_references'', ''deferred_at'', ''contract_amendment'', ''block_reason'']"

definition dump_ticket :: "ticket \<Rightarrow> doc" where
  "dump_ticket t = [(''_id'', JStr (tk_id t)),
     (''work_type'', JStr (show_work_type (tk_work_type t))),
     (''size'', JStr (show_size (tk_size t))),
     (''status'', JStr (show_status (tk_status t))),
     (''key'', JStr (tk_key t)),
     (''title'', JStr (tk_title t)),
     (''description'', JStr (tk_description t)),
     (''assignee'', jopt (tk_assignee t)),
     (''derived_from'', jopt (tk_derived_from t)),
     (''parent_id'', jopt (tk_parent_id t)),
     (''blocks'', jstrs (tk_blocks t)),
     (''blocked_by'', jstrs (tk_blocked_by t)),
     (''workflow'', JStr (tk_workflow t)),
     (''labels'', jstrs (tk_labels t)),
     (''created_by'', JStr (tk_created_by t)),
     (''created_at'', JTime (tk_created_at t)),
     (''updated_at'', JTime (tk_updated_at t)),
     (''suite_id'', jopt (tk_suite_id t)),
     (''module_id'', jopt (tk_module_id t)),
     (''capability_ids'', jstrs (tk_capability_ids t)),
     (''epic_id'', jopt (tk_epic_id t)),
     (''layer'', jopt (tk_layer t)),
     (''dev_tier'', jopt (tk_dev_tier t)),
     (''reviewer_set'', jstrs (tk_reviewer_set t)),
     (''context_hints'', JObj (tk_context_hints t)),
     (''risks_addressed'', jstrs (tk_risks_addressed t)),
     (''done_when'', jopt (tk_done_when t)),
     (''examples'', jexamples (tk_examples t)),
     (''touches'', JObj (dump_touches (tk_touches t))),
     (''visual_references'', jstrs (tk_visual_references t)),
     (''deferred_at'', jtime_opt (tk_deferred_at t)),
     (''contract_amendment'', jopt (tk_contract_amendment t)),
     (''block_reason'', jopt (tk_block_reason t))]"

definition read_ticket :: "ctx \<Rightarrow> doc \<Rightarrow> ticket option" where
  "read_ticket cx d = do {
     x0 \<leftarrow> fld_id cx d;
     x1 \<leftarrow> fld_work_type d;
     x2 \<leftarrow> fld_size d;
     x3 \<leftarrow> fld_status d;
     x4 \<leftarrow> fld_str_or ''key'' [] d;
     x5 \<leftarrow> fld_title d;
     x6 \<leftarrow> fld_str_or ''description'' [] d;
     x7 \<leftarrow> fld_opt ''assignee'' d;
     x8 \<leftarrow> fld_opt ''derived_from'' d;
     x9 \<leftarrow> fld_opt ''parent_id'' d;
     x10 \<leftarrow> fld_strs ''blocks'' d;
     x11 \<leftarrow> fld_strs ''blocked_by'' d;
     x12 \<leftarrow> fld_str_or ''workflow'' ''default'' d;
     x13 \<leftarrow> fld_strs ''labels'' d;
     x14 \<leftarrow> fld_str ''created_by'' d;
     x15 \<leftarrow> fld_time_or ''created_at'' (cx_now cx) d;
     x16 \<leftarrow> fld_time_or ''updated_at'' (cx_now cx) d;
     x17 \<leftarrow> fld_opt ''suite_id'' d;
     x18 \<leftarrow> fld_opt ''module_id'' d;
     x19 \<leftarrow> fld_strs ''capability_ids'' d;
     x20 \<leftarrow> fld_opt ''epic_id'' d;
     x21 \<leftarrow> fld_opt ''layer'' d;
     x22 \<leftarrow> fld_opt ''dev_tier'' d;
     x23 \<leftarrow> fld_strs ''reviewer_set'' d;
     x24 \<leftarrow> fld_obj ''context_hints'' d;
     x25 \<leftarrow> fld_strs ''risks_addressed'' d;
     x26 \<leftarrow> fld_opt ''done_when'' d;
     x27 \<leftarrow> fld_examples d;
     x28 \<leftarrow> fld_touches d;
     x29 \<leftarrow> fld_strs ''visual_references'' d;
     x30 \<leftarrow> fld_time_opt ''deferred_at'' d;
     x31 \<leftarrow> fld_opt ''contract_amendment'' d;
     x32 \<leftarrow> fld_opt ''block_reason'' d;
     Some \<lparr>tk_id = x0,
       tk_work_type = x1,
       tk_size = x2,
       tk_status = x3,
       tk_key = x4,
       tk_title = x5,
       tk_description = x6,
       tk_assignee = x7,
       tk_derived_from = x8,
       tk_parent_id = x9,
       tk_blocks = x10,
       tk_blocked_by = x11,
       tk_workflow = x12,
       tk_labels = x13,
       tk_created_by = x14,
       tk_created_at = x15,
       tk_updated_at = x16,
       tk_suite_id = x17,
       tk_module_id = x18,
       tk_capability_ids = x19,
       tk_epic_id = x20,
       tk_layer = x21,
       tk_dev_tier = x22,
       tk_reviewer_set = x23,
       tk_context_hints = x24,
       tk_risks_addressed = x25,
       tk_done_when = x26,
       tk_examples = x27,
       tk_touches = x28,
       tk_visual_references = x29,
       tk_deferred_at = x30,
       tk_contract_amendment = x31,
       tk_block_reason = x32\<rparr> }"

section \<open>Validation\<close>

definition work_types_requiring_ac :: "string list" where
  "work_types_requiring_ac = [''feature'', ''bugfix'', ''refactor'', ''spike'', ''perf'', ''migration'']"

definition allowed_layers :: "string list" where
  "allowed_layers = [''bones'', ''mvp'', ''final'']"

definition allowed_dev_tiers :: "string list" where
  "allowed_dev_tiers = [''standard'', ''senior'', ''sa'']"

definition opt_kebab :: "string option \<Rightarrow> bool" where
  "opt_kebab x = (case x of None \<Rightarrow> True | Some s \<Rightarrow> is_ok (validate_kebab_id s))"

definition kebab_ids :: "string list \<Rightarrow> bool" where
  "kebab_ids xs = list_all (\<lambda>s. is_ok (validate_kebab_id s)) xs"

definition has_required_ac :: "ticket \<Rightarrow> bool" where
  "has_required_ac t = (if show_work_type (tk_work_type t) \<notin> set work_types_requiring_ac then True
     else has_acceptance_criteria_section (tk_description t))"

definition ticket_ok :: "ticket \<Rightarrow> bool" where
  \<comment> \<open>the field validators and the model validator that run after the fields are read\<close>
  "ticket_ok t = (is_ok (validate_safe_path_segment (tk_id t)) \<and>
     opt_kebab (tk_suite_id t) \<and> opt_kebab (tk_module_id t) \<and> opt_kebab (tk_epic_id t) \<and>
     kebab_ids (tk_capability_ids t) \<and> kebab_ids (tk_visual_references t) \<and>
     opt_in allowed_layers (tk_layer t) \<and> opt_in allowed_dev_tiers (tk_dev_tier t) \<and>
     has_required_ac t)"

definition legacy_type_migration :: "(string \<times> string) list" where
  "legacy_type_migration = [(''feature'', ''feature''), (''bug'', ''bugfix''), (''chore'', ''refactor''),
     (''task'', ''refactor''), (''question'', ''feature'')]"

definition migrate_type :: "json \<Rightarrow> json" where
  "migrate_type j = (case j of JStr s \<Rightarrow> JStr (the_default s (map_of legacy_type_migration s)) | _ \<Rightarrow> j)"

definition migrate_legacy_fields :: "doc \<Rightarrow> doc option" where
  \<comment> \<open>\<open>None\<close> when the legacy type is not hashable\<close>
  "migrate_legacy_fields d =
    (if map_of d ''work_type'' = None then
       (case map_of d ''type'' of
          None \<Rightarrow> Some d
        | Some legacy \<Rightarrow>
            if \<not> hashable legacy then None
            else (let d1 = AList.update ''work_type'' (migrate_type legacy) (AList.delete ''type'' d)
              in Some (if legacy \<in> {JStr ''task'', JStr ''question''} \<and> map_of d1 ''workflow'' = None
                       then AList.update ''workflow'' (JStr ''thread'') d1 else d1)))
     else Some d)"

definition extra_forbidden :: "doc \<Rightarrow> bool" where
  \<comment> \<open>\<open>extra="forbid"\<close>: the name \<open>id\<close> is read only when the alias is missing\<close>
  "extra_forbidden d = (\<not> list_all (\<lambda>k. k = ''_id'' \<or> k \<in> set ticket_fields \<or>
     k = ''id'' \<and> map_of d ''_id'' = None) (keys d))"

definition validate_ticket :: "ctx \<Rightarrow> doc \<Rightarrow> ticket option" where
  "validate_ticket cx d0 = do {
     d \<leftarrow> migrate_legacy_fields d0;
     guard (\<not> extra_forbidden d);
     t \<leftarrow> read_ticket cx d;
     guard (ticket_ok t);
     Some t }"

definition ticket_valid :: "ticket \<Rightarrow> bool" where
  "ticket_valid t = (ticket_ok t \<and> strip_title_backticks (tk_title t) = tk_title t)"

section \<open>Round trip\<close>

lemma fld_work_type_dump [codec]: "map_of d ''work_type'' = Some (JStr (show_work_type x)) \<Longrightarrow> fld_work_type d = Some x"
  by (simp add: fld_work_type_def codec)

lemma fld_size_dump [codec]: "map_of d ''size'' = Some (JStr (show_size x)) \<Longrightarrow> fld_size d = Some x"
  by (simp add: fld_size_def codec)

lemma fld_status_dump [codec]: "map_of d ''status'' = Some (JStr (show_status x)) \<Longrightarrow> fld_status d = Some x"
  by (simp add: fld_status_def codec)

lemma fld_title_dump [codec]:
  "map_of d ''title'' = Some (JStr s) \<Longrightarrow> fld_title d = Some (strip_title_backticks s)"
  by (simp add: fld_title_def codec)

lemma as_str_dict_dump: "as_str_dict (JObj (map (apsnd JStr) e)) = Some e"
  unfolding as_str_dict_def by (simp, induction e) auto

lemma fld_examples_dump [codec]: "map_of d ''examples'' = Some (jexamples xs) \<Longrightarrow> fld_examples d = Some xs"
  by (simp add: fld_examples_def jexamples_def map_opt_total [where g = id] as_str_dict_dump map_opt_Some_iff
      list_all2_map1 list_all2_same)

lemma fld_touches_dump [codec]: "map_of d ''touches'' = Some (JObj (dump_touches t)) \<Longrightarrow> fld_touches d = Some t"
  by (simp add: fld_touches_def parse_touches_dump)

lemma read_ticket_iff:
  "read_ticket cx d = Some t \<longleftrightarrow>
     fld_id cx d = Some (tk_id t) \<and>
     fld_work_type d = Some (tk_work_type t) \<and>
     fld_size d = Some (tk_size t) \<and>
     fld_status d = Some (tk_status t) \<and>
     fld_str_or ''key'' [] d = Some (tk_key t) \<and>
     fld_title d = Some (tk_title t) \<and>
     fld_str_or ''description'' [] d = Some (tk_description t) \<and>
     fld_opt ''assignee'' d = Some (tk_assignee t) \<and>
     fld_opt ''derived_from'' d = Some (tk_derived_from t) \<and>
     fld_opt ''parent_id'' d = Some (tk_parent_id t) \<and>
     fld_strs ''blocks'' d = Some (tk_blocks t) \<and>
     fld_strs ''blocked_by'' d = Some (tk_blocked_by t) \<and>
     fld_str_or ''workflow'' ''default'' d = Some (tk_workflow t) \<and>
     fld_strs ''labels'' d = Some (tk_labels t) \<and>
     fld_str ''created_by'' d = Some (tk_created_by t) \<and>
     fld_time_or ''created_at'' (cx_now cx) d = Some (tk_created_at t) \<and>
     fld_time_or ''updated_at'' (cx_now cx) d = Some (tk_updated_at t) \<and>
     fld_opt ''suite_id'' d = Some (tk_suite_id t) \<and>
     fld_opt ''module_id'' d = Some (tk_module_id t) \<and>
     fld_strs ''capability_ids'' d = Some (tk_capability_ids t) \<and>
     fld_opt ''epic_id'' d = Some (tk_epic_id t) \<and>
     fld_opt ''layer'' d = Some (tk_layer t) \<and>
     fld_opt ''dev_tier'' d = Some (tk_dev_tier t) \<and>
     fld_strs ''reviewer_set'' d = Some (tk_reviewer_set t) \<and>
     fld_obj ''context_hints'' d = Some (tk_context_hints t) \<and>
     fld_strs ''risks_addressed'' d = Some (tk_risks_addressed t) \<and>
     fld_opt ''done_when'' d = Some (tk_done_when t) \<and>
     fld_examples d = Some (tk_examples t) \<and>
     fld_touches d = Some (tk_touches t) \<and>
     fld_strs ''visual_references'' d = Some (tk_visual_references t) \<and>
     fld_time_opt ''deferred_at'' d = Some (tk_deferred_at t) \<and>
     fld_opt ''contract_amendment'' d = Some (tk_contract_amendment t) \<and>
     fld_opt ''block_reason'' d = Some (tk_block_reason t)"
  by (cases t) (auto simp: read_ticket_def split: Option.bind_splits)

lemma fld_work_type_update [fld_update]: "distinct (keys ch) \<Longrightarrow>
    fld_work_type (dict_update d ch) = (if ''work_type'' \<in> set (keys ch) then fld_work_type ch else fld_work_type d)"
  by (simp add: fld_work_type_def fld_update)

lemma fld_size_update [fld_update]: "distinct (keys ch) \<Longrightarrow>
    fld_size (dict_update d ch) = (if ''size'' \<in> set (keys ch) then fld_size ch else fld_size d)"
  by (simp add: fld_size_def fld_update)

lemma fld_status_update [fld_update]: "distinct (keys ch) \<Longrightarrow>
    fld_status (dict_update d ch) = (if ''status'' \<in> set (keys ch) then fld_status ch else fld_status d)"
  by (simp add: fld_status_def fld_update)

lemma fld_title_update [fld_update]: "distinct (keys ch) \<Longrightarrow>
    fld_title (dict_update d ch) = (if ''title'' \<in> set (keys ch) then fld_title ch else fld_title d)"
  by (simp add: fld_title_def fld_update)

lemma fld_examples_update [fld_update]: "distinct (keys ch) \<Longrightarrow>
    fld_examples (dict_update d ch) = (if ''examples'' \<in> set (keys ch) then fld_examples ch else fld_examples d)"
  by (simp add: fld_examples_def map_of_dict_update_if)

lemma fld_touches_update [fld_update]: "distinct (keys ch) \<Longrightarrow>
    fld_touches (dict_update d ch) = (if ''touches'' \<in> set (keys ch) then fld_touches ch else fld_touches d)"
  by (simp add: fld_touches_def map_of_dict_update_if)

lemma strip_title_idem: "strip_title_backticks (strip_title_backticks s) = strip_title_backticks s"
  by (simp add: strip_title_backticks_def)

lemma read_ticket_title: "read_ticket cx d = Some t \<Longrightarrow> strip_title_backticks (tk_title t) = tk_title t"
proof -
  assume "read_ticket cx d = Some t"
  then have "fld_title d = Some (tk_title t)" by (simp add: read_ticket_iff)
  then obtain z where "tk_title t = strip_title_backticks z" by (auto simp: fld_title_def dest: sym)
  then show ?thesis by (simp add: strip_title_idem)
qed

lemma read_dump: "strip_title_backticks (tk_title t) = tk_title t \<Longrightarrow> read_ticket cx (dump_ticket t) = Some t"
  unfolding read_ticket_iff by (simp add: dump_ticket_def codec)

lemma dump_ticket_keys: "keys (dump_ticket t) = ''_id'' # ticket_fields"
  by (simp add: dump_ticket_def ticket_fields_def)

lemma ticket_fields_distinct: "distinct (''_id'' # ticket_fields)" "''id'' \<notin> set ticket_fields"
  "''type'' \<notin> set ticket_fields" "''_op'' \<notin> set ticket_fields" "''work_type'' \<in> set ticket_fields"
  by (simp_all add: ticket_fields_def)

lemma dump_ticket_migrate: "migrate_legacy_fields (dump_ticket t) = Some (dump_ticket t)"
  by (simp add: migrate_legacy_fields_def dump_ticket_def)

lemma dump_ticket_extra: "\<not> extra_forbidden (dump_ticket t)"
  unfolding extra_forbidden_def dump_ticket_keys by (simp add: list_all_iff)

lemma ticket_roundtrip: "ticket_valid t \<Longrightarrow> validate_ticket cx (dump_ticket t) = Some t"
  by (simp add: validate_ticket_def dump_ticket_migrate dump_ticket_extra ticket_valid_def read_dump)

lemma validate_ticket_valid: "validate_ticket cx d = Some t \<Longrightarrow> ticket_valid t"
  by (auto simp: validate_ticket_def ticket_valid_def read_ticket_title split: Option.bind_splits)

section \<open>Updating a record\<close>

text \<open>A record whose keys are those of the current model.\<close>

definition current_shape :: "doc \<Rightarrow> bool" where
  "current_shape d \<longleftrightarrow> set (keys d) = insert ''_id'' (set ticket_fields)"

lemma current_shape_dump: "current_shape (dump_ticket t)"
  unfolding current_shape_def dump_ticket_keys by simp

lemma current_shape_update: "current_shape d \<Longrightarrow> set (keys ch) \<subseteq> set ticket_fields \<Longrightarrow> current_shape (dict_update d ch)"
  unfolding current_shape_def set_keys_dict_update by blast

lemma has_key: "k \<in> set (keys d) \<Longrightarrow> map_of d k \<noteq> None"
  by (simp add: map_of_eq_None_iff)

lemma read_ticket_ctx:
  assumes "current_shape d"
  shows "read_ticket cx d = read_ticket cx' d"
proof -
  from assms have "map_of d ''_id'' \<noteq> None" "map_of d ''created_at'' \<noteq> None" "map_of d ''updated_at'' \<noteq> None"
    unfolding current_shape_def by (simp_all add: has_key ticket_fields_def del: set_map)
  then have "fld_id cx d = fld_id cx' d" "fld_time_or ''created_at'' (cx_now cx) d = fld_time_or ''created_at'' (cx_now cx') d"
    "fld_time_or ''updated_at'' (cx_now cx) d = fld_time_or ''updated_at'' (cx_now cx') d"
    by (auto simp: fld_id_def fld_time_or_def split: option.splits json.splits)
  then show ?thesis by (simp add: read_ticket_def)
qed

lemma fld_id_update: "''_id'' \<notin> set (keys ch) \<Longrightarrow> ''id'' \<notin> set (keys ch) \<Longrightarrow> distinct (keys ch) \<Longrightarrow>
    fld_id cx (dict_update d ch) = fld_id cx d"
  by (simp add: fld_id_def map_of_dict_update_if fld_update cong: option.case_cong)

lemma read_ticket_update:
  assumes "read_ticket cx d = Some p" "read_ticket cx (dict_update (dump_ticket p) ch) = Some m"
    and "distinct (keys ch)" "''_id'' \<notin> set (keys ch)" "''id'' \<notin> set (keys ch)"
  shows "read_ticket cx (dict_update d ch) = Some m"
proof -
  have dump: "read_ticket cx (dump_ticket p) = Some p" by (rule read_dump [OF read_ticket_title [OF assms(1)]])
  note upd = fld_update [OF assms(3)] fld_id_update [OF assms(4,5,3)]
  have "read_ticket cx (dict_update d ch) = read_ticket cx (dict_update (dump_ticket p) ch)"
    unfolding read_ticket_def
    by (simp only: upd assms(1) [unfolded read_ticket_iff] dump [unfolded read_ticket_iff])
  with assms(2) show ?thesis by simp
qed

lemma current_shape_migrate: "current_shape d \<Longrightarrow> migrate_legacy_fields d = Some d"
proof -
  assume "current_shape d"
  then have "''type'' \<notin> set (keys d)"
    unfolding current_shape_def using ticket_fields_distinct(3) by (auto simp del: set_map)
  then have "map_of d ''type'' = None" by (simp add: map_of_eq_None_iff)
  then show ?thesis by (simp add: migrate_legacy_fields_def)
qed

lemma current_shape_extra: "current_shape d \<Longrightarrow> \<not> extra_forbidden d"
  unfolding current_shape_def extra_forbidden_def list_all_iff by blast

lemma validate_current: "current_shape d \<Longrightarrow>
    validate_ticket cx d = do { t \<leftarrow> read_ticket cx d; guard (ticket_ok t); Some t }"
  by (simp add: validate_ticket_def current_shape_migrate current_shape_extra)

lemma validate_ctx: "current_shape d \<Longrightarrow> validate_ticket cx d = validate_ticket cx' d"
  using read_ticket_ctx [of d cx cx'] by (simp add: validate_current)

text \<open>
  The check that \<open>_write_update\<close> makes decides what will be read: if the merged dump of
  the old ticket validates, the stored record with the same changes validates, to the
  same ticket.
\<close>

lemma validate_ticket_Some:
  "validate_ticket cx d = Some t \<longleftrightarrow>
    (\<exists>e. migrate_legacy_fields d = Some e \<and> \<not> extra_forbidden e \<and> read_ticket cx e = Some t \<and> ticket_ok t)"
  by (auto simp: validate_ticket_def split: Option.bind_splits)

lemma merged_migrate: "migrate_legacy_fields (dict_update (dump_ticket p) ch) = Some (dict_update (dump_ticket p) ch)"
proof -
  have "''work_type'' \<in> set (keys (dict_update (dump_ticket p) ch))"
    unfolding set_keys_dict_update dump_ticket_keys using ticket_fields_distinct(5) by simp
  then have "map_of (dict_update (dump_ticket p) ch) ''work_type'' \<noteq> None" by (rule has_key)
  then show ?thesis unfolding migrate_legacy_fields_def by (rule if_not_P)
qed

lemma merged_keys:
  assumes "\<not> extra_forbidden (dict_update (dump_ticket p) ch)" "''_id'' \<notin> set (keys ch)"
  shows "set (keys ch) \<subseteq> set ticket_fields"
proof
  fix k assume k: "k \<in> set (keys ch)"
  have "''_id'' \<in> set (keys (dict_update (dump_ticket p) ch))"
    unfolding set_keys_dict_update dump_ticket_keys by simp
  then have id: "map_of (dict_update (dump_ticket p) ch) ''_id'' \<noteq> None" by (rule has_key)
  from k have km: "k \<in> set (keys (dict_update (dump_ticket p) ch))"
    unfolding set_keys_dict_update by (rule UnI2)
  from assms(1) have all: "\<forall>k \<in> set (keys (dict_update (dump_ticket p) ch)). k = ''_id'' \<or>
      k \<in> set ticket_fields \<or> k = ''id'' \<and> map_of (dict_update (dump_ticket p) ch) ''_id'' = None"
    by (simp only: extra_forbidden_def list_all_iff not_not)
  have "k = ''_id'' \<or> k \<in> set ticket_fields"
    using bspec [OF all km] id by (simp only: simp_thms not_None_eq)
  then show "k \<in> set ticket_fields"
  proof
    assume "k = ''_id''"
    with k assms(2) show ?thesis by simp
  qed
qed

lemma validate_update:
  assumes "current_shape d" "validate_ticket cx d = Some p"
    and m: "validate_ticket cx' (dict_update (dump_ticket p) ch) = Some m"
    and ch: "distinct (keys ch)" "''_id'' \<notin> set (keys ch)"
  shows "current_shape (dict_update d ch)" "validate_ticket cx'' (dict_update d ch) = Some m"
    "set (keys ch) \<subseteq> set ticket_fields"
proof -
  let ?M = "dict_update (dump_ticket p) ch"
  from m have ex: "\<not> extra_forbidden ?M" and r: "read_ticket cx' ?M = Some m" and ok: "ticket_ok m"
    unfolding validate_ticket_Some merged_migrate by simp_all
  from ex ch(2) show sub: "set (keys ch) \<subseteq> set ticket_fields" by (rule merged_keys)
  with assms(1) show cur: "current_shape (dict_update d ch)" by (rule current_shape_update)
  have id: "''id'' \<notin> set (keys ch)" using sub ticket_fields_distinct(2) by blast
  have M: "current_shape ?M" by (rule current_shape_update [OF current_shape_dump sub])
  have b: "read_ticket cx ?M = Some m" using r read_ticket_ctx [OF M, of cx cx'] by simp
  from assms(2) have a: "read_ticket cx d = Some p"
    by (simp add: validate_ticket_Some current_shape_migrate [OF assms(1)])
  have "read_ticket cx (dict_update d ch) = Some m" by (rule read_ticket_update [OF a b ch id])
  then have "validate_ticket cx (dict_update d ch) = Some m" using ok by (simp add: validate_current [OF cur])
  then show "validate_ticket cx'' (dict_update d ch) = Some m" using validate_ctx [OF cur, of cx cx''] by simp
qed

end
