(* ===== verification/ModelStore.thy ===== *)
theory ModelStore
  imports Codec
begin

text \<open>
  The abstract view of a typed collection: a map from ids to models.  A store all of
  whose documents are dumps of valid models represents such a map, and inserting,
  updating, reading and querying the store refine the operations of the map.  The
  lemmas are proved once for every model class, inside \<^verbatim>\<open>stored_model\<close>.
\<close>

definition model_inv ::
  "string list \<Rightarrow> ('m \<Rightarrow> doc) \<Rightarrow> ('m \<Rightarrow> string) \<Rightarrow> ('m \<Rightarrow> bool) \<Rightarrow> jsonl_store \<Rightarrow> bool" where
  "model_inv idx dump ident valid st \<longleftrightarrow> store_inv st \<and> st_index_fields st = idx \<and>
     (\<forall>i d. map_of (st_docs st) i = Some d \<longrightarrow>
        (\<exists>m. valid m \<and> d = dump m \<and> i = JStr (ident m)))"

definition models :: "(doc \<Rightarrow> 'm option) \<Rightarrow> jsonl_store \<Rightarrow> string \<Rightarrow> 'm option" where
  "models validate st i = Option.bind (map_of (st_docs st) (JStr i)) validate"

lemma model_inv_empty:
  "\<forall>xs. mset (ord xs) = mset xs \<Longrightarrow> model_inv idx dump ident valid (new_store ord [] idx cap)"
  using store_inv_empty [of ord idx cap] by (simp add: model_inv_def new_store_def)

lemma models_empty [simp]: "models validate (new_store ord fl idx cap) = Map.empty"
  by (simp add: models_def new_store_def fun_eq_iff)

context stored_model
begin

lemma inv_coll: "model_inv idx dump ident valid st \<Longrightarrow> coll_inv idx validate ident st"
  unfolding model_inv_def coll_inv_def using roundtrip by metis

lemma dump_inj: "valid m \<Longrightarrow> valid m' \<Longrightarrow> dump m = dump m' \<Longrightarrow> m = m'"
  by (metis option.inject roundtrip)

lemma models_Some:
  assumes "model_inv idx dump ident valid st"
  shows "models validate st i = Some m \<longleftrightarrow> map_of (st_docs st) (JStr i) = Some (dump m) \<and> valid m"
proof (cases "map_of (st_docs st) (JStr i)")
  case (Some d)
  with assms obtain m' where m': "valid m'" "d = dump m'" unfolding model_inv_def by blast
  with Some have "models validate st i = Some m'" by (simp add: models_def roundtrip)
  with Some m' show ?thesis by (auto dest: dump_inj)
qed (simp add: models_def)

lemma models_ident:
  assumes "model_inv idx dump ident valid st" "models validate st i = Some m"
  shows "ident m = i" "valid m"
proof -
  from assms have d: "map_of (st_docs st) (JStr i) = Some (dump m)" and v: "valid m"
    by (simp_all add: models_Some)
  with assms(1) obtain m' where m': "valid m'" "dump m = dump m'" "JStr i = JStr (ident m')"
    unfolding model_inv_def by blast
  with v have "m = m'" by (auto dest: dump_inj)
  with v m' show "ident m = i" "valid m" by simp_all
qed

lemma models_None: 
  assumes "model_inv idx dump ident valid st"
  shows "models validate st i = None \<longleftrightarrow> map_of (st_docs st) (JStr i) = None"
proof (cases "map_of (st_docs st) (JStr i)")
  case (Some d)
  with assms obtain m' where "valid m'" "d = dump m'" by (auto simp: model_inv_def)
  with Some show ?thesis by (simp add: models_def roundtrip)
qed (simp add: models_def)

lemma get_refines:
  assumes "model_inv idx dump ident valid st"
  shows "tc_get validate i st = Inr (models validate st i)"
proof (cases "models validate st i")
  case (Some m)
  with assms have "map_of (st_docs st) (JStr i) = Some (dump m)" "valid m" by (simp_all add: models_Some)
  with Some show ?thesis by (simp add: tc_get_def get_doc_def to_model_def roundtrip)
next
  case None
  moreover from this assms have "map_of (st_docs st) (JStr i) = None" by (simp add: models_None)
  ultimately show ?thesis by (simp add: tc_get_def get_doc_def)
qed

lemma inserted_inv:
  assumes inv: "model_inv idx dump ident valid st" and ok: "valid m"
    and new: "models validate st (ident m) = None"
    and st': "coll_inv idx validate ident st'" "st_docs st' = st_docs st @ [(JStr (ident m), dump m)]"
  shows "model_inv idx dump ident valid st'"
    "models validate st' = (models validate st)(ident m \<mapsto> m)"
proof -
  have "JStr (ident m) \<notin> set (keys (st_docs st))"
    using new inv by (simp add: models_None map_of_eq_None_iff)
  then have m: "map_of (st_docs st') = (map_of (st_docs st))(JStr (ident m) \<mapsto> dump m)"
    by (auto simp: st'(2) fun_eq_iff map_add_def map_of_eq_None_iff [symmetric] split: option.splits)
  then show "model_inv idx dump ident valid st'"
    using inv ok st'(1) by (auto simp: model_inv_def coll_inv_def)
  show "models validate st' = (models validate st)(ident m \<mapsto> m)"
    using m ok by (auto simp: models_def fun_eq_iff roundtrip)
qed

lemma insert_refines:
  assumes inv: "model_inv idx dump ident valid st" and ok: "valid m"
  shows "(\<exists>e. tc_insert dump fresh m st = (Inl e, st)) \<or>
    (\<exists>st'. tc_insert dump fresh m st = (Inr (JStr (ident m)), st') \<and>
       models validate st (ident m) = None \<and>
       model_inv idx dump ident valid st' \<and> models validate st' = (models validate st)(ident m \<mapsto> m) \<and>
       st_max_record_bytes st' = st_max_record_bytes st)"
  using insert_cases [OF inv_coll [OF inv] ok, of fresh]
proof (elim disjE exE conjE)
  fix st' assume a: "tc_insert dump fresh m st = (Inr (JStr (ident m)), st')"
    "coll_inv idx validate ident st'" "JStr (ident m) \<notin> set (keys (st_docs st))"
    "st_docs st' = st_docs st @ [(JStr (ident m), dump m)]" "st_max_record_bytes st' = st_max_record_bytes st"
  then have new: "models validate st (ident m) = None" using inv by (simp add: models_None map_of_eq_None_iff)
  from inserted_inv [OF inv ok new a(2,4)] a new show ?thesis by blast
qed simp

lemma insert_succeeds:
  assumes inv: "model_inv idx dump ident valid st" and ok: "valid m"
    and new: "models validate st (ident m) = None"
    and fits: "dumps_len (JObj (insert_record fresh (dump m))) \<le> st_max_record_bytes st"
  obtains st' where "tc_insert dump fresh m st = (Inr (JStr (ident m)), st')"
    "model_inv idx dump ident valid st'" "models validate st' = (models validate st)(ident m \<mapsto> m)"
    "st_max_record_bytes st' = st_max_record_bytes st"
proof -
  have "JStr (ident m) \<notin> set (keys (st_docs st))"
    using new inv by (simp add: models_None map_of_eq_None_iff)
  from insert_reads_back [OF inv_coll [OF inv] ok this fits] inserted_inv [OF inv ok new] that
  show thesis by metis
qed

lemma update_missing:
  "model_inv idx dump ident valid st \<Longrightarrow> models validate st i = None \<Longrightarrow>
     update_doc (JStr i) ch st = (Inr False, st)"
  by (simp add: models_None update_doc_none)

lemma update_refines:
  assumes inv: "model_inv idx dump ident valid st" and cur: "models validate st i = Some m"
    and ch: "updatable st ch" and new: "changed_doc (dump m) ch = dump m'"
    and ok: "valid m'" and id: "ident m' = i"
  shows "update_doc (JStr i) ch st = (Inl RecordTooLargeError, st) \<or>
    (\<exists>st'. update_doc (JStr i) ch st = (Inr True, st') \<and> model_inv idx dump ident valid st' \<and>
       models validate st' = (models validate st)(i \<mapsto> m') \<and>
       st_max_record_bytes st' = st_max_record_bytes st)"
proof (cases "dumps_len (JObj (update_record (JStr i) ch)) \<le> st_max_record_bytes st")
  case False
  with inv cur show ?thesis by (simp add: models_Some update_doc_too_large)
next
  case True
  from inv cur have d: "map_of (st_docs st) (JStr i) = Some (dump m)" by (simp add: models_Some)
  from inv have sinv: "store_inv st" by (simp add: model_inv_def)
  obtain st' where st': "update_doc (JStr i) ch st = (Inr True, st')" "store_inv st'"
    "st_docs st' = AList.update (JStr i) (dump m') (st_docs st)"
    "st_index_fields st' = st_index_fields st" "st_max_record_bytes st' = st_max_record_bytes st"
    using update_doc_ok [OF sinv d ch True] new by metis
  then have "model_inv idx dump ident valid st'"
    using inv ok id by (auto simp: model_inv_def map_of_update_fun)
  moreover have "models validate st' = (models validate st)(i \<mapsto> m')"
    using st'(3) ok by (auto simp: models_def map_of_update_fun fun_eq_iff roundtrip)
  ultimately show ?thesis using st' by blast
qed

lemma docs_are_dumps:
  assumes inv: "model_inv idx dump ident valid st"
  shows "d \<in> set (map snd (st_docs st)) \<longleftrightarrow> (\<exists>i m. models validate st i = Some m \<and> d = dump m)"
proof -
  have "distinct (keys (st_docs st))" using inv by (simp add: model_inv_def store_inv_def)
  then have "d \<in> set (map snd (st_docs st)) \<longleftrightarrow> (\<exists>k. map_of (st_docs st) k = Some d)"
    by (rule in_values_iff)
  also have "\<dots> \<longleftrightarrow> (\<exists>i m. models validate st i = Some m \<and> d = dump m)"
  proof
    assume "\<exists>k. map_of (st_docs st) k = Some d"
    then obtain k where k: "map_of (st_docs st) k = Some d" ..
    with inv obtain m where "valid m" "d = dump m" "k = JStr (ident m)" by (auto simp: model_inv_def)
    with k inv have "models validate st (ident m) = Some m \<and> d = dump m" by (simp add: models_Some)
    then show "\<exists>i m. models validate st i = Some m \<and> d = dump m" by blast
  qed (use inv in \<open>auto simp: models_Some\<close>)
  finally show ?thesis .
qed

lemma validate_docs:
  assumes inv: "model_inv idx dump ident valid st" and sub: "set ds \<subseteq> set (map snd (st_docs st))"
  obtains ms where "map_opt validate ds = Some ms" "ds = map dump ms" "\<forall>m \<in> set ms. valid m"
proof -
  have "\<exists>ms. map_opt validate ds = Some ms \<and> ds = map dump ms \<and> (\<forall>m \<in> set ms. valid m)"
    using sub
  proof (induction ds)
    case (Cons d ds)
    then have "d \<in> set (map snd (st_docs st))" by simp
    with docs_are_dumps [OF inv] obtain i m where m: "models validate st i = Some m" "d = dump m" by blast
    then have v: "valid m" using models_ident [OF inv] by blast
    from Cons obtain ms where ms: "map_opt validate ds = Some ms" "ds = map dump ms" "\<forall>m \<in> set ms. valid m"
      by auto
    have "map_opt validate (d # ds) = Some (m # ms) \<and> d # ds = map dump (m # ms) \<and> (\<forall>m \<in> set (m # ms). valid m)"
      using m v ms by (simp add: roundtrip)
    then show ?case by (rule exI)
  qed simp
  then show thesis using that by blast
qed

lemma distinct_idents:
  assumes inv: "model_inv idx dump ident valid st"
    and ms: "mset (map dump ms) = mset (filter P (map snd (st_docs st)))"
  shows "distinct (map ident ms)"
proof -
  let ?g = "\<lambda>d. map_of d ''_id''"
  have dist: "distinct (keys (st_docs st))" using inv by (simp add: model_inv_def store_inv_def)
  have "?g d = Some i" if "(i, d) \<in> set (st_docs st)" for i d
  proof -
    from that dist have "map_of (st_docs st) i = Some d" by simp
    with inv obtain m where "d = dump m" "i = JStr (ident m)" unfolding model_inv_def by blast
    then show ?thesis by (simp add: dump_id)
  qed
  then have eq: "map ?g (map snd (st_docs st)) = map Some (keys (st_docs st))" by auto
  have "distinct (map Some (keys (st_docs st)))" using dist by (subst distinct_map) simp
  then have "distinct (map ?g (map snd (st_docs st)))" unfolding eq .
  then have "distinct (map ?g (filter P (map snd (st_docs st))))" by (rule distinct_map_filter)
  moreover have "mset (map ?g (map dump ms)) = mset (map ?g (filter P (map snd (st_docs st))))"
    unfolding mset_map [of ?g] ms ..
  ultimately have "distinct (map ?g (map dump ms))" by (metis mset_eq_imp_distinct_iff)
  then show ?thesis by (simp add: dump_id o_def distinct_map inj_on_def)
qed

lemma find_where_refines:
  assumes inv: "model_inv idx dump ident valid st" and s: "searchable st kw"
  obtains ms where "tc_find_where validate kw st = Inr ms"
    "find_where kw st = Inr (map dump ms)"
    "set ms = {m. \<exists>i. models validate st i = Some m \<and> matches_all kw (dump m)}"
    "distinct (map ident ms)"
proof -
  from inv have sinv: "store_inv st" by (simp add: model_inv_def)
  obtain ds where ds: "find_where kw st = Inr ds"
    "mset ds = mset (filter (matches_all kw) (map snd (st_docs st)))"
    by (rule find_where_ok [OF sinv s])
  have sd: "set ds = {d \<in> set (map snd (st_docs st)). matches_all kw d}"
    using mset_eq_setD [OF ds(2)] by auto
  then have "set ds \<subseteq> set (map snd (st_docs st))" by auto
  with inv obtain ms where ms: "map_opt validate ds = Some ms" "ds = map dump ms" "\<forall>m \<in> set ms. valid m"
    by (rule validate_docs)
  have "m \<in> set ms \<longleftrightarrow> (\<exists>i. models validate st i = Some m \<and> matches_all kw (dump m))" for m
  proof
    assume m: "m \<in> set ms"
    with ms(2) have "dump m \<in> set ds" by simp
    with sd have "dump m \<in> set (map snd (st_docs st))" "matches_all kw (dump m)" by auto
    with docs_are_dumps [OF inv] obtain i m' where m': "models validate st i = Some m'" "dump m = dump m'" by blast
    from m ms(3) have "valid m" by blast
    with m' models_ident(2) [OF inv m'(1)] have "models validate st i = Some m" by (auto dest: dump_inj)
    with \<open>matches_all kw (dump m)\<close> show "\<exists>i. models validate st i = Some m \<and> matches_all kw (dump m)" by blast
  next
    assume "\<exists>i. models validate st i = Some m \<and> matches_all kw (dump m)"
    then obtain i where i: "models validate st i = Some m" "matches_all kw (dump m)" by blast
    with docs_are_dumps [OF inv] sd have "dump m \<in> set ds" by blast
    with ms(2) obtain m' where m': "m' \<in> set ms" "dump m = dump m'" by auto
    with ms(3) have "valid m'" by blast
    with m' models_ident(2) [OF inv i(1)] have "m = m'" by (auto dest: dump_inj)
    with m' show "m \<in> set ms" by simp
  qed
  then have "set ms = {m. \<exists>i. models validate st i = Some m \<and> matches_all kw (dump m)}" by blast
  with ds ms distinct_idents [OF inv, of ms "matches_all kw"] show thesis
    by (intro that [of ms]) (simp_all add: tc_find_where_def to_models_def)
qed

lemma find_refines:
  assumes inv: "model_inv idx dump ident valid st"
  obtains ms where "to_models validate (find_docs None st) = Inr ms" "map dump ms = map snd (st_docs st)"
    "set ms = {m. \<exists>i. models validate st i = Some m}"
proof -
  obtain ms where ms: "map_opt validate (map snd (st_docs st)) = Some ms" "map snd (st_docs st) = map dump ms"
    "\<forall>m \<in> set ms. valid m"
    by (rule validate_docs [OF inv subset_refl])
  have "m \<in> set ms \<longleftrightarrow> (\<exists>i. models validate st i = Some m)" for m
  proof
    assume m: "m \<in> set ms"
    then have "dump m \<in> set (map snd (st_docs st))" unfolding ms(2) by simp
    with docs_are_dumps [OF inv] obtain i m' where m': "models validate st i = Some m'" "dump m = dump m'" by blast
    from m ms(3) have "valid m" by blast
    with m' models_ident(2) [OF inv m'(1)] show "\<exists>i. models validate st i = Some m" by (auto dest: dump_inj)
  next
    assume "\<exists>i. models validate st i = Some m"
    then obtain i where i: "models validate st i = Some m" ..
    with docs_are_dumps [OF inv] have "dump m \<in> set (map snd (st_docs st))" by blast
    with ms(2) obtain m' where m': "m' \<in> set ms" "dump m = dump m'" by auto
    with ms(3) have "valid m'" by blast
    with m' models_ident(2) [OF inv i] have "m = m'" by (auto dest: dump_inj)
    with m' show "m \<in> set ms" by simp
  qed
  then have "set ms = {m. \<exists>i. models validate st i = Some m}" by blast
  with ms show thesis by (intro that [of ms]) (simp_all add: to_models_def find_docs_def)
qed

end

section \<open>Collections whose documents only validate\<close>

lemma coll_models:
  assumes "coll_inv idx validate ident st" "set ds \<subseteq> set (map snd (st_docs st))"
  obtains ms where "to_models validate ds = Inr ms" "map_opt validate ds = Some ms"
proof -
  have "distinct (keys (st_docs st))" using coll_invD(1) [OF assms(1)] by (simp add: store_inv_def)
  then have "\<exists>m. validate d = Some m" if "d \<in> set ds" for d
    using that assms(2) coll_invD(3) [OF assms(1)] in_values_iff [of "st_docs st" d] by blast
  then have "map_opt validate ds \<noteq> None" by (auto simp: map_opt_None_iff)
  then obtain ms where "map_opt validate ds = Some ms" by blast
  then show thesis by (intro that) (simp_all add: to_models_def)
qed

lemma coll_find_where:
  assumes inv: "coll_inv idx validate ident st" and s: "searchable st kw"
  obtains ms where "tc_find_where validate kw st = Inr ms"
    "set ms = {m. \<exists>i d. map_of (st_docs st) i = Some d \<and> matches_all kw d \<and> validate d = Some m}"
proof -
  obtain ds where ds: "find_where kw st = Inr ds"
    "set ds = {d. (\<exists>i. map_of (st_docs st) i = Some d) \<and> matches_all kw d}"
    by (rule find_where_set [OF coll_invD(1) [OF inv] s])
  have dist: "distinct (keys (st_docs st))" using coll_invD(1) [OF inv] by (simp add: store_inv_def)
  have "set ds \<subseteq> set (map snd (st_docs st))"
    using in_values_iff [OF dist] unfolding ds(2) by blast
  then obtain ms where ms: "to_models validate ds = Inr ms" "map_opt validate ds = Some ms"
    by (rule coll_models [OF inv])
  have "set ms = {m. \<exists>i d. map_of (st_docs st) i = Some d \<and> matches_all kw d \<and> validate d = Some m}"
    unfolding map_opt_set [OF ms(2)] ds(2) by blast
  with ds(1) ms(1) show thesis by (intro that [of ms]) (simp_all add: tc_find_where_def)
qed

lemma coll_find:
  assumes inv: "coll_inv idx validate ident st"
  obtains ms where "to_models validate (find_docs None st) = Inr ms"
    "set ms = {m. \<exists>i d. map_of (st_docs st) i = Some d \<and> validate d = Some m}"
proof -
  have dist: "distinct (keys (st_docs st))" using coll_invD(1) [OF inv] by (simp add: store_inv_def)
  obtain ms where ms: "to_models validate (map snd (st_docs st)) = Inr ms"
    "map_opt validate (map snd (st_docs st)) = Some ms"
    by (rule coll_models [OF inv subset_refl])
  have "set ms = {m. \<exists>i d. map_of (st_docs st) i = Some d \<and> validate d = Some m}"
    unfolding map_opt_set [OF ms(2)] using in_values_iff [OF dist] by blast
  with ms(1) show thesis by (intro that [of ms]) (simp_all add: find_docs_def)
qed

end
