(* ===== verification/TicketStore.thy ===== *)
theory TicketStore
  imports Ticket ModelStore
begin

text \<open>
  The ticket store of \<open>jig/store/tickets.py\<close>: creation with \<open>jig-N\<close> keys, the
  operator approval gate, validated updates and the queries of the dispatcher.
\<close>

section \<open>State\<close>

text \<open>
  The collection, the content of the \<open>issue_seq\<close> file (\<open>None\<close> when it is missing)
  and whether the two callbacks are registered.  A callback runs after the write and
  what it raises is logged, so its call is recorded and nothing else.
\<close>

datatype ticket_event = TicketCreated ticket | StatusChanged string ticket_status ticket_status

record ticket_store =
  ts_coll :: jsonl_store
  ts_seq :: "nat option"
  ts_on_create :: bool
  ts_on_status :: bool
  ts_events :: "ticket_event list"

definition ticket_index :: "string list" where
  "ticket_index = [''work_type'', ''status'', ''assignee'', ''parent_id'']"

definition new_ticket_store :: "(json list \<Rightarrow> json list) \<Rightarrow> line list \<Rightarrow> nat option \<Rightarrow> bool \<Rightarrow> bool \<Rightarrow> ticket_store" where
  "new_ticket_store ord fl seq oc os =
     \<lparr>ts_coll = new_store ord fl ticket_index default_max_record_bytes, ts_seq = seq,
      ts_on_create = oc, ts_on_status = os, ts_events = []\<rparr>"

type_synonym draws = "doc \<Rightarrow> ctx"

definition ticket_get :: "draws \<Rightarrow> string \<Rightarrow> ticket_store \<Rightarrow> ticket option result" where
  "ticket_get cx i st = tc_get (\<lambda>d. validate_ticket (cx d) d) i (ts_coll st)"

definition list_all_tickets :: "draws \<Rightarrow> ticket_store \<Rightarrow> ticket list result" where
  "list_all_tickets cx st = tc_find (\<lambda>d. validate_ticket (cx d) d) None (ts_coll st)"

definition ticket_find_where :: "draws \<Rightarrow> doc \<Rightarrow> ticket_store \<Rightarrow> ticket list result" where
  "ticket_find_where cx kw st = tc_find_where (\<lambda>d. validate_ticket (cx d) d) kw (ts_coll st)"

section \<open>Creation\<close>

definition read_seq :: "ticket_store \<Rightarrow> nat" where
  "read_seq st = the_default 0 (ts_seq st)"

definition issue_key :: "nat \<Rightarrow> string" where
  "issue_key n = ''jig-'' @ show_nat n"

definition ticket_create :: "string \<Rightarrow> ticket \<Rightarrow> bool \<Rightarrow> ticket_store \<Rightarrow> json result \<times> ticket_store" where
  "ticket_create fresh t0 fire st0 =
    (let (t, st1) = (if tk_key t0 = [] then
            (let next_seq = read_seq st0 + 1
             in (t0\<lparr>tk_key := issue_key next_seq\<rparr>, st0\<lparr>ts_seq := Some next_seq\<rparr>))
          else (t0, st0))
     in case tc_insert dump_ticket fresh t (ts_coll st1) of
          (Inl e, c) \<Rightarrow>
            (if e = ValueError ''already exists'' then Inl (ValueError ''ticket already exists'') else Inl e,
             st1\<lparr>ts_coll := c\<rparr>)
        | (Inr i, c) \<Rightarrow>
            (Inr i, st1\<lparr>ts_coll := c,
               ts_events := ts_events st1 @ (if fire \<and> ts_on_create st1 then [TicketCreated t] else [])\<rparr>))"

section \<open>Updates\<close>

definition write_update :: "draws \<Rightarrow> int \<Rightarrow> string \<Rightarrow> doc \<Rightarrow> ticket_store \<Rightarrow> ticket result \<times> ticket_store" where
  "write_update cx now i flds0 st = (case ticket_get cx i st of
     Inl e \<Rightarrow> (Inl e, st)
   | Inr None \<Rightarrow> (Inl (KeyError ''ticket''), st)
   | Inr (Some prev) \<Rightarrow>
       (let flds = setdefault ''updated_at'' (JTime now) flds0;
            merged = dict_update (dump_ticket prev) flds
        in case validate_ticket (cx merged) merged of
             None \<Rightarrow> (Inl (ValidationError ''ticket''), st)
           | Some _ \<Rightarrow> (case update_doc (JStr i) flds (ts_coll st) of
               (Inl e, c) \<Rightarrow> (Inl e, st\<lparr>ts_coll := c\<rparr>)
             | (Inr _, c) \<Rightarrow>
                 (let st1 = st\<lparr>ts_coll := c\<rparr> in case ticket_get cx i st1 of
                    Inl e \<Rightarrow> (Inl e, st1)
                  | Inr None \<Rightarrow> (Inl (RuntimeError ''vanished''), st1)
                  | Inr (Some loaded) \<Rightarrow>
                      (Inr loaded, st1\<lparr>ts_events := ts_events st1 @
                         (if ts_on_status st1 \<and> map_of flds ''status'' \<noteq> None \<and> tk_status loaded \<noteq> tk_status prev
                          then [StatusChanged i (tk_status prev) (tk_status loaded)] else [])\<rparr>)))))"

definition ticket_approve :: "draws \<Rightarrow> int \<Rightarrow> string \<Rightarrow> ticket_store \<Rightarrow> ticket result \<times> ticket_store" where
  "ticket_approve cx now i st = (case ticket_get cx i st of
     Inl e \<Rightarrow> (Inl e, st)
   | Inr None \<Rightarrow> (Inl (KeyError ''ticket''), st)
   | Inr (Some prev) \<Rightarrow>
       if tk_status prev \<noteq> StProposed then (Inl (ValueError ''approve requires PROPOSED status''), st)
       else write_update cx now i [(''status'', JStr (show_status StOpen))] st)"

definition ticket_update :: "draws \<Rightarrow> int \<Rightarrow> string \<Rightarrow> doc \<Rightarrow> ticket_store \<Rightarrow> ticket result \<times> ticket_store" where
  "ticket_update cx now i flds st = (case ticket_get cx i st of
     Inl e \<Rightarrow> (Inl e, st)
   | Inr None \<Rightarrow> (Inl (KeyError ''ticket''), st)
   | Inr (Some prev) \<Rightarrow>
       if map_of flds ''status'' = Some (JStr (show_status StOpen)) \<and> tk_status prev = StProposed
       then (Inl (ValueError ''PROPOSED -> OPEN requires approval''), st)
       else write_update cx now i flds st)"

definition update_status :: "draws \<Rightarrow> int \<Rightarrow> string \<Rightarrow> ticket_status \<Rightarrow> ticket_store \<Rightarrow> ticket result \<times> ticket_store" where
  "update_status cx now i s st = ticket_update cx now i [(''status'', JStr (show_status s))] st"

section \<open>Queries\<close>

definition resolve_ref :: "draws \<Rightarrow> string \<Rightarrow> ticket_store \<Rightarrow> ticket option result" where
  "resolve_ref cx ref st = (case ticket_get cx ref st of
     Inl e \<Rightarrow> Inl e
   | Inr (Some t) \<Rightarrow> Inr (Some t)
   | Inr None \<Rightarrow> (case tc_find (\<lambda>d. validate_ticket (cx d) d) (Some (\<lambda>t. tk_key t = ref)) (ts_coll st) of
       Inl e \<Rightarrow> Inl e
     | Inr [] \<Rightarrow> Inr None
     | Inr (t # _) \<Rightarrow> Inr (Some t)))"

definition find_by_assignee :: "draws \<Rightarrow> string \<Rightarrow> ticket_store \<Rightarrow> ticket list result" where
  "find_by_assignee cx a st = ticket_find_where cx [(''assignee'', JStr a)] st"

definition find_by_parent :: "draws \<Rightarrow> string \<Rightarrow> ticket_store \<Rightarrow> ticket list result" where
  "find_by_parent cx p st = ticket_find_where cx [(''parent_id'', JStr p)] st"

text \<open>
  \<open>TOP_LEVEL_WORK_TYPES\<close> is a set: \<open>wts\<close> lists its elements in the order it iterates.
\<close>

definition of_kind_and_status ::
  "draws \<Rightarrow> ticket_store \<Rightarrow> work_type \<Rightarrow> ticket_status \<Rightarrow> ticket list result" where
  "of_kind_and_status cx st wt s = (case ticket_find_where cx
       [(''work_type'', JStr (show_work_type wt)), (''status'', JStr (show_status s))] st of
     Inl e \<Rightarrow> Inl e
   | Inr ts \<Rightarrow> Inr (filter (\<lambda>t. tk_workflow t \<noteq> ''thread'') ts))"

definition concat_res :: "'a list list result \<Rightarrow> 'a list result" where
  "concat_res r = map_sum id concat r"

definition find_in_progress_top_level :: "draws \<Rightarrow> work_type list \<Rightarrow> ticket_store \<Rightarrow> ticket list result" where
  "find_in_progress_top_level cx wts st =
     concat_res (map_res (\<lambda>(wt, s). of_kind_and_status cx st wt s)
       (concat (map (\<lambda>wt. [(wt, StInProgress), (wt, StNeedsInfo)]) wts)))"

fun all_resolved :: "draws \<Rightarrow> ticket_store \<Rightarrow> string list \<Rightarrow> bool result" where
  "all_resolved cx st [] = Inr True"
| "all_resolved cx st (i # is) = (case ticket_get cx i st of
     Inl e \<Rightarrow> Inl e
   | Inr None \<Rightarrow> Inr False
   | Inr (Some dep) \<Rightarrow> if tk_status dep \<noteq> StResolved then Inr False else all_resolved cx st is)"

fun ready_of :: "draws \<Rightarrow> ticket_store \<Rightarrow> ticket list \<Rightarrow> ticket list result" where
  "ready_of cx st [] = Inr []"
| "ready_of cx st (t # ts) = (case (if tk_blocked_by t = [] then Inr True else all_resolved cx st (tk_blocked_by t)) of
     Inl e \<Rightarrow> Inl e
   | Inr b \<Rightarrow> (case ready_of cx st ts of
       Inl e \<Rightarrow> Inl e | Inr rs \<Rightarrow> Inr (if b then t # rs else rs)))"

definition find_ready :: "draws \<Rightarrow> work_type list \<Rightarrow> ticket_store \<Rightarrow> ticket list result" where
  "find_ready cx wts st = (case concat_res (map_res (\<lambda>wt. of_kind_and_status cx st wt StOpen) wts) of
     Inl e \<Rightarrow> Inl e
   | Inr candidates \<Rightarrow> ready_of cx st candidates)"

section \<open>Invariant\<close>

definition no_draws :: draws where
  "no_draws = (\<lambda>_. \<lparr>cx_now = 0, cx_uuid = \<lambda>_. []\<rparr>)"

text \<open>
  Every stored record has the shape of the current model and validates, to a ticket
  with the id it is stored under.
\<close>

definition ticket_inv :: "jsonl_store \<Rightarrow> bool" where
  "ticket_inv st \<longleftrightarrow> coll_inv ticket_index (\<lambda>d. validate_ticket (no_draws d) d) tk_id st \<and>
     (\<forall>i d. map_of (st_docs st) i = Some d \<longrightarrow> current_shape d)"

definition ticket_map :: "ticket_store \<Rightarrow> string \<Rightarrow> ticket option" where
  "ticket_map st = models (\<lambda>d. validate_ticket (no_draws d) d) (ts_coll st)"

interpretation tk: stored_model ticket_index dump_ticket "\<lambda>d. validate_ticket (cx d) d" tk_id ticket_valid for cx
proof
  show "ticket_valid m \<Longrightarrow> validate_ticket (cx (dump_ticket m)) (dump_ticket m) = Some m" for m cx
    by (rule ticket_roundtrip)
  show "map_of (dump_ticket m) ''_id'' = Some (JStr (tk_id m))" for m
    by (simp add: dump_ticket_def)
  show "distinct (keys (dump_ticket m))" for m
    unfolding dump_ticket_keys by (rule ticket_fields_distinct)
  show "''_op'' \<notin> set (keys (dump_ticket m))" for m
    unfolding dump_ticket_keys using ticket_fields_distinct(4) by simp
  show "f \<in> set ticket_index \<Longrightarrow> map_of (dump_ticket m) f = Some v \<Longrightarrow> hashable v" for f m v
    by (auto simp: ticket_index_def dump_ticket_def)
qed

section \<open>Refinement\<close>

lemma ticket_inv_coll: "ticket_inv st \<Longrightarrow> coll_inv ticket_index (\<lambda>d. validate_ticket (cx d) d) tk_id st"
  unfolding ticket_inv_def coll_inv_def using validate_ctx by metis

lemma ticket_doc:
  assumes "ticket_inv st" "map_of (st_docs st) (JStr i) = Some d"
  obtains t where "current_shape d" "\<forall>cx. validate_ticket cx d = Some t" "tk_id t = i" "ticket_valid t"
proof -
  from assms have cur: "current_shape d" by (simp add: ticket_inv_def)
  from assms coll_invD(3) [of ticket_index] obtain t where t: "validate_ticket (no_draws d) d = Some t" "i = tk_id t"
    unfolding ticket_inv_def by blast
  have "validate_ticket cx d = Some t" for cx using t(1) validate_ctx [OF cur, of cx "no_draws d"] by simp
  with cur t show thesis by (intro that [of t]) (auto dest: validate_ticket_valid)
qed

lemma ticket_get_refines:
  assumes "ticket_inv (ts_coll st)"
  shows "ticket_get cx i st = Inr (ticket_map st i)"
proof (cases "map_of (st_docs (ts_coll st)) (JStr i)")
  case (Some d)
  obtain t where "\<forall>cx. validate_ticket cx d = Some t"
    by (rule ticket_doc [OF assms Some]) blast
  with Some show ?thesis
    by (simp add: ticket_get_def tc_get_def get_doc_def to_model_def ticket_map_def models_def)
qed (simp add: ticket_get_def tc_get_def get_doc_def ticket_map_def models_def)

lemma ticket_map_Some:
  assumes "ticket_inv (ts_coll st)" "ticket_map st i = Some t"
  shows "tk_id t = i" "ticket_valid t"
proof -
  from assms(2) obtain d where d: "map_of (st_docs (ts_coll st)) (JStr i) = Some d"
    "validate_ticket (no_draws d) d = Some t"
    by (cases "map_of (st_docs (ts_coll st)) (JStr i)") (auto simp: ticket_map_def models_def)
  obtain t' where "\<forall>cx. validate_ticket cx d = Some t'" "tk_id t' = i" "ticket_valid t'"
    by (rule ticket_doc [OF assms(1) d(1)]) blast
  with d(2) show "tk_id t = i" "ticket_valid t" by simp_all
qed

lemma ticket_map_doc:
  assumes "ticket_inv (ts_coll st)"
  shows "ticket_map st i = Some t \<longleftrightarrow>
    (\<exists>d. map_of (st_docs (ts_coll st)) (JStr i) = Some d \<and> validate_ticket cx d = Some t)"
proof (cases "map_of (st_docs (ts_coll st)) (JStr i)")
  case (Some d)
  obtain t' where "\<forall>cx. validate_ticket cx d = Some t'"
    by (rule ticket_doc [OF assms Some]) blast
  with Some show ?thesis by (simp add: ticket_map_def models_def)
qed (simp add: ticket_map_def models_def)

lemma ticket_inv_empty:
  "\<forall>xs. mset (ord xs) = mset xs \<Longrightarrow> ticket_inv (ts_coll (new_ticket_store ord [] seq oc os)) \<and>
     ticket_map (new_ticket_store ord [] seq oc os) = Map.empty"
  by (simp add: new_ticket_store_def ticket_inv_def coll_inv_empty ticket_map_def) (simp add: new_store_def)

text \<open>What is stored is what was validated.\<close>

lemma create_refines:
  assumes inv: "ticket_inv (ts_coll st)" and ok: "ticket_valid t"
  obtains e where "ticket_create fresh t fire st = (Inl e, st\<lparr>ts_seq := ts_seq (snd (ticket_create fresh t fire st))\<rparr>)"
  | st' t' where "ticket_create fresh t fire st = (Inr (JStr (tk_id t)), st')" "ticket_inv (ts_coll st')"
      "t' = (if tk_key t = [] then t\<lparr>tk_key := issue_key (read_seq st + 1)\<rparr> else t)"
      "ticket_map st (tk_id t) = None" "ticket_map st' = (ticket_map st)(tk_id t \<mapsto> t')"
      "read_seq st' = (if tk_key t = [] then read_seq st + 1 else read_seq st)"
proof -
  define t' where "t' = (if tk_key t = [] then t\<lparr>tk_key := issue_key (read_seq st + 1)\<rparr> else t)"
  define st1 where "st1 = (if tk_key t = [] then st\<lparr>ts_seq := Some (read_seq st + 1)\<rparr> else st)"
  have st1: "ts_coll st1 = ts_coll st" "st1 = st\<lparr>ts_seq := ts_seq st1\<rparr>" by (simp_all add: st1_def)
  have ok': "ticket_valid t'" "tk_id t' = tk_id t"
    using ok by (simp_all add: t'_def ticket_valid_def ticket_ok_def has_required_ac_def)
  have pair: "(if tk_key t = [] then
            (let next_seq = read_seq st + 1
             in (t\<lparr>tk_key := issue_key next_seq\<rparr>, st\<lparr>ts_seq := Some next_seq\<rparr>))
          else (t, st)) = (t', st1)"
    by (simp add: t'_def st1_def)
  have cr: "ticket_create fresh t fire st = (case tc_insert dump_ticket fresh t' (ts_coll st) of
      (Inl e, c) \<Rightarrow> (if e = ValueError ''already exists'' then Inl (ValueError ''ticket already exists'') else Inl e,
          st1\<lparr>ts_coll := c\<rparr>)
    | (Inr i, c) \<Rightarrow> (Inr i, st1\<lparr>ts_coll := c,
          ts_events := ts_events st1 @ (if fire \<and> ts_on_create st1 then [TicketCreated t'] else [])\<rparr>))"
    unfolding ticket_create_def Let_def pair [unfolded Let_def] by (simp add: st1(1))
  from tk.insert_cases [OF ticket_inv_coll [OF inv] ok'(1), of fresh no_draws]
  show thesis
  proof (elim disjE exE conjE)
    fix e assume e: "tc_insert dump_ticket fresh t' (ts_coll st) = (Inl e, ts_coll st)"
    then have eq: "ticket_create fresh t fire st =
        (if e = ValueError ''already exists'' then Inl (ValueError ''ticket already exists'') else Inl e, st1)"
      unfolding cr using st1 by simp
    show thesis
      by (rule that(1) [of "if e = ValueError ''already exists'' then ValueError ''ticket already exists'' else e"])
        (simp only: eq snd_conv st1(2) [symmetric] if_distrib [of Inl])
  next
    fix c assume c: "tc_insert dump_ticket fresh t' (ts_coll st) = (Inr (JStr (tk_id t')), c)"
      "coll_inv ticket_index (\<lambda>d. validate_ticket (no_draws d) d) tk_id c"
      "JStr (tk_id t') \<notin> set (keys (st_docs (ts_coll st)))"
      "st_docs c = st_docs (ts_coll st) @ [(JStr (tk_id t'), dump_ticket t')]"
    let ?st' = "st1\<lparr>ts_coll := c,
          ts_events := ts_events st1 @ (if fire \<and> ts_on_create st1 then [TicketCreated t'] else [])\<rparr>"
    have m: "map_of (st_docs c) = (map_of (st_docs (ts_coll st)))(JStr (tk_id t') \<mapsto> dump_ticket t')"
      using c(3,4) by (auto simp: fun_eq_iff map_add_def map_of_eq_None_iff [symmetric] split: option.splits)
    have inv': "ticket_inv c"
      using inv c(2) current_shape_dump by (auto simp: ticket_inv_def m)
    have map': "ticket_map ?st' = (ticket_map st)(tk_id t \<mapsto> t')"
      using ok' by (auto simp: fun_eq_iff ticket_map_def models_def m ticket_roundtrip)
    have none: "ticket_map st (tk_id t) = None"
      using c(3) ok'(2) by (simp add: ticket_map_def models_def map_of_eq_None_iff [symmetric])
    show thesis
      by (rule that(2) [of ?st' t'])
        (use c(1) cr ok'(2) inv' none map' in \<open>simp_all add: t'_def st1_def read_seq_def\<close>)
  qed
qed

lemma indexed_hashable:
  assumes "read_ticket cx (dict_update d ch) = Some m" "distinct (keys ch)" "f \<in> set ticket_index" "map_of ch f = Some v"
  shows "hashable v"
proof -
  have "map_of (dict_update d ch) f = Some v" using assms(2,4) by (simp add: map_of_dict_update)
  moreover have "fld_str ''work_type'' (dict_update d ch) \<noteq> None" "fld_str_or ''status'' ''open'' (dict_update d ch) \<noteq> None"
    "fld_opt ''assignee'' (dict_update d ch) \<noteq> None" "fld_opt ''parent_id'' (dict_update d ch) \<noteq> None"
  proof -
    have "fld_work_type (dict_update d ch) = Some (tk_work_type m)" "fld_status (dict_update d ch) = Some (tk_status m)"
      "fld_opt ''assignee'' (dict_update d ch) = Some (tk_assignee m)"
      "fld_opt ''parent_id'' (dict_update d ch) = Some (tk_parent_id m)"
      using assms(1) by (simp_all add: read_ticket_iff)
    then show "fld_str ''work_type'' (dict_update d ch) \<noteq> None" "fld_str_or ''status'' ''open'' (dict_update d ch) \<noteq> None"
      "fld_opt ''assignee'' (dict_update d ch) \<noteq> None" "fld_opt ''parent_id'' (dict_update d ch) \<noteq> None"
      by (auto simp: fld_work_type_def fld_status_def split: Option.bind_splits)
  qed
  ultimately show ?thesis
    using assms(3) by (cases v) (auto simp: ticket_index_def fld_str_def fld_str_or_def fld_opt_def)
qed

lemma setdefault_keys: "set (keys (setdefault k v d)) = insert k (set (keys d))"
proof (cases "map_of d k")
  case (Some w)
  then have "k \<in> set (keys d)" by (force dest: map_of_SomeD)
  with Some show ?thesis by (simp add: setdefault_def insert_absorb del: set_map)
qed (simp add: setdefault_def set_keys_update del: set_map)

lemma setdefault_distinct [simp]: "distinct (keys d) \<Longrightarrow> distinct (keys (setdefault k v d))"
  by (simp add: setdefault_def)

lemma read_id: "read_ticket cx d = Some t \<Longrightarrow> fld_id cx d = Some (tk_id t)"
  by (simp add: read_ticket_iff)

lemma write_update_cases:
  assumes inv: "ticket_inv (ts_coll st)" and ch: "distinct (keys flds)" "''_id'' \<notin> set (keys flds)"
  obtains (fails) e where "write_update cx now i flds st = (Inl e, st)"
      "\<And>p M. ticket_map st i = Some p \<Longrightarrow>
         M = dict_update (dump_ticket p) (setdefault ''updated_at'' (JTime now) flds) \<Longrightarrow>
         validate_ticket (cx M) M = None \<or>
         dumps_len (JObj (update_record (JStr i) (setdefault ''updated_at'' (JTime now) flds))) >
           st_max_record_bytes (ts_coll st)"
  | (writes) p m st' where "ticket_map st i = Some p"
      "validate_ticket cx' (dict_update (dump_ticket p) (setdefault ''updated_at'' (JTime now) flds)) = Some m"
      "write_update cx now i flds st = (Inr m, st')" "ticket_inv (ts_coll st')"
      "ticket_map st' = (ticket_map st)(i \<mapsto> m)" "ts_seq st' = ts_seq st"
      "st_max_record_bytes (ts_coll st') = st_max_record_bytes (ts_coll st)"
proof (cases "ticket_map st i")
  case None
  then show thesis by (intro fails) (simp_all add: write_update_def ticket_get_refines [OF inv])
next
  case (Some p)
  define ch where "ch = setdefault ''updated_at'' (JTime now) flds"
  define M where "M = dict_update (dump_ticket p) ch"
  have dch: "distinct (keys ch)" "''_id'' \<notin> set (keys ch)" using ch by (simp_all add: ch_def setdefault_keys del: set_map)
  from Some ticket_map_doc [OF inv] obtain d where d: "map_of (st_docs (ts_coll st)) (JStr i) = Some d" by blast
  obtain p' where cur: "current_shape d" and p': "\<forall>cx. validate_ticket cx d = Some p'" and id: "tk_id p' = i"
    by (rule ticket_doc [OF inv d]) blast
  from p' d Some have "p' = p" using ticket_map_doc [OF inv, of i p "no_draws []"] by auto
  note p = p' [unfolded this, rule_format] and id = id [unfolded this]
  have unf: "write_update cx now i flds st = (case validate_ticket (cx M) M of
             None \<Rightarrow> (Inl (ValidationError ''ticket''), st)
           | Some _ \<Rightarrow> (case update_doc (JStr i) ch (ts_coll st) of
               (Inl e, c) \<Rightarrow> (Inl e, st\<lparr>ts_coll := c\<rparr>)
             | (Inr _, c) \<Rightarrow> (let st1 = st\<lparr>ts_coll := c\<rparr> in case ticket_get cx i st1 of
                    Inl e \<Rightarrow> (Inl e, st1)
                  | Inr None \<Rightarrow> (Inl (RuntimeError ''vanished''), st1)
                  | Inr (Some loaded) \<Rightarrow>
                      (Inr loaded, st1\<lparr>ts_events := ts_events st1 @
                         (if ts_on_status st1 \<and> map_of ch ''status'' \<noteq> None \<and> tk_status loaded \<noteq> tk_status p
                          then [StatusChanged i (tk_status p) (tk_status loaded)] else [])\<rparr>))))"
    unfolding write_update_def ticket_get_refines [OF inv] Some Let_def ch_def M_def by simp
  show thesis
  proof (cases "validate_ticket (cx M) M")
    case None
    then show thesis using Some by (intro fails) (simp_all add: unf M_def ch_def)
  next
    case m: (Some m)
    note val = validate_update [OF cur p m [unfolded M_def] dch]
    have change: "changed_doc d ch = dict_update d ch"
      using dch(2) by (simp add: changed_doc_def dict_without_id)
    have op: "''_op'' \<notin> set (keys ch)" using val(3) ticket_fields_distinct(4) by blast
    have rm: "read_ticket (no_draws d) (dict_update d ch) = Some m"
      using val(2) [of "no_draws d"] by (simp add: validate_ticket_Some current_shape_migrate [OF val(1)])
    have upd: "updatable (ts_coll st) ch"
      using dch op inv indexed_hashable [OF rm dch(1)]
      by (simp add: updatable_def ticket_inv_def coll_inv_def)
    show thesis
    proof (cases "dumps_len (JObj (update_record (JStr i) ch)) \<le> st_max_record_bytes (ts_coll st)")
      case False
      then have "update_doc (JStr i) ch (ts_coll st) = (Inl RecordTooLargeError, ts_coll st)"
        using d by (simp add: update_doc_too_large)
      with m False show thesis by (intro fails) (simp_all add: unf ch_def)
    next
      case True
      obtain c where c: "update_doc (JStr i) ch (ts_coll st) = (Inr True, c)" "store_inv c"
        "st_docs c = AList.update (JStr i) (changed_doc d ch) (st_docs (ts_coll st))"
        "st_index_fields c = st_index_fields (ts_coll st)"
        "st_max_record_bytes c = st_max_record_bytes (ts_coll st)"
        using update_doc_ok [OF _ d upd True] inv by (metis ticket_inv_def coll_invD(1))
      have mid: "tk_id m = i"
      proof -
        have "''id'' \<notin> set (keys ch)" using val(3) ticket_fields_distinct(2) by blast
        then have "fld_id (no_draws d) (dict_update d ch) = fld_id (no_draws d) d"
          by (rule fld_id_update [OF dch(2) _ dch(1)])
        moreover have "read_ticket (no_draws d) d = Some p"
          using p [of "no_draws d"] by (simp add: validate_ticket_Some current_shape_migrate [OF cur])
        ultimately show ?thesis using read_id [OF rm] read_id [of "no_draws d" d p] id by simp
      qed
      have inv': "ticket_inv c"
        using inv c val(1,2) mid
        by (auto simp: ticket_inv_def coll_inv_def change map_of_update_fun)
      let ?st1 = "st\<lparr>ts_coll := c\<rparr>"
      have map': "ticket_map ?st1 = (ticket_map st)(i \<mapsto> m)"
        using val(2) by (auto simp: fun_eq_iff ticket_map_def models_def c(3) change map_of_update_fun)
      have "ticket_get cx i ?st1 = Inr (Some m)"
        using ticket_get_refines [of ?st1 cx i] inv' map' by simp
      then have w: "write_update cx now i flds st = (Inr m, ?st1\<lparr>ts_events := ts_events ?st1 @
                         (if ts_on_status ?st1 \<and> map_of ch ''status'' \<noteq> None \<and> tk_status m \<noteq> tk_status p
                          then [StatusChanged i (tk_status p) (tk_status m)] else [])\<rparr>)"
        unfolding unf using m c(1) by (simp add: Let_def)
      have "current_shape M" unfolding M_def by (rule current_shape_update [OF current_shape_dump val(3)])
      then have "validate_ticket cx' M = Some m" using m validate_ctx [of M cx' "cx M"] by simp
      with inv' map' Some c(5) show thesis
        by (intro writes [OF _ _ w]) (simp_all add: M_def ch_def ticket_map_def)
    qed
  qed
qed

text \<open>What \<open>find_where\<close> on two enumeration fields finds.\<close>

lemma read_status_of: "read_status s = Some x \<longleftrightarrow> s = show_status x"
proof
  assume "read_status s = Some x"
  then show "s = show_status x" by (auto simp: read_status_def dest: find_Some_in)
qed simp

lemma read_work_type_of: "read_work_type s = Some x \<longleftrightarrow> s = show_work_type x"
proof
  assume "read_work_type s = Some x"
  then show "s = show_work_type x" by (auto simp: read_work_type_def dest: find_Some_in)
qed simp

lemma show_status_inj: "show_status x = show_status y \<longleftrightarrow> x = y"
  by (metis option.inject read_status_show)

lemma show_work_type_inj: "show_work_type x = show_work_type y \<longleftrightarrow> x = y"
  by (metis option.inject read_work_type_show)

lemma stored_enums:
  assumes "current_shape d" "validate_ticket cx d = Some t"
  shows "map_of d ''work_type'' = Some (JStr (show_work_type (tk_work_type t)))"
    "map_of d ''status'' = Some (JStr (show_status (tk_status t)))"
proof -
  from assms have r: "read_ticket cx d = Some t"
    by (simp add: validate_ticket_Some current_shape_migrate)
  from assms(1) have st: "map_of d ''status'' \<noteq> None"
    unfolding current_shape_def by (intro has_key) (simp add: ticket_fields_def del: set_map)
  from r have "fld_work_type d = Some (tk_work_type t)" "fld_status d = Some (tk_status t)"
    by (simp_all add: read_ticket_iff)
  with st show "map_of d ''work_type'' = Some (JStr (show_work_type (tk_work_type t)))"
    "map_of d ''status'' = Some (JStr (show_status (tk_status t)))"
    by (auto simp: fld_work_type_def fld_status_def fld_str_def fld_str_or_def read_status_of read_work_type_of
        split: Option.bind_splits option.splits json.splits)
qed

lemma of_kind_and_status_refines:
  assumes inv: "ticket_inv (ts_coll st)"
  obtains ts where "of_kind_and_status cx st wt s = Inr ts"
    "set ts = {t. \<exists>i. ticket_map st i = Some t \<and> tk_work_type t = wt \<and> tk_status t = s \<and> tk_workflow t \<noteq> ''thread''}"
proof -
  let ?kw = "[(''work_type'', JStr (show_work_type wt)), (''status'', JStr (show_status s))]"
  have "searchable (ts_coll st) ?kw" by (simp add: searchable_def)
  then obtain ms where ms: "tc_find_where (\<lambda>d. validate_ticket (cx d) d) ?kw (ts_coll st) = Inr ms"
    "set ms = {m. \<exists>i d. map_of (st_docs (ts_coll st)) i = Some d \<and> matches_all ?kw d \<and> validate_ticket (cx d) d = Some m}"
    by (rule coll_find_where [OF ticket_inv_coll [OF inv]])
  have "t \<in> set ms \<longleftrightarrow> (\<exists>i. ticket_map st i = Some t \<and> tk_work_type t = wt \<and> tk_status t = s)" for t
  proof
    assume "t \<in> set ms"
    then obtain i d where d: "map_of (st_docs (ts_coll st)) i = Some d" "matches_all ?kw d" "validate_ticket (cx d) d = Some t"
      using ms(2) by blast
    from coll_invD(3) [OF ticket_inv_coll [OF inv] d(1)] obtain j where j: "i = JStr j" by blast
    have "current_shape d" using inv d(1) by (simp add: ticket_inv_def)
    from stored_enums [OF this d(3)] d(2) have "tk_work_type t = wt" "tk_status t = s"
      by (auto simp: field_eq_def show_status_inj show_work_type_inj)
    with d j show "\<exists>i. ticket_map st i = Some t \<and> tk_work_type t = wt \<and> tk_status t = s"
      using ticket_map_doc [OF inv, of j t "cx d"] by blast
  next
    assume "\<exists>i. ticket_map st i = Some t \<and> tk_work_type t = wt \<and> tk_status t = s"
    then obtain i where i: "ticket_map st i = Some t" "tk_work_type t = wt" "tk_status t = s" by blast
    then obtain d where d: "map_of (st_docs (ts_coll st)) (JStr i) = Some d"
      using ticket_map_doc [OF inv, of i t "no_draws []"] by blast
    obtain t' where t': "current_shape d" "\<forall>cx. validate_ticket cx d = Some t'"
      by (rule ticket_doc [OF inv d]) blast
    with i(1) d have "t' = t" using ticket_map_doc [OF inv, of i t "no_draws []"] by simp
    with t' stored_enums [OF t'(1), of "cx d" t] i have "matches_all ?kw d" by (simp add: field_eq_def)
    with d t' \<open>t' = t\<close> ms(2) show "t \<in> set ms" by blast
  qed
  then have "set (filter (\<lambda>t. tk_workflow t \<noteq> ''thread'') ms) =
      {t. \<exists>i. ticket_map st i = Some t \<and> tk_work_type t = wt \<and> tk_status t = s \<and> tk_workflow t \<noteq> ''thread''}"
    by auto
  with ms(1) show thesis
    by (intro that [of "filter (\<lambda>t. tk_workflow t \<noteq> ''thread'') ms"])
      (simp_all add: of_kind_and_status_def ticket_find_where_def)
qed

lemma concat_map_res:
  assumes "\<And>x. x \<in> set xs \<Longrightarrow> \<exists>ys. f x = Inr ys \<and> set ys = S x"
  obtains ys where "concat_res (map_res f xs) = Inr ys" "set ys = (\<Union>x \<in> set xs. S x)"
proof -
  have "\<exists>yss. map_res f xs = Inr yss \<and> set (concat yss) = (\<Union>x \<in> set xs. S x)"
    using assms
  proof (induction xs)
    case (Cons x xs)
    from Cons.IH Cons.prems obtain yss where "map_res f xs = Inr yss" "set (concat yss) = (\<Union>x \<in> set xs. S x)"
      by auto
    moreover from Cons.prems obtain ys where "f x = Inr ys" "set ys = S x" by auto
    ultimately show ?case by (intro exI [of _ "ys # yss"]) simp
  qed simp
  then obtain yss where "map_res f xs = Inr yss" "set (concat yss) = (\<Union>x \<in> set xs. S x)" by blast
  then show thesis by (intro that [of "concat yss"]) (simp_all add: concat_res_def)
qed

definition dep_resolved :: "ticket_store \<Rightarrow> string \<Rightarrow> bool" where
  "dep_resolved st i \<longleftrightarrow> (\<exists>u. ticket_map st i = Some u \<and> tk_status u = StResolved)"

lemma all_resolved_refines:
  "ticket_inv (ts_coll st) \<Longrightarrow> all_resolved cx st is = Inr (\<forall>i \<in> set is. dep_resolved st i)"
  by (induction "is") (auto simp: ticket_get_refines dep_resolved_def split: option.splits)

lemma ready_of_refines:
  "ticket_inv (ts_coll st) \<Longrightarrow>
     ready_of cx st ts = Inr (filter (\<lambda>t. \<forall>i \<in> set (tk_blocked_by t). dep_resolved st i) ts)"
  by (induction ts) (simp_all add: all_resolved_refines)

end
