(* ===== verification/TicketProps.thy ===== *)
theory TicketProps
  imports TicketStore
begin

text \<open>
  What the ticket store guarantees: creation and update keep every stored ticket
  readable, the approval gate and how far it reaches, which tickets are ready, and
  the uniqueness of \<open>jig-N\<close> keys over several processes.
\<close>

section \<open>Updates\<close>


section \<open>The approval gate\<close>

lemma status_of_merged:
  assumes "validate_ticket cx (dict_update (dump_ticket p) ch) = Some m" "distinct (keys ch)" "ticket_valid p"
  shows "(case map_of ch ''status'' of None \<Rightarrow> tk_status m = tk_status p | Some v \<Rightarrow> v = JStr (show_status (tk_status m)))"
proof -
  from assms(1) have "read_ticket cx (dict_update (dump_ticket p) ch) = Some m"
    by (simp add: validate_ticket_Some merged_migrate)
  then have m: "fld_status (dict_update (dump_ticket p) ch) = Some (tk_status m)" by (simp add: read_ticket_iff)
  have p: "fld_status (dump_ticket p) = Some (tk_status p)" by (simp add: dump_ticket_def codec)
  show ?thesis
  proof (cases "map_of ch ''status''")
    case None
    then have "''status'' \<notin> set (keys ch)" by (simp add: map_of_eq_None_iff)
    with m p assms(2) None show ?thesis by (simp add: fld_status_update)
  next
    case (Some v)
    then have "''status'' \<in> set (keys ch)" by (force dest: map_of_SomeD)
    with m assms(2) have "fld_status ch = Some (tk_status m)" by (simp add: fld_status_update)
    with Some show ?thesis
      by (cases v) (auto simp: fld_status_def fld_str_or_def read_status_of)
  qed
qed

lemma setdefault_other: "k \<noteq> j \<Longrightarrow> map_of (setdefault k v d) j = map_of d j"
  by (simp add: map_of_setdefault)

text \<open>
  C4: The gate: no call of the generic update takes a PROPOSED ticket to OPEN,
  whatever fields it carries.
\<close>

theorem update_never_approves:
  assumes "ticket_inv (ts_coll st)" "distinct (keys flds)" "''_id'' \<notin> set (keys flds)"
    and "ticket_get cx i st = Inr (Some p)" "tk_status p = StProposed"
    and "ticket_update cx now i flds st = (Inr t, st')"
  shows "tk_status t \<noteq> StOpen"
proof
  assume "tk_status t = StOpen"
  from assms(1,4) have p: "ticket_map st i = Some p" by (simp add: ticket_get_refines)
  from assms(4-6) have gate: "map_of flds ''status'' \<noteq> Some (JStr (show_status StOpen))"
    and w: "write_update cx now i flds st = (Inr t, st')"
    by (auto simp: ticket_update_def split: if_splits)
  show False
  proof (cases rule: write_update_cases [OF assms(1-3), where cx = cx and now = now and i = i and cx' = "no_draws []", case_names fails writes])
    case (writes p' m st'')
    with w p have "p' = p" "m = t" by simp_all
    with writes status_of_merged [OF writes(2)] assms(2) ticket_map_Some(2) [OF assms(1) p] gate assms(5)
      \<open>tk_status t = StOpen\<close> show False
      by (auto simp: setdefault_other split: option.splits)
  qed (use w in simp)
qed

lemma status_change:
  "distinct (keys [(''status'', JStr (show_status s))])" "''_id'' \<notin> set (keys [(''status'', JStr (show_status s))])"
  by simp_all

lemma approve_merged:
  "dict_update (dump_ticket p) (setdefault ''updated_at'' (JTime now) [(''status'', JStr (show_status s))]) =
     dump_ticket (p\<lparr>tk_status := s, tk_updated_at := now\<rparr>)"
  by (simp add: setdefault_def dump_ticket_def)

lemma status_valid: "ticket_valid p \<Longrightarrow> ticket_valid (p\<lparr>tk_status := s, tk_updated_at := now\<rparr>)"
  by (simp add: ticket_valid_def ticket_ok_def has_required_ac_def)

lemma write_status:
  assumes "ticket_inv (ts_coll st)" "write_update cx now i [(''status'', JStr (show_status s))] st = (Inr t, st')"
    and "ticket_map st i = Some p"
  shows "t = p\<lparr>tk_status := s, tk_updated_at := now\<rparr>" "ticket_inv (ts_coll st')" "ticket_map st' = (ticket_map st)(i \<mapsto> t)"
proof -
  have "t = p\<lparr>tk_status := s, tk_updated_at := now\<rparr> \<and> ticket_inv (ts_coll st') \<and> ticket_map st' = (ticket_map st)(i \<mapsto> t)"
  proof (cases rule: write_update_cases [OF assms(1) status_change(1) [of s] status_change(2) [of s], where cx = cx and now = now and i = i and cx' = "no_draws []", case_names fails writes])
    case (writes p' m st'')
    with assms have eq: "p' = p" "m = t" "st'' = st'" by simp_all
    have "ticket_valid p" by (rule ticket_map_Some(2) [OF assms(1,3)])
    then have "validate_ticket (no_draws []) (dump_ticket (p\<lparr>tk_status := s, tk_updated_at := now\<rparr>)) =
        Some (p\<lparr>tk_status := s, tk_updated_at := now\<rparr>)"
      by (intro ticket_roundtrip status_valid)
    with writes eq show ?thesis unfolding approve_merged by simp
  qed (use assms(2) in simp_all)
  then show "t = p\<lparr>tk_status := s, tk_updated_at := now\<rparr>" "ticket_inv (ts_coll st')"
    "ticket_map st' = (ticket_map st)(i \<mapsto> t)" by blast+
qed

text \<open>
  Approval: \<open>approve\<close> succeeds only on a PROPOSED ticket, and then the stored
  ticket is the old one with status OPEN and the new time stamp, no other field
  touched; in every other case the store is unchanged.
\<close>

theorem approve_exact:
  assumes "ticket_inv (ts_coll st)"
  shows "(\<exists>e. ticket_approve cx now i st = (Inl e, st)) \<or>
    (\<exists>p st'. ticket_get cx i st = Inr (Some p) \<and> tk_status p = StProposed \<and>
       ticket_approve cx now i st = (Inr (p\<lparr>tk_status := StOpen, tk_updated_at := now\<rparr>), st') \<and>
       ticket_get cx i st' = Inr (Some (p\<lparr>tk_status := StOpen, tk_updated_at := now\<rparr>)))"
proof (cases "ticket_map st i")
  case (Some p)
  let ?w = "write_update cx now i [(''status'', JStr (show_status StOpen))] st"
  show ?thesis
  proof (cases "tk_status p = StProposed")
    case True
    have "(\<exists>e. ?w = (Inl e, st)) \<or> (\<exists>t st'. ?w = (Inr t, st'))"
      by (cases rule: write_update_cases [OF assms status_change(1) [of StOpen] status_change(2) [of StOpen], where cx = cx and now = now and i = i, case_names fails writes])
        auto
    then show ?thesis
    proof
      assume "\<exists>t st'. ?w = (Inr t, st')"
      then obtain t st' where w: "?w = (Inr t, st')" by blast
      from write_status [OF assms w Some] Some True w assms show ?thesis
        by (simp add: ticket_approve_def ticket_get_refines)
    qed (use Some True assms in \<open>simp add: ticket_approve_def ticket_get_refines\<close>)
  qed (use Some assms in \<open>simp add: ticket_approve_def ticket_get_refines\<close>)
qed (use assms in \<open>simp add: ticket_approve_def ticket_get_refines\<close>)

lemma write_status_ok:
  assumes inv: "ticket_inv (ts_coll st)" and p: "ticket_map st i = Some p"
    and fits: "dumps_len (JObj (update_record (JStr i) [(''status'', JStr (show_status s)), (''updated_at'', JTime n)]))
      \<le> st_max_record_bytes (ts_coll st)"
  obtains st' where "write_update cx n i [(''status'', JStr (show_status s))] st =
      (Inr (p\<lparr>tk_status := s, tk_updated_at := n\<rparr>), st')" "ticket_inv (ts_coll st')"
    "ticket_map st' i = Some (p\<lparr>tk_status := s, tk_updated_at := n\<rparr>)"
    "st_max_record_bytes (ts_coll st') = st_max_record_bytes (ts_coll st)"
proof (cases rule: write_update_cases [OF inv status_change(1) [of s] status_change(2) [of s],
      where cx = cx and now = n and i = i and cx' = "no_draws []", case_names fails writes])
  case (fails e)
  have "ticket_valid p" by (rule ticket_map_Some(2) [OF inv p])
  with fails(2) [OF p refl] fits show thesis
    unfolding approve_merged by (simp add: ticket_roundtrip status_valid setdefault_def del: dumps_len.simps)
next
  case (writes p' m st')
  with write_status [OF inv writes(3) p] show thesis by (intro that [of st']) simp_all
qed

text \<open>
  How far the gate reaches: a generic update of a PROPOSED ticket to BLOCKED and
  then one to OPEN are both let through, and leave it OPEN without an approval.
\<close>

theorem approval_bypassed_in_two_steps:
  assumes "ticket_inv (ts_coll st)" "ticket_get cx i st = Inr (Some p)" "tk_status p = StProposed"
    and "\<forall>s now. dumps_len (JObj (update_record (JStr i) [(''status'', JStr (show_status s)), (''updated_at'', JTime now)]))
      \<le> st_max_record_bytes (ts_coll st)"
  shows "\<exists>t1 st1 st2. update_status cx n1 i StBlocked st = (Inr t1, st1) \<and>
    update_status cx n2 i StOpen st1 = (Inr (p\<lparr>tk_status := StOpen, tk_updated_at := n2\<rparr>), st2)"
proof -
  from assms(1,2) have p: "ticket_map st i = Some p" by (simp add: ticket_get_refines)
  note fits = assms(4) [rule_format]
  obtain st1 where st1:
    "write_update cx n1 i [(''status'', JStr (show_status StBlocked))] st = (Inr (p\<lparr>tk_status := StBlocked, tk_updated_at := n1\<rparr>), st1)"
    "ticket_inv (ts_coll st1)" "ticket_map st1 i = Some (p\<lparr>tk_status := StBlocked, tk_updated_at := n1\<rparr>)"
    "st_max_record_bytes (ts_coll st1) = st_max_record_bytes (ts_coll st)"
    by (rule write_status_ok [OF assms(1) p fits])
  note fits1 = fits [folded st1(4)]
  obtain st2 where "write_update cx n2 i [(''status'', JStr (show_status StOpen))] st1 =
      (Inr (p\<lparr>tk_status := StBlocked, tk_updated_at := n1, tk_status := StOpen, tk_updated_at := n2\<rparr>), st2)"
    by (rule write_status_ok [OF st1(2,3) fits1])
  then have st2: "write_update cx n2 i [(''status'', JStr (show_status StOpen))] st1 =
      (Inr (p\<lparr>tk_status := StOpen, tk_updated_at := n2\<rparr>), st2)" by simp
  from st1 st2 p assms(1,3) show ?thesis
    by (simp add: update_status_def ticket_update_def ticket_get_refines)
qed

section \<open>Readiness\<close>

text \<open>
  C9: \<open>find_ready\<close> returns exactly the approved tickets (status OPEN) outside the
  thread workflow whose every dependency exists and is RESOLVED, whatever order the
  work types are visited in.
\<close>

theorem find_ready_exact:
  assumes "ticket_inv (ts_coll st)" "set wts = UNIV"
  shows "\<exists>ts. find_ready cx wts st = Inr ts \<and>
    set ts = {t. ticket_get cx (tk_id t) st = Inr (Some t) \<and> tk_status t = StOpen \<and> tk_workflow t \<noteq> ''thread'' \<and>
      list_all (\<lambda>i. \<exists>u. ticket_get cx i st = Inr (Some u) \<and> tk_status u = StResolved) (tk_blocked_by t)}"
proof -
  let ?S = "\<lambda>wt. {t. \<exists>i. ticket_map st i = Some t \<and> tk_work_type t = wt \<and> tk_status t = StOpen \<and> tk_workflow t \<noteq> ''thread''}"
  have "\<exists>ts. of_kind_and_status cx st wt StOpen = Inr ts \<and> set ts = ?S wt" for wt
    by (rule of_kind_and_status_refines [OF assms(1)]) blast
  then obtain cs where cs: "concat_res (map_res (\<lambda>wt. of_kind_and_status cx st wt StOpen) wts) = Inr cs"
    "set cs = (\<Union>wt \<in> set wts. ?S wt)"
    by (rule concat_map_res [where S = ?S])
  have get: "(\<exists>i. ticket_map st i = Some t) \<longleftrightarrow> ticket_get cx (tk_id t) st = Inr (Some t)" for t
    using ticket_map_Some(1) [OF assms(1)] by (auto simp: ticket_get_refines [OF assms(1)])
  have "set cs = {t. ticket_get cx (tk_id t) st = Inr (Some t) \<and> tk_status t = StOpen \<and> tk_workflow t \<noteq> ''thread''}"
    unfolding cs(2) get [symmetric] assms(2) by blast
  then show ?thesis
    by (auto simp: find_ready_def cs(1) ready_of_refines [OF assms(1)] list_all_iff dep_resolved_def
        ticket_get_refines [OF assms(1)])
qed

section \<open>Keys\<close>

text \<open>
  Several processes (the orchestrator, the CLI, a standalone MCP server) share the log
  and the \<open>issue_seq\<close> file, each with its own memory.  \<open>create\<close> holds the lock file
  from reading the counter to the append, so a create is one step; \<open>sh_issued\<close> lists the
  keys of the tickets created without one.
\<close>

record shared_store =
  sh_file :: "line list"
  sh_seq :: "nat option"
  sh_procs :: "nat \<Rightarrow> ticket_store"
  sh_issued :: "string list"

definition proc_view :: "nat \<Rightarrow> shared_store \<Rightarrow> ticket_store" where
  "proc_view k sh = (let p = sh_procs sh k
     in p\<lparr>ts_seq := sh_seq sh, ts_coll := (ts_coll p)\<lparr>st_file := sh_file sh\<rparr>\<rparr>)"

definition proc_create :: "nat \<Rightarrow> string \<Rightarrow> ticket \<Rightarrow> bool \<Rightarrow> shared_store \<Rightarrow> shared_store" where
  "proc_create k fresh t fire sh = (let v = proc_view k sh; (r, s) = ticket_create fresh t fire v
     in sh\<lparr>sh_file := st_file (ts_coll s), sh_seq := ts_seq s, sh_procs := (sh_procs sh)(k := s),
           sh_issued := sh_issued sh @ (if is_ok r \<and> tk_key t = [] then [issue_key (read_seq v + 1)] else [])\<rparr>)"

inductive create_step :: "shared_store \<Rightarrow> shared_store \<Rightarrow> bool" where
  create_by: "create_step sh (proc_create k fresh t fire sh)"

inductive_simps create_step_iff: "create_step sh sh'"

definition issued_ok :: "shared_store \<Rightarrow> bool" where
  "issued_ok sh \<longleftrightarrow> distinct (sh_issued sh) \<and>
     set (sh_issued sh) \<subseteq> issue_key ` {1..the_default 0 (sh_seq sh)}"

lemma issue_key_inj [simp]: "issue_key m = issue_key n \<longleftrightarrow> m = n"
  by (simp add: issue_key_def)

lemma create_seq:
  "the_default 0 (ts_seq (snd (ticket_create fresh t fire st))) =
     (if tk_key t = [] then read_seq st + 1 else read_seq st)"
  by (auto simp: ticket_create_def read_seq_def Let_def split: prod.splits sum.splits)

lemma create_step_ok:
  assumes "create_step sh sh'" "issued_ok sh"
  shows "issued_ok sh'"
proof -
  from assms(1) obtain k fresh t fire where sh': "sh' = proc_create k fresh t fire sh"
    by (auto simp: create_step_iff)
  let ?v = "proc_view k sh"
  obtain r s where r: "ticket_create fresh t fire ?v = (r, s)" by fastforce
  have n: "read_seq ?v = the_default 0 (sh_seq sh)" by (simp add: read_seq_def proc_view_def Let_def)
  have seq: "the_default 0 (ts_seq s) = (if tk_key t = [] then read_seq ?v + 1 else read_seq ?v)"
    using create_seq [of fresh t fire ?v] r by simp
  from assms(2) have d: "distinct (sh_issued sh)" and sub: "set (sh_issued sh) \<subseteq> issue_key ` {1..read_seq ?v}"
    by (simp_all add: issued_ok_def n)
  from sub have new: "issue_key (read_seq ?v + 1) \<notin> set (sh_issued sh)" by auto
  have "issue_key ` {1..read_seq ?v} \<subseteq> issue_key ` {1..read_seq ?v + 1}" by auto
  with sub have "set (sh_issued sh) \<subseteq> issue_key ` {1..read_seq ?v + 1}" by blast
  with d sub new show ?thesis
    by (auto simp: issued_ok_def sh' proc_create_def Let_def r seq)
qed

text \<open>
  However the creates of any number of processes interleave, and whichever of them
  fail, no two tickets are given the same \<open>jig-N\<close> key, and the numbers given out do not
  exceed the counter on disk.
\<close>

theorem issue_keys_unique:
  assumes "create_step\<^sup>*\<^sup>* sh sh'" "sh_issued sh = []"
  shows "distinct (sh_issued sh') \<and> set (sh_issued sh') \<subseteq> issue_key ` {1..the_default 0 (sh_seq sh')}"
proof -
  have "issued_ok sh" using assms(2) by (simp add: issued_ok_def)
  with assms(1) have "issued_ok sh'"
    by (induction rule: rtranclp_induct) (auto intro: create_step_ok)
  then show ?thesis by (simp add: issued_ok_def)
qed

section \<open>A legacy ticket\<close>

text \<open>
  The check before the write does not cover a record that still has the legacy
  \<open>type\<close> field: it validates the merged dump of the migrated ticket, but the write patches
  the record on disk, and after an update of \<open>work_type\<close> that record has both fields and
  can no longer be read.
\<close>

theorem legacy_type_update_bricks:
  assumes inv: "store_inv (ts_coll st)" "st_index_fields (ts_coll st) = ticket_index"
    and d: "get_doc (JStr i) (ts_coll st) = Some d" "map_of d ''type'' \<noteq> None"
    and flds: "distinct (keys flds)" "''_id'' \<notin> set (keys flds)" "map_of flds ''work_type'' \<noteq> None"
    and prev: "ticket_get cx i st = Inr (Some p)"
    and valid: "validate_ticket (cx M) M = Some m"
      "M = dict_update (dump_ticket p) (setdefault ''updated_at'' (JTime now) flds)"
    and fits: "dumps_len (JObj (update_record (JStr i) (setdefault ''updated_at'' (JTime now) flds)))
      \<le> st_max_record_bytes (ts_coll st)"
  shows "\<exists>st'. write_update cx now i flds st = (Inl (ValidationError ''model''), st') \<and>
    ts_coll st' \<noteq> ts_coll st \<and> ticket_get cx' i st' = Inl (ValidationError ''model'')"
proof -
  define ch where "ch = setdefault ''updated_at'' (JTime now) flds"
  have ch: "distinct (keys ch)" "''_id'' \<notin> set (keys ch)" using flds by (simp_all add: ch_def setdefault_keys del: set_map)
  from valid have M: "\<not> extra_forbidden (dict_update (dump_ticket p) ch)"
    "read_ticket (cx M) (dict_update (dump_ticket p) ch) = Some m"
    by (simp_all add: validate_ticket_Some merged_migrate ch_def)
  from M(1) ch(2) have sub: "set (keys ch) \<subseteq> set ticket_fields" by (rule merged_keys)
  have "''_op'' \<notin> set (keys ch)" using sub ticket_fields_distinct(4) by blast
  then have upd: "updatable (ts_coll st) ch"
    using ch inv(2) indexed_hashable [OF M(2) ch(1)] by (simp add: updatable_def)
  obtain c where c: "update_doc (JStr i) ch (ts_coll st) = (Inr True, c)"
    "st_docs c = AList.update (JStr i) (changed_doc d ch) (st_docs (ts_coll st))"
    "st_file c = st_file (ts_coll st) @ [JsonLine (JObj (update_record (JStr i) ch))]"
    by (rule update_doc_ok [OF inv(1) d(1) [unfolded get_doc_def] upd])
      (use fits in \<open>simp_all add: ch_def del: dumps_len.simps\<close>)
  let ?new = "changed_doc d ch" and ?st1 = "st\<lparr>ts_coll := c\<rparr>"
  have "''type'' \<notin> set (keys ch)" using sub ticket_fields_distinct(3) by blast
  then have "map_of ?new ''type'' \<noteq> None"
    using d(2) ch(1) by (simp add: changed_doc_get map_of_eq_None_iff [symmetric])
  then have t: "''type'' \<in> set (keys ?new)" by (simp add: map_of_eq_None_iff)
  have "map_of ch ''work_type'' \<noteq> None" using flds(3) by (simp add: ch_def setdefault_other)
  then have "map_of ?new ''work_type'' \<noteq> None"
    using ch(1) by (auto simp: changed_doc_get)
  then have "migrate_legacy_fields ?new = Some ?new"
    unfolding migrate_legacy_fields_def by (rule if_not_P)
  moreover have "extra_forbidden ?new"
  proof (rule ccontr)
    assume "\<not> extra_forbidden ?new"
    then have "\<forall>k \<in> set (keys ?new). k = ''_id'' \<or> k \<in> set ticket_fields \<or> k = ''id'' \<and> map_of ?new ''_id'' = None"
      by (simp only: extra_forbidden_def list_all_iff not_not)
    from bspec [OF this t] ticket_fields_distinct(3) show False by simp
  qed
  ultimately have none: "validate_ticket x ?new = None" for x by (simp add: validate_ticket_def)
  have get: "ticket_get x i ?st1 = Inl (ValidationError ''model'')" for x
    by (simp add: ticket_get_def tc_get_def get_doc_def to_model_def c(2) map_of_update_fun none)
  have "ts_coll ?st1 \<noteq> ts_coll st" using c(3) by auto
  moreover have "write_update cx now i flds st = (Inl (ValidationError ''model''), ?st1)"
    unfolding write_update_def Let_def prev ch_def [symmetric]
    using valid c(1) get [of cx] by (simp add: ch_def)
  ultimately show ?thesis using get by blast
qed

section \<open>Witnesses\<close>

definition demo_ticket :: ticket where
  "demo_ticket = \<lparr>tk_id = ''t'', tk_work_type = WDocs, tk_size = SM, tk_status = StProposed, tk_key = [],
     tk_title = ''x'', tk_description = [], tk_assignee = None, tk_derived_from = None, tk_parent_id = None,
     tk_blocks = [], tk_blocked_by = [], tk_workflow = ''default'', tk_labels = [], tk_created_by = ''po'',
     tk_created_at = 0, tk_updated_at = 0, tk_suite_id = None, tk_module_id = None, tk_capability_ids = [],
     tk_epic_id = None, tk_layer = None, tk_dev_tier = None, tk_reviewer_set = [], tk_context_hints = [],
     tk_risks_addressed = [], tk_done_when = None, tk_examples = [], tk_touches = no_touches,
     tk_visual_references = [], tk_deferred_at = None, tk_contract_amendment = None, tk_block_reason = None\<rparr>"

lemma demo_ticket_valid: "ticket_valid (demo_ticket\<lparr>tk_key := k\<rparr>)" "ticket_valid demo_ticket"
  by (simp_all add: demo_ticket_def ticket_valid_def ticket_ok_def is_safe_path_segment_def re_match_def lower_alnum_def
      max_segment_len_def opt_kebab_def kebab_ids_def opt_in_def has_required_ac_def work_types_requiring_ac_def
      strip_title_backticks_def)

lemma demo_store_exists:
  "\<exists>st. ticket_inv (ts_coll st) \<and> ticket_map st = [''t'' \<mapsto> demo_ticket] \<and>
     st_max_record_bytes (ts_coll st) = default_max_record_bytes"
proof -
  define st0 where "st0 = new_ticket_store (\<lambda>xs. xs) [] None False False"
  have inv0: "ticket_inv (ts_coll st0)"
    using ticket_inv_empty [of "\<lambda>xs. xs"] by (simp add: st0_def)
  have st0: "st_docs (ts_coll st0) = []" "st_max_record_bytes (ts_coll st0) = default_max_record_bytes"
    by (simp_all add: st0_def new_ticket_store_def new_store_def)
  have fits: "dumps_len (JObj (insert_record [] (dump_ticket demo_ticket))) \<le> st_max_record_bytes (ts_coll st0)"
    by (simp add: st0 default_max_record_bytes_def insert_record_def stored_doc_def dump_ticket_def demo_ticket_def
        jopt_def jstrs_def jexamples_def jtime_opt_def dump_touches_def no_touches_def,
        simp add: dump_str_len_def dump_char_len_def)
  obtain c where c: "coll_inv ticket_index (\<lambda>d. validate_ticket (no_draws d) d) tk_id c"
    "st_docs c = [(JStr (tk_id demo_ticket), dump_ticket demo_ticket)]"
    "st_max_record_bytes c = st_max_record_bytes (ts_coll st0)"
    using tk.insert_reads_back [OF ticket_inv_coll [OF inv0] demo_ticket_valid(2) _ fits, of no_draws] st0(1)
    by auto
  have "ticket_inv c" using c(1,2) current_shape_dump by (simp add: ticket_inv_def)
  moreover have "ticket_map (st0\<lparr>ts_coll := c\<rparr>) = [''t'' \<mapsto> demo_ticket]"
    using ticket_roundtrip [OF demo_ticket_valid(2)] c(2)
    by (auto simp: fun_eq_iff ticket_map_def models_def demo_ticket_def)
  ultimately show ?thesis using c(3) st0(2) by (intro exI [of _ "st0\<lparr>ts_coll := c\<rparr>"]) simp
qed

lemma demo_fits:
  "dumps_len (JObj (update_record (JStr ''t'') [(''status'', JStr (show_status s)), (''updated_at'', JTime n)]))
    \<le> default_max_record_bytes"
  by (cases s) (simp_all add: update_record_def dict_without_def default_max_record_bytes_def dump_str_len_def dump_char_len_def)


theorem update_never_approves_witness:
  "\<exists>st t st'. ticket_update no_draws 1 ''t'' [(''status'', JStr ''blocked'')] st = (Inr t, st') \<and> tk_status t \<noteq> StOpen"
proof -
  obtain st where st: "ticket_inv (ts_coll st)" "ticket_map st = [''t'' \<mapsto> demo_ticket]"
    "st_max_record_bytes (ts_coll st) = default_max_record_bytes" using demo_store_exists by blast
  then have m: "ticket_map st ''t'' = Some demo_ticket" by simp
  have f: "dumps_len (JObj (update_record (JStr ''t'') [(''status'', JStr (show_status StBlocked)), (''updated_at'', JTime 1)]))
    \<le> st_max_record_bytes (ts_coll st)" unfolding st(3) by (rule demo_fits)
  obtain t st' where w: "write_update no_draws 1 ''t'' [(''status'', JStr (show_status StBlocked))] st = (Inr t, st')"
    by (rule write_status_ok [OF st(1) m f])
  have get: "ticket_get no_draws ''t'' st = Inr (Some demo_ticket)" by (simp add: ticket_get_refines [OF st(1)] m)
  with w have u: "ticket_update no_draws 1 ''t'' [(''status'', JStr ''blocked'')] st = (Inr t, st')"
    by (simp add: ticket_update_def demo_ticket_def)
  have "tk_status t \<noteq> StOpen"
    by (rule update_never_approves [OF st(1) _ _ get _ u]) (simp_all add: demo_ticket_def)
  with u show ?thesis by blast
qed

theorem approve_exact_witness:
  "\<exists>st. ticket_get no_draws ''t'' st = Inr (Some demo_ticket) \<and>
    ((\<exists>e. ticket_approve no_draws 1 ''t'' st = (Inl e, st)) \<or>
     (\<exists>p st'. ticket_approve no_draws 1 ''t'' st = (Inr (p\<lparr>tk_status := StOpen, tk_updated_at := 1\<rparr>), st')))"
proof -
  obtain st where st: "ticket_inv (ts_coll st)" "ticket_map st = [''t'' \<mapsto> demo_ticket]"
    using demo_store_exists by blast
  then have "ticket_get no_draws ''t'' st = Inr (Some demo_ticket)" by (simp add: ticket_get_refines)
  with approve_exact [OF st(1), of no_draws 1 "''t''"] show ?thesis by blast
qed

theorem approval_bypassed_in_two_steps_witness:
  "\<exists>st t1 st1 st2. ticket_get no_draws ''t'' st = Inr (Some demo_ticket) \<and>
    update_status no_draws 1 ''t'' StBlocked st = (Inr t1, st1) \<and>
    update_status no_draws 2 ''t'' StOpen st1 = (Inr (demo_ticket\<lparr>tk_status := StOpen, tk_updated_at := 2\<rparr>), st2)"
proof -
  obtain st where st: "ticket_inv (ts_coll st)" "ticket_map st = [''t'' \<mapsto> demo_ticket]"
    "st_max_record_bytes (ts_coll st) = default_max_record_bytes" using demo_store_exists by blast
  have get: "ticket_get no_draws ''t'' st = Inr (Some demo_ticket)" by (simp add: ticket_get_refines [OF st(1)] st(2))
  have "\<forall>s now. dumps_len (JObj (update_record (JStr ''t'') [(''status'', JStr (show_status s)), (''updated_at'', JTime now)]))
    \<le> st_max_record_bytes (ts_coll st)" unfolding st(3) using demo_fits by blast
  from approval_bypassed_in_two_steps [OF st(1) get _ this, of 1 2] get show ?thesis
    by (auto simp: demo_ticket_def)
qed

theorem find_ready_exact_witness:
  "\<exists>st ts. ticket_map st = [''t'' \<mapsto> demo_ticket] \<and> find_ready no_draws all_work_type st = Inr ts \<and> demo_ticket \<notin> set ts"
proof -
  obtain st where st: "ticket_inv (ts_coll st)" "ticket_map st = [''t'' \<mapsto> demo_ticket]"
    using demo_store_exists by blast
  from find_ready_exact [OF st(1) all_work_type_UNIV, of no_draws] obtain ts where
    ts: "find_ready no_draws all_work_type st = Inr ts" "\<forall>t \<in> set ts. tk_status t = StOpen" by auto
  then have "demo_ticket \<notin> set ts" by (auto simp: demo_ticket_def)
  with ts(1) st(2) show ?thesis by blast
qed

definition demo_shared :: shared_store where
  "demo_shared = \<lparr>sh_file = [], sh_seq = None, sh_procs = \<lambda>_. new_ticket_store (\<lambda>xs. xs) [] None False False, sh_issued = []\<rparr>"

theorem issue_keys_unique_witness:
  "distinct (sh_issued (proc_create 1 ''v'' demo_ticket True (proc_create 0 ''u'' demo_ticket True demo_shared)))"
proof -
  have "create_step\<^sup>*\<^sup>* demo_shared (proc_create 1 ''v'' demo_ticket True (proc_create 0 ''u'' demo_ticket True demo_shared))"
    by (rule rtranclp.rtrancl_into_rtrancl, rule r_into_rtranclp, rule create_by, rule create_by)
  from issue_keys_unique [OF this] show ?thesis by (simp add: demo_shared_def)
qed

definition demo_legacy_ticket :: doc where
  "demo_legacy_ticket = [(''_id'', JStr ''t''), (''type'', JStr ''docs''), (''title'', JStr ''x''), (''created_by'', JStr ''po'')]"

theorem legacy_type_update_bricks_witness:
  "\<exists>st st'. get_doc (JStr ''t'') (ts_coll st) = Some demo_legacy_ticket \<and>
    ticket_get no_draws ''t'' st = Inr (Some (demo_ticket\<lparr>tk_status := StOpen\<rparr>)) \<and>
    write_update no_draws 1 ''t'' [(''work_type'', JStr ''brief'')] st = (Inl (ValidationError ''model''), st') \<and>
    ticket_get no_draws ''t'' st' = Inl (ValidationError ''model'')"
proof -
  let ?st0 = "new_store (\<lambda>xs. xs) [] ticket_index default_max_record_bytes"
  let ?p = "demo_ticket\<lparr>tk_status := StOpen\<rparr>"
  define st where "st = (new_ticket_store (\<lambda>xs. xs) [] None False False)\<lparr>ts_coll := snd (insert_doc ''u'' demo_legacy_ticket ?st0)\<rparr>"
  have ins: "insertable ?st0 demo_legacy_ticket"
    by (simp add: insertable_def demo_legacy_ticket_def new_store_def)
  have inv: "store_inv (ts_coll st)"
    unfolding st_def by (simp, rule insert_doc_inv [OF store_inv_empty ins]) (simp_all add: new_store_def)
  have st: "st_docs (ts_coll st) = [(JStr ''t'', demo_legacy_ticket)]" "st_index_fields (ts_coll st) = ticket_index"
    "st_max_record_bytes (ts_coll st) = default_max_record_bytes"
    by (simp_all add: st_def demo_legacy_ticket_def insert_doc_def insert_body_def append_line_def
      new_store_def Let_def ticket_index_def index_insert_def bucket_add_def doc_id_def empty_indexes_def
      default_max_record_bytes_def dump_str_len_def dump_char_len_def)
  have get: "get_doc (JStr ''t'') (ts_coll st) = Some demo_legacy_ticket" by (simp add: get_doc_def st)
  let ?m = "[(''_id'', JStr ''t''), (''title'', JStr ''x''), (''created_by'', JStr ''po''), (''work_type'', JStr ''docs'')]"
  have mig: "migrate_legacy_fields demo_legacy_ticket = Some ?m"
    by (simp add: migrate_legacy_fields_def demo_legacy_ticket_def migrate_type_def legacy_type_migration_def Let_def)
  have ex: "\<not> extra_forbidden ?m" by (simp add: extra_forbidden_def ticket_fields_def)
  have rd: "read_ticket (no_draws demo_legacy_ticket) ?m = Some ?p"
    unfolding read_ticket_iff
    by (simp add: fld_id_def fld_work_type_def fld_size_def fld_status_def fld_title_def fld_str_def fld_str_or_def
      fld_opt_def fld_strs_def fld_time_or_def fld_time_opt_def fld_obj_def fld_examples_def fld_touches_def
      read_work_type_of read_status_of read_size_def all_size_def no_draws_def demo_ticket_def strip_title_backticks_def)
  have ok: "ticket_valid ?p" "ticket_valid (?p\<lparr>tk_work_type := WBrief, tk_updated_at := 1\<rparr>)"
    using demo_ticket_valid(2) by (simp_all add: ticket_valid_def ticket_ok_def has_required_ac_def work_types_requiring_ac_def)
  then have "validate_ticket (no_draws demo_legacy_ticket) demo_legacy_ticket = Some ?p"
    using mig ex rd by (simp add: validate_ticket_Some ticket_valid_def)
  then have prev: "ticket_get no_draws ''t'' st = Inr (Some ?p)"
    by (simp add: ticket_get_def tc_get_def get to_model_def)
  have M: "dump_ticket (?p\<lparr>tk_work_type := WBrief, tk_updated_at := 1\<rparr>) =
      dict_update (dump_ticket ?p) (setdefault ''updated_at'' (JTime 1) [(''work_type'', JStr ''brief'')])"
    by (simp add: setdefault_def dump_ticket_def)
  have v: "validate_ticket (no_draws (dump_ticket (?p\<lparr>tk_work_type := WBrief, tk_updated_at := 1\<rparr>)))
      (dump_ticket (?p\<lparr>tk_work_type := WBrief, tk_updated_at := 1\<rparr>)) =
      Some (?p\<lparr>tk_work_type := WBrief, tk_updated_at := 1\<rparr>)"
    by (rule ticket_roundtrip [OF ok(2)])
  have fits: "dumps_len (JObj (update_record (JStr ''t'') (setdefault ''updated_at'' (JTime 1) [(''work_type'', JStr ''brief'')])))
      \<le> st_max_record_bytes (ts_coll st)"
    unfolding st(3) by (simp add: setdefault_def update_record_def dict_without_def default_max_record_bytes_def
      dump_str_len_def dump_char_len_def)
  from legacy_type_update_bricks [OF inv st(2) get _ _ _ _ prev v M fits, of no_draws] get prev
  show ?thesis by (auto simp: demo_legacy_ticket_def)
qed

end
