(* ===== verification/Actions.thy ===== *)
theory Actions
  imports Prelude
begin

text \<open>
  The effects of the code.  An action is a function from a state to a result (the value, or
  the exception that leaves the code) and the state after it, in which the effects before an
  exception remain.  The rules of a Hoare triple over actions, whose last component holds when
  an exception leaves, carry the proofs about handlers.
\<close>

section \<open>Actions\<close>

type_synonym ('s, 'a) action = "'s \<Rightarrow> 'a result \<times> 's"

definition ret :: "'a \<Rightarrow> ('s, 'a) action" where
  "ret x w = (Inr x, w)"

definition raise :: "exc \<Rightarrow> ('s, 'a) action" where
  "raise e w = (Inl e, w)"

definition bind_act :: "('s, 'a) action \<Rightarrow> ('a \<Rightarrow> ('s, 'b) action) \<Rightarrow> ('s, 'b) action" where
  "bind_act m f w = (case m w of (Inl e, w') \<Rightarrow> (Inl e, w') | (Inr x, w') \<Rightarrow> f x w')"

definition require :: "bool \<Rightarrow> exc \<Rightarrow> ('s, 'a) action \<Rightarrow> ('s, 'a) action" where
  \<comment> \<open>\<open>if not b: raise e\<close>\<close>
  "require b e k w = (if b then k w else (Inl e, w))"

text \<open>Arguments of a tool call: \<open>args[k]\<close>, \<open>args.get(k, d)\<close>, both used as a string.\<close>

definition arg :: "string \<Rightarrow> doc \<Rightarrow> (string \<Rightarrow> ('s, 'a) action) \<Rightarrow> ('s, 'a) action" where
  "arg k args f = (case map_of args k of
     None \<Rightarrow> raise (KeyError k) | Some (JStr s) \<Rightarrow> f s | Some _ \<Rightarrow> raise (TypeError k))"

definition arg_or :: "string \<Rightarrow> string \<Rightarrow> doc \<Rightarrow> (string \<Rightarrow> ('s, 'a) action) \<Rightarrow> ('s, 'a) action" where
  "arg_or k d args f = (case map_of args k of
     None \<Rightarrow> f d | Some (JStr s) \<Rightarrow> f s | Some _ \<Rightarrow> raise (TypeError k))"

definition arg_opt :: "string \<Rightarrow> doc \<Rightarrow> (string option \<Rightarrow> ('s, 'a) action) \<Rightarrow> ('s, 'a) action" where
  "arg_opt k args f = (case map_of args k of
     None \<Rightarrow> f None | Some JNull \<Rightarrow> f None | Some (JStr s) \<Rightarrow> f (Some s) | Some _ \<Rightarrow> raise (TypeError k))"

definition lift_res :: "'a result \<Rightarrow> ('s, 'a) action" where
  "lift_res r w = (r, w)"

text \<open>An action on a part of the state.\<close>

definition zoom :: "('s \<Rightarrow> 't) \<Rightarrow> ('t \<Rightarrow> 's \<Rightarrow> 's) \<Rightarrow> ('t, 'a) action \<Rightarrow> ('s, 'a) action" where
  "zoom get put m s = (case m (get s) of (r, t) \<Rightarrow> (r, put t s))"

lemma bind_ret: "bind_act (ret x) f = f x"
  by (rule ext) (simp add: bind_act_def ret_def)

lemma bind_bind: "bind_act (bind_act m f) g = bind_act m (\<lambda>x. bind_act (f x) g)"
  by (rule ext) (simp add: bind_act_def split: prod.split sum.split)

section \<open>Triples\<close>

definition triple :: "('s \<Rightarrow> bool) \<Rightarrow> ('s, 'a) action \<Rightarrow> ('a \<Rightarrow> 's \<Rightarrow> bool) \<Rightarrow> ('s \<Rightarrow> bool) \<Rightarrow> bool" where
  "triple P m Q E \<longleftrightarrow> (\<forall>w. P w \<longrightarrow> (case m w of (Inl _, w') \<Rightarrow> E w' | (Inr x, w') \<Rightarrow> Q x w'))"

lemma tripleI:
  "(\<And>w e w'. P w \<Longrightarrow> m w = (Inl e, w') \<Longrightarrow> E w') \<Longrightarrow> (\<And>w x w'. P w \<Longrightarrow> m w = (Inr x, w') \<Longrightarrow> Q x w') \<Longrightarrow> triple P m Q E"
  by (auto simp: triple_def split: prod.splits sum.splits)

lemma tripleD:
  assumes "triple P m Q E" "P w" "m w = (r, w')"
  shows "case r of Inl _ \<Rightarrow> E w' | Inr x \<Rightarrow> Q x w'"
  using assms by (auto simp: triple_def split: sum.split)

lemma triple_bind:
  assumes "triple P m R E" "\<And>x. triple (R x) (f x) Q E"
  shows "triple P (bind_act m f) Q E"
  using assms unfolding triple_def bind_act_def by (fastforce split: prod.splits sum.splits)

lemma triple_step:
  \<comment> \<open>a step that leaves a fact about its result, and a world of another kind\<close>
  assumes "\<And>w. P w \<Longrightarrow> (case m w of (Inl _, w') \<Rightarrow> E w' | (Inr x, w') \<Rightarrow> R x \<and> P' w')"
    and "\<And>x. R x \<Longrightarrow> triple P' (f x) Q E"
  shows "triple P (bind_act m f) Q E"
proof (rule triple_bind)
  show "triple P m (\<lambda>x w. R x \<and> P' w) E" using assms(1) by (simp add: triple_def)
  show "triple (\<lambda>w. R x \<and> P' w) (f x) Q E" for x
    using assms(2) [of x] by (cases "R x") (simp_all add: triple_def)
qed

lemma triple_ret: "(\<And>w. P w \<Longrightarrow> Q x w) \<Longrightarrow> triple P (ret x) Q E"
  by (simp add: triple_def ret_def)

lemma triple_raise: "(\<And>w. P w \<Longrightarrow> E w) \<Longrightarrow> triple P (raise e) Q E"
  by (simp add: triple_def raise_def)

lemma triple_require:
  "(b \<Longrightarrow> triple P k Q E) \<Longrightarrow> (\<And>w. P w \<Longrightarrow> E w) \<Longrightarrow> triple P (require b e k) Q E"
  by (simp add: triple_def require_def)

lemma triple_arg:
  "(\<And>s. map_of args k = Some (JStr s) \<Longrightarrow> triple P (f s) Q E) \<Longrightarrow> (\<And>w. P w \<Longrightarrow> E w) \<Longrightarrow> triple P (arg k args f) Q E"
  by (auto simp: arg_def triple_raise split: option.split json.split)

lemma triple_arg_or:
  "(\<And>s. triple P (f s) Q E) \<Longrightarrow> (\<And>w. P w \<Longrightarrow> E w) \<Longrightarrow> triple P (arg_or k d args f) Q E"
  by (auto simp: arg_or_def triple_raise split: option.split json.split)

lemma triple_arg_opt:
  "(\<And>s. triple P (f s) Q E) \<Longrightarrow> (\<And>w. P w \<Longrightarrow> E w) \<Longrightarrow> triple P (arg_opt k args f) Q E"
  by (auto simp: arg_opt_def triple_raise split: option.split json.split)

lemma triple_weaken:
  "triple P m Q E \<Longrightarrow> (\<And>w. P' w \<Longrightarrow> P w) \<Longrightarrow> (\<And>x w. Q x w \<Longrightarrow> Q' x w) \<Longrightarrow> (\<And>w. E w \<Longrightarrow> E' w) \<Longrightarrow> triple P' m Q' E'"
  unfolding triple_def by (fastforce split: prod.splits sum.splits)

lemma triple_run: "triple P m Q E \<Longrightarrow> P w \<Longrightarrow> case m w of (Inl _, w') \<Rightarrow> E w' | (Inr x, w') \<Rightarrow> Q x w'"
  by (simp add: triple_def)

lemma triple_some:
  assumes "\<And>x. R x \<Longrightarrow> triple (P x) m Q E"
  shows "triple (\<lambda>w. \<exists>x. R x \<and> P x w) m Q E"
proof (unfold triple_def, intro allI impI, elim exE conjE)
  fix w x assume "R x" "P x w"
  then show "case m w of (Inl _, w') \<Rightarrow> E w' | (Inr x, w') \<Rightarrow> Q x w'" by (intro triple_run [OF assms])
qed

lemma triple_option:
  "(x = None \<Longrightarrow> triple P a Q E) \<Longrightarrow> (\<And>y. x = Some y \<Longrightarrow> triple P (f y) Q E) \<Longrightarrow>
     triple P (case x of None \<Rightarrow> a | Some y \<Rightarrow> f y) Q E"
  by (cases x) simp_all

lemma triple_if:
  "(b \<Longrightarrow> triple P x Q E) \<Longrightarrow> (\<not> b \<Longrightarrow> triple P y Q E) \<Longrightarrow> triple P (if b then x else y) Q E"
  by simp

section \<open>Actions that only read\<close>

definition reads :: "('s, 'a) action \<Rightarrow> bool" where
  "reads m \<longleftrightarrow> (\<forall>w. snd (m w) = w)"

lemma readsD: "reads m \<Longrightarrow> m w = (r, w') \<Longrightarrow> w' = w"
  by (metis reads_def snd_conv)

lemma reads_bind [intro]: "reads m \<Longrightarrow> (\<And>x. reads (f x)) \<Longrightarrow> reads (bind_act m f)"
  unfolding reads_def bind_act_def by (auto split: prod.split sum.split) (metis snd_conv)+

lemma reads_basic [intro]: "reads (ret x)" "reads (raise e)" "reads (lift_res r)"
  by (simp_all add: reads_def ret_def raise_def lift_res_def split: sum.split)

lemma reads_guard [intro]: "reads k \<Longrightarrow> reads (require b e k)"
  by (simp add: reads_def require_def)

lemma reads_arg [intro]: "(\<And>s. reads (f s)) \<Longrightarrow> reads (arg k args f)" "(\<And>x. reads (g x)) \<Longrightarrow> reads (arg_opt k args g)"
  by (auto simp: arg_def arg_opt_def split: option.split json.split)

lemma reads_case [intro]:
  "(x = None \<Longrightarrow> reads a) \<Longrightarrow> (\<And>y. x = Some y \<Longrightarrow> reads (f y)) \<Longrightarrow> reads (case x of None \<Rightarrow> a | Some y \<Rightarrow> f y)"
  "(b \<Longrightarrow> reads a) \<Longrightarrow> (\<not> b \<Longrightarrow> reads c) \<Longrightarrow> reads (if b then a else c)"
  by (cases x) simp_all

end
