(* ===== verification/ThreadEntry.thy ===== *)
theory ThreadEntry
  imports Codec
begin

text \<open>
  The typed thread entries of \<open>jig/thread.py\<close>: one record per entry class, the
  envelope they share, when an entry is resolved and when it blocks a phase, and
  the dump to and parse from the JSON records of the store.
\<close>

section \<open>Entry classes\<close>

definition max_agent_prose_len :: nat where
  "max_agent_prose_len = 65536"

datatype deferred_status = DOpen | DDone | DPromoted | DAccepted

record deferred_item =
  di_id :: string
  di_item :: string
  di_reason :: string
  di_status :: deferred_status
  di_promoted_ticket_id :: "string option"

record question =
  q_target :: string
  q_question :: string
  q_blocking :: bool
  q_resolved_by :: "string option"
  q_accepted_answer_id :: "string option"

record answer =
  a_question_id :: string
  a_text :: string

record objection =
  o_target_artifact :: string
  o_text :: string
  o_resolved_by :: "string option"
  o_waived_by :: "string option"

record resolution =
  r_objection_id :: string
  r_text :: string

record waiver =
  w_objection_id :: "string option"
  w_check_failure_id :: "string option"
  w_justification :: string

record decision =
  d_decision :: string
  d_rationale :: string

record note_entry =
  n_text :: string
  n_responds_to :: "string option"
  n_payload :: doc

record uncertain =
  u_details :: string

record escalation =
  es_reason :: string
  es_details :: string
  es_target :: string
  es_resolved_by :: "string option"
  es_responds_to :: "string option"

datatype acceptance = Pending | Accepted | Rejected

record handoff =
  h_phase :: string
  h_outputs :: "string list"
  h_summary :: string
  h_deferred_items :: "deferred_item list"
  h_new_public_surfaces :: "string list"
  h_changed_assumptions :: "string list"
  h_required_followups :: "string list"
  h_unknowns :: "string list"
  h_acceptance_state :: acceptance
  h_accepted_by :: "string option"
  h_rejection_reason :: "string option"

datatype proposal_state = PPending | PAccepted | PRejected | PRefining

record proposal =
  p_target :: string
  p_section :: "string option"
  p_change :: "string option"
  p_rationale :: string
  p_state :: proposal_state
  p_owners :: "string list"
  p_parent_id :: "string option"
  p_spec_version :: "int option"

record system_event =
  se_event_type :: string
  se_content :: string
  se_commit_sha :: "string option"
  se_phase_result :: "string option"
  se_phase_branch :: "string option"
  se_check_name :: "string option"
  se_check_severity :: "string option"
  se_check_verdict :: "string option"
  se_excerpt :: string
  se_waived :: bool
  se_payload :: doc

definition event_types :: "string list" where
  "event_types = [''commit'', ''phase_run'', ''status_change'', ''check_failure'', ''dep_merge_failed'',
    ''phase_start'', ''phase_end'', ''agent_run'', ''spec_generated'', ''spec_gaps_reported'',
    ''sa_skipped'', ''scaffold_applied'', ''brief_approved'', ''onboard_artifacts_approved'',
    ''onboard_sa_rerun_requested'', ''provisioning_failed'', ''reviewer_spawn_failed'',
    ''auto_commit_failed'', ''per_commit_hook_install_failed'', ''per_commit_runner_crashed'',
    ''boundary_check_degraded'', ''fix_loop_route'']"

definition phase_results :: "string list" where
  "phase_results = [''success'', ''failed'', ''blocked'', ''needs_info'']"

definition check_severities :: "string list" where
  "check_severities = [''required'', ''warning'']"

definition check_verdicts :: "string list" where
  "check_verdicts = [''pass'', ''fail'', ''timeout'', ''error'']"

datatype body =
    Question question
  | Answer answer
  | Objection objection
  | Resolution resolution
  | Waiver waiver
  | Decision decision
  | Note note_entry
  | Uncertain uncertain
  | Escalation escalation
  | Handoff handoff
  | Proposal proposal
  | SystemEvent system_event

record thread_entry =
  te_id :: string
  te_ticket_id :: string
  te_author :: string
  te_created_at :: int
  te_body :: body

fun body_kind :: "body \<Rightarrow> string" where
  "body_kind (Question _) = ''question''"
| "body_kind (Answer _) = ''answer''"
| "body_kind (Objection _) = ''objection''"
| "body_kind (Resolution _) = ''resolution''"
| "body_kind (Waiver _) = ''waiver''"
| "body_kind (Decision _) = ''decision''"
| "body_kind (Note _) = ''note''"
| "body_kind (Uncertain _) = ''uncertain''"
| "body_kind (Escalation _) = ''escalation''"
| "body_kind (Handoff _) = ''handoff''"
| "body_kind (Proposal _) = ''proposal''"
| "body_kind (SystemEvent _) = ''system_event''"

abbreviation te_kind :: "thread_entry \<Rightarrow> string" where
  "te_kind e \<equiv> body_kind (te_body e)"

section \<open>Gating semantics\<close>

fun body_resolved :: "body \<Rightarrow> bool" where
  "body_resolved (Question q) = (q_resolved_by q \<noteq> None)"
| "body_resolved (Objection x) = (o_resolved_by x \<noteq> None \<or> o_waived_by x \<noteq> None)"
| "body_resolved (Escalation x) = (es_resolved_by x \<noteq> None)"
| "body_resolved (Handoff h) = (h_acceptance_state h \<noteq> Pending)"
| "body_resolved (Proposal p) = (p_state p \<in> {PAccepted, PRejected})"
| "body_resolved _ = True"

fun body_blocking :: "body \<Rightarrow> bool" where
  "body_blocking (Question q) = (q_blocking q \<and> \<not> body_resolved (Question q))"
| "body_blocking (Objection x) = (\<not> body_resolved (Objection x))"
| "body_blocking (Escalation x) = (\<not> body_resolved (Escalation x))"
| "body_blocking (Handoff h) = (\<not> body_resolved (Handoff h))"
| "body_blocking _ = False"

definition is_resolved :: "thread_entry \<Rightarrow> bool" where
  "is_resolved e = body_resolved (te_body e)"

definition is_blocking :: "thread_entry \<Rightarrow> bool" where
  "is_blocking e = body_blocking (te_body e)"

fun body_content :: "body \<Rightarrow> string" where
  "body_content (Note n) = n_text n"
| "body_content (Question q) = q_question q"
| "body_content (Answer a) = a_text a"
| "body_content (Decision d) = d_decision d"
| "body_content (Resolution r) = r_text r"
| "body_content (Waiver w) = w_justification w"
| "body_content (Uncertain u) = u_details u"
| "body_content (Escalation x) = es_details x"
| "body_content (Objection x) = o_text x"
| "body_content (Handoff h) = h_summary h"
| "body_content (Proposal p) = p_rationale p"
| "body_content (SystemEvent s) = se_content s"

definition entry_content :: "thread_entry \<Rightarrow> string" where
  "entry_content e = body_content (te_body e)"

section \<open>Validation\<close>

definition prose_ok :: "string \<Rightarrow> bool" where
  "prose_ok s = (length s \<le> max_agent_prose_len)"

definition objection_ok :: "objection \<Rightarrow> bool" where
  \<comment> \<open>\<open>Objection.model_post_init\<close>\<close>
  "objection_ok x = (\<not> (o_resolved_by x \<noteq> None \<and> o_waived_by x \<noteq> None))"

definition waiver_ok :: "waiver \<Rightarrow> bool" where
  \<comment> \<open>\<open>Waiver.model_post_init\<close>\<close>
  "waiver_ok w = (length (filter (\<lambda>x. x \<noteq> None) [w_objection_id w, w_check_failure_id w]) = 1)"

definition handoff_ok :: "handoff \<Rightarrow> bool" where
  \<comment> \<open>\<open>Handoff.model_post_init\<close>\<close>
  "handoff_ok h = (case h_acceptance_state h of
     Pending \<Rightarrow> h_accepted_by h = None \<and> h_rejection_reason h = None
   | Accepted \<Rightarrow> h_accepted_by h \<noteq> None \<and> h_rejection_reason h = None
   | Rejected \<Rightarrow> h_rejection_reason h \<noteq> None)"

definition system_event_ok :: "system_event \<Rightarrow> bool" where
  "system_event_ok s = (se_event_type s \<in> set event_types \<and> opt_in phase_results (se_phase_result s) \<and>
     opt_in check_severities (se_check_severity s) \<and> opt_in check_verdicts (se_check_verdict s))"

fun body_valid :: "body \<Rightarrow> bool" where
  "body_valid (Question q) = prose_ok (q_question q)"
| "body_valid (Answer a) = prose_ok (a_text a)"
| "body_valid (Objection x) = (prose_ok (o_text x) \<and> objection_ok x)"
| "body_valid (Resolution r) = prose_ok (r_text r)"
| "body_valid (Waiver w) = (prose_ok (w_justification w) \<and> waiver_ok w)"
| "body_valid (Decision d) = (prose_ok (d_decision d) \<and> prose_ok (d_rationale d))"
| "body_valid (Note n) = prose_ok (n_text n)"
| "body_valid (Handoff h) = handoff_ok h"
| "body_valid (SystemEvent s) = system_event_ok s"
| "body_valid _ = True"

definition entry_valid :: "thread_entry \<Rightarrow> bool" where
  "entry_valid e = body_valid (te_body e)"

end
