(* ===== verification/ThreadCodec.thy ===== *)
theory ThreadCodec
  imports ThreadEntry
begin

text \<open>
  The JSON shape of thread entries: \<open>model_dump(mode="json", by_alias=True)\<close> of every
  entry class of \<open>jig/thread.py\<close> in field order, and \<open>parse_thread_entry\<close>, the
  discriminated union keyed on \<open>kind\<close>.  The collection of thread entries is an
  instance of \<^verbatim>\<open>stored_model\<close>.
\<close>

section \<open>Literals\<close>

fun show_deferred_status :: "deferred_status \<Rightarrow> string" where
  "show_deferred_status DOpen = ''open''"
| "show_deferred_status DDone = ''done''"
| "show_deferred_status DPromoted = ''promoted''"
| "show_deferred_status DAccepted = ''accepted''"

definition read_deferred_status :: "string \<Rightarrow> deferred_status option" where
  "read_deferred_status s = List.find (\<lambda>x. show_deferred_status x = s) [DOpen, DDone, DPromoted, DAccepted]"

fun show_acceptance :: "acceptance \<Rightarrow> string" where
  "show_acceptance Pending = ''pending''"
| "show_acceptance Accepted = ''accepted''"
| "show_acceptance Rejected = ''rejected''"

definition read_acceptance :: "string \<Rightarrow> acceptance option" where
  "read_acceptance s = List.find (\<lambda>x. show_acceptance x = s) [Pending, Accepted, Rejected]"

fun show_proposal_state :: "proposal_state \<Rightarrow> string" where
  "show_proposal_state PPending = ''pending''"
| "show_proposal_state PAccepted = ''accepted''"
| "show_proposal_state PRejected = ''rejected''"
| "show_proposal_state PRefining = ''refining''"

definition read_proposal_state :: "string \<Rightarrow> proposal_state option" where
  "read_proposal_state s = List.find (\<lambda>x. show_proposal_state x = s) [PPending, PAccepted, PRejected, PRefining]"

lemma read_deferred_status_show [simp]: "read_deferred_status (show_deferred_status x) = Some x"
  by (cases x) (simp_all add: read_deferred_status_def)

lemma read_acceptance_show [simp]: "read_acceptance (show_acceptance x) = Some x"
  by (cases x) (simp_all add: read_acceptance_def)

lemma read_proposal_state_show [simp]: "read_proposal_state (show_proposal_state x) = Some x"
  by (cases x) (simp_all add: read_proposal_state_def)

section \<open>Dump\<close>

definition dump_deferred :: "deferred_item \<Rightarrow> doc" where
  "dump_deferred i = [(''id'', JStr (di_id i)), (''item'', JStr (di_item i)), (''reason'', JStr (di_reason i)),
     (''status'', JStr (show_deferred_status (di_status i))),
     (''promoted_ticket_id'', jopt (di_promoted_ticket_id i))]"

fun dump_body :: "body \<Rightarrow> doc" where
  "dump_body (Question q) = [(''target'', JStr (q_target q)), (''question'', JStr (q_question q)),
     (''blocking'', JBool (q_blocking q)), (''resolved_by'', jopt (q_resolved_by q)),
     (''accepted_answer_id'', jopt (q_accepted_answer_id q))]"
| "dump_body (Answer a) = [(''question_id'', JStr (a_question_id a)), (''text'', JStr (a_text a))]"
| "dump_body (Objection x) = [(''target_artifact'', JStr (o_target_artifact x)), (''text'', JStr (o_text x)),
     (''resolved_by'', jopt (o_resolved_by x)), (''waived_by'', jopt (o_waived_by x))]"
| "dump_body (Resolution r) = [(''objection_id'', JStr (r_objection_id r)), (''text'', JStr (r_text r))]"
| "dump_body (Waiver w) = [(''objection_id'', jopt (w_objection_id w)),
     (''check_failure_id'', jopt (w_check_failure_id w)), (''justification'', JStr (w_justification w))]"
| "dump_body (Decision d) = [(''decision'', JStr (d_decision d)), (''rationale'', JStr (d_rationale d))]"
| "dump_body (Note n) = [(''text'', JStr (n_text n)), (''responds_to'', jopt (n_responds_to n)),
     (''payload'', JObj (n_payload n))]"
| "dump_body (Uncertain u) = [(''details'', JStr (u_details u))]"
| "dump_body (Escalation x) = [(''reason'', JStr (es_reason x)), (''details'', JStr (es_details x)),
     (''target'', JStr (es_target x)), (''resolved_by'', jopt (es_resolved_by x)),
     (''responds_to'', jopt (es_responds_to x))]"
| "dump_body (Handoff h) = [(''phase'', JStr (h_phase h)), (''outputs'', jstrs (h_outputs h)),
     (''summary'', JStr (h_summary h)),
     (''deferred_items'', JList (map (JObj \<circ> dump_deferred) (h_deferred_items h))),
     (''new_public_surfaces'', jstrs (h_new_public_surfaces h)),
     (''changed_assumptions'', jstrs (h_changed_assumptions h)),
     (''required_followups'', jstrs (h_required_followups h)), (''unknowns'', jstrs (h_unknowns h)),
     (''acceptance_state'', JStr (show_acceptance (h_acceptance_state h))),
     (''accepted_by'', jopt (h_accepted_by h)), (''rejection_reason'', jopt (h_rejection_reason h))]"
| "dump_body (Proposal p) = [(''target'', JStr (p_target p)), (''section'', jopt (p_section p)),
     (''change'', jopt (p_change p)), (''rationale'', JStr (p_rationale p)),
     (''state'', JStr (show_proposal_state (p_state p))), (''owners'', jstrs (p_owners p)),
     (''parent_id'', jopt (p_parent_id p)), (''spec_version'', jint_opt (p_spec_version p))]"
| "dump_body (SystemEvent s) = [(''event_type'', JStr (se_event_type s)), (''content'', JStr (se_content s)),
     (''commit_sha'', jopt (se_commit_sha s)), (''phase_result'', jopt (se_phase_result s)),
     (''phase_branch'', jopt (se_phase_branch s)), (''check_name'', jopt (se_check_name s)),
     (''check_severity'', jopt (se_check_severity s)), (''check_verdict'', jopt (se_check_verdict s)),
     (''excerpt'', JStr (se_excerpt s)), (''waived'', JBool (se_waived s)), (''payload'', JObj (se_payload s))]"

definition dump_entry :: "thread_entry \<Rightarrow> doc" where
  "dump_entry e = [(''_id'', JStr (te_id e)), (''ticket_id'', JStr (te_ticket_id e)),
     (''author'', JStr (te_author e)), (''created_at'', JTime (te_created_at e)),
     (''kind'', JStr (body_kind (te_body e)))] @ dump_body (te_body e)"

section \<open>Parse\<close>

definition parse_deferred :: "ctx \<Rightarrow> nat \<Rightarrow> json \<Rightarrow> deferred_item option" where
  "parse_deferred cx n j = do {
     d \<leftarrow> as_obj j;
     i \<leftarrow> fld_str_or ''id'' (cx_uuid cx n) d;
     item \<leftarrow> fld_str ''item'' d;
     reason \<leftarrow> fld_str_or ''reason'' [] d;
     st \<leftarrow> fld_str_or ''status'' ''open'' d;
     st \<leftarrow> read_deferred_status st;
     pt \<leftarrow> fld_opt ''promoted_ticket_id'' d;
     Some \<lparr>di_id = i, di_item = item, di_reason = reason, di_status = st, di_promoted_ticket_id = pt\<rparr> }"

fun parse_deferreds :: "ctx \<Rightarrow> nat \<Rightarrow> json list \<Rightarrow> deferred_item list option" where
  "parse_deferreds cx n [] = Some []"
| "parse_deferreds cx n (j # js) = do {
     i \<leftarrow> parse_deferred cx n j; is \<leftarrow> parse_deferreds cx (Suc n) js; Some (i # is) }"

definition fld_deferreds :: "ctx \<Rightarrow> doc \<Rightarrow> deferred_item list option" where
  "fld_deferreds cx d = (case map_of d ''deferred_items'' of
     None \<Rightarrow> Some [] | Some (JList js) \<Rightarrow> parse_deferreds cx 1 js | _ \<Rightarrow> None)"

definition parse_question :: "doc \<Rightarrow> body option" where
  "parse_question d = do {
     t \<leftarrow> fld_str ''target'' d; q \<leftarrow> fld_str ''question'' d; b \<leftarrow> fld_bool_or ''blocking'' False d;
     r \<leftarrow> fld_opt ''resolved_by'' d; a \<leftarrow> fld_opt ''accepted_answer_id'' d;
     Some (Question \<lparr>q_target = t, q_question = q, q_blocking = b, q_resolved_by = r,
       q_accepted_answer_id = a\<rparr>) }"

definition parse_answer :: "doc \<Rightarrow> body option" where
  "parse_answer d = do {
     q \<leftarrow> fld_str ''question_id'' d; t \<leftarrow> fld_str ''text'' d;
     Some (Answer \<lparr>a_question_id = q, a_text = t\<rparr>) }"

definition parse_objection :: "doc \<Rightarrow> body option" where
  "parse_objection d = do {
     a \<leftarrow> fld_str ''target_artifact'' d; t \<leftarrow> fld_str ''text'' d;
     r \<leftarrow> fld_opt ''resolved_by'' d; w \<leftarrow> fld_opt ''waived_by'' d;
     Some (Objection \<lparr>o_target_artifact = a, o_text = t, o_resolved_by = r, o_waived_by = w\<rparr>) }"

definition parse_resolution :: "doc \<Rightarrow> body option" where
  "parse_resolution d = do {
     i \<leftarrow> fld_str ''objection_id'' d; t \<leftarrow> fld_str ''text'' d;
     Some (Resolution \<lparr>r_objection_id = i, r_text = t\<rparr>) }"

definition parse_waiver :: "doc \<Rightarrow> body option" where
  "parse_waiver d = do {
     i \<leftarrow> fld_opt ''objection_id'' d; c \<leftarrow> fld_opt ''check_failure_id'' d;
     t \<leftarrow> fld_str ''justification'' d;
     Some (Waiver \<lparr>w_objection_id = i, w_check_failure_id = c, w_justification = t\<rparr>) }"

definition parse_decision :: "doc \<Rightarrow> body option" where
  "parse_decision d = do {
     x \<leftarrow> fld_str ''decision'' d; r \<leftarrow> fld_str ''rationale'' d;
     Some (Decision \<lparr>d_decision = x, d_rationale = r\<rparr>) }"

definition parse_note :: "doc \<Rightarrow> body option" where
  "parse_note d = do {
     t \<leftarrow> fld_str ''text'' d; r \<leftarrow> fld_opt ''responds_to'' d; p \<leftarrow> fld_obj ''payload'' d;
     Some (Note \<lparr>n_text = t, n_responds_to = r, n_payload = p\<rparr>) }"

definition parse_uncertain :: "doc \<Rightarrow> body option" where
  "parse_uncertain d = do { t \<leftarrow> fld_str ''details'' d; Some (Uncertain \<lparr>u_details = t\<rparr>) }"

definition parse_escalation :: "doc \<Rightarrow> body option" where
  "parse_escalation d = do {
     r \<leftarrow> fld_str ''reason'' d; t \<leftarrow> fld_str ''details'' d; g \<leftarrow> fld_str_or ''target'' ''human'' d;
     b \<leftarrow> fld_opt ''resolved_by'' d; p \<leftarrow> fld_opt ''responds_to'' d;
     Some (Escalation \<lparr>es_reason = r, es_details = t, es_target = g, es_resolved_by = b,
       es_responds_to = p\<rparr>) }"

definition parse_handoff :: "ctx \<Rightarrow> doc \<Rightarrow> body option" where
  "parse_handoff cx d = do {
     p \<leftarrow> fld_str ''phase'' d; os \<leftarrow> fld_strs ''outputs'' d; s \<leftarrow> fld_str_or ''summary'' [] d;
     ds \<leftarrow> fld_deferreds cx d; nps \<leftarrow> fld_strs ''new_public_surfaces'' d;
     ca \<leftarrow> fld_strs ''changed_assumptions'' d; rf \<leftarrow> fld_strs ''required_followups'' d;
     us \<leftarrow> fld_strs ''unknowns'' d; st \<leftarrow> fld_str_or ''acceptance_state'' ''pending'' d;
     st \<leftarrow> read_acceptance st; ab \<leftarrow> fld_opt ''accepted_by'' d; rr \<leftarrow> fld_opt ''rejection_reason'' d;
     Some (Handoff \<lparr>h_phase = p, h_outputs = os, h_summary = s, h_deferred_items = ds,
       h_new_public_surfaces = nps, h_changed_assumptions = ca, h_required_followups = rf,
       h_unknowns = us, h_acceptance_state = st, h_accepted_by = ab, h_rejection_reason = rr\<rparr>) }"

definition parse_proposal :: "doc \<Rightarrow> body option" where
  "parse_proposal d = do {
     t \<leftarrow> fld_str ''target'' d; s \<leftarrow> fld_opt ''section'' d; c \<leftarrow> fld_opt ''change'' d;
     r \<leftarrow> fld_str_or ''rationale'' [] d; st \<leftarrow> fld_str_or ''state'' ''pending'' d;
     st \<leftarrow> read_proposal_state st; os \<leftarrow> fld_strs ''owners'' d; p \<leftarrow> fld_opt ''parent_id'' d;
     v \<leftarrow> fld_int_opt ''spec_version'' d;
     Some (Proposal \<lparr>p_target = t, p_section = s, p_change = c, p_rationale = r, p_state = st,
       p_owners = os, p_parent_id = p, p_spec_version = v\<rparr>) }"

definition parse_system_event :: "doc \<Rightarrow> body option" where
  "parse_system_event d = do {
     et \<leftarrow> fld_str ''event_type'' d; c \<leftarrow> fld_str_or ''content'' [] d; sha \<leftarrow> fld_opt ''commit_sha'' d;
     pr \<leftarrow> fld_opt ''phase_result'' d; pb \<leftarrow> fld_opt ''phase_branch'' d; cn \<leftarrow> fld_opt ''check_name'' d;
     cs \<leftarrow> fld_opt ''check_severity'' d; cv \<leftarrow> fld_opt ''check_verdict'' d; ex \<leftarrow> fld_str_or ''excerpt'' [] d;
     w \<leftarrow> fld_bool_or ''waived'' False d; p \<leftarrow> fld_obj ''payload'' d;
     Some (SystemEvent \<lparr>se_event_type = et, se_content = c, se_commit_sha = sha, se_phase_result = pr,
       se_phase_branch = pb, se_check_name = cn, se_check_severity = cs, se_check_verdict = cv,
       se_excerpt = ex, se_waived = w, se_payload = p\<rparr>) }"

definition parse_body :: "ctx \<Rightarrow> string \<Rightarrow> doc \<Rightarrow> body option" where
  "parse_body cx k d =
    (if k = ''question'' then parse_question d else if k = ''answer'' then parse_answer d
     else if k = ''objection'' then parse_objection d else if k = ''resolution'' then parse_resolution d
     else if k = ''waiver'' then parse_waiver d else if k = ''decision'' then parse_decision d
     else if k = ''note'' then parse_note d else if k = ''uncertain'' then parse_uncertain d
     else if k = ''escalation'' then parse_escalation d else if k = ''handoff'' then parse_handoff cx d
     else if k = ''proposal'' then parse_proposal d else if k = ''system_event'' then parse_system_event d
     else None)"

definition parse_thread_entry :: "ctx \<Rightarrow> doc \<Rightarrow> thread_entry option" where
  "parse_thread_entry cx d = do {
     k \<leftarrow> fld_str ''kind'' d;
     i \<leftarrow> fld_id cx d;
     t \<leftarrow> fld_str ''ticket_id'' d;
     a \<leftarrow> fld_str ''author'' d;
     c \<leftarrow> fld_time_or ''created_at'' (cx_now cx) d;
     b \<leftarrow> parse_body cx k d;
     guard (body_valid b);
     Some \<lparr>te_id = i, te_ticket_id = t, te_author = a, te_created_at = c, te_body = b\<rparr> }"

section \<open>Round trip\<close>

lemma parse_deferred_dump: "parse_deferred cx n (JObj (dump_deferred i)) = Some i"
  by (simp add: parse_deferred_def dump_deferred_def codec)

lemma parse_deferreds_dump: "parse_deferreds cx n (map (JObj \<circ> dump_deferred) is) = Some is"
  by (induction "is" arbitrary: n) (simp_all add: parse_deferred_dump)

lemma fld_deferreds_dump [codec]:
  "map_of d ''deferred_items'' = Some (JList (map (JObj \<circ> dump_deferred) is)) \<Longrightarrow> fld_deferreds cx d = Some is"
  by (simp add: fld_deferreds_def parse_deferreds_dump)

lemmas body_parsers = parse_question_def parse_answer_def parse_objection_def parse_resolution_def
  parse_waiver_def parse_decision_def parse_note_def parse_uncertain_def parse_escalation_def
  parse_handoff_def parse_proposal_def parse_system_event_def

lemma parse_body_dump: "parse_body cx (body_kind (te_body e)) (dump_entry e) = Some (te_body e)"
  by (cases "te_body e")
    (simp_all only: body_kind.simps parse_body_def if_True if_False refl, simp_all add: body_parsers dump_entry_def codec)

lemma parse_entry_dump: "entry_valid e \<Longrightarrow> parse_thread_entry cx (dump_entry e) = Some e"
  using parse_body_dump [of cx e]
  by (simp add: parse_thread_entry_def entry_valid_def dump_entry_def codec)

lemma parse_entry_valid: "parse_thread_entry cx d = Some e \<Longrightarrow> entry_valid e"
  by (auto simp: parse_thread_entry_def entry_valid_def split: Option.bind_splits)

end
