(* ===== verification/ThreadStore.thy ===== *)
theory ThreadStore
  imports ThreadCodec ModelStore
begin

text \<open>
  The thread store of \<open>jig/store/threads.py\<close>: the migration of legacy comment
  records on read, posting, updating and the queries the gates are built on.
\<close>

section \<open>Legacy records\<close>

definition legacy_system_event_kinds :: "string list" where
  "legacy_system_event_kinds = [''commit'', ''phase_run'', ''status_change'']"

definition legacy_proposal_renames :: "(string \<times> string) list" where
  "legacy_proposal_renames =
    [(''proposal_target'', ''target''), (''proposal_section'', ''section''), (''proposal_change'', ''change''),
     (''proposal_state'', ''state''), (''proposal_parent_id'', ''parent_id''),
     (''proposal_owners'', ''owners''), (''proposal_spec_version'', ''spec_version'')]"

definition envelope :: "doc \<Rightarrow> doc result" where
  "envelope raw = (case (map_of raw ''ticket_id'', map_of raw ''author'') of
     (None, _) \<Rightarrow> Inl (KeyError ''ticket_id'')
   | (_, None) \<Rightarrow> Inl (KeyError ''author'')
   | (Some t, Some a) \<Rightarrow> Inr (
       [(''ticket_id'', t), (''author'', a)] @
       (case map_of raw ''_id'' of Some i \<Rightarrow> [(''_id'', i)]
        | None \<Rightarrow> (case map_of raw ''id'' of Some i \<Rightarrow> [(''_id'', i)] | None \<Rightarrow> [])) @
       (case map_of raw ''created_at'' of Some c \<Rightarrow> [(''created_at'', c)] | None \<Rightarrow> [])))"

definition enveloped :: "doc \<Rightarrow> doc \<Rightarrow> doc result" where
  \<comment> \<open>\<open>migrated = _envelope(raw); migrated.update(new)\<close>\<close>
  "enveloped raw new = (case envelope raw of Inl e \<Rightarrow> Inl e | Inr env \<Rightarrow> Inr (dict_update env new))"

definition renamed :: "doc \<Rightarrow> (string \<times> string) list \<Rightarrow> doc" where
  "renamed raw rs = concat (map (\<lambda>(old, new). case map_of raw old of
       None \<Rightarrow> [] | Some v \<Rightarrow> if v = JNull then [] else [(new, v)]) rs)"

definition renamed_proposal_fields :: "doc \<Rightarrow> doc" where
  "renamed_proposal_fields raw = renamed raw legacy_proposal_renames"

definition migrate_proposal :: "doc \<Rightarrow> doc result" where
  "migrate_proposal raw = (case envelope raw of
     Inl e \<Rightarrow> Inl e
   | Inr env \<Rightarrow>
       (let m = dict_update (AList.update ''kind'' (JStr ''proposal'') env) (renamed_proposal_fields raw);
            m = (case map_of raw ''content'' of
                   Some c \<Rightarrow> if truthy c then setdefault ''rationale'' c m else m | None \<Rightarrow> m);
            t = dict_get JNull ''proposal_target'' raw;
            m = setdefault ''target'' (if truthy t then t else JStr []) m
        in Inr (setdefault ''state'' (JStr ''pending'') m)))"

definition migrate_legacy :: "doc \<Rightarrow> doc result" where
  "migrate_legacy raw =
    (let kind = dict_get JNull ''kind'' raw;
         content = dict_get (JStr []) ''content'' raw
     in if kind = JNull then Inr raw
        else if \<not> hashable kind then Inl (TypeError ''unhashable'')
        else if kind \<in> JStr ` set legacy_system_event_kinds then
          enveloped raw [(''kind'', JStr ''system_event''), (''event_type'', kind), (''content'', content),
            (''commit_sha'', dict_get JNull ''commit_sha'' raw),
            (''phase_result'', dict_get JNull ''phase_result'' raw),
            (''phase_branch'', dict_get JNull ''phase_branch'' raw)]
        else if kind = JStr ''comment'' then
          enveloped raw [(''kind'', JStr ''note''), (''text'', content)]
        else if kind = JStr ''decision'' \<and> map_of raw ''decision'' = None then
          enveloped raw [(''kind'', JStr ''decision''), (''decision'', content), (''rationale'', JStr [])]
        else if kind = JStr ''question'' \<and> map_of raw ''question'' = None then
          enveloped raw [(''kind'', JStr ''question''),
            (''target'', dict_get (JStr ''any_human'') ''target'' raw), (''question'', content),
            (''blocking'', JBool (truthy (dict_get (JBool False) ''blocking'' raw)))]
        else if kind = JStr ''answer'' \<and> map_of raw ''text'' = None then
          enveloped raw [(''kind'', JStr ''answer''),
            (''question_id'', dict_get (JStr []) ''question_id'' raw), (''text'', content)]
        else if kind = JStr ''proposal'' \<and> map_of raw ''target'' = None then migrate_proposal raw
        else Inr raw)"

section \<open>The store\<close>

definition thread_index :: "string list" where
  "thread_index = [''ticket_id'', ''kind'', ''author'']"

definition new_thread_store :: "(json list \<Rightarrow> json list) \<Rightarrow> line list \<Rightarrow> jsonl_store" where
  "new_thread_store ord fl = new_store ord fl thread_index default_max_record_bytes"

definition thread_post :: "string \<Rightarrow> thread_entry \<Rightarrow> jsonl_store \<Rightarrow> json result \<times> jsonl_store" where
  "thread_post fresh e st = tc_insert dump_entry fresh e st"

definition thread_update :: "string \<Rightarrow> doc \<Rightarrow> jsonl_store \<Rightarrow> bool result \<times> jsonl_store" where
  "thread_update i ch st = update_doc (JStr i) ch st"

text \<open>\<open>cx raw\<close> is what the default factories draw while \<open>raw\<close> is validated.\<close>

definition load_entry :: "(doc \<Rightarrow> ctx) \<Rightarrow> doc \<Rightarrow> thread_entry result" where
  "load_entry cx raw = (case migrate_legacy raw of
     Inl e \<Rightarrow> Inl e
   | Inr d \<Rightarrow> (case parse_thread_entry (cx raw) d of
       None \<Rightarrow> Inl (ValidationError ''entry'') | Some e \<Rightarrow> Inr e))"

definition thread_get :: "(doc \<Rightarrow> ctx) \<Rightarrow> string \<Rightarrow> jsonl_store \<Rightarrow> thread_entry option result" where
  "thread_get cx i st = (case get_doc (JStr i) st of
     None \<Rightarrow> Inr None
   | Some raw \<Rightarrow> (case load_entry cx raw of Inl e \<Rightarrow> Inl e | Inr m \<Rightarrow> Inr (Some m)))"

definition for_ticket :: "(doc \<Rightarrow> ctx) \<Rightarrow> string \<Rightarrow> jsonl_store \<Rightarrow> thread_entry list result" where
  "for_ticket cx t st = (case find_where [(''ticket_id'', JStr t)] st of
     Inl e \<Rightarrow> Inl e
   | Inr raws \<Rightarrow> (case map_res (load_entry cx) raws of
       Inl e \<Rightarrow> Inl e | Inr es \<Rightarrow> Inr (sort_key te_created_at es)))"

definition find_by_kind ::
  "(doc \<Rightarrow> ctx) \<Rightarrow> string \<Rightarrow> string \<Rightarrow> jsonl_store \<Rightarrow> thread_entry list result" where
  "find_by_kind cx t k st = (case for_ticket cx t st of
     Inl e \<Rightarrow> Inl e | Inr es \<Rightarrow> Inr (filter (\<lambda>e. te_kind e = k) es))"

definition all_by_kind :: "(doc \<Rightarrow> ctx) \<Rightarrow> string \<Rightarrow> jsonl_store \<Rightarrow> thread_entry list result" where
  "all_by_kind cx k st =
     map_res (load_entry cx) (find_docs (Some (\<lambda>r. dict_get JNull ''kind'' r = JStr k)) st)"

definition has_unresolved_blocking ::
  "(doc \<Rightarrow> ctx) \<Rightarrow> string \<Rightarrow> jsonl_store \<Rightarrow> thread_entry list result" where
  "has_unresolved_blocking cx t st = (case for_ticket cx t st of
     Inl e \<Rightarrow> Inl e | Inr es \<Rightarrow> Inr (filter is_blocking es))"

section \<open>Migration\<close>

lemma envelope_Inr:
  assumes "envelope raw = Inr env"
  shows "map_of env ''ticket_id'' = map_of raw ''ticket_id''" "map_of env ''author'' = map_of raw ''author''"
    "map_of raw ''ticket_id'' \<noteq> None"
    "map_of env ''created_at'' = map_of raw ''created_at''"
    "map_of env ''_id'' = (case map_of raw ''_id'' of None \<Rightarrow> map_of raw ''id'' | Some i \<Rightarrow> Some i)"
    "map_of env ''kind'' = None" "map_of env ''target'' = None"
  using assms by (auto simp: envelope_def split: option.splits)

lemma enveloped_get:
  "enveloped raw new = Inr d \<Longrightarrow> map_of new k = Some v \<Longrightarrow> distinct (keys new) \<Longrightarrow> map_of d k = Some v"
  by (auto simp: enveloped_def map_of_dict_update split: sum.splits)

lemma enveloped_env:
  assumes "enveloped raw new = Inr d" "distinct (keys new)" "k \<notin> set (keys new)"
  obtains env where "envelope raw = Inr env" "map_of d k = map_of env k"
  using assms by (auto simp: enveloped_def map_of_dict_update map_of_eq_None_iff [symmetric] split: sum.splits)

lemma dict_get_kind: "dict_get JNull ''kind'' d = JStr k \<longleftrightarrow> map_of d ''kind'' = Some (JStr k)"
  by (auto simp: dict_get_def the_default_def split: option.splits)

lemma JStr_image_iff [simp]: "JStr k \<in> JStr ` S \<longleftrightarrow> k \<in> S"
  by auto

definition native_field :: "(string \<times> string) list" where
  \<comment> \<open>the field whose absence marks a legacy record of the kind\<close>
  "native_field = [(''decision'', ''decision''), (''question'', ''question''), (''answer'', ''text''),
     (''proposal'', ''target'')]"

definition modern_kind :: "string \<Rightarrow> doc \<Rightarrow> bool" where
  \<comment> \<open>a record of kind \<open>k\<close> that the migration leaves alone\<close>
  "modern_kind k d \<longleftrightarrow> k \<notin> set legacy_system_event_kinds \<and> k \<noteq> ''comment'' \<and>
     (\<forall>(k', f) \<in> set native_field. k = k' \<longrightarrow> map_of d f \<noteq> None)"

lemma modern_kind_mono:
  "modern_kind k d \<Longrightarrow> (\<And>f. map_of d f \<noteq> None \<Longrightarrow> map_of e f \<noteq> None) \<Longrightarrow> modern_kind k e"
  unfolding modern_kind_def by blast

lemma imp_conj_False: "(a \<longrightarrow> b \<noteq> c) \<Longrightarrow> (a \<and> b = c) = False"
  by blast

lemma migrate_modern:
  assumes "map_of d ''kind'' = Some (JStr k)" "modern_kind k d"
  shows "migrate_legacy d = Inr d"
proof -
  have k: "dict_get JNull ''kind'' d = JStr k" using assms(1) by (rule dict_get_Some)
  have req: "(k', f) \<in> set native_field \<Longrightarrow> (k = k' \<and> map_of d f = None) = False" for k' f
    using assms(2) unfolding modern_kind_def by (intro imp_conj_False) blast
  have n: "(k \<in> set legacy_system_event_kinds) = False" "(k = ''comment'') = False"
    using assms(2) unfolding modern_kind_def by simp_all
  have r: "(k = ''decision'' \<and> map_of d ''decision'' = None) = False"
    "(k = ''question'' \<and> map_of d ''question'' = None) = False"
    "(k = ''answer'' \<and> map_of d ''text'' = None) = False"
    "(k = ''proposal'' \<and> map_of d ''target'' = None) = False"
    by (rule req, simp add: native_field_def)+
  show ?thesis
    by (simp only: migrate_legacy_def Let_def k n r json.inject json.distinct hashable.simps
        not_True_eq_False if_False JStr_image_iff)
qed

lemma if_eqE: "(if b then x else y) = z \<Longrightarrow> (b \<Longrightarrow> x = z \<Longrightarrow> P) \<Longrightarrow> (\<not> b \<Longrightarrow> y = z \<Longrightarrow> P) \<Longrightarrow> P"
  by (simp split: if_splits)

lemma renamed_Cons: "renamed raw ((a, b) # rs) =
    (case map_of raw a of None \<Rightarrow> [] | Some v \<Rightarrow> if v = JNull then [] else [(b, v)]) @ renamed raw rs"
  by (simp add: renamed_def)

lemma renamed_keys_of: "set (keys (renamed raw rs)) \<subseteq> set (map snd rs)"
proof (induction rs)
  case (Cons r rs)
  obtain a b where r: "r = (a, b)" by (cases r)
  have "set (keys (case map_of raw a of None \<Rightarrow> [] | Some v \<Rightarrow> if v = JNull then [] else [(b, v)])) \<subseteq> {b}"
    by (cases "map_of raw a") auto
  with Cons show ?case unfolding r renamed_Cons map_append set_append by auto
qed (simp add: renamed_def)

lemma renamed_distinct_of: "distinct (map snd rs) \<Longrightarrow> distinct (keys (renamed raw rs))"
proof (induction rs)
  case (Cons r rs)
  obtain a b where r: "r = (a, b)" by (cases r)
  from Cons.prems r have "b \<notin> set (map snd rs)" by simp
  with renamed_keys_of have "b \<notin> set (keys (renamed raw rs))" by (rule contra_subsetD)
  moreover from Cons r have "distinct (keys (renamed raw rs))" by simp
  ultimately show ?case unfolding r renamed_Cons by (cases "map_of raw a") simp_all
qed (simp add: renamed_def)

lemma renamed_distinct: "distinct (keys (renamed_proposal_fields raw))"
  unfolding renamed_proposal_fields_def
  by (rule renamed_distinct_of) (simp add: legacy_proposal_renames_def)

lemma renamed_keys: "set (keys (renamed_proposal_fields raw)) \<subseteq> set (map snd legacy_proposal_renames)"
  unfolding renamed_proposal_fields_def by (rule renamed_keys_of)

lemma renamed_other: "k \<notin> set (map snd legacy_proposal_renames) \<Longrightarrow> map_of (renamed_proposal_fields raw) k = None"
  using renamed_keys [of raw] by (auto simp: map_of_eq_None_iff)

lemma migrate_proposal_get:
  assumes "migrate_proposal raw = Inr d"
  shows "map_of d ''kind'' = Some (JStr ''proposal'')" "map_of d ''target'' \<noteq> None"
    "\<exists>env. envelope raw = Inr env \<and>
       (\<forall>k \<in> {''ticket_id'', ''author'', ''_id'', ''created_at''}. map_of d k = map_of env k)"
proof -
  from assms obtain env where env: "envelope raw = Inr env"
    by (auto simp: migrate_proposal_def split: sum.splits)
  define m where "m = dict_update (AList.update ''kind'' (JStr ''proposal'') env) (renamed_proposal_fields raw)"
  define c where "c = (case map_of raw ''content'' of
                   Some c \<Rightarrow> if truthy c then setdefault ''rationale'' c m else m | None \<Rightarrow> m)"
  define t where "t = (if truthy (dict_get JNull ''proposal_target'' raw)
     then dict_get JNull ''proposal_target'' raw else JStr [])"
  from assms env have d: "d = setdefault ''state'' (JStr ''pending'') (setdefault ''target'' t c)"
    unfolding migrate_proposal_def m_def c_def t_def Let_def by simp
  have m: "map_of m k = (if k = ''kind'' then Some (JStr ''proposal'') else map_of env k)"
    if "k \<notin> set (map snd legacy_proposal_renames)" for k
    using that by (simp add: m_def map_of_dict_update renamed_distinct renamed_other update_conv')
  have c: "map_of c k = map_of m k" if "k \<noteq> ''rationale''" for k
    using that by (simp add: c_def map_of_setdefault split: option.splits)
  have other: "map_of d k = (if k = ''kind'' then Some (JStr ''proposal'') else map_of env k)"
    if "k \<in> {''kind'', ''ticket_id'', ''author'', ''_id'', ''created_at''}" for k
  proof -
    from that have "k \<notin> {''state'', ''target'', ''rationale''}" "k \<notin> set (map snd legacy_proposal_renames)"
      by (auto simp: legacy_proposal_renames_def)
    then show ?thesis using m c by (simp add: d map_of_setdefault)
  qed
  then show "map_of d ''kind'' = Some (JStr ''proposal'')" by simp
  show "map_of d ''target'' \<noteq> None" by (simp add: d map_of_setdefault)
  show "\<exists>env. envelope raw = Inr env \<and>
       (\<forall>k \<in> {''ticket_id'', ''author'', ''_id'', ''created_at''}. map_of d k = map_of env k)"
    using env other by simp
qed

lemma enveloped_modern:
  assumes "enveloped raw ((''kind'', JStr k) # new) = Inr d" "distinct (keys ((''kind'', JStr k) # new))"
    and "modern_kind k new"
  shows "migrate_legacy d = Inr d"
proof (rule migrate_modern)
  show "map_of d ''kind'' = Some (JStr k)" by (rule enveloped_get [OF assms(1) _ assms(2)]) simp
  have get: "map_of d j \<noteq> None" if "map_of new j \<noteq> None" for j
  proof -
    from that obtain v where v: "map_of new j = Some v" by blast
    then have "j \<noteq> ''kind''" using assms(2) by (force dest: map_of_SomeD)
    with v have "map_of d j = Some v" by (intro enveloped_get [OF assms(1) _ assms(2)]) simp
    then show ?thesis by simp
  qed
  show "modern_kind k d" by (rule modern_kind_mono [OF assms(3) get])
qed

lemma migrate_proposal_idem: "migrate_proposal raw = Inr d \<Longrightarrow> migrate_legacy d = Inr d"
  using migrate_proposal_get [of raw d]
  by (intro migrate_modern [where k = "''proposal''"])
    (simp_all add: legacy_system_event_kinds_def modern_kind_def native_field_def)

lemma migrate_idem: "migrate_legacy raw = Inr d \<Longrightarrow> migrate_legacy d = Inr d"
proof -
  assume m: "migrate_legacy raw = Inr d"
  have same: "Inr raw = (Inr d :: doc result) \<Longrightarrow> migrate_legacy d = Inr d" using m by simp
  have bad: "Inl e = (Inr d :: doc result) \<Longrightarrow> migrate_legacy d = Inr d" for e by simp
  show ?thesis
    using m [unfolded migrate_legacy_def Let_def]
    by (elim if_eqE) (erule same | erule bad | erule migrate_proposal_idem |
      (erule enveloped_modern, simp (no_asm),
        simp (no_asm) add: modern_kind_def legacy_system_event_kinds_def native_field_def))+
qed

lemma migrate_dump: "migrate_legacy (dump_entry e) = Inr (dump_entry e)"
proof (rule migrate_modern)
  show "map_of (dump_entry e) ''kind'' = Some (JStr (body_kind (te_body e)))" by (simp add: dump_entry_def)
  show "modern_kind (body_kind (te_body e)) (dump_entry e)"
    unfolding modern_kind_def dump_entry_def legacy_system_event_kinds_def native_field_def
    by (cases "te_body e") simp_all
qed

section \<open>Refinement\<close>

definition thread_validate :: "(doc \<Rightarrow> ctx) \<Rightarrow> doc \<Rightarrow> thread_entry option" where
  "thread_validate cx d = (case load_entry cx d of Inl _ \<Rightarrow> None | Inr e \<Rightarrow> Some e)"

lemma load_dump: "entry_valid e \<Longrightarrow> load_entry cx (dump_entry e) = Inr e"
  by (simp add: load_entry_def migrate_dump parse_entry_dump)

lemma dump_entry_keys:
  "set (keys (dump_entry e)) \<inter> {''_op''} = {} \<and> distinct (keys (dump_entry e))"
  by (cases "te_body e") (simp_all add: dump_entry_def)

interpretation th: stored_model thread_index dump_entry "thread_validate cx" te_id entry_valid for cx
proof
  show "entry_valid m \<Longrightarrow> thread_validate cx (dump_entry m) = Some m" for m
    by (simp add: thread_validate_def load_dump)
  show "map_of (dump_entry m) ''_id'' = Some (JStr (te_id m))" for m
    by (simp add: dump_entry_def)
  show "distinct (keys (dump_entry m))" "''_op'' \<notin> set (keys (dump_entry m))" for m
    using dump_entry_keys [of m] by auto
  show "f \<in> set thread_index \<Longrightarrow> map_of (dump_entry m) f = Some v \<Longrightarrow> hashable v" for f m v
    by (auto simp: thread_index_def dump_entry_def)
qed

text \<open>The entries of a store this version of the program wrote.\<close>

abbreviation thread_inv :: "jsonl_store \<Rightarrow> bool" where
  "thread_inv \<equiv> model_inv thread_index dump_entry te_id entry_valid"

definition no_ctx :: "doc \<Rightarrow> ctx" where
  "no_ctx = (\<lambda>_. \<lparr>cx_now = 0, cx_uuid = \<lambda>_. []\<rparr>)"

definition thread_map :: "jsonl_store \<Rightarrow> string \<Rightarrow> thread_entry option" where
  "thread_map st = models (thread_validate no_ctx) st"

lemma models_thread_map: "thread_inv st \<Longrightarrow> models (thread_validate cx) st = thread_map st"
  unfolding thread_map_def
proof (rule ext)
  fix i assume inv: "thread_inv st"
  show "models (thread_validate cx) st i = models (thread_validate no_ctx) st i"
  proof (cases "map_of (st_docs st) (JStr i)")
    case (Some d)
    with inv obtain m where "entry_valid m" "d = dump_entry m" unfolding model_inv_def by blast
    with Some show ?thesis by (simp add: models_def th.roundtrip)
  qed (simp add: models_def)
qed

lemma thread_map_id: "thread_inv st \<Longrightarrow> thread_map st i = Some e \<Longrightarrow> te_id e = i \<and> entry_valid e"
  using th.models_ident [of st no_ctx i e] by (simp add: thread_map_def)

lemma thread_inv_empty:
  "\<forall>xs. mset (ord xs) = mset xs \<Longrightarrow>
     thread_inv (new_thread_store ord []) \<and> thread_map (new_thread_store ord []) = Map.empty"
  by (simp add: new_thread_store_def thread_map_def model_inv_empty)

lemma thread_post_refines:
  assumes "thread_inv st" "entry_valid e"
  shows "(\<exists>x. thread_post fresh e st = (Inl x, st)) \<or>
    (\<exists>st'. thread_post fresh e st = (Inr (JStr (te_id e)), st') \<and> thread_map st (te_id e) = None \<and>
       thread_inv st' \<and> thread_map st' = (thread_map st)(te_id e \<mapsto> e))"
  using th.insert_refines [OF assms, of fresh no_ctx] unfolding thread_post_def thread_map_def by blast

lemma thread_get_tc: "thread_inv st \<Longrightarrow> thread_get cx i st = tc_get (thread_validate cx) i st"
proof -
  assume inv: "thread_inv st"
  show ?thesis
  proof (cases "get_doc (JStr i) st")
    case (Some d)
    with inv obtain m where "entry_valid m" "d = dump_entry m" unfolding model_inv_def get_doc_def by blast
    with Some show ?thesis by (simp add: thread_get_def tc_get_def load_dump to_model_def thread_validate_def)
  qed (simp add: thread_get_def tc_get_def)
qed

lemma thread_get_refines: "thread_inv st \<Longrightarrow> thread_get cx i st = Inr (thread_map st i)"
  using th.get_refines [of st cx i] by (simp add: thread_get_tc models_thread_map)

lemma thread_update_missing:
  "thread_inv st \<Longrightarrow> thread_map st i = None \<Longrightarrow> thread_update i ch st = (Inr False, st)"
  using th.update_missing [of st no_ctx i ch] by (simp add: thread_update_def thread_map_def)

lemma thread_update_refines:
  assumes "thread_inv st" "thread_map st i = Some e" "updatable st ch"
    and "changed_doc (dump_entry e) ch = dump_entry e'" "entry_valid e'" "te_id e' = i"
  shows "thread_update i ch st = (Inl RecordTooLargeError, st) \<or>
    (\<exists>st'. thread_update i ch st = (Inr True, st') \<and> thread_inv st' \<and>
       thread_map st' = (thread_map st)(i \<mapsto> e'))"
  using th.update_refines [of st no_ctx i e ch e'] assms unfolding thread_update_def thread_map_def by blast

lemma matches_all_single: "matches_all [(k, v)] d \<longleftrightarrow> field_eq k v d"
  by (simp add: matches_all_def)

lemma for_ticket_refines:
  assumes inv: "thread_inv st"
  obtains es where "for_ticket cx t st = Inr es" "sorted (map te_created_at es)" "distinct (map te_id es)"
    "set es = {e. \<exists>i. thread_map st i = Some e \<and> te_ticket_id e = t}"
proof -
  have s: "searchable st [(''ticket_id'', JStr t)]" by (simp add: searchable_def)
  obtain ms where "tc_find_where (thread_validate cx) [(''ticket_id'', JStr t)] st = Inr ms"
    and ms: "find_where [(''ticket_id'', JStr t)] st = Inr (map dump_entry ms)"
    "set ms = {m. \<exists>i. models (thread_validate cx) st i = Some m \<and>
       matches_all [(''ticket_id'', JStr t)] (dump_entry m)}"
    "distinct (map te_id ms)"
    by (rule th.find_where_refines [OF inv s])
  note ms = ms [unfolded models_thread_map [OF inv]]
  have t: "field_eq ''ticket_id'' (JStr t) (dump_entry m) \<longleftrightarrow> te_ticket_id m = t" for m
    by (auto simp: field_eq_def dump_entry_def)
  have "map_res (load_entry cx) (map dump_entry ms) = Inr ms"
    using ms(2) thread_map_id [OF inv] by (auto simp: map_res_Inr_iff list_all2_map1 list_all2_same load_dump)
  then have "for_ticket cx t st = Inr (sort_key te_created_at ms)" by (simp add: for_ticket_def ms(1))
  moreover have "distinct (map te_id (sort_key te_created_at ms))"
    using ms(3) by (simp add: distinct_map)
  moreover have "set (sort_key te_created_at ms) = {e. \<exists>i. thread_map st i = Some e \<and> te_ticket_id e = t}"
    using ms(2) unfolding matches_all_single t by simp
  ultimately show thesis by (rule that [OF _ sorted_sort_key])
qed

lemma has_unresolved_blocking_refines:
  assumes "thread_inv st"
  obtains es where "has_unresolved_blocking cx t st = Inr es" "sorted (map te_created_at es)" "distinct (map te_id es)"
    "set es = {e. \<exists>i. thread_map st i = Some e \<and> te_ticket_id e = t \<and> is_blocking e}"
proof -
  obtain es where es: "for_ticket cx t st = Inr es" "sorted (map te_created_at es)" "distinct (map te_id es)"
    "set es = {e. \<exists>i. thread_map st i = Some e \<and> te_ticket_id e = t}"
    by (rule for_ticket_refines [OF assms])
  then show thesis
    by (intro that [of "filter is_blocking es"])
      (auto simp: has_unresolved_blocking_def sorted_filter distinct_map_filter)
qed

section \<open>Properties\<close>

text \<open>
  C38: An entry that is valid and has a new id, posted to a store that this version
  of the program wrote and small enough for the record cap, is stored under its id
  and read back unchanged, while every other id reads as before.
\<close>

theorem thread_post_reads_back:
  assumes "thread_inv st" "entry_valid e" "thread_map st (te_id e) = None"
    and "dumps_len (JObj (insert_record fresh (dump_entry e))) \<le> st_max_record_bytes st"
  shows "\<exists>st'. thread_post fresh e st = (Inr (JStr (te_id e)), st') \<and> thread_inv st' \<and>
    thread_get cx (te_id e) st' = Inr (Some e) \<and>
    (\<forall>i. i \<noteq> te_id e \<longrightarrow> thread_get cx i st' = thread_get cx i st)"
proof -
  obtain st' where st': "tc_insert dump_entry fresh e st = (Inr (JStr (te_id e)), st')" "thread_inv st'"
    "models (thread_validate no_ctx) st' = (models (thread_validate no_ctx) st)(te_id e \<mapsto> e)"
    "st_max_record_bytes st' = st_max_record_bytes st"
    by (rule th.insert_succeeds [OF assms(1,2) _ assms(4)]) (use assms(3) in \<open>simp add: thread_map_def\<close>)
  then show ?thesis
    using assms(1) by (simp add: thread_post_def thread_get_refines thread_map_def)
qed

text \<open>
  Migration on read is idempotent: a migrated record is in the new shape, so
  that migrating it again changes nothing, whatever the legacy record was.
\<close>

theorem migrate_legacy_idempotent:
  "migrate_legacy raw = Inr d \<Longrightarrow> migrate_legacy d = Inr d"
  by (rule migrate_idem)

text \<open>
  C7: What the phase gate reads: on a store this version wrote
  \<open>has_unresolved_blocking\<close> never fails and returns, each once and oldest first,
  exactly the entries of the ticket that block.
\<close>

theorem has_unresolved_blocking_exact:
  assumes "thread_inv st"
  shows "\<exists>es. has_unresolved_blocking cx t st = Inr es \<and> sorted (map te_created_at es) \<and> distinct es \<and>
    set es = {e. thread_get cx (te_id e) st = Inr (Some e) \<and> te_ticket_id e = t \<and> is_blocking e}"
proof -
  obtain es where es: "has_unresolved_blocking cx t st = Inr es" "sorted (map te_created_at es)"
    "distinct (map te_id es)"
    "set es = {e. \<exists>i. thread_map st i = Some e \<and> te_ticket_id e = t \<and> is_blocking e}"
    by (rule has_unresolved_blocking_refines [OF assms])
  then have "set es = {e. thread_get cx (te_id e) st = Inr (Some e) \<and> te_ticket_id e = t \<and> is_blocking e}"
    using thread_map_id [OF assms] by (auto simp: thread_get_refines [OF assms])
  with es show ?thesis by (auto simp: distinct_map)
qed

lemma parse_body_ctx: "parse_body cx k d = Some b \<Longrightarrow> k \<noteq> ''handoff'' \<Longrightarrow> parse_body cx' k d = Some b"
  by (simp add: parse_body_def split: if_splits)

lemma parse_question_ctx:
  assumes "parse_thread_entry cx d = Some e" "map_of d ''kind'' = Some (JStr ''question'')"
    "map_of d ''resolved_by'' = None"
  obtains e' q where "parse_thread_entry cx' d = Some e'" "te_body e' = te_body e" "te_body e = Question q"
    "q_resolved_by q = None"
proof -
  have k: "fld_str ''kind'' d = Some ''question''" using assms(2) by (rule fld_str_dump)
  from assms(1) obtain i t a c where f: "fld_id cx d = Some i" "fld_str ''ticket_id'' d = Some t"
    "fld_str ''author'' d = Some a" "fld_time_or ''created_at'' (cx_now cx) d = Some c"
    and b: "parse_body cx ''question'' d = Some (te_body e)" "body_valid (te_body e)"
    by (auto simp: parse_thread_entry_def k split: Option.bind_splits)
  from f(1) obtain i' where i': "fld_id cx' d = Some i'"
    by (auto simp: fld_id_def fld_str_or_def split: option.splits json.splits)
  from f(4) obtain c' where c': "fld_time_or ''created_at'' (cx_now cx') d = Some c'"
    by (auto simp: fld_time_or_def split: option.splits json.splits)
  from b(1) have "parse_body cx' ''question'' d = Some (te_body e)" by (rule parse_body_ctx) simp
  with f b i' c' k have p: "parse_thread_entry cx' d = Some \<lparr>te_id = i', te_ticket_id = t, te_author = a,
      te_created_at = c', te_body = te_body e\<rparr>" by (simp add: parse_thread_entry_def)
  from b(1) have "parse_question d = Some (te_body e)" by (simp add: parse_body_def)
  then obtain q where q: "te_body e = Question q" "q_resolved_by q = None"
    using assms(3) by (auto simp: parse_question_def fld_opt_def split: Option.bind_splits dest!: sym [where t = "te_body e"])
  show thesis by (rule that [OF p _ q]) simp
qed

lemma migrate_question:
  assumes "map_of raw ''kind'' = Some (JStr ''question'')" "map_of raw ''question'' = None"
  shows "migrate_legacy raw = enveloped raw [(''kind'', JStr ''question''),
            (''target'', dict_get (JStr ''any_human'') ''target'' raw),
            (''question'', dict_get (JStr []) ''content'' raw),
            (''blocking'', JBool (truthy (dict_get (JBool False) ''blocking'' raw)))]"
  using assms by (simp add: migrate_legacy_def dict_get_Some [OF assms(1)] legacy_system_event_kinds_def Let_def)

text \<open>
  A question that was posted in the legacy comment shape cannot be closed: the
  update that sets \<open>resolved_by\<close> succeeds, but the migration on read rebuilds the
  question without that field, and it blocks as it did before.
\<close>

theorem legacy_question_never_resolves:
  assumes "store_inv st" "st_index_fields st = thread_index"
    and "get_doc (JStr i) st = Some raw"
    and "map_of raw ''kind'' = Some (JStr ''question'')" "map_of raw ''question'' = None"
    and "thread_get cx i st = Inr (Some q)"
    and "dumps_len (JObj (update_record (JStr i) [(''resolved_by'', JStr who)])) \<le> st_max_record_bytes st"
  shows "\<exists>st' q'. thread_update i [(''resolved_by'', JStr who)] st = (Inr True, st') \<and>
    thread_get cx i st' = Inr (Some q') \<and> te_body q' = te_body q \<and> \<not> is_resolved q'"
proof -
  let ?ch = "[(''resolved_by'', JStr who)]"
  obtain st' where st': "update_doc (JStr i) ?ch st = (Inr True, st')"
    "st_docs st' = AList.update (JStr i) (changed_doc raw ?ch) (st_docs st)"
    by (rule update_doc_ok [OF assms(1) _ _ assms(7)])
      (use assms(2,3) in \<open>auto simp: updatable_def get_doc_def thread_index_def\<close>)
  have get: "map_of (changed_doc raw ?ch) k = map_of raw k" if "k \<noteq> ''resolved_by''" for k
    using that by (subst changed_doc_get) auto
  have mig: "migrate_legacy (changed_doc raw ?ch) = migrate_legacy raw"
    using assms(4,5) unfolding migrate_question [OF assms(4,5)]
    by (subst migrate_question)
      (simp_all add: get enveloped_def envelope_def dict_get_def cong: option.case_cong)
  from assms(3,6) have load: "load_entry cx raw = Inr q"
    by (auto simp: thread_get_def split: sum.splits)
  then obtain d where d: "migrate_legacy raw = Inr d" "parse_thread_entry (cx raw) d = Some q"
    by (auto simp: load_entry_def split: sum.splits option.splits)
  note env = d(1) [unfolded migrate_question [OF assms(4,5)]]
  have k: "map_of d ''kind'' = Some (JStr ''question'')" by (rule enveloped_get [OF env]) simp_all
  obtain e where "envelope raw = Inr e" "map_of d ''resolved_by'' = map_of e ''resolved_by''"
    by (rule enveloped_env [OF env, where k = "''resolved_by''"]) (assumption | simp)+
  then have r: "map_of d ''resolved_by'' = None"
    by (auto simp: envelope_def split: option.splits)
  obtain q' x where q': "parse_thread_entry (cx (changed_doc raw ?ch)) d = Some q'" "te_body q' = te_body q"
    "te_body q = Question x" "q_resolved_by x = None"
    by (rule parse_question_ctx [OF d(2) k r])
  from mig d(1) q'(1) have "load_entry cx (changed_doc raw ?ch) = Inr q'" by (simp add: load_entry_def)
  then have "thread_get cx i st' = Inr (Some q')"
    using st'(2) by (simp add: thread_get_def get_doc_def map_of_update_fun)
  moreover have "\<not> is_resolved q'" using q' by (simp add: is_resolved_def)
  ultimately show ?thesis using st'(1) q'(2) by (simp add: thread_update_def)
qed

section \<open>Witnesses\<close>

definition demo_question :: thread_entry where
  "demo_question = \<lparr>te_id = ''q'', te_ticket_id = ''t'', te_author = ''a'', te_created_at = 0,
     te_body = Question \<lparr>q_target = ''b'', q_question = ''c'', q_blocking = True, q_resolved_by = None,
       q_accepted_answer_id = None\<rparr>\<rparr>"

abbreviation empty_threads :: jsonl_store where
  "empty_threads \<equiv> new_thread_store (\<lambda>xs. xs) []"

lemma demo_question_ok:
  "thread_inv empty_threads" "entry_valid demo_question" "thread_map empty_threads (te_id demo_question) = None"
  "dumps_len (JObj (insert_record fresh (dump_entry demo_question))) \<le> st_max_record_bytes empty_threads"
  using thread_inv_empty [of "\<lambda>xs. xs"]
  by (simp_all add: entry_valid_def demo_question_def prose_ok_def max_agent_prose_len_def insert_record_def
      stored_doc_def dump_entry_def jopt_def new_thread_store_def new_store_def default_max_record_bytes_def
      dump_str_len_def dump_char_len_def)

theorem thread_post_reads_back_witness:
  "\<exists>st'. thread_post [] demo_question empty_threads = (Inr (JStr (te_id demo_question)), st') \<and>
     thread_get no_ctx (te_id demo_question) st' = Inr (Some demo_question)"
  using thread_post_reads_back [OF demo_question_ok, of "[]" no_ctx] by blast

theorem migrate_legacy_idempotent_witness:
  "migrate_legacy [(''ticket_id'', JStr ''t''), (''author'', JStr ''a''), (''kind'', JStr ''note''), (''text'', JStr ''hi'')] =
    Inr [(''ticket_id'', JStr ''t''), (''author'', JStr ''a''), (''kind'', JStr ''note''), (''text'', JStr ''hi'')]"
  by (rule migrate_legacy_idempotent [of "[(''ticket_id'', JStr ''t''), (''author'', JStr ''a''),
      (''kind'', JStr ''comment''), (''content'', JStr ''hi'')]"])
    (simp add: migrate_legacy_def dict_get_def legacy_system_event_kinds_def enveloped_def envelope_def)

theorem has_unresolved_blocking_exact_witness:
  "\<exists>st es. has_unresolved_blocking no_ctx ''t'' st = Inr es \<and> demo_question \<in> set es"
proof -
  obtain st where st: "thread_inv st" "thread_map st = [''q'' \<mapsto> demo_question]"
    using th.insert_succeeds [OF demo_question_ok(1,2) _ demo_question_ok(4), of no_ctx]
      demo_question_ok(3) thread_inv_empty [of "\<lambda>xs. xs"]
    by (auto simp: thread_map_def demo_question_def)
  then have "thread_get no_ctx (te_id demo_question) st = Inr (Some demo_question)"
    by (simp add: thread_get_refines demo_question_def)
  moreover obtain es where "has_unresolved_blocking no_ctx ''t'' st = Inr es"
    "set es = {e. thread_get no_ctx (te_id e) st = Inr (Some e) \<and> te_ticket_id e = ''t'' \<and> is_blocking e}"
    using has_unresolved_blocking_exact [OF st(1), of no_ctx "''t''"] by blast
  ultimately have "has_unresolved_blocking no_ctx ''t'' st = Inr es \<and> demo_question \<in> set es"
    by (simp add: demo_question_def is_blocking_def)
  then show ?thesis by blast
qed

definition demo_legacy :: doc where
  "demo_legacy = [(''_id'', JStr ''q''), (''ticket_id'', JStr ''t''), (''author'', JStr ''a''),
     (''kind'', JStr ''question''), (''content'', JStr ''why''), (''blocking'', JBool True)]"

theorem legacy_question_never_resolves_witness:
  "\<exists>st' q'. thread_update ''q'' [(''resolved_by'', JStr ''a'')] (snd (insert_doc ''u'' demo_legacy empty_threads)) =
      (Inr True, st') \<and> thread_get no_ctx ''q'' st' = Inr (Some q') \<and> \<not> is_resolved q'"
proof -
  let ?st = "snd (insert_doc ''u'' demo_legacy empty_threads)"
  let ?q = "demo_question\<lparr>te_body := Question \<lparr>q_target = ''any_human'', q_question = ''why'', q_blocking = True,
    q_resolved_by = None, q_accepted_answer_id = None\<rparr>\<rparr>"
  have ins: "insertable empty_threads demo_legacy"
    by (simp add: insertable_def demo_legacy_def new_thread_store_def new_store_def thread_index_def)
  have inv: "store_inv ?st"
    by (rule insert_doc_inv [OF _ ins])
      (use demo_question_ok(1) in \<open>simp_all add: model_inv_def new_thread_store_def new_store_def\<close>)
  have st: "st_docs ?st = [(JStr ''q'', demo_legacy)]" "st_index_fields ?st = thread_index"
    "st_max_record_bytes ?st = default_max_record_bytes"
    by (simp_all add: demo_legacy_def insert_doc_def insert_body_def append_line_def new_thread_store_def
      new_store_def Let_def thread_index_def index_insert_def bucket_add_def doc_id_def empty_indexes_def
      default_max_record_bytes_def dump_str_len_def dump_char_len_def)
  have get: "get_doc (JStr ''q'') ?st = Some demo_legacy" by (simp add: get_doc_def st)
  have "load_entry no_ctx demo_legacy = Inr ?q"
    by (simp add: load_entry_def migrate_question enveloped_def envelope_def
      dict_get_def demo_legacy_def parse_thread_entry_def fld_str_def fld_id_def fld_time_or_def parse_body_def
      parse_question_def fld_bool_or_def fld_opt_def prose_ok_def max_agent_prose_len_def no_ctx_def demo_question_def)
  then have "thread_get no_ctx ''q'' ?st = Inr (Some ?q)" by (simp add: thread_get_def get)
  moreover have "dumps_len (JObj (update_record (JStr ''q'') [(''resolved_by'', JStr ''a'')])) \<le> st_max_record_bytes ?st"
    unfolding st by (simp add: update_record_def dict_without_def default_max_record_bytes_def
      dump_str_len_def dump_char_len_def)
  moreover have "map_of demo_legacy ''kind'' = Some (JStr ''question'')" "map_of demo_legacy ''question'' = None"
    by (simp_all add: demo_legacy_def)
  ultimately show ?thesis using legacy_question_never_resolves [OF inv st(2) get] by blast
qed

end
