(* ===== verification/Checkpoints.thy ===== *)
theory Checkpoints
  imports ThreadCodec ModelStore
begin

text \<open>
  The checkpoint channel: the model of \<open>jig/checkpoints.py\<close> and the store of
  \<open>jig/store/checkpoints.py\<close>.

  \<open>JsonlStore.get\<close> and \<open>find_by\<close> return shallow copies, so the dictionaries inside a
  checkpoint's \<open>deferred\<close> list are those of the store.  Two operations write into them:
  \<open>_backfill_deferred_ids\<close> (on every read) and \<open>update_deferred_item\<close> (before it appends
  to the log).  Reads therefore return a store too, in which the documents they touched
  have changed in memory while the log has not.
\<close>

section \<open>The model\<close>

record ruled_out =
  ro_approach :: string
  ro_reason :: string

definition checkpoint_triggers :: "string list" where
  "checkpoint_triggers = [''auto_commit'', ''auto_test'', ''auto_pre_handoff'', ''agent_milestone'',
     ''agent_decision'', ''agent_deferred'']"

record checkpoint =
  cp_id :: string
  cp_ticket_id :: string
  cp_phase :: string
  cp_author :: string
  cp_created_at :: int
  cp_description :: string
  cp_completed :: "string list"
  cp_position :: string
  cp_plan :: string
  cp_ruled_out :: "ruled_out list"
  cp_deferred :: "deferred_item list"
  cp_open_questions :: "string list"
  cp_trigger :: string
  cp_historical :: bool

definition dump_ruled_out :: "ruled_out \<Rightarrow> json" where
  "dump_ruled_out r = JObj [(''approach'', JStr (ro_approach r)), (''reason'', JStr (ro_reason r))]"

definition parse_ruled_out :: "json \<Rightarrow> ruled_out option" where
  "parse_ruled_out j = do {
     d \<leftarrow> as_obj j; a \<leftarrow> fld_str ''approach'' d; r \<leftarrow> fld_str ''reason'' d;
     Some \<lparr>ro_approach = a, ro_reason = r\<rparr> }"

definition jdeferred :: "deferred_item list \<Rightarrow> json" where
  "jdeferred is = JList (map (JObj \<circ> dump_deferred) is)"

definition dump_checkpoint :: "checkpoint \<Rightarrow> doc" where
  "dump_checkpoint c = [(''_id'', JStr (cp_id c)), (''ticket_id'', JStr (cp_ticket_id c)),
     (''phase'', JStr (cp_phase c)), (''author'', JStr (cp_author c)), (''created_at'', JTime (cp_created_at c)),
     (''description'', JStr (cp_description c)), (''completed'', jstrs (cp_completed c)),
     (''position'', JStr (cp_position c)), (''plan'', JStr (cp_plan c)),
     (''ruled_out'', JList (map dump_ruled_out (cp_ruled_out c))), (''deferred'', jdeferred (cp_deferred c)),
     (''open_questions'', jstrs (cp_open_questions c)), (''trigger'', JStr (cp_trigger c)),
     (''historical'', JBool (cp_historical c))]"

definition fld_ruled_out :: "doc \<Rightarrow> ruled_out list option" where
  "fld_ruled_out d = (case map_of d ''ruled_out'' of
     None \<Rightarrow> Some [] | Some (JList js) \<Rightarrow> map_opt parse_ruled_out js | _ \<Rightarrow> None)"

definition fld_deferred :: "ctx \<Rightarrow> doc \<Rightarrow> deferred_item list option" where
  "fld_deferred cx d = (case map_of d ''deferred'' of
     None \<Rightarrow> Some [] | Some (JList js) \<Rightarrow> parse_deferreds cx 1 js | _ \<Rightarrow> None)"

definition parse_checkpoint :: "ctx \<Rightarrow> doc \<Rightarrow> checkpoint option" where
  "parse_checkpoint cx d = do {
     i \<leftarrow> fld_id cx d;
     t \<leftarrow> fld_str ''ticket_id'' d;
     p \<leftarrow> fld_str ''phase'' d;
     a \<leftarrow> fld_str ''author'' d;
     c \<leftarrow> fld_time_or ''created_at'' (cx_now cx) d;
     de \<leftarrow> fld_str_or ''description'' [] d;
     co \<leftarrow> fld_strs ''completed'' d;
     po \<leftarrow> fld_str_or ''position'' [] d;
     pl \<leftarrow> fld_str_or ''plan'' [] d;
     ro \<leftarrow> fld_ruled_out d;
     df \<leftarrow> fld_deferred cx d;
     oq \<leftarrow> fld_strs ''open_questions'' d;
     tr \<leftarrow> fld_str ''trigger'' d;
     guard (tr \<in> set checkpoint_triggers);
     h \<leftarrow> fld_bool_or ''historical'' False d;
     Some \<lparr>cp_id = i, cp_ticket_id = t, cp_phase = p, cp_author = a, cp_created_at = c, cp_description = de,
       cp_completed = co, cp_position = po, cp_plan = pl, cp_ruled_out = ro, cp_deferred = df,
       cp_open_questions = oq, cp_trigger = tr, cp_historical = h\<rparr> }"

section \<open>Deferred items in place\<close>

text \<open>
  \<open>_backfill_deferred_ids\<close>: the items with their ids, and the exception when an item is
  not a dictionary (those before it have been filled in).  A record whose \<open>_id\<close> is not a
  string is refused by the validation that follows, whatever the text derived from it.
\<close>

definition derived_id :: "doc \<Rightarrow> nat \<Rightarrow> string" where
  "derived_id raw n = (case dict_get JNull ''_id'' raw of JStr s \<Rightarrow> if s = [] then ''legacy'' else s | _ \<Rightarrow> ''legacy'')
     @ '':deferred:'' @ show_nat n"

fun backfill_items :: "doc \<Rightarrow> nat \<Rightarrow> json list \<Rightarrow> unit result \<times> json list" where
  "backfill_items raw n [] = (Inr (), [])"
| "backfill_items raw n (JObj d # js) =
     (let d' = (if truthy (dict_get JNull ''id'' d) then d else AList.update ''id'' (JStr (derived_id raw n)) d);
          (r, js') = backfill_items raw (Suc n) js
      in (r, JObj d' # js'))"
| "backfill_items raw n (j # js) = (Inl (TypeError ''deferred item''), j # js)"

definition backfill :: "doc \<Rightarrow> unit result \<times> doc" where
  "backfill raw = (case map_of raw ''deferred'' of
     None \<Rightarrow> (Inr (), raw)
   | Some (JList js) \<Rightarrow> (let (r, js') = backfill_items raw 0 js in (r, AList.update ''deferred'' (JList js') raw))
   | Some v \<Rightarrow> (if truthy v then Inl (TypeError ''deferred'') else Inr (), raw))"

definition write_through :: "doc \<Rightarrow> jsonl_store \<Rightarrow> jsonl_store" where
  \<comment> \<open>what was written into the shared items of \<open>raw\<close> shows in the store's own document\<close>
  "write_through raw st = st\<lparr>st_docs := AList.update (doc_id raw) raw (st_docs st)\<rparr>"

section \<open>The store\<close>

definition checkpoint_index :: "string list" where
  "checkpoint_index = [''ticket_id'', ''phase'', ''author'']"

definition new_checkpoint_store :: "(json list \<Rightarrow> json list) \<Rightarrow> line list \<Rightarrow> jsonl_store" where
  "new_checkpoint_store ord fl = new_store ord fl checkpoint_index default_max_record_bytes"

definition cp_post :: "string \<Rightarrow> checkpoint \<Rightarrow> jsonl_store \<Rightarrow> json result \<times> jsonl_store" where
  "cp_post fresh c st = tc_insert dump_checkpoint fresh c st"

definition cp_load :: "(doc \<Rightarrow> ctx) \<Rightarrow> doc \<Rightarrow> jsonl_store \<Rightarrow> checkpoint result \<times> jsonl_store" where
  "cp_load cx raw st = (case backfill raw of
     (Inl e, raw') \<Rightarrow> (Inl e, write_through raw' st)
   | (Inr _, raw') \<Rightarrow> (case parse_checkpoint (cx raw') raw' of
       None \<Rightarrow> (Inl (ValidationError ''checkpoint''), write_through raw' st)
     | Some c \<Rightarrow> (Inr c, write_through raw' st)))"

fun cp_load_all :: "(doc \<Rightarrow> ctx) \<Rightarrow> doc list \<Rightarrow> jsonl_store \<Rightarrow> checkpoint list result \<times> jsonl_store" where
  "cp_load_all cx [] st = (Inr [], st)"
| "cp_load_all cx (r # rs) st = (case cp_load cx r st of
     (Inl e, st1) \<Rightarrow> (Inl e, st1)
   | (Inr c, st1) \<Rightarrow> (case cp_load_all cx rs st1 of
       (Inl e, st2) \<Rightarrow> (Inl e, st2) | (Inr cs, st2) \<Rightarrow> (Inr (c # cs), st2)))"

definition cp_get :: "(doc \<Rightarrow> ctx) \<Rightarrow> string \<Rightarrow> jsonl_store \<Rightarrow> checkpoint option result \<times> jsonl_store" where
  "cp_get cx i st = (case get_doc (JStr i) st of
     None \<Rightarrow> (Inr None, st)
   | Some raw \<Rightarrow> (case cp_load cx raw st of (Inl e, st1) \<Rightarrow> (Inl e, st1) | (Inr c, st1) \<Rightarrow> (Inr (Some c), st1)))"

definition cp_query :: "(doc \<Rightarrow> ctx) \<Rightarrow> doc \<Rightarrow> bool \<Rightarrow> jsonl_store \<Rightarrow> checkpoint list result \<times> jsonl_store" where
  "cp_query cx kw hist st = (case find_where kw st of
     Inl e \<Rightarrow> (Inl e, st)
   | Inr raws \<Rightarrow> (case cp_load_all cx raws st of
       (Inl e, st1) \<Rightarrow> (Inl e, st1)
     | (Inr cps, st1) \<Rightarrow>
         (Inr (sort_key cp_created_at (if hist then cps else filter (\<lambda>c. \<not> cp_historical c) cps)), st1)))"

definition cp_for_ticket :: "(doc \<Rightarrow> ctx) \<Rightarrow> string \<Rightarrow> bool \<Rightarrow> jsonl_store \<Rightarrow> checkpoint list result \<times> jsonl_store" where
  "cp_for_ticket cx t hist st = cp_query cx [(''ticket_id'', JStr t)] hist st"

definition cp_for_phase ::
  "(doc \<Rightarrow> ctx) \<Rightarrow> string \<Rightarrow> string \<Rightarrow> bool \<Rightarrow> jsonl_store \<Rightarrow> checkpoint list result \<times> jsonl_store" where
  "cp_for_phase cx t p hist st = cp_query cx [(''ticket_id'', JStr t), (''phase'', JStr p)] hist st"

definition cp_latest ::
  "(doc \<Rightarrow> ctx) \<Rightarrow> string \<Rightarrow> string option \<Rightarrow> bool \<Rightarrow> jsonl_store \<Rightarrow> checkpoint option result \<times> jsonl_store" where
  "cp_latest cx t p hist st =
    (case (case p of Some ph \<Rightarrow> cp_for_phase cx t ph hist st | None \<Rightarrow> cp_for_ticket cx t hist st) of
       (Inl e, st1) \<Rightarrow> (Inl e, st1)
     | (Inr cps, st1) \<Rightarrow> (Inr (if cps = [] then None else Some (last cps)), st1))"

definition deferred_items_open ::
  "(doc \<Rightarrow> ctx) \<Rightarrow> string \<Rightarrow> string \<Rightarrow> jsonl_store \<Rightarrow> deferred_item list result \<times> jsonl_store" where
  "deferred_items_open cx t p st = (case cp_for_phase cx t p False st of
     (Inl e, st1) \<Rightarrow> (Inl e, st1)
   | (Inr cps, st1) \<Rightarrow> (Inr (filter (\<lambda>d. di_status d = DOpen) (concat (map cp_deferred cps))), st1))"

definition find_deferred_item ::
  "(doc \<Rightarrow> ctx) \<Rightarrow> string \<Rightarrow> string \<Rightarrow> jsonl_store \<Rightarrow> (string \<times> deferred_item) option result \<times> jsonl_store" where
  "find_deferred_item cx t i st = (case cp_for_ticket cx t True st of
     (Inl e, st1) \<Rightarrow> (Inl e, st1)
   | (Inr cps, st1) \<Rightarrow>
       (Inr (List.find (\<lambda>(_, d). di_id d = i) (concat (map (\<lambda>c. map (Pair (cp_id c)) (cp_deferred c)) cps))), st1))"

fun mark_historical_all :: "doc list \<Rightarrow> nat \<Rightarrow> jsonl_store \<Rightarrow> nat result \<times> jsonl_store" where
  "mark_historical_all [] updated st = (Inr updated, st)"
| "mark_historical_all (r # rs) updated st =
    (if map_of r ''historical'' = Some (JBool True) then mark_historical_all rs updated st
     else (case update_doc (doc_id r) [(''historical'', JBool True)] st of
        (Inl e, st1) \<Rightarrow> (Inl e, st1)
      | (Inr _, st1) \<Rightarrow> mark_historical_all rs (updated + 1) st1))"

definition mark_phase_historical :: "string \<Rightarrow> string \<Rightarrow> jsonl_store \<Rightarrow> nat result \<times> jsonl_store" where
  "mark_phase_historical t p st = (case find_where [(''ticket_id'', JStr t), (''phase'', JStr p)] st of
     Inl e \<Rightarrow> (Inl e, st)
   | Inr raws \<Rightarrow> mark_historical_all raws 0 st)"

text \<open>\<open>update_deferred_item\<close>: the first item with the id is rewritten.\<close>

definition patch_item :: "string option \<Rightarrow> string option \<Rightarrow> doc \<Rightarrow> doc" where
  "patch_item status promoted d =
    (let d = (case status of None \<Rightarrow> d | Some s \<Rightarrow> AList.update ''status'' (JStr s) d)
     in case promoted of None \<Rightarrow> d | Some p \<Rightarrow> AList.update ''promoted_ticket_id'' (JStr p) d)"

fun patch_first :: "string \<Rightarrow> (doc \<Rightarrow> doc) \<Rightarrow> json list \<Rightarrow> json list option" where
  "patch_first i f [] = None"
| "patch_first i f (j # js) = (case j of
     JObj d \<Rightarrow> if map_of d ''id'' = Some (JStr i) then Some (JObj (f d) # js)
               else map_option (Cons j) (patch_first i f js)
   | _ \<Rightarrow> map_option (Cons j) (patch_first i f js))"

definition update_deferred_item ::
  "string \<Rightarrow> string \<Rightarrow> string option \<Rightarrow> string option \<Rightarrow> jsonl_store \<Rightarrow> bool result \<times> jsonl_store" where
  "update_deferred_item c i status promoted st = (case get_doc (JStr c) st of
     None \<Rightarrow> (Inr False, st)
   | Some raw0 \<Rightarrow> (case backfill raw0 of
       (Inl e, raw) \<Rightarrow> (Inl e, write_through raw st)
     | (Inr _, raw) \<Rightarrow> (case map_of raw ''deferred'' of
         None \<Rightarrow> (Inr False, write_through raw st)
       | Some (JList items) \<Rightarrow> (case patch_first i (patch_item status promoted) items of
           None \<Rightarrow> (Inr False, write_through raw st)
         | Some items' \<Rightarrow>
             (let st1 = write_through (AList.update ''deferred'' (JList items') raw) st
              in case update_doc (JStr c) [(''deferred'', JList items')] st1 of
                   (Inl e, st2) \<Rightarrow> (Inl e, st2) | (Inr _, st2) \<Rightarrow> (Inr True, st2)))
       | Some (JStr _) \<Rightarrow> (Inr False, write_through raw st)
       | Some (JObj _) \<Rightarrow> (Inr False, write_through raw st)
       | Some _ \<Rightarrow> (Inl (TypeError ''not iterable''), write_through raw st))))"

section \<open>Refinement\<close>

definition checkpoint_valid :: "checkpoint \<Rightarrow> bool" where
  "checkpoint_valid c \<longleftrightarrow> cp_trigger c \<in> set checkpoint_triggers \<and> list_all (\<lambda>d. di_id d \<noteq> []) (cp_deferred c)"

lemma parse_ruled_out_dump: "map_opt parse_ruled_out (map dump_ruled_out rs) = Some rs"
  by (induction rs) (simp_all add: parse_ruled_out_def dump_ruled_out_def codec)

lemma fld_ruled_out_dump [codec]:
  "map_of d ''ruled_out'' = Some (JList (map dump_ruled_out rs)) \<Longrightarrow> fld_ruled_out d = Some rs"
  by (simp add: fld_ruled_out_def parse_ruled_out_dump)

lemma fld_deferred_dump [codec]: "map_of d ''deferred'' = Some (jdeferred is) \<Longrightarrow> fld_deferred cx d = Some is"
  by (simp add: fld_deferred_def jdeferred_def parse_deferreds_dump)

lemma parse_checkpoint_dump: "checkpoint_valid c \<Longrightarrow> parse_checkpoint cx (dump_checkpoint c) = Some c"
  by (simp add: parse_checkpoint_def dump_checkpoint_def codec checkpoint_valid_def)

interpretation cp: stored_model checkpoint_index dump_checkpoint "\<lambda>d. parse_checkpoint (cx d) d" cp_id checkpoint_valid for cx
proof
  show "checkpoint_valid m \<Longrightarrow> parse_checkpoint (cx (dump_checkpoint m)) (dump_checkpoint m) = Some m" for m
    by (rule parse_checkpoint_dump)
qed (auto simp: checkpoint_index_def dump_checkpoint_def)

abbreviation checkpoint_inv :: "jsonl_store \<Rightarrow> bool" where
  "checkpoint_inv \<equiv> model_inv checkpoint_index dump_checkpoint cp_id checkpoint_valid"

definition checkpoint_map :: "jsonl_store \<Rightarrow> string \<Rightarrow> checkpoint option" where
  "checkpoint_map st = models (\<lambda>d. parse_checkpoint \<lparr>cx_now = 0, cx_uuid = \<lambda>_. []\<rparr> d) st"

lemma models_checkpoint_map:
  "checkpoint_inv st \<Longrightarrow> models (\<lambda>d. parse_checkpoint (cx d) d) st = checkpoint_map st"
  unfolding checkpoint_map_def
proof (rule ext)
  fix i assume inv: "checkpoint_inv st"
  show "models (\<lambda>d. parse_checkpoint (cx d) d) st i =
      models (\<lambda>d. parse_checkpoint \<lparr>cx_now = 0, cx_uuid = \<lambda>_. []\<rparr> d) st i"
  proof (cases "map_of (st_docs st) (JStr i)")
    case (Some d)
    with inv obtain m where "checkpoint_valid m" "d = dump_checkpoint m" unfolding model_inv_def by blast
    with Some show ?thesis by (simp add: models_def parse_checkpoint_dump)
  qed (simp add: models_def)
qed

lemma checkpoint_map_Some:
  assumes "checkpoint_inv st"
  shows "checkpoint_map st i = Some c \<longleftrightarrow> map_of (st_docs st) (JStr i) = Some (dump_checkpoint c) \<and> checkpoint_valid c"
  using cp.models_Some [OF assms, of "\<lambda>_. \<lparr>cx_now = 0, cx_uuid = \<lambda>_. []\<rparr>"] by (simp add: checkpoint_map_def)

lemma checkpoint_map_id:
  assumes "checkpoint_inv st" "checkpoint_map st i = Some c"
  shows "cp_id c = i" "checkpoint_valid c"
  using cp.models_ident [OF assms(1), of "\<lambda>_. \<lparr>cx_now = 0, cx_uuid = \<lambda>_. []\<rparr>"] assms(2)
  by (simp_all add: checkpoint_map_def)

lemma checkpoint_inv_empty:
  "\<forall>xs. mset (ord xs) = mset xs \<Longrightarrow>
     checkpoint_inv (new_checkpoint_store ord []) \<and> checkpoint_map (new_checkpoint_store ord []) = Map.empty"
  by (simp add: new_checkpoint_store_def checkpoint_map_def model_inv_empty)

lemma cp_post_refines:
  assumes "checkpoint_inv st" "checkpoint_valid c"
  shows "(\<exists>x. cp_post fresh c st = (Inl x, st)) \<or>
    (\<exists>st'. cp_post fresh c st = (Inr (JStr (cp_id c)), st') \<and> checkpoint_map st (cp_id c) = None \<and>
       checkpoint_inv st' \<and> checkpoint_map st' = (checkpoint_map st)(cp_id c \<mapsto> c))"
  using cp.insert_refines [OF assms, of fresh "\<lambda>_. \<lparr>cx_now = 0, cx_uuid = \<lambda>_. []\<rparr>"]
  unfolding cp_post_def checkpoint_map_def by blast

text \<open>On the records this version writes the backfill does nothing, and reads have no effect.\<close>

lemma update_same: "map_of d k = Some v \<Longrightarrow> AList.update k v d = d"
  by (induction d) auto

lemma backfill_items_dump:
  "list_all (\<lambda>d. di_id d \<noteq> []) is \<Longrightarrow>
     backfill_items raw n (map (JObj \<circ> dump_deferred) is) = (Inr (), map (JObj \<circ> dump_deferred) is)"
  by (induction "is" arbitrary: n) (simp_all add: dump_deferred_def dict_get_def)

lemma backfill_dump: "checkpoint_valid c \<Longrightarrow> backfill (dump_checkpoint c) = (Inr (), dump_checkpoint c)"
proof -
  assume v: "checkpoint_valid c"
  have "map_of (dump_checkpoint c) ''deferred'' = Some (JList (map (JObj \<circ> dump_deferred) (cp_deferred c)))"
    by (simp add: dump_checkpoint_def jdeferred_def)
  with v show ?thesis by (simp add: backfill_def backfill_items_dump checkpoint_valid_def update_same)
qed

lemma doc_id_dump [simp]: "doc_id (dump_checkpoint c) = JStr (cp_id c)"
  by (simp add: doc_id_def dump_checkpoint_def)

lemma write_through_dump:
  assumes "checkpoint_inv st" "checkpoint_map st i = Some c"
  shows "write_through (dump_checkpoint c) st = st"
proof -
  have "map_of (st_docs st) (JStr (cp_id c)) = Some (dump_checkpoint c)"
    using assms checkpoint_map_id [OF assms] by (simp add: checkpoint_map_Some)
  then show ?thesis by (simp add: write_through_def update_same)
qed

lemma cp_load_dump:
  assumes "checkpoint_inv st" "checkpoint_map st i = Some c"
  shows "cp_load cx (dump_checkpoint c) st = (Inr c, st)"
  using write_through_dump [OF assms] checkpoint_map_id(2) [OF assms]
  by (simp add: cp_load_def backfill_dump parse_checkpoint_dump)

lemma cp_load_all_dump:
  assumes "checkpoint_inv st" "\<forall>c \<in> set cs. \<exists>i. checkpoint_map st i = Some c"
  shows "cp_load_all cx (map dump_checkpoint cs) st = (Inr cs, st)"
  using assms(2) by (induction cs) (auto simp: cp_load_dump [OF assms(1)])

lemma cp_get_refines: "checkpoint_inv st \<Longrightarrow> cp_get cx i st = (Inr (checkpoint_map st i), st)"
proof -
  assume inv: "checkpoint_inv st"
  show ?thesis
  proof (cases "checkpoint_map st i")
    case (Some c)
    with inv have "get_doc (JStr i) st = Some (dump_checkpoint c)" by (simp add: get_doc_def checkpoint_map_Some)
    with Some cp_load_dump [OF inv Some, of cx] show ?thesis by (simp add: cp_get_def)
  next
    case None
    with cp.models_None [OF inv, of "\<lambda>_. \<lparr>cx_now = 0, cx_uuid = \<lambda>_. []\<rparr>" i] show ?thesis
      by (simp add: cp_get_def get_doc_def checkpoint_map_def)
  qed
qed

lemma find_checkpoints:
  assumes inv: "checkpoint_inv st" and s: "searchable st kw"
  obtains cs where "find_where kw st = Inr (map dump_checkpoint cs)" "distinct (map cp_id cs)"
    "set cs = {c. \<exists>i. checkpoint_map st i = Some c \<and> matches_all kw (dump_checkpoint c)}"
proof -
  let ?v = "\<lambda>d. parse_checkpoint \<lparr>cx_now = 0, cx_uuid = \<lambda>_. []\<rparr> d"
  obtain cs where "tc_find_where ?v kw st = Inr cs" and cs: "find_where kw st = Inr (map dump_checkpoint cs)"
    "set cs = {m. \<exists>i. models ?v st i = Some m \<and> matches_all kw (dump_checkpoint m)}" "distinct (map cp_id cs)"
    by (rule cp.find_where_refines [OF inv s])
  with that show thesis unfolding checkpoint_map_def by blast
qed

lemma cp_query_refines:
  assumes inv: "checkpoint_inv st" and s: "searchable st kw"
  obtains cs where "cp_query cx kw hist st = (Inr cs, st)" "sorted (map cp_created_at cs)" "distinct (map cp_id cs)"
    "set cs = {c. \<exists>i. checkpoint_map st i = Some c \<and> matches_all kw (dump_checkpoint c) \<and> (hist \<or> \<not> cp_historical c)}"
proof -
  obtain cs where cs: "find_where kw st = Inr (map dump_checkpoint cs)" "distinct (map cp_id cs)"
    "set cs = {c. \<exists>i. checkpoint_map st i = Some c \<and> matches_all kw (dump_checkpoint c)}"
    by (rule find_checkpoints [OF inv s])
  let ?cs = "sort_key cp_created_at (if hist then cs else filter (\<lambda>c. \<not> cp_historical c) cs)"
  have "cp_load_all cx (map dump_checkpoint cs) st = (Inr cs, st)"
    by (rule cp_load_all_dump [OF inv]) (use cs(3) in blast)
  then have "cp_query cx kw hist st = (Inr ?cs, st)" by (simp add: cp_query_def cs(1))
  moreover have "distinct (map cp_id ?cs)" using cs(2) by (simp add: distinct_map inj_on_def)
  moreover have "set ?cs = {c. \<exists>i. checkpoint_map st i = Some c \<and> matches_all kw (dump_checkpoint c) \<and> (hist \<or> \<not> cp_historical c)}"
    using cs(3) by auto
  ultimately show thesis by (intro that [of ?cs]) simp_all
qed

lemma matches_phase:
  "matches_all [(''ticket_id'', JStr t), (''phase'', JStr p)] (dump_checkpoint c) \<longleftrightarrow> cp_ticket_id c = t \<and> cp_phase c = p"
  "matches_all [(''ticket_id'', JStr t)] (dump_checkpoint c) \<longleftrightarrow> cp_ticket_id c = t"
  by (auto simp: field_eq_def dump_checkpoint_def)

lemma searchable_phase:
  "searchable st [(''ticket_id'', JStr t), (''phase'', JStr p)]" "searchable st [(''ticket_id'', JStr t)]"
  by (simp_all add: searchable_def)

lemmas cp_for_phase_refines =
  cp_query_refines [OF _ searchable_phase(1), folded cp_for_phase_def, unfolded matches_phase]

lemmas cp_for_ticket_refines =
  cp_query_refines [OF _ searchable_phase(2), folded cp_for_ticket_def, unfolded matches_phase]

text \<open>Marking a phase.\<close>

definition marked :: "checkpoint \<Rightarrow> checkpoint" where
  "marked c = c\<lparr>cp_historical := True\<rparr>"

lemma marked_simps [simp]: "cp_id (marked c) = cp_id c" "checkpoint_valid (marked c) = checkpoint_valid c"
  "cp_historical (marked c)" "cp_ticket_id (marked c) = cp_ticket_id c" "cp_phase (marked c) = cp_phase c"
  by (simp_all add: marked_def checkpoint_valid_def)

lemma marked_same: "cp_historical c \<Longrightarrow> marked c = c"
  by (cases c) (simp add: marked_def)

lemma cp_update_refines:
  assumes "checkpoint_inv st" "checkpoint_map st i = Some c" "updatable st ch"
    and "changed_doc (dump_checkpoint c) ch = dump_checkpoint c'" "checkpoint_valid c'" "cp_id c' = i"
  shows "update_doc (JStr i) ch st = (Inl RecordTooLargeError, st) \<or>
    (\<exists>st'. update_doc (JStr i) ch st = (Inr True, st') \<and> checkpoint_inv st' \<and>
       checkpoint_map st' = (checkpoint_map st)(i \<mapsto> c'))"
  using cp.update_refines [OF assms(1) assms(2) [unfolded checkpoint_map_def] assms(3-6)]
  unfolding checkpoint_map_def by blast

lemma mark_one:
  assumes inv: "checkpoint_inv st" and c: "checkpoint_map st i = Some c"
  shows "update_doc (JStr i) [(''historical'', JBool True)] st = (Inl RecordTooLargeError, st) \<or>
    (\<exists>st'. update_doc (JStr i) [(''historical'', JBool True)] st = (Inr True, st') \<and> checkpoint_inv st' \<and>
       checkpoint_map st' = (checkpoint_map st)(i \<mapsto> marked c))"
proof -
  have u: "updatable st [(''historical'', JBool True)]" by (simp add: updatable_def)
  have "changed_doc (dump_checkpoint c) [(''historical'', JBool True)] = dump_checkpoint (marked c)"
    by (simp add: changed_doc_def dict_without_def dump_checkpoint_def marked_def)
  then show ?thesis
    using checkpoint_map_id [OF inv c] by (intro cp_update_refines [OF inv c u]) simp_all
qed

lemma mark_all:
  assumes "checkpoint_inv st" "distinct (map cp_id cs)" "\<forall>c \<in> set cs. checkpoint_map st (cp_id c) = Some c"
  shows "(\<exists>st'. mark_historical_all (map dump_checkpoint cs) n st = (Inl RecordTooLargeError, st') \<and> checkpoint_inv st') \<or>
    (\<exists>st'. mark_historical_all (map dump_checkpoint cs) n st = (Inr (n + length (filter (\<lambda>c. \<not> cp_historical c) cs)), st') \<and>
       checkpoint_inv st' \<and>
       checkpoint_map st' = (\<lambda>i. map_option (\<lambda>c. if c \<in> set cs then marked c else c) (checkpoint_map st i)))"
  using assms
proof (induction cs arbitrary: st n)
  case Nil
  then show ?case by (simp add: option.map_ident)
next
  case (Cons c cs)
  have h: "map_of (dump_checkpoint c) ''historical'' = Some (JBool True) \<longleftrightarrow> cp_historical c"
    by (simp add: dump_checkpoint_def)
  have c: "checkpoint_map st (cp_id c) = Some c" using Cons.prems(3) by simp
  show ?case
  proof (cases "cp_historical c")
    case True
    have eq: "(\<lambda>x. if x \<in> set (c # cs) then marked x else x) = (\<lambda>x. if x \<in> set cs then marked x else x)"
      using marked_same [OF True] by auto
    have step: "mark_historical_all (map dump_checkpoint (c # cs)) n st = mark_historical_all (map dump_checkpoint cs) n st"
      and len: "filter (\<lambda>c. \<not> cp_historical c) (c # cs) = filter (\<lambda>c. \<not> cp_historical c) cs"
      using True by (simp_all add: h)
    have "distinct (map cp_id cs)" "\<forall>c \<in> set cs. checkpoint_map st (cp_id c) = Some c" using Cons.prems(2,3) by simp_all
    then show ?thesis unfolding eq step len by (rule Cons.IH [OF Cons.prems(1)])
  next
    case False
    from mark_one [OF Cons.prems(1) c] show ?thesis
    proof (elim disjE exE conjE)
      fix st1 assume st1: "update_doc (JStr (cp_id c)) [(''historical'', JBool True)] st = (Inr True, st1)"
        "checkpoint_inv st1" "checkpoint_map st1 = (checkpoint_map st)(cp_id c \<mapsto> marked c)"
      have step: "mark_historical_all (map dump_checkpoint (c # cs)) n st =
          mark_historical_all (map dump_checkpoint cs) (n + 1) st1"
        using False by (simp add: h st1(1))
      have len: "n + length (filter (\<lambda>c. \<not> cp_historical c) (c # cs)) =
          n + 1 + length (filter (\<lambda>c. \<not> cp_historical c) cs)" using False by simp
      have "\<forall>x \<in> set cs. checkpoint_map st1 (cp_id x) = Some x"
      proof
        fix x assume x: "x \<in> set cs"
        with Cons.prems(2) have "cp_id x \<noteq> cp_id c" by (simp add: image_iff) metis
        with x Cons.prems(3) show "checkpoint_map st1 (cp_id x) = Some x" by (simp add: st1(3))
      qed
      note ih = Cons.IH [OF st1(2) _ this, of "n + 1"]
      have ids: "checkpoint_map st i = Some x \<Longrightarrow> cp_id x = i" for i x
        using checkpoint_map_id(1) [OF Cons.prems(1)] by blast
      have "map_option (\<lambda>x. if x \<in> set cs then marked x else x) (checkpoint_map st1 i) =
          map_option (\<lambda>x. if x \<in> set (c # cs) then marked x else x) (checkpoint_map st i)" for i
      proof (cases "i = cp_id c")
        case True
        have "marked c \<notin> set cs"
        proof
          assume "marked c \<in> set cs"
          then have "cp_id (marked c) \<in> cp_id ` set cs" by (rule imageI)
          with Cons.prems(2) show False by simp
        qed
        with True c st1(3) show ?thesis by simp
      next
        case False
        then have "checkpoint_map st i \<noteq> Some c" using ids by blast
        with False st1(3) show ?thesis by (cases "checkpoint_map st i") auto
      qed
      then have eq: "(\<lambda>i. map_option (\<lambda>x. if x \<in> set cs then marked x else x) (checkpoint_map st1 i)) =
          (\<lambda>i. map_option (\<lambda>x. if x \<in> set (c # cs) then marked x else x) (checkpoint_map st i))" by (rule ext)
      have "distinct (map cp_id cs)" using Cons.prems(2) by simp
      from ih [OF this] show ?thesis unfolding step len eq .
    next
      assume "update_doc (JStr (cp_id c)) [(''historical'', JBool True)] st = (Inl RecordTooLargeError, st)"
      with False have "mark_historical_all (map dump_checkpoint (c # cs)) n st = (Inl RecordTooLargeError, st)" by (simp add: h)
      with Cons.prems(1) show ?thesis by blast
    qed
  qed
qed

text \<open>
  Closing a phase: unless the log refuses a record, every checkpoint of the phase is
  historical afterwards, nothing else about any checkpoint changed, the count returned is
  that of the checkpoints that were not historical before, and the default query of the
  phase is empty.
\<close>

theorem mark_phase_historical_exact:
  assumes inv: "checkpoint_inv st" and run: "mark_phase_historical t p st = (Inr n, st')"
  shows "checkpoint_inv st' \<and> cp_for_phase cx t p False st' = (Inr [], st') \<and>
    checkpoint_map st' = (\<lambda>i. map_option (\<lambda>c. if cp_ticket_id c = t \<and> cp_phase c = p then marked c else c)
      (checkpoint_map st i)) \<and>
    n = card {i. \<exists>c. checkpoint_map st i = Some c \<and> cp_ticket_id c = t \<and> cp_phase c = p \<and> \<not> cp_historical c}"
proof -
  obtain cs where cs: "find_where [(''ticket_id'', JStr t), (''phase'', JStr p)] st = Inr (map dump_checkpoint cs)"
    "distinct (map cp_id cs)"
    "set cs = {c. \<exists>i. checkpoint_map st i = Some c \<and> cp_ticket_id c = t \<and> cp_phase c = p}"
    using find_checkpoints [OF inv searchable_phase(1), of t p] unfolding matches_phase by blast
  have ids: "\<forall>c \<in> set cs. checkpoint_map st (cp_id c) = Some c"
    using cs(3) checkpoint_map_id(1) [OF inv] by auto
  from mark_all [OF inv cs(2) ids, of 0] run have st': "checkpoint_inv st'"
    "checkpoint_map st' = (\<lambda>i. map_option (\<lambda>c. if c \<in> set cs then marked c else c) (checkpoint_map st i))"
    and n: "n = length (filter (\<lambda>c. \<not> cp_historical c) cs)"
    by (auto simp: mark_phase_historical_def cs(1))
  have m: "checkpoint_map st' = (\<lambda>i. map_option (\<lambda>c. if cp_ticket_id c = t \<and> cp_phase c = p then marked c else c)
      (checkpoint_map st i))"
    unfolding st'(2) cs(3) by (rule ext) (case_tac "checkpoint_map st i"; auto)
  obtain es where es: "cp_for_phase cx t p False st' = (Inr es, st')"
    "set es = {c. \<exists>i. checkpoint_map st' i = Some c \<and> (cp_ticket_id c = t \<and> cp_phase c = p) \<and> (False \<or> \<not> cp_historical c)}"
    by (rule cp_for_phase_refines [OF st'(1)])
  have "es = []"
  proof -
    have no: "\<not> (cp_ticket_id c = t \<and> cp_phase c = p \<and> \<not> cp_historical c)" if "checkpoint_map st' i = Some c" for i c
      using that unfolding m by (cases "checkpoint_map st i") (auto split: if_splits)
    show ?thesis
    proof (rule ccontr)
      assume "es \<noteq> []"
      then have "hd es \<in> set es" by simp
      then obtain i where "checkpoint_map st' i = Some (hd es)" "cp_ticket_id (hd es) = t" "cp_phase (hd es) = p"
        "\<not> cp_historical (hd es)" unfolding es(2) by simp metis
      with no show False by simp
    qed
  qed
  moreover have "n = card {i. \<exists>c. checkpoint_map st i = Some c \<and> cp_ticket_id c = t \<and> cp_phase c = p \<and> \<not> cp_historical c}"
  proof -
    let ?f = "filter (\<lambda>c. \<not> cp_historical c) cs"
    have "distinct (map cp_id ?f)" using cs(2) by (rule distinct_map_filter)
    then have "n = card (set (map cp_id ?f))" unfolding n by (metis distinct_card length_map)
    also have "set (map cp_id ?f) = {i. \<exists>c. checkpoint_map st i = Some c \<and> cp_ticket_id c = t \<and> cp_phase c = p \<and> \<not> cp_historical c}"
      (is "?A = ?B")
    proof (rule set_eqI, rule iffI)
      fix i assume "i \<in> ?A"
      then obtain c where "c \<in> set cs" "\<not> cp_historical c" "i = cp_id c" by auto
      with cs(3) ids show "i \<in> ?B" by blast
    next
      fix i assume "i \<in> ?B"
      then obtain c where c: "checkpoint_map st i = Some c" "cp_ticket_id c = t" "cp_phase c = p" "\<not> cp_historical c" by blast
      with cs(3) have "c \<in> set ?f" by auto
      with checkpoint_map_id(1) [OF inv c(1)] show "i \<in> ?A" by auto
    qed
    finally show ?thesis .
  qed
  ultimately show ?thesis using st'(1) m es(1) by simp
qed

section \<open>Deferred items\<close>

text \<open>
  An update of a field of a document through its shared copy: the write that was already
  made in memory is overwritten by the update itself.
\<close>

lemma update_update: "AList.update k w (AList.update k v d) = AList.update k w d"
  by (induction d) auto

lemma index_fields_cong:
  "\<forall>f \<in> set fs. map_of d' f = map_of d f \<Longrightarrow> doc_id d' = doc_id d \<Longrightarrow> index_fields g fs d' ixs = index_fields g fs d ixs"
  by (induction fs arbitrary: ixs) (simp_all split: option.splits)

lemma update_through:
  assumes d: "map_of (st_docs st) i = Some d" "doc_id d = i" and f: "f \<notin> set (st_index_fields st)" "f \<noteq> ''_id''" "f \<noteq> ''_op''"
    and ok: "update_doc i [(f, v)] st = (Inr True, st')"
  shows "update_doc i [(f, v)] (write_through (AList.update f v d) st) = (Inr True, st')"
proof -
  let ?d = "AList.update f v d"
  have id: "doc_id ?d = i" using d(2) f(2) by (simp add: doc_id_def update_conv')
  have "\<forall>g \<in> set (st_index_fields st). map_of ?d g = map_of d g" using f(1) by (simp add: update_conv')
  then have "index_remove (st_index_fields st) ?d ixs = index_remove (st_index_fields st) d ixs" for ixs
    unfolding index_remove_def by (rule index_fields_cong) (simp add: id d(2))
  then show ?thesis
    using ok d id f by (simp add: update_doc_def write_through_def append_line_def dict_without_def
        Let_def update_conv' update_update split: if_splits prod.splits option.splits)
qed

fun promote_first :: "string \<Rightarrow> string \<Rightarrow> deferred_item list \<Rightarrow> deferred_item list option" where
  \<comment> \<open>the first item with the id, promoted to the ticket\<close>
  "promote_first i p [] = None"
| "promote_first i p (d # ds) =
    (if di_id d = i then Some (d\<lparr>di_status := DPromoted, di_promoted_ticket_id := Some p\<rparr> # ds)
     else map_option (Cons d) (promote_first i p ds))"

lemma patch_first_dump:
  "patch_first i (patch_item (Some ''promoted'') (Some p)) (map (JObj \<circ> dump_deferred) ds) =
     map_option (map (JObj \<circ> dump_deferred)) (promote_first i p ds)"
proof (induction ds)
  case (Cons d ds)
  have "map_of (dump_deferred d) ''id'' = Some (JStr i) \<longleftrightarrow> di_id d = i" by (simp add: dump_deferred_def)
  moreover have "patch_item (Some ''promoted'') (Some p) (dump_deferred d) =
      dump_deferred (d\<lparr>di_status := DPromoted, di_promoted_ticket_id := Some p\<rparr>)"
    by (simp add: patch_item_def dump_deferred_def jopt_def)
  ultimately show ?case using Cons.IH by (cases "promote_first i p ds") simp_all
qed simp

lemma promote_first_ids: "promote_first i p ds = Some ds' \<Longrightarrow> map di_id ds' = map di_id ds"
  by (induction ds arbitrary: ds') (auto split: if_splits)

lemma list_all_ids: "map di_id ds = map di_id es \<Longrightarrow> list_all (\<lambda>d. di_id d \<noteq> []) ds = list_all (\<lambda>d. di_id d \<noteq> []) es"
  using list.pred_map [of "\<lambda>i. i \<noteq> []" di_id ds] list.pred_map [of "\<lambda>i. i \<noteq> []" di_id es] by (simp add: o_def)

lemma promote_first_None: "promote_first i p ds = None \<longleftrightarrow> i \<notin> di_id ` set ds"
  by (induction ds) auto

lemma dump_checkpoint_deferred:
  "AList.update ''deferred'' (jdeferred ds) (dump_checkpoint c) = dump_checkpoint (c\<lparr>cp_deferred := ds\<rparr>)"
  by (simp add: dump_checkpoint_def)

lemma update_deferred_item_refines:
  assumes inv: "checkpoint_inv st"
  shows "update_deferred_item c i (Some ''promoted'') (Some p) st = (case checkpoint_map st c of
      None \<Rightarrow> (Inr False, st)
    | Some x \<Rightarrow> (case promote_first i p (cp_deferred x) of
        None \<Rightarrow> (Inr False, st)
      | Some ds \<Rightarrow>
          let st1 = write_through (dump_checkpoint (x\<lparr>cp_deferred := ds\<rparr>)) st
          in case update_doc (JStr c) [(''deferred'', jdeferred ds)] st1 of
               (Inl e, st2) \<Rightarrow> (Inl e, st2) | (Inr _, st2) \<Rightarrow> (Inr True, st2)))"
proof (cases "checkpoint_map st c")
  case None
  with inv cp.models_None [OF inv, of "\<lambda>_. \<lparr>cx_now = 0, cx_uuid = \<lambda>_. []\<rparr>" c] show ?thesis
    by (simp add: update_deferred_item_def get_doc_def checkpoint_map_def)
next
  case (Some x)
  with inv have d: "get_doc (JStr c) st = Some (dump_checkpoint x)" and v: "checkpoint_valid x"
    by (simp_all add: get_doc_def checkpoint_map_Some)
  have f: "map_of (dump_checkpoint x) ''deferred'' = Some (JList (map (JObj \<circ> dump_deferred) (cp_deferred x)))"
    by (simp add: dump_checkpoint_def jdeferred_def)
  show ?thesis
    by (simp add: update_deferred_item_def d backfill_dump [OF v] f patch_first_dump Some write_through_dump [OF inv Some]
        dump_checkpoint_deferred [symmetric] jdeferred_def Let_def split: option.split)
qed

lemma deferred_update_effect:
  assumes inv: "checkpoint_inv st"
  shows "case checkpoint_map st c of
      None \<Rightarrow> update_deferred_item c i (Some ''promoted'') (Some p) st = (Inr False, st)
    | Some x \<Rightarrow> (case promote_first i p (cp_deferred x) of
        None \<Rightarrow> update_deferred_item c i (Some ''promoted'') (Some p) st = (Inr False, st)
      | Some ds \<Rightarrow>
          (\<exists>st'. update_deferred_item c i (Some ''promoted'') (Some p) st = (Inr True, st') \<and> checkpoint_inv st' \<and>
            checkpoint_map st' = (checkpoint_map st)(c \<mapsto> x\<lparr>cp_deferred := ds\<rparr>)) \<or>
          (\<exists>st'. update_deferred_item c i (Some ''promoted'') (Some p) st = (Inl RecordTooLargeError, st') \<and>
            st_file st' = st_file st \<and> get_doc (JStr c) st' = Some (dump_checkpoint (x\<lparr>cp_deferred := ds\<rparr>))))"
proof (cases "checkpoint_map st c")
  case None
  then show ?thesis by (simp add: update_deferred_item_refines [OF inv])
next
  case (Some x)
  note idx = checkpoint_map_id [OF inv Some]
  show ?thesis
  proof (cases "promote_first i p (cp_deferred x)")
    case None
    with Some show ?thesis by (simp add: update_deferred_item_refines [OF inv])
  next
    case ds: (Some ds)
    let ?x = "x\<lparr>cp_deferred := ds\<rparr>" and ?ch = "[(''deferred'', jdeferred ds)]"
    let ?st1 = "write_through (dump_checkpoint ?x) st"
    have d: "map_of (st_docs st) (JStr c) = Some (dump_checkpoint x)" using Some inv by (simp add: checkpoint_map_Some)
    have ix: "''deferred'' \<notin> set (st_index_fields st)" using inv by (simp add: model_inv_def checkpoint_index_def)
    have v: "checkpoint_valid ?x"
      using idx(2) list_all_ids [OF promote_first_ids [OF ds]] by (simp add: checkpoint_valid_def)
    have upd: "update_deferred_item c i (Some ''promoted'') (Some p) st = (case update_doc (JStr c) ?ch ?st1 of
        (Inl e, st2) \<Rightarrow> (Inl e, st2) | (Inr _, st2) \<Rightarrow> (Inr True, st2))"
      by (simp add: update_deferred_item_refines [OF inv] Some ds)
    show ?thesis
    proof (cases "dumps_len (JObj (update_record (JStr c) ?ch)) \<le> st_max_record_bytes st")
      case True
      have "update_doc (JStr c) ?ch ?st1 = (Inr True, st')" if "update_doc (JStr c) ?ch st = (Inr True, st')" for st'
        using update_through [OF d _ ix _ _ that] idx(1) by (simp add: dump_checkpoint_deferred)
      moreover have "update_doc (JStr c) ?ch st \<noteq> (Inl RecordTooLargeError, st)"
      proof -
        have "store_inv st" "updatable st ?ch" using inv ix by (simp_all add: model_inv_def updatable_def)
        from update_doc_ok [OF this(1) d this(2) True] show ?thesis by (metis Inl_Inr_False prod.inject)
      qed
      moreover have "update_doc (JStr c) ?ch st = (Inl RecordTooLargeError, st) \<or>
          (\<exists>st'. update_doc (JStr c) ?ch st = (Inr True, st') \<and> checkpoint_inv st' \<and>
            checkpoint_map st' = (checkpoint_map st)(c \<mapsto> ?x))"
        by (rule cp_update_refines [OF inv Some])
          (use ix idx v in \<open>simp_all add: updatable_def changed_doc_def dict_without_def dump_checkpoint_deferred\<close>)
      ultimately show ?thesis unfolding Some ds option.case upd by auto
    next
      case False
      have "map_of (st_docs ?st1) (JStr c) = Some (dump_checkpoint ?x)"
        using idx(1) by (simp add: write_through_def update_conv')
      then have "update_doc (JStr c) ?ch ?st1 = (Inl RecordTooLargeError, ?st1)"
        using False by (intro update_doc_too_large) (simp_all add: write_through_def)
      then show ?thesis using idx(1) unfolding Some ds option.case upd
        by (simp add: get_doc_def write_through_def update_conv')
    qed
  qed
qed

text \<open>
  Marking an item promoted: the item is in a checkpoint or nothing happens; when the
  record fits the log, exactly the first item of that checkpoint with the id becomes
  promoted to the given ticket.  A refusal by the log raises, but by then the item is
  promoted in memory only: the log still holds it open.
\<close>

theorem update_deferred_item_exact:
  assumes inv: "checkpoint_inv st"
  shows "case checkpoint_map st c of
      None \<Rightarrow> update_deferred_item c i (Some ''promoted'') (Some p) st = (Inr False, st)
    | Some x \<Rightarrow> (case promote_first i p (cp_deferred x) of
        None \<Rightarrow> update_deferred_item c i (Some ''promoted'') (Some p) st = (Inr False, st)
      | Some ds \<Rightarrow>
          (\<exists>st'. update_deferred_item c i (Some ''promoted'') (Some p) st = (Inr True, st') \<and> checkpoint_inv st' \<and>
            checkpoint_map st' = (checkpoint_map st)(c \<mapsto> x\<lparr>cp_deferred := ds\<rparr>)) \<or>
          (\<exists>st'. update_deferred_item c i (Some ''promoted'') (Some p) st = (Inl RecordTooLargeError, st') \<and>
            st_file st' = st_file st \<and> get_doc (JStr c) st' = Some (dump_checkpoint (x\<lparr>cp_deferred := ds\<rparr>))))"
  by (rule deferred_update_effect [OF inv])

section \<open>Witnesses\<close>

definition demo_deferred :: deferred_item where
  "demo_deferred = \<lparr>di_id = ''d'', di_item = ''later'', di_reason = [], di_status = DOpen, di_promoted_ticket_id = None\<rparr>"

definition demo_checkpoint :: checkpoint where
  "demo_checkpoint = \<lparr>cp_id = ''c'', cp_ticket_id = ''t'', cp_phase = ''p'', cp_author = ''a'', cp_created_at = 0,
     cp_description = [], cp_completed = [], cp_position = [], cp_plan = [], cp_ruled_out = [],
     cp_deferred = [demo_deferred], cp_open_questions = [], cp_trigger = ''agent_deferred'', cp_historical = False\<rparr>"

definition demo_checkpoints :: jsonl_store where
  "demo_checkpoints = snd (cp_post [] demo_checkpoint (new_checkpoint_store (\<lambda>xs. xs) []))"

lemma demo_checkpoints_ok:
  "checkpoint_inv demo_checkpoints" "checkpoint_map demo_checkpoints = [''c'' \<mapsto> demo_checkpoint]"
proof -
  let ?st = "new_checkpoint_store (\<lambda>xs. xs) []"
  have e: "checkpoint_inv ?st" "checkpoint_map ?st = Map.empty" using checkpoint_inv_empty [of "\<lambda>xs. xs"] by simp_all
  have v: "checkpoint_valid demo_checkpoint"
    by (simp add: checkpoint_valid_def demo_checkpoint_def demo_deferred_def checkpoint_triggers_def)
  have "is_ok (fst (cp_post [] demo_checkpoint ?st))"
    by (simp add: cp_post_def tc_insert_def insert_doc_def insert_body_def append_line_def new_checkpoint_store_def
      new_store_def Let_def dump_checkpoint_def demo_checkpoint_def demo_deferred_def jdeferred_def dump_deferred_def
      checkpoint_index_def index_insert_def bucket_add_def doc_id_def empty_indexes_def jopt_def jstrs_def
      default_max_record_bytes_def dump_str_len_def dump_char_len_def)
  with cp_post_refines [OF e(1) v, of "[]"] e(2)
  show "checkpoint_inv demo_checkpoints" "checkpoint_map demo_checkpoints = [''c'' \<mapsto> demo_checkpoint]"
    by (auto simp: demo_checkpoints_def) (simp_all add: demo_checkpoint_def)
qed

theorem update_deferred_item_exact_witness:
  "fst (update_deferred_item ''c'' ''x'' (Some ''promoted'') (Some ''k'') demo_checkpoints) = Inr False"
  using update_deferred_item_exact [OF demo_checkpoints_ok(1), of "''c''" "''x''" "''k''"]
  by (simp add: demo_checkpoints_ok demo_checkpoint_def demo_deferred_def)

lemmas run_store = tc_insert_def insert_doc_def insert_body_def append_line_def new_store_def Let_def index_insert_def
  index_remove_def bucket_add_def bucket_remove_def doc_id_def empty_indexes_def jopt_def jstrs_def
  default_max_record_bytes_def dump_str_len_def dump_char_len_def find_where_def find_by_def get_doc_def
  update_doc_def dict_without_def bucket_def set_add_def field_eq_def find_docs_def

lemma demo_checkpoints_store: "demo_checkpoints = \<lparr>st_index_fields = checkpoint_index,
    st_max_record_bytes = default_max_record_bytes, st_docs = [(JStr ''c'', dump_checkpoint demo_checkpoint)],
    st_indexes = [(''ticket_id'', [(JStr ''t'', [JStr ''c''])]), (''phase'', [(JStr ''p'', [JStr ''c''])]),
      (''author'', [(JStr ''a'', [JStr ''c''])])],
    st_loaded = False, st_file = [JsonLine (JObj ((''_op'', JStr ''insert'') # dump_checkpoint demo_checkpoint))],
    st_order = (\<lambda>xs. xs)\<rparr>"
  by (simp add: demo_checkpoints_def cp_post_def new_checkpoint_store_def dump_checkpoint_def demo_checkpoint_def
      demo_deferred_def jdeferred_def dump_deferred_def checkpoint_index_def run_store)

lemma demo_mark: "fst (mark_phase_historical ''t'' ''p'' demo_checkpoints) = Inr 1"
  by (simp add: demo_checkpoints_store mark_phase_historical_def dump_checkpoint_def demo_checkpoint_def
      checkpoint_index_def run_store)

theorem mark_phase_historical_exact_witness:
  "checkpoint_map (snd (mark_phase_historical ''t'' ''p'' demo_checkpoints)) = [''c'' \<mapsto> marked demo_checkpoint]"
proof -
  have run: "mark_phase_historical ''t'' ''p'' demo_checkpoints = (Inr 1, snd (mark_phase_historical ''t'' ''p'' demo_checkpoints))"
    using demo_mark by (simp add: prod_eq_iff)
  show ?thesis
    using mark_phase_historical_exact [OF demo_checkpoints_ok(1) run, of "\<lambda>_. \<lparr>cx_now = 0, cx_uuid = \<lambda>_. []\<rparr>"]
    by (simp add: demo_checkpoints_ok fun_eq_iff demo_checkpoint_def)
qed

end
