(* ===== verification/Bus.thy ===== *)
theory Bus
  imports ModelStore
begin

text \<open>
  The message bus of \<open>jig/store/bus.py\<close>: a typed collection of messages and, in
  memory, the queues subscribed to each topic.  A queue is an object with an identity
  that several tables share, so the queues live in a store from addresses to contents,
  and the tables hold addresses.  The asyncio lock makes each table operation atomic;
  the web socket listeners are addresses too, and what they are called with is kept
  in order (a listener that raises is logged and skipped, the others are called).
\<close>

section \<open>Messages\<close>

datatype message_type = MTaskAssignment | MTaskCompletion | MQuestion | MAnswer | MContextUpdate | MStatus

fun show_message_type :: "message_type \<Rightarrow> string" where
  "show_message_type MTaskAssignment = ''task_assignment''"
| "show_message_type MTaskCompletion = ''task_completion''"
| "show_message_type MQuestion = ''question''"
| "show_message_type MAnswer = ''answer''"
| "show_message_type MContextUpdate = ''context_update''"
| "show_message_type MStatus = ''status''"

definition read_message_type :: "string \<Rightarrow> message_type option" where
  "read_message_type s = List.find (\<lambda>x. show_message_type x = s)
     [MTaskAssignment, MTaskCompletion, MQuestion, MAnswer, MContextUpdate, MStatus]"

lemma read_message_type_show [simp]: "read_message_type (show_message_type x) = Some x"
  by (cases x) (simp_all add: read_message_type_def)

record message =
  msg_id :: string
  msg_sender :: string
  msg_to :: string
  msg_type :: message_type
  msg_payload :: doc
  msg_timestamp :: int
  msg_correlation_id :: "string option"
  msg_topic :: string

definition dump_message :: "message \<Rightarrow> doc" where
  "dump_message m = [(''_id'', JStr (msg_id m)), (''from'', JStr (msg_sender m)), (''to'', JStr (msg_to m)),
     (''type'', JStr (show_message_type (msg_type m))), (''payload'', JObj (msg_payload m)),
     (''timestamp'', JTime (msg_timestamp m)), (''correlation_id'', jopt (msg_correlation_id m)),
     (''topic'', JStr (msg_topic m))]"

definition fld_sender :: "doc \<Rightarrow> string option" where
  \<comment> \<open>the alias first, then (\<open>populate_by_name\<close>) the name\<close>
  "fld_sender d = (if map_of d ''from'' = None then fld_str ''sender'' d else fld_str ''from'' d)"

definition fld_payload :: "doc \<Rightarrow> doc option" where
  "fld_payload d = (case map_of d ''payload'' of Some (JObj e) \<Rightarrow> Some e | _ \<Rightarrow> None)"

definition parse_message :: "ctx \<Rightarrow> doc \<Rightarrow> message option" where
  "parse_message cx d = do {
     i \<leftarrow> fld_id cx d;
     s \<leftarrow> fld_sender d;
     t \<leftarrow> fld_str ''to'' d;
     ty \<leftarrow> fld_str ''type'' d;
     ty \<leftarrow> read_message_type ty;
     p \<leftarrow> fld_payload d;
     ts \<leftarrow> fld_time_or ''timestamp'' (cx_now cx) d;
     c \<leftarrow> fld_opt ''correlation_id'' d;
     tp \<leftarrow> fld_str ''topic'' d;
     Some \<lparr>msg_id = i, msg_sender = s, msg_to = t, msg_type = ty, msg_payload = p, msg_timestamp = ts,
       msg_correlation_id = c, msg_topic = tp\<rparr> }"

definition message_index :: "string list" where
  "message_index = [''topic'']"

lemma parse_message_dump: "parse_message cx (dump_message m) = Some m"
  by (simp add: parse_message_def dump_message_def codec fld_sender_def fld_payload_def)

interpretation ms: stored_model message_index dump_message "\<lambda>d. parse_message (cx d) d" msg_id "\<lambda>_. True" for cx
proof
  show "parse_message (cx (dump_message m)) (dump_message m) = Some m" for m
    by (rule parse_message_dump)
qed (auto simp: message_index_def dump_message_def)

abbreviation message_inv :: "jsonl_store \<Rightarrow> bool" where
  "message_inv \<equiv> model_inv message_index dump_message msg_id (\<lambda>_. True)"

section \<open>The bus\<close>

record bus =
  bus_coll :: jsonl_store
  bus_subscribers :: "(string \<times> nat list) list"
  bus_listeners :: "nat list"
  bus_agents :: "((string \<times> string) \<times> nat) list"
  bus_queues :: "nat \<Rightarrow> message list"
  bus_next :: nat
  bus_calls :: "(nat \<times> message) list"

definition new_bus :: "(json list \<Rightarrow> json list) \<Rightarrow> line list \<Rightarrow> bus" where
  "new_bus ord fl = \<lparr>bus_coll = new_store ord fl message_index default_max_record_bytes,
     bus_subscribers = [], bus_listeners = [], bus_agents = [], bus_queues = (\<lambda>_. []), bus_next = 0, bus_calls = []\<rparr>"

definition subs_of :: "string \<Rightarrow> bus \<Rightarrow> nat list" where
  "subs_of t b = the_default [] (map_of (bus_subscribers b) t)"

definition queue_put :: "message \<Rightarrow> nat \<Rightarrow> (nat \<Rightarrow> message list) \<Rightarrow> nat \<Rightarrow> message list" where
  "queue_put m q qs = qs(q := qs q @ [m])"

definition publish :: "string \<Rightarrow> message \<Rightarrow> bus \<Rightarrow> json result \<times> bus" where
  "publish fresh m b = (case tc_insert dump_message fresh m (bus_coll b) of
     (Inl e, c) \<Rightarrow> (Inl e, b\<lparr>bus_coll := c\<rparr>)
   | (Inr i, c) \<Rightarrow> (Inr i, b\<lparr>bus_coll := c,
       bus_queues := fold (queue_put m) (subs_of (msg_topic m) b) (bus_queues b),
       bus_calls := bus_calls b @ map (\<lambda>l. (l, m)) (bus_listeners b)\<rparr>))"

definition publish_dict :: "ctx \<Rightarrow> string \<Rightarrow> doc \<Rightarrow> bus \<Rightarrow> json result \<times> bus" where
  \<comment> \<open>\<open>publish\<close> called with a dictionary\<close>
  "publish_dict cx fresh d b = (case parse_message cx d of
     None \<Rightarrow> (Inl (ValidationError ''message''), b)
   | Some m \<Rightarrow> publish fresh m b)"

definition new_queue :: "string \<Rightarrow> bus \<Rightarrow> nat \<times> bus" where
  "new_queue t b = (bus_next b, b\<lparr>bus_next := Suc (bus_next b),
     bus_queues := (bus_queues b)(bus_next b := []),
     bus_subscribers := AList.update t (subs_of t b @ [bus_next b]) (bus_subscribers b)\<rparr>)"

definition subscribe :: "string \<Rightarrow> bus \<Rightarrow> nat \<times> bus" where
  "subscribe t b = new_queue t b"

definition subscribe_agent :: "string \<Rightarrow> string \<Rightarrow> bus \<Rightarrow> nat \<times> bus" where
  "subscribe_agent t a b = (case map_of (bus_agents b) (t, a) of
     Some q \<Rightarrow> (q, b)
   | None \<Rightarrow> (let (q, b') = new_queue t b in (q, b'\<lparr>bus_agents := AList.update (t, a) q (bus_agents b')\<rparr>)))"

definition unsubscribe :: "string \<Rightarrow> nat \<Rightarrow> bus \<Rightarrow> bus" where
  "unsubscribe t q b =
    (let queues = subs_of t b
     in if queues = [] then b
        else if q \<notin> set queues then b
        else (let queues' = remove1 q queues
              in b\<lparr>bus_subscribers := (if queues' = [] then AList.delete t (bus_subscribers b)
                                     else AList.update t queues' (bus_subscribers b)),
                   bus_agents := filter (\<lambda>(_, p). p \<noteq> q) (bus_agents b)\<rparr>))"

definition queue_get :: "nat \<Rightarrow> bus \<Rightarrow> message option \<times> bus" where
  \<comment> \<open>\<open>queue.get_nowait()\<close> by the holder of a queue\<close>
  "queue_get q b = (case bus_queues b q of
     [] \<Rightarrow> (None, b) | m # ms \<Rightarrow> (Some m, b\<lparr>bus_queues := (bus_queues b)(q := ms)\<rparr>))"

definition add_websocket_listener :: "nat \<Rightarrow> bus \<Rightarrow> bus" where
  "add_websocket_listener l b = b\<lparr>bus_listeners := bus_listeners b @ [l]\<rparr>"

text \<open>\<open>xs[-limit:]\<close>: a limit of 0 is the whole list, a negative one drops from the front.\<close>

definition last_slice :: "int \<Rightarrow> 'a list \<Rightarrow> 'a list" where
  "last_slice n xs = (if n > 0 then drop (length xs - nat n) xs else drop (nat (- n)) xs)"

definition get_history :: "(doc \<Rightarrow> ctx) \<Rightarrow> string \<Rightarrow> int \<Rightarrow> bus \<Rightarrow> message list result" where
  "get_history cx t limit b = (case tc_find_where (\<lambda>d. parse_message (cx d) d) [(''topic'', JStr t)] (bus_coll b) of
     Inl e \<Rightarrow> Inl e
   | Inr ms \<Rightarrow> Inr (last_slice limit (sort_key msg_timestamp ms)))"

definition payload_kind :: "message \<Rightarrow> json" where
  "payload_kind m = dict_get JNull ''kind'' (msg_payload m)"

definition recent :: "(doc \<Rightarrow> ctx) \<Rightarrow> int \<Rightarrow> string option \<Rightarrow> bus \<Rightarrow> message list result" where
  "recent cx limit kind b = (case tc_find (\<lambda>d. parse_message (cx d) d) None (bus_coll b) of
     Inl e \<Rightarrow> Inl e
   | Inr all_msgs \<Rightarrow>
       (let msgs = (case kind of None \<Rightarrow> all_msgs | Some k \<Rightarrow> filter (\<lambda>m. payload_kind m = JStr k) all_msgs)
        in Inr (last_slice limit (sort_key msg_timestamp msgs))))"

section \<open>Invariant\<close>

text \<open>
  Every subscribed queue is subscribed once, to one topic; every agent subscription
  is a subscription of its topic; queues that do not exist yet are nowhere.
\<close>

definition bus_inv :: "bus \<Rightarrow> bool" where
  "bus_inv b \<longleftrightarrow> message_inv (bus_coll b) \<and> distinct (keys (bus_subscribers b)) \<and> distinct (keys (bus_agents b)) \<and>
     (\<forall>t. distinct (subs_of t b)) \<and>
     (\<forall>t t' q. q \<in> set (subs_of t b) \<longrightarrow> q \<in> set (subs_of t' b) \<longrightarrow> t = t') \<and>
     (\<forall>t q. q \<in> set (subs_of t b) \<longrightarrow> q < bus_next b) \<and>
     (\<forall>t a q. map_of (bus_agents b) (t, a) = Some q \<longrightarrow> q \<in> set (subs_of t b))"

text \<open>What the callers do with a bus: a sequence of operations, and the messages it accepted.\<close>

datatype bus_op =
    OPublish string message
  | OSubscribe string
  | OSubscribeAgent string string
  | OUnsubscribe string nat
  | OGet nat
  | OListen nat

fun bus_exec :: "bus_op \<Rightarrow> bus \<Rightarrow> bus \<times> message list" where
  "bus_exec (OPublish fresh m) b = (let (r, b') = publish fresh m b in (b', if is_ok r then [m] else []))"
| "bus_exec (OSubscribe t) b = (snd (subscribe t b), [])"
| "bus_exec (OSubscribeAgent t a) b = (snd (subscribe_agent t a b), [])"
| "bus_exec (OUnsubscribe t q) b = (unsubscribe t q b, [])"
| "bus_exec (OGet q) b = (snd (queue_get q b), [])"
| "bus_exec (OListen l) b = (add_websocket_listener l b, [])"

fun bus_run :: "bus_op list \<Rightarrow> bus \<Rightarrow> bus \<times> message list" where
  "bus_run [] b = (b, [])"
| "bus_run (x # xs) b = (let (b1, ms) = bus_exec x b; (b2, ms') = bus_run xs b1 in (b2, ms @ ms'))"

lemma fold_queue_put:
  "distinct qs \<Longrightarrow> fold (queue_put m) qs f q = (if q \<in> set qs then f q @ [m] else f q)"
  by (induction qs arbitrary: f) (auto simp: queue_put_def)

lemma publish_cases:
  assumes "message_inv (bus_coll b)"
  shows "(\<exists>e. publish fresh m b = (Inl e, b)) \<or>
    (\<exists>b'. publish fresh m b = (Inr (JStr (msg_id m)), b') \<and> message_inv (bus_coll b') \<and>
       models (\<lambda>d. parse_message (cx d) d) (bus_coll b') =
         (models (\<lambda>d. parse_message (cx d) d) (bus_coll b))(msg_id m \<mapsto> m) \<and>
       bus_queues b' = fold (queue_put m) (subs_of (msg_topic m) b) (bus_queues b) \<and>
       bus_calls b' = bus_calls b @ map (\<lambda>l. (l, m)) (bus_listeners b) \<and>
       bus_subscribers b' = bus_subscribers b \<and> bus_agents b' = bus_agents b \<and> bus_next b' = bus_next b)"
  using ms.insert_refines [OF assms TrueI, of fresh m cx]
  by (auto simp: publish_def split: prod.splits sum.splits)

lemma subs_of_update: "subs_of t (b\<lparr>bus_subscribers := AList.update u qs (bus_subscribers b')\<rparr>) =
    (if t = u then qs else subs_of t b')"
  by (simp add: subs_of_def update_conv')

lemma bus_inv_publish: "bus_inv b \<Longrightarrow> bus_inv (snd (publish fresh m b))"
  using publish_cases [of b fresh m "\<lambda>_. undefined"] by (auto simp: bus_inv_def subs_of_def)

lemma subs_of_new_queue: "subs_of t' (snd (new_queue t b)) =
    (if t' = t then subs_of t b @ [bus_next b] else subs_of t' b)"
  by (auto simp: new_queue_def subs_of_def update_conv')

lemma bus_inv_new_queue: "bus_inv b \<Longrightarrow> bus_inv (snd (new_queue t b))"
proof -
  assume inv: "bus_inv b"
  then have lt: "q \<in> set (subs_of u b) \<Longrightarrow> q < bus_next b" for u q by (simp add: bus_inv_def)
  have n: "bus_next b \<notin> set (subs_of u b)" for u using lt [of "bus_next b" u] by blast
  have "snd (new_queue t b) = snd (new_queue t b)" ..
  show ?thesis
    using inv n lt unfolding bus_inv_def
    by (auto simp: subs_of_new_queue less_Suc_eq) (auto simp: new_queue_def less_Suc_eq)
qed

lemma subs_of_agents [simp]: "subs_of t (b\<lparr>bus_agents := x\<rparr>) = subs_of t b"
  by (simp add: subs_of_def)

lemma bus_inv_subscribe_agent: "bus_inv b \<Longrightarrow> bus_inv (snd (subscribe_agent t a b))"
proof (cases "map_of (bus_agents b) (t, a)")
  case None
  assume inv: "bus_inv b"
  let ?b = "snd (new_queue t b)"
  have q: "fst (new_queue t b) \<in> set (subs_of t ?b)" by (simp add: subs_of_new_queue) (simp add: new_queue_def)
  have "snd (subscribe_agent t a b) = ?b\<lparr>bus_agents := AList.update (t, a) (fst (new_queue t b)) (bus_agents ?b)\<rparr>"
    using None by (simp add: subscribe_agent_def split: prod.splits)
  with bus_inv_new_queue [OF inv, of t] q show ?thesis
    by (auto simp: bus_inv_def update_conv' split: if_splits)
qed (simp add: subscribe_agent_def)

lemma subs_of_unsubscribe:
  "distinct (keys (bus_subscribers b)) \<Longrightarrow> subs_of t' (unsubscribe t q b) = (if t' = t then remove1 q (subs_of t b) else subs_of t' b)"
  by (auto simp: unsubscribe_def Let_def subs_of_def update_conv' delete_conv' remove1_idem)

lemma map_of_filter_value:
  "distinct (keys d) \<Longrightarrow> map_of (filter (\<lambda>(_, v). P v) d) k = Some v \<longleftrightarrow> map_of d k = Some v \<and> P v"
  by (auto simp: map_of_eq_Some_iff)

lemma unsubscribe_fields [simp]:
  "bus_coll (unsubscribe t q b) = bus_coll b" "bus_queues (unsubscribe t q b) = bus_queues b"
  "bus_next (unsubscribe t q b) = bus_next b"
  by (simp_all add: unsubscribe_def Let_def)

lemma unsubscribe_agents:
  "bus_agents (unsubscribe t q b) =
    (if q \<in> set (subs_of t b) then filter (\<lambda>(_, p). p \<noteq> q) (bus_agents b) else bus_agents b)"
  by (auto simp: unsubscribe_def Let_def)

lemma unsubscribe_keys:
  "distinct (keys (bus_subscribers b)) \<Longrightarrow> distinct (keys (bus_subscribers (unsubscribe t q b)))"
  by (simp add: unsubscribe_def Let_def)

lemma bus_inv_unsubscribe: "bus_inv b \<Longrightarrow> bus_inv (unsubscribe t q b)"
proof -
  assume inv: "bus_inv b"
  then have d: "distinct (keys (bus_subscribers b))" "distinct (keys (bus_agents b))" and ds: "\<And>t. distinct (subs_of t b)"
    and one: "\<And>t t' p. p \<in> set (subs_of t b) \<Longrightarrow> p \<in> set (subs_of t' b) \<Longrightarrow> t = t'"
    and lt: "\<And>t p. p \<in> set (subs_of t b) \<Longrightarrow> p < bus_next b"
    and ag: "\<And>t a p. map_of (bus_agents b) (t, a) = Some p \<Longrightarrow> p \<in> set (subs_of t b)"
    unfolding bus_inv_def by metis+
  have sub: "p \<in> set (subs_of u (unsubscribe t q b)) \<longleftrightarrow> p \<in> set (subs_of u b) \<and> (u = t \<longrightarrow> p \<noteq> q)" for u p
    using ds [of t] by (auto simp: subs_of_unsubscribe [OF d(1)])
  have "p \<in> set (subs_of u (unsubscribe t q b))"
    if "map_of (bus_agents (unsubscribe t q b)) (u, a) = Some p" for u a p
  proof -
    from that d(2) have p: "map_of (bus_agents b) (u, a) = Some p" "q \<in> set (subs_of t b) \<longrightarrow> p \<noteq> q"
      by (auto simp: unsubscribe_agents map_of_filter_value split: if_splits)
    from ag [OF p(1)] p(2) show ?thesis unfolding sub by blast
  qed
  moreover have "distinct (keys (bus_agents (unsubscribe t q b)))"
    using d(2) by (simp add: unsubscribe_agents)
  moreover have "distinct (subs_of u (unsubscribe t q b))" for u
    using ds by (simp add: subs_of_unsubscribe [OF d(1)])
  ultimately show ?thesis
    using inv unsubscribe_keys [OF d(1)] one lt unfolding bus_inv_def sub unsubscribe_fields by blast
qed

lemma bus_run_Cons:
  "fst (bus_run (x # xs) b) = fst (bus_run xs (fst (bus_exec x b)))"
  "snd (bus_run (x # xs) b) = snd (bus_exec x b) @ snd (bus_run xs (fst (bus_exec x b)))"
  by (simp_all add: split_beta)

lemma bus_exec_publish:
  "bus_exec (OPublish fresh m) b = (snd (publish fresh m b), if is_ok (fst (publish fresh m b)) then [m] else [])"
  by (simp add: split_beta)

declare bus_exec.simps(1) [simp del] bus_run.simps(2) [simp del]

lemma bus_inv_exec: "bus_inv b \<Longrightarrow> bus_inv (fst (bus_exec x b))"
proof (cases x)
  case (OPublish fresh m)
  assume "bus_inv b"
  with OPublish bus_inv_publish [of b fresh m] show ?thesis by (simp add: bus_exec_publish)
next
  case (OGet q)
  assume "bus_inv b"
  with OGet show ?thesis by (simp add: queue_get_def bus_inv_def subs_of_def split: list.split)
next
  case (OListen l)
  assume "bus_inv b"
  with OListen show ?thesis by (simp add: add_websocket_listener_def bus_inv_def subs_of_def)
qed (simp_all add: subscribe_def bus_inv_new_queue bus_inv_subscribe_agent bus_inv_unsubscribe)

lemma bus_inv_run: "bus_inv b \<Longrightarrow> bus_inv (fst (bus_run xs b))"
proof (induction xs arbitrary: b)
  case (Cons x xs)
  from Cons.IH [OF bus_inv_exec [OF Cons.prems]] show ?case by (simp add: bus_run_Cons)
qed simp

lemma bus_inv_new:
  "\<forall>xs. mset (ord xs) = mset xs \<Longrightarrow> bus_inv (new_bus ord [])"
  by (simp add: bus_inv_def new_bus_def model_inv_empty subs_of_def)

section \<open>Delivery\<close>

text \<open>
  What one operation does to a queue that is subscribed to a topic, or to none, and
  that nobody else reads or unsubscribes.
\<close>

fun leaves_alone :: "nat \<Rightarrow> bus_op \<Rightarrow> bool" where
  "leaves_alone q (OUnsubscribe _ p) = (p \<noteq> q)"
| "leaves_alone q (OGet p) = (p \<noteq> q)"
| "leaves_alone q _ = True"

definition sub_topic :: "nat \<Rightarrow> bus \<Rightarrow> string option \<Rightarrow> bool" where
  \<comment> \<open>the topic an existing queue is subscribed to, if any\<close>
  "sub_topic q b o' \<longleftrightarrow> q < bus_next b \<and> (\<forall>t. q \<in> set (subs_of t b) \<longleftrightarrow> o' = Some t)"

lemma new_queue_keeps:
  assumes "sub_topic q b o'"
  shows "sub_topic q (snd (new_queue t b)) o'" "bus_queues (snd (new_queue t b)) q = bus_queues b q"
proof -
  from assms have lt: "q < bus_next b" by (simp add: sub_topic_def)
  then have "q \<in> set (subs_of u (snd (new_queue t b))) \<longleftrightarrow> q \<in> set (subs_of u b)" for u
    by (simp add: subs_of_new_queue)
  moreover have "bus_next b \<le> bus_next (snd (new_queue t b))" by (simp add: new_queue_def)
  ultimately show "sub_topic q (snd (new_queue t b)) o'" using assms lt unfolding sub_topic_def by auto
  show "bus_queues (snd (new_queue t b)) q = bus_queues b q" using lt by (simp add: new_queue_def)
qed

lemma subscribe_agent_keeps:
  assumes "sub_topic q b o'"
  shows "sub_topic q (snd (subscribe_agent t a b)) o'" "bus_queues (snd (subscribe_agent t a b)) q = bus_queues b q"
proof -
  have "snd (subscribe_agent t a b) = b \<or> (\<exists>x. snd (subscribe_agent t a b) = (snd (new_queue t b))\<lparr>bus_agents := x\<rparr>)"
    by (cases "map_of (bus_agents b) (t, a)") (auto simp: subscribe_agent_def split_beta)
  with assms new_queue_keeps [OF assms, of t]
  show "sub_topic q (snd (subscribe_agent t a b)) o'" "bus_queues (snd (subscribe_agent t a b)) q = bus_queues b q"
    by (elim disjE exE; simp add: sub_topic_def)+
qed

lemma exec_delivers:
  assumes inv: "bus_inv b" and q: "sub_topic q b o'" and x: "leaves_alone q x"
  shows "sub_topic q (fst (bus_exec x b)) o' \<and>
    bus_queues (fst (bus_exec x b)) q = bus_queues b q @ filter (\<lambda>m. o' = Some (msg_topic m)) (snd (bus_exec x b))"
proof (cases x)
  case (OPublish fresh m)
  have d: "distinct (subs_of (msg_topic m) b)" and mi: "message_inv (bus_coll b)" using inv by (simp_all add: bus_inv_def)
  show ?thesis
    using publish_cases [OF mi, of fresh m "\<lambda>_. undefined"]
  proof (elim disjE exE conjE)
    fix b' assume b': "publish fresh m b = (Inr (JStr (msg_id m)), b')" "bus_subscribers b' = bus_subscribers b"
      "bus_queues b' = fold (queue_put m) (subs_of (msg_topic m) b) (bus_queues b)" "bus_next b' = bus_next b"
    have "q \<in> set (subs_of (msg_topic m) b) \<longleftrightarrow> o' = Some (msg_topic m)" using q unfolding sub_topic_def by blast
    moreover have "subs_of u b' = subs_of u b" for u using b'(2) by (simp add: subs_of_def)
    ultimately show ?thesis
      using q b' by (simp add: OPublish bus_exec_publish fold_queue_put [OF d] sub_topic_def)
  qed (use q in \<open>simp add: OPublish bus_exec_publish\<close>)
next
  case (OUnsubscribe t p)
  with x have p: "p \<noteq> q" by simp
  have d: "distinct (keys (bus_subscribers b))" using inv by (simp add: bus_inv_def)
  have "q \<in> set (subs_of u (unsubscribe t p b)) \<longleftrightarrow> q \<in> set (subs_of u b)" for u
    using p by (simp add: subs_of_unsubscribe [OF d] in_set_remove1)
  with OUnsubscribe q show ?thesis by (simp add: sub_topic_def)
next
  case (OGet p)
  with x q show ?thesis by (auto simp: queue_get_def sub_topic_def subs_of_def split: list.splits)
next
  case (OListen l)
  with q show ?thesis by (simp add: add_websocket_listener_def sub_topic_def subs_of_def)
qed (use q in \<open>simp_all add: subscribe_def new_queue_keeps subscribe_agent_keeps\<close>)

lemma run_delivers:
  assumes "bus_inv b" "sub_topic q b o'" "list_all (leaves_alone q) xs"
  shows "sub_topic q (fst (bus_run xs b)) o' \<and>
    bus_queues (fst (bus_run xs b)) q = bus_queues b q @ filter (\<lambda>m. o' = Some (msg_topic m)) (snd (bus_run xs b))"
  using assms
proof (induction xs arbitrary: b)
  case (Cons x xs)
  note e = exec_delivers [OF Cons.prems(1,2), of x]
  have "sub_topic q (fst (bus_exec x b)) o'" using e Cons.prems(3) by simp
  note r = Cons.IH [OF bus_inv_exec [OF Cons.prems(1)] this]
  show ?case using e r Cons.prems(3) by (simp add: bus_run_Cons)
qed simp

lemma agent_sub_topic:
  assumes inv: "bus_inv b" and q: "q \<in> set (subs_of t b)"
  shows "sub_topic q b (Some t)"
  using inv q unfolding bus_inv_def sub_topic_def by (metis option.inject)

lemma subscribe_agent_subscribed:
  assumes "bus_inv b" "subscribe_agent t a b = (q, b')"
  shows "bus_inv b'" "q \<in> set (subs_of t b')" "map_of (bus_agents b') (t, a) = Some q"
proof -
  show "bus_inv b'" using bus_inv_subscribe_agent [OF assms(1), of t a] assms(2) by simp
  show "map_of (bus_agents b') (t, a) = Some q"
    using assms(2) by (auto simp: subscribe_agent_def update_conv' split: option.splits prod.splits)
  with \<open>bus_inv b'\<close> show "q \<in> set (subs_of t b')" by (simp add: bus_inv_def)
qed

lemma exec_agents:
  assumes inv: "bus_inv b" and a: "map_of (bus_agents b) (t, a) = Some q" and x: "leaves_alone q x"
  shows "map_of (bus_agents (fst (bus_exec x b))) (t, a) = Some q"
proof (cases x)
  case (OPublish fresh m)
  have mi: "message_inv (bus_coll b)" using inv by (simp add: bus_inv_def)
  from publish_cases [OF mi, of fresh m "\<lambda>_. undefined"] a show ?thesis by (auto simp: OPublish bus_exec_publish)
next
  case (OUnsubscribe u p)
  have "distinct (keys (bus_agents b))" using inv by (simp add: bus_inv_def)
  with OUnsubscribe x a show ?thesis by (simp add: unsubscribe_agents map_of_filter_value)
qed (use a in \<open>auto simp: subscribe_def subscribe_agent_def new_queue_def update_conv' queue_get_def
    add_websocket_listener_def split: option.splits list.splits\<close>)

lemma run_agents:
  "bus_inv b \<Longrightarrow> map_of (bus_agents b) (t, a) = Some q \<Longrightarrow> list_all (leaves_alone q) xs \<Longrightarrow>
     map_of (bus_agents (fst (bus_run xs b))) (t, a) = Some q"
proof (induction xs arbitrary: b)
  case (Cons x xs)
  then show ?case using Cons.IH [OF bus_inv_exec] by (simp add: bus_run_Cons exec_agents)
qed simp

text \<open>
  C8: An agent's subscription loses nothing: once it is subscribed, whatever the other
  callers do, asking again returns the same queue, and that queue has received exactly
  the messages accepted on its topic, in order, each once.
\<close>

theorem agent_queue_complete:
  assumes "bus_inv b0" "subscribe_agent t a b0 = (q, b1)"
    and "bus_run xs b1 = (b2, accepted)" "list_all (leaves_alone q) xs"
  shows "subscribe_agent t a b2 = (q, b2) \<and>
    bus_queues b2 q = bus_queues b1 q @ filter (\<lambda>m. msg_topic m = t) accepted"
proof -
  note s = subscribe_agent_subscribed [OF assms(1,2)]
  have "map_of (bus_agents b2) (t, a) = Some q" using run_agents [OF s(1,3) assms(4)] assms(3) by simp
  then have "subscribe_agent t a b2 = (q, b2)" by (simp add: subscribe_agent_def)
  moreover have "bus_queues b2 q = bus_queues b1 q @ filter (\<lambda>m. Some t = Some (msg_topic m)) accepted"
    using run_delivers [OF s(1) agent_sub_topic [OF s(1,2)] assms(4)] assms(3) by simp
  ultimately show ?thesis by (simp add: eq_commute)
qed

text \<open>
  After \<open>unsubscribe\<close> a queue is dead: nothing that happens afterwards puts a message
  into it, and no later agent subscription is given it.
\<close>

theorem unsubscribed_queue_dead:
  assumes "bus_inv b" "q \<in> set (subs_of t b)"
    and "bus_run xs (unsubscribe t q b) = (b', accepted)" "list_all (leaves_alone q) xs"
  shows "bus_queues b' q = bus_queues b q \<and> fst (subscribe_agent u a b') \<noteq> q"
proof -
  let ?b = "unsubscribe t q b"
  have inv: "bus_inv ?b" using assms(1) by (rule bus_inv_unsubscribe)
  have d: "distinct (keys (bus_subscribers b))" and q: "sub_topic q b (Some t)" and ds: "distinct (subs_of t b)"
    using assms(1) agent_sub_topic [OF assms(1,2)] by (simp_all add: bus_inv_def)
  then have "sub_topic q ?b None" by (auto simp: sub_topic_def subs_of_unsubscribe [OF d])
  note r = run_delivers [OF inv this assms(4)]
  then have "q < bus_next b'" "\<forall>u. q \<notin> set (subs_of u b')" using assms(3) by (simp_all add: sub_topic_def)
  moreover have "bus_inv b'" using bus_inv_run [OF inv, of xs] assms(3) by simp
  moreover have "fst (subscribe_agent u a b') \<in> set (subs_of u b') \<or> fst (subscribe_agent u a b') = bus_next b'"
    using \<open>bus_inv b'\<close> by (auto simp: subscribe_agent_def new_queue_def bus_inv_def split: option.splits)
  ultimately show ?thesis using r assms(3) by auto
qed

text \<open>
  A publish is all or nothing: refused (a duplicate id, a record over the cap) it changes
  nothing and reaches nobody; accepted, every queue subscribed to its topic gets it once, no
  other queue changes, and every listener is called once with it.
\<close>

theorem publish_all_or_nothing:
  assumes "bus_inv b" "publish fresh m b = (r, b')"
  shows "(\<exists>e. r = Inl e \<and> b' = b) \<or>
    (r = Inr (JStr (msg_id m)) \<and> bus_calls b' = bus_calls b @ map (\<lambda>l. (l, m)) (bus_listeners b) \<and>
     (\<forall>q. bus_queues b' q = bus_queues b q @ (if q \<in> set (subs_of (msg_topic m) b) then [m] else [])))"
proof -
  have d: "distinct (subs_of (msg_topic m) b)" and mi: "message_inv (bus_coll b)"
    using assms(1) by (simp_all add: bus_inv_def)
  show ?thesis using publish_cases [OF mi, of fresh m "\<lambda>_. undefined"] assms(2)
    by (auto simp: fold_queue_put [OF d])
qed

section \<open>History\<close>

lemma last_slice_simps [simp]:
  "last_slice 0 xs = xs" "n > 0 \<Longrightarrow> last_slice n xs = drop (length xs - nat n) xs"
  by (simp_all add: last_slice_def)

text \<open>The messages stored, as a map from ids.\<close>

definition message_map :: "bus \<Rightarrow> string \<Rightarrow> message option" where
  "message_map b = models (\<lambda>d. parse_message \<lparr>cx_now = 0, cx_uuid = \<lambda>_. []\<rparr> d) (bus_coll b)"

lemma models_message_map:
  "message_inv (bus_coll b) \<Longrightarrow> models (\<lambda>d. parse_message (cx d) d) (bus_coll b) = message_map b"
  unfolding message_map_def
proof (rule ext)
  fix i assume inv: "message_inv (bus_coll b)"
  show "models (\<lambda>d. parse_message (cx d) d) (bus_coll b) i =
      models (\<lambda>d. parse_message \<lparr>cx_now = 0, cx_uuid = \<lambda>_. []\<rparr> d) (bus_coll b) i"
  proof (cases "map_of (st_docs (bus_coll b)) (JStr i)")
    case (Some d)
    with inv obtain m where "d = dump_message m" unfolding model_inv_def by blast
    with Some show ?thesis by (simp add: models_def parse_message_dump)
  qed (simp add: models_def)
qed

text \<open>
  The history of a topic: the messages of the topic, oldest first, cut to the last
  \<open>limit\<close>.  A limit of 0 is not "none": \<open>results[-0:]\<close> is the whole history.
\<close>

theorem get_history_exact:
  assumes "bus_inv b"
  shows "\<exists>ms. set ms = {m. \<exists>i. message_map b i = Some m \<and> msg_topic m = t} \<and> distinct (map msg_id ms) \<and>
    sorted (map msg_timestamp ms) \<and> get_history cx t 0 b = Inr ms \<and>
    get_history cx t (int (Suc n)) b = Inr (drop (length ms - Suc n) ms)"
proof -
  have inv: "message_inv (bus_coll b)" using assms by (simp add: bus_inv_def)
  have s: "searchable (bus_coll b) [(''topic'', JStr t)]" by (simp add: searchable_def)
  obtain ms where ms: "tc_find_where (\<lambda>d. parse_message (cx d) d) [(''topic'', JStr t)] (bus_coll b) = Inr ms"
    and "find_where [(''topic'', JStr t)] (bus_coll b) = Inr (map dump_message ms)"
    and ms': "set ms = {m. \<exists>i. models (\<lambda>d. parse_message (cx d) d) (bus_coll b) i = Some m \<and>
      matches_all [(''topic'', JStr t)] (dump_message m)}"
    and ids: "distinct (map msg_id ms)"
    by (rule ms.find_where_refines [OF inv s])
  note ms = ms ids ms' [unfolded models_message_map [OF inv]]
  have "matches_all [(''topic'', JStr t)] (dump_message m) \<longleftrightarrow> msg_topic m = t" for m
    by (auto simp: field_eq_def dump_message_def)
  with ms show ?thesis
    by (intro exI [of _ "sort_key msg_timestamp ms"]) (simp add: get_history_def distinct_map nat_add_distrib)
qed

section \<open>Witnesses\<close>

definition demo_message :: message where
  "demo_message = \<lparr>msg_id = ''m'', msg_sender = ''a'', msg_to = ''b'', msg_type = MStatus, msg_payload = [],
     msg_timestamp = 0, msg_correlation_id = None, msg_topic = ''t''\<rparr>"

abbreviation empty_bus :: bus where
  "empty_bus \<equiv> new_bus (\<lambda>xs. xs) []"

lemma empty_bus_inv: "bus_inv empty_bus"
  by (rule bus_inv_new) simp

lemma demo_publish: "is_ok (fst (publish [] demo_message (snd (subscribe_agent ''t'' ''a'' empty_bus))))"
  by (simp add: publish_def subscribe_agent_def new_queue_def new_bus_def tc_insert_def insert_doc_def insert_body_def
    append_line_def new_store_def Let_def dump_message_def demo_message_def message_index_def index_insert_def
    bucket_add_def doc_id_def empty_indexes_def jopt_def default_max_record_bytes_def dump_str_len_def dump_char_len_def)

theorem agent_queue_complete_witness:
  "\<exists>b2. bus_run [OPublish [] demo_message] (snd (subscribe_agent ''t'' ''a'' empty_bus)) = (b2, [demo_message]) \<and>
     subscribe_agent ''t'' ''a'' b2 = (0, b2) \<and> bus_queues b2 0 = [demo_message]"
proof -
  let ?b1 = "snd (subscribe_agent ''t'' ''a'' empty_bus)"
  have s: "subscribe_agent ''t'' ''a'' empty_bus = (0, ?b1)" "bus_queues ?b1 0 = []"
    by (simp_all add: subscribe_agent_def new_queue_def new_bus_def)
  obtain b2 where b2: "bus_run [OPublish [] demo_message] ?b1 = (b2, [demo_message])"
    using demo_publish by (simp add: prod_eq_iff bus_run_Cons bus_exec_publish)
  show ?thesis
    using agent_queue_complete [OF empty_bus_inv s(1) b2] b2 s(2) by (simp add: demo_message_def)
qed

theorem unsubscribed_queue_dead_witness:
  "bus_queues (fst (bus_run [OPublish [] demo_message] (unsubscribe ''t'' 0 (snd (subscribe_agent ''t'' ''a'' empty_bus))))) 0 = []"
proof -
  let ?b1 = "snd (subscribe_agent ''t'' ''a'' empty_bus)"
  have s: "subscribe_agent ''t'' ''a'' empty_bus = (0, ?b1)" "bus_queues ?b1 0 = []"
    by (simp_all add: subscribe_agent_def new_queue_def new_bus_def)
  note i = subscribe_agent_subscribed [OF empty_bus_inv s(1)]
  show ?thesis
    using unsubscribed_queue_dead [OF i(1,2) prod.collapse [symmetric], of "[OPublish [] demo_message]"] s(2) by simp
qed

theorem publish_all_or_nothing_witness:
  "bus_queues (snd (publish [] demo_message (snd (subscribe_agent ''t'' ''a'' empty_bus)))) 0 = [demo_message]"
proof -
  let ?b1 = "snd (subscribe_agent ''t'' ''a'' empty_bus)"
  have s: "subscribe_agent ''t'' ''a'' empty_bus = (0, ?b1)" "bus_queues ?b1 0 = []"
    by (simp_all add: subscribe_agent_def new_queue_def new_bus_def)
  note i = subscribe_agent_subscribed [OF empty_bus_inv s(1)]
  show ?thesis
    using publish_all_or_nothing [OF i(1) prod.collapse [symmetric], of "[]" demo_message] i(2) s(2) demo_publish
    by (auto simp: demo_message_def)
qed

theorem get_history_exact_witness:
  "get_history (\<lambda>_. \<lparr>cx_now = 0, cx_uuid = \<lambda>_. []\<rparr>) ''t'' 0 empty_bus = Inr []"
  using get_history_exact [OF empty_bus_inv, of "''t''" "\<lambda>_. \<lparr>cx_now = 0, cx_uuid = \<lambda>_. []\<rparr>" 0]
  by (auto simp: message_map_def new_bus_def)

end
