(* ===== verification/Evaluator.thy ===== *)
theory Evaluator
  imports ThreadEntry
begin

text \<open>
  Workflows and evaluators: the phase and evaluator classes of \<open>jig/models.py\<close> (the
  fields the handoff protocol reads) and the resolver of \<open>jig/evaluator_resolver.py\<close>,
  which reduces the evaluator of a phase to the actors who may close its handoff.
\<close>

section \<open>Workflows\<close>

datatype single_evaluator =
    PreviousPhaseRole string
  | SpecificRole string
  | AutomatedOnly
  | SpecificHuman string

datatype evaluator_spec =
    Single single_evaluator
  | MultiEvaluator "single_evaluator list"

record phase =
  ph_name :: string
  ph_role :: string
  ph_automated_checks :: "string list"
  ph_evaluator :: "evaluator_spec option"
  ph_questions_to :: "string list"
  ph_escalation_targets :: "string list"
  ph_writes :: "string list"

record workflow =
  wf_name :: string
  wf_phases :: "phase list"

definition evaluator_spec_ok :: "evaluator_spec \<Rightarrow> bool" where
  \<comment> \<open>\<open>Field(min_length=2)\<close>\<close>
  "evaluator_spec_ok s = (case s of Single _ \<Rightarrow> True | MultiEvaluator es \<Rightarrow> 2 \<le> length es)"

definition workflow_ok :: "workflow \<Rightarrow> bool" where
  "workflow_ok flow = list_all (\<lambda>p. case ph_evaluator p of None \<Rightarrow> True | Some s \<Rightarrow> evaluator_spec_ok s) (wf_phases flow)"

section \<open>Resolution\<close>

datatype evaluator_kind = KRole | KHuman | KAutomated | KMulti

datatype resolved_evaluator =
  ResolvedEvaluator (re_kind: evaluator_kind) (re_actors: "string list") (re_members: "resolved_evaluator list")

fun next_role :: "string \<Rightarrow> phase list \<Rightarrow> string option" where
  "next_role n [] = None"
| "next_role n [p] = None"
| "next_role n (p # q # ps) = (if ph_name p = n then Some (ph_role q) else next_role n (q # ps))"

definition natural_next_role :: "workflow \<Rightarrow> string \<Rightarrow> string option" where
  "natural_next_role flow n = next_role n (wf_phases flow)"

definition phase_roles :: "workflow \<Rightarrow> (string \<times> string) list" where
  "phase_roles flow = dict_update [] (map (\<lambda>p. (ph_name p, ph_role p)) (wf_phases flow))"

definition accepted_actor :: "handoff \<Rightarrow> string option" where
  "accepted_actor h = (if h_acceptance_state h = Accepted then h_accepted_by h else None)"

definition resolve_previous_phase_role :: "handoff list \<Rightarrow> string option" where
  "resolve_previous_phase_role history =
     (case List.find (\<lambda>h. accepted_actor h \<noteq> None) (rev history) of None \<Rightarrow> None | Some h \<Rightarrow> accepted_actor h)"

fun resolve_single :: "workflow \<Rightarrow> handoff list \<Rightarrow> single_evaluator \<Rightarrow> resolved_evaluator option" where
  "resolve_single flow history (SpecificRole r) = Some (ResolvedEvaluator KRole [r] [])"
| "resolve_single flow history (SpecificHuman u) = Some (ResolvedEvaluator KHuman [u] [])"
| "resolve_single flow history AutomatedOnly = Some (ResolvedEvaluator KAutomated [] [])"
| "resolve_single flow history (PreviousPhaseRole r) =
     (case resolve_previous_phase_role (filter (\<lambda>h. map_of (phase_roles flow) (h_phase h) = Some r) history) of
        None \<Rightarrow> None | Some a \<Rightarrow> Some (ResolvedEvaluator KRole [a] []))"

definition resolve_evaluator :: "evaluator_spec option \<Rightarrow> workflow \<Rightarrow> handoff list \<Rightarrow> resolved_evaluator option" where
  "resolve_evaluator spec flow history = (case spec of
     None \<Rightarrow> None
   | Some (Single s) \<Rightarrow> resolve_single flow history s
   | Some (MultiEvaluator es) \<Rightarrow> (case map_opt (resolve_single flow history) es of
       None \<Rightarrow> None
     | Some ms \<Rightarrow> Some (ResolvedEvaluator KMulti (concat (map re_actors ms)) ms)))"

text \<open>
  \<open>_resolve_phase_evaluator\<close> of \<open>jig/thread_mcp.py\<close>, on the handoffs of the ticket in the
  order the thread store returns them.
\<close>

definition resolve_phase_evaluator :: "workflow \<Rightarrow> string \<Rightarrow> handoff list \<Rightarrow> resolved_evaluator option" where
  "resolve_phase_evaluator flow n history =
    (case List.find (\<lambda>p. ph_name p = n) (wf_phases flow) of
       None \<Rightarrow> None
     | Some p \<Rightarrow> (case (case ph_evaluator p of None \<Rightarrow> None | Some s \<Rightarrow> resolve_evaluator (Some s) flow history) of
         Some r \<Rightarrow> Some r
       | None \<Rightarrow> (case natural_next_role flow n of
           Some r \<Rightarrow> Some (ResolvedEvaluator KRole [r] []) | None \<Rightarrow> None)))"

section \<open>Who may evaluate\<close>

definition designated :: "workflow \<Rightarrow> handoff list \<Rightarrow> single_evaluator \<Rightarrow> string \<Rightarrow> bool" where
  \<comment> \<open>the declarative reading of one evaluator: the actor it names\<close>
  "designated flow history s a \<longleftrightarrow> (case s of
     SpecificRole r \<Rightarrow> a = r
   | SpecificHuman u \<Rightarrow> a = u
   | AutomatedOnly \<Rightarrow> False
   | PreviousPhaseRole r \<Rightarrow> (\<exists>as h bs. history = as @ h # bs \<and> map_of (phase_roles flow) (h_phase h) = Some r \<and>
       accepted_actor h = Some a \<and>
       (\<forall>b \<in> set bs. map_of (phase_roles flow) (h_phase b) = Some r \<longrightarrow> accepted_actor b = None)))"

lemma find_filter: "List.find P (filter Q xs) = List.find (\<lambda>x. Q x \<and> P x) xs"
  by (induction xs) simp_all

lemma resolve_previous_split:
  assumes "resolve_previous_phase_role (filter Q history) = Some a"
  shows "\<exists>as h bs. history = as @ h # bs \<and> Q h \<and> accepted_actor h = Some a \<and> (\<forall>b \<in> set bs. Q b \<longrightarrow> accepted_actor b = None)"
proof -
  from assms obtain h where h: "List.find (\<lambda>h. Q h \<and> accepted_actor h \<noteq> None) (rev history) = Some h" "accepted_actor h = Some a"
    by (auto simp: resolve_previous_phase_role_def rev_filter find_filter split: option.splits)
  from find_rev_split [OF h(1)] h(2) show ?thesis by blast
qed

lemma resolve_single_designated:
  "resolve_single flow history s = Some r \<Longrightarrow> a \<in> set (re_actors r) \<Longrightarrow> designated flow history s a"
proof (cases s)
  case (PreviousPhaseRole x)
  assume "resolve_single flow history s = Some r" "a \<in> set (re_actors r)"
  with PreviousPhaseRole have "resolve_previous_phase_role (filter (\<lambda>h. map_of (phase_roles flow) (h_phase h) = Some x) history) = Some a"
    by (auto split: option.splits)
  from resolve_previous_split [OF this] PreviousPhaseRole show ?thesis by (simp add: designated_def)
qed (auto simp: designated_def)

lemma next_role_spec:
  "next_role n ps = Some r \<Longrightarrow> \<exists>as p q bs. ps = as @ p # q # bs \<and> ph_name p = n \<and> ph_role q = r \<and> n \<notin> ph_name ` set as"
proof (induction n ps rule: next_role.induct)
  case (3 n p q ps)
  show ?case
  proof (cases "ph_name p = n")
    case True
    with "3.prems" show ?thesis by (intro exI [of _ "[]"] exI [of _ p] exI [of _ q] exI [of _ ps]) simp
  next
    case False
    with 3 obtain as p' q' bs where "q # ps = as @ p' # q' # bs" "ph_name p' = n" "ph_role q' = r" "n \<notin> ph_name ` set as" by auto
    with False show ?thesis
      by (intro exI [of _ "p # as"] exI [of _ p'] exI [of _ q'] exI [of _ bs]) simp
  qed
qed simp_all

text \<open>
  Who the resolver authorises: every actor it returns is named by the evaluator of the
  (first) phase of that name, or, when that gives nobody because there is none or it cannot
  be resolved, has the role of the phase that follows.
\<close>

theorem resolve_phase_evaluator_sound:
  assumes "resolve_phase_evaluator flow n history = Some r" "a \<in> set (re_actors r)"
  shows "(\<exists>p s es. List.find (\<lambda>p. ph_name p = n) (wf_phases flow) = Some p \<and> ph_evaluator p = Some s \<and>
      s \<in> insert (MultiEvaluator es) (Single ` set es) \<and> (\<exists>e \<in> set es. designated flow history e a)) \<or>
    (\<exists>as p q bs. wf_phases flow = as @ p # q # bs \<and> ph_name p = n \<and> n \<notin> ph_name ` set as \<and> ph_role q = a)"
proof -
  obtain p where p: "List.find (\<lambda>p. ph_name p = n) (wf_phases flow) = Some p"
    using assms(1) by (auto simp: resolve_phase_evaluator_def split: option.splits)
  show ?thesis
  proof (cases "case ph_evaluator p of None \<Rightarrow> None | Some s \<Rightarrow> resolve_evaluator (Some s) flow history")
    case None
    with assms p have "next_role n (wf_phases flow) = Some a"
      by (auto simp: resolve_phase_evaluator_def natural_next_role_def split: option.splits)
    from next_role_spec [OF this] show ?thesis by blast
  next
    case (Some r')
    then obtain s where s: "ph_evaluator p = Some s" "resolve_evaluator (Some s) flow history = Some r'"
      by (auto split: option.splits)
    from Some p assms(1) have "r' = r" by (simp add: resolve_phase_evaluator_def)
    have "\<exists>es. s \<in> insert (MultiEvaluator es) (Single ` set es) \<and> (\<exists>e \<in> set es. designated flow history e a)"
    proof (cases s)
      case (Single e)
      with s(2) assms(2) \<open>r' = r\<close> have "designated flow history e a"
        by (intro resolve_single_designated) (simp_all add: resolve_evaluator_def)
      with Single show ?thesis by (intro exI [of _ "[e]"]) simp
    next
      case (MultiEvaluator es)
      with s(2) obtain ms where ms: "map_opt (resolve_single flow history) es = Some ms"
        "r' = ResolvedEvaluator KMulti (concat (map re_actors ms)) ms"
        by (auto simp: resolve_evaluator_def split: option.splits)
      with assms(2) \<open>r' = r\<close> obtain m where "m \<in> set ms" "a \<in> set (re_actors m)" by auto
      with map_opt_set [OF ms(1)] obtain e where "e \<in> set es" "resolve_single flow history e = Some m" by auto
      with \<open>a \<in> set (re_actors m)\<close> MultiEvaluator show ?thesis
        by (intro exI [of _ es]) (auto intro: resolve_single_designated)
    qed
    with p s(1) show ?thesis by blast
  qed
qed

section \<open>Witnesses\<close>

definition demo_workflow :: workflow where
  "demo_workflow = \<lparr>wf_name = ''default'', wf_phases =
     [\<lparr>ph_name = ''dev'', ph_role = ''dev'', ph_automated_checks = [], ph_evaluator = None, ph_questions_to = [],
        ph_escalation_targets = [], ph_writes = []\<rparr>,
      \<lparr>ph_name = ''review'', ph_role = ''reviewer'', ph_automated_checks = [],
        ph_evaluator = Some (Single AutomatedOnly), ph_questions_to = [], ph_escalation_targets = [], ph_writes = []\<rparr>]\<rparr>"

theorem resolve_phase_evaluator_sound_witness:
  "\<exists>as p q bs. wf_phases demo_workflow = as @ p # q # bs \<and> ph_name p = ''dev'' \<and> ph_role q = ''reviewer''"
proof -
  have "resolve_phase_evaluator demo_workflow ''dev'' [] = Some (ResolvedEvaluator KRole [''reviewer''] [])"
    by (simp add: resolve_phase_evaluator_def demo_workflow_def natural_next_role_def)
  from resolve_phase_evaluator_sound [OF this, of "''reviewer''"] show ?thesis
    by (auto simp: demo_workflow_def)
qed

end
