(* ===== verification/World.thy ===== *)
theory World
  imports Actions TicketStore ThreadStore Checkpoints Bus Evaluator
begin

text \<open>
  What the tool handlers of \<open>jig/thread_mcp.py\<close> and \<open>jig/checkpoint_mcp.py\<close> work on:
  the stores, the bus, the workflow files and the decision records, and what a call
  draws from the clock and from \<open>uuid4\<close>, with the rules of a triple for each operation.
\<close>

section \<open>State\<close>

text \<open>
  A decision record is a fixed text around these values (\<open>_write_decision_record\<close>); any
  other file of the directory is \<open>None\<close>.  The directory may be missing.
\<close>

record decision_record =
  dr_ticket_id :: string
  dr_seq :: nat
  dr_decision :: string
  dr_rationale :: string
  dr_author :: string
  dr_entry_id :: string

record world =
  w_tickets :: ticket_store
  w_threads :: jsonl_store
  w_checkpoints :: jsonl_store
  w_bus :: bus
  w_workflows :: "string \<Rightarrow> workflow result"
  w_decisions :: "(string \<times> decision_record option) list option"

record env =
  en_now :: "nat \<Rightarrow> int"
  en_uuid :: "nat \<Rightarrow> string"
  en_draws :: "doc \<Rightarrow> ctx"

type_synonym 'a act = "(world, 'a) action"

section \<open>Operations of the stores as actions\<close>

definition get_ticket :: "env \<Rightarrow> string \<Rightarrow> ticket option act" where
  "get_ticket en i w = (ticket_get (en_draws en) i (w_tickets w), w)"

definition get_entry :: "env \<Rightarrow> string \<Rightarrow> thread_entry option act" where
  "get_entry en i w = (thread_get (en_draws en) i (w_threads w), w)"

definition ticket_entries :: "env \<Rightarrow> string \<Rightarrow> thread_entry list act" where
  "ticket_entries en t w = (for_ticket (en_draws en) t (w_threads w), w)"

definition new_entry :: "env \<Rightarrow> nat \<Rightarrow> string \<Rightarrow> string \<Rightarrow> body \<Rightarrow> thread_entry" where
  \<comment> \<open>the \<open>n\<close>-th model the call constructs\<close>
  "new_entry en n t a b = \<lparr>te_id = en_uuid en n, te_ticket_id = t, te_author = a, te_created_at = en_now en n, te_body = b\<rparr>"

definition post_entry :: "env \<Rightarrow> nat \<Rightarrow> string \<Rightarrow> string \<Rightarrow> body \<Rightarrow> string act" where
  \<comment> \<open>\<open>threads.post(Class(...))\<close>: the constructor validates, the store inserts\<close>
  "post_entry en n t a b w =
    (if \<not> body_valid b then (Inl (ValidationError ''entry''), w)
     else (case thread_post [] (new_entry en n t a b) (w_threads w) of
        (Inl e, st) \<Rightarrow> (Inl e, w\<lparr>w_threads := st\<rparr>)
      | (Inr _, st) \<Rightarrow> (Inr (en_uuid en n), w\<lparr>w_threads := st\<rparr>)))"

definition update_entry :: "string \<Rightarrow> doc \<Rightarrow> bool act" where
  "update_entry i ch w = (case thread_update i ch (w_threads w) of (r, st) \<Rightarrow> (r, w\<lparr>w_threads := st\<rparr>))"

definition publish_msg :: "env \<Rightarrow> nat \<Rightarrow> string \<Rightarrow> string \<Rightarrow> message_type \<Rightarrow> doc \<Rightarrow> string \<Rightarrow> json act" where
  "publish_msg en n s r ty payload topic w =
    (case publish [] \<lparr>msg_id = en_uuid en n, msg_sender = s, msg_to = r, msg_type = ty, msg_payload = payload,
        msg_timestamp = en_now en n, msg_correlation_id = None, msg_topic = topic\<rparr> (w_bus w) of
       (x, b) \<Rightarrow> (x, w\<lparr>w_bus := b\<rparr>))"

definition read_workflow :: "string \<Rightarrow> exc \<Rightarrow> workflow act" where
  \<comment> \<open>\<open>load_workflow\<close>, with \<open>except FileNotFoundError: raise e\<close>\<close>
  "read_workflow n e w = ((case w_workflows w n of Inl (FileNotFoundError _) \<Rightarrow> Inl e | r \<Rightarrow> r), w)"

definition post_checkpoint :: "checkpoint \<Rightarrow> string act" where
  \<comment> \<open>\<open>checkpoints.post(c)\<close>\<close>
  "post_checkpoint c w = (case cp_post [] c (w_checkpoints w) of
     (Inl e, st) \<Rightarrow> (Inl e, w\<lparr>w_checkpoints := st\<rparr>) | (Inr _, st) \<Rightarrow> (Inr (cp_id c), w\<lparr>w_checkpoints := st\<rparr>))"

definition on_checkpoints :: "(jsonl_store \<Rightarrow> 'a result \<times> jsonl_store) \<Rightarrow> 'a act" where
  "on_checkpoints f w = (case f (w_checkpoints w) of (r, st) \<Rightarrow> (r, w\<lparr>w_checkpoints := st\<rparr>))"

section \<open>What the actions do\<close>

text \<open>
  Worlds between two points of a call: the stores are well formed, the threads are
  given by a map, and the tickets and workflows are those of the world at the start.
\<close>

definition world_inv :: "world \<Rightarrow> bool" where
  "world_inv w \<longleftrightarrow> ticket_inv (ts_coll (w_tickets w)) \<and> thread_inv (w_threads w) \<and>
     bus_inv (w_bus w)"

abbreviation tmap :: "world \<Rightarrow> string \<Rightarrow> thread_entry option" where
  "tmap w \<equiv> thread_map (w_threads w)"

abbreviation kmap :: "world \<Rightarrow> string \<Rightarrow> ticket option" where
  "kmap w \<equiv> ticket_map (w_tickets w)"

definition at :: "world \<Rightarrow> (string \<Rightarrow> thread_entry option) \<Rightarrow> world \<Rightarrow> bool" where
  "at w0 m w \<longleftrightarrow> world_inv w \<and> tmap w = m \<and> w_tickets w = w_tickets w0 \<and> w_workflows w = w_workflows w0"

lemma triple_get_ticket:
  assumes "\<And>x. kmap w0 i = x \<Longrightarrow> triple (at w0 m) (f x) Q E"
  shows "triple (at w0 m) (bind_act (get_ticket en i) f) Q E"
proof (rule triple_step [where R = "\<lambda>x. kmap w0 i = x"])
  fix w assume w: "at w0 m w"
  then have "ticket_inv (ts_coll (w_tickets w))" "w_tickets w = w_tickets w0"
    unfolding at_def world_inv_def by blast+
  with w show "case get_ticket en i w of (Inl _, w') \<Rightarrow> E w' | (Inr x, w') \<Rightarrow> kmap w0 i = x \<and> at w0 m w'"
    by (simp add: get_ticket_def ticket_get_refines)
qed (rule assms)

lemma triple_get_entry:
  assumes "\<And>x. m i = x \<Longrightarrow> triple (at w0 m) (f x) Q E"
  shows "triple (at w0 m) (bind_act (get_entry en i) f) Q E"
proof (rule triple_step [where R = "\<lambda>x. m i = x"])
  fix w assume w: "at w0 m w"
  then have "thread_inv (w_threads w)" "tmap w = m" by (simp_all add: at_def world_inv_def)
  with w show "case get_entry en i w of (Inl _, w') \<Rightarrow> E w' | (Inr x, w') \<Rightarrow> m i = x \<and> at w0 m w'"
    by (simp add: get_entry_def thread_get_refines)
qed (rule assms)

lemma triple_ticket_entries:
  assumes "\<And>es. sorted (map te_created_at es) \<and> distinct (map te_id es) \<and>
      set es = {e. \<exists>i. m i = Some e \<and> te_ticket_id e = t} \<Longrightarrow> triple (at w0 m) (f es) Q E"
  shows "triple (at w0 m) (bind_act (ticket_entries en t) f) Q E"
proof (rule triple_step [where R = "\<lambda>es. sorted (map te_created_at es) \<and> distinct (map te_id es) \<and>
      set es = {e. \<exists>i. m i = Some e \<and> te_ticket_id e = t}"])
  fix w assume w: "at w0 m w"
  then have inv: "thread_inv (w_threads w)" and m: "m = thread_map (w_threads w)" by (simp_all add: at_def world_inv_def)
  obtain es where "for_ticket (en_draws en) t (w_threads w) = Inr es" "sorted (map te_created_at es)" "distinct (map te_id es)"
    "set es = {e. \<exists>i. thread_map (w_threads w) i = Some e \<and> te_ticket_id e = t}"
    by (rule for_ticket_refines [OF inv])
  with w m show "case ticket_entries en t w of (Inl _, w') \<Rightarrow> E w' | (Inr es, w') \<Rightarrow> (sorted (map te_created_at es) \<and>
      distinct (map te_id es) \<and> set es = {e. \<exists>i. m i = Some e \<and> te_ticket_id e = t}) \<and> at w0 m w'"
    by (simp add: ticket_entries_def)
qed (rule assms)

lemma new_entry_simps [simp]:
  "te_id (new_entry en n t a b) = en_uuid en n" "te_ticket_id (new_entry en n t a b) = t"
  "te_author (new_entry en n t a b) = a" "te_body (new_entry en n t a b) = b"
  by (simp_all add: new_entry_def)

lemma at_threads:
  "at w0 m w \<Longrightarrow> thread_inv st \<Longrightarrow> at w0 (thread_map st) (w\<lparr>w_threads := st\<rparr>)"
  unfolding at_def world_inv_def by (elim conjE, intro conjI) simp_all

lemma at_bus: "at w0 m w \<Longrightarrow> bus_inv b \<Longrightarrow> at w0 m (w\<lparr>w_bus := b\<rparr>)"
  unfolding at_def world_inv_def by (elim conjE, intro conjI) simp_all

lemma at_checkpoints: "at w0 m w \<Longrightarrow> at w0 m (w\<lparr>w_checkpoints := st\<rparr>)"
  unfolding at_def world_inv_def by (elim conjE, intro conjI) simp_all

lemma triple_post_entry:
  assumes "m (en_uuid en n) = None \<Longrightarrow> body_valid b \<Longrightarrow>
      triple (at w0 (m(en_uuid en n \<mapsto> new_entry en n t a b))) (f (en_uuid en n)) Q E"
    and "\<And>w. at w0 m w \<Longrightarrow> E w"
  shows "triple (at w0 m) (bind_act (post_entry en n t a b) f) Q E"
proof (rule triple_step [where R = "\<lambda>x. x = en_uuid en n \<and> m (en_uuid en n) = None \<and> body_valid b"])
  fix w assume w: "at w0 m w"
  then have inv: "thread_inv (w_threads w)" and m: "thread_map (w_threads w) = m" by (simp_all add: at_def world_inv_def)
  show "case post_entry en n t a b w of (Inl _, w') \<Rightarrow> E w' | (Inr x, w') \<Rightarrow> (x = en_uuid en n \<and>
      m (en_uuid en n) = None \<and> body_valid b) \<and> at w0 (m(en_uuid en n \<mapsto> new_entry en n t a b)) w'"
  proof (cases "body_valid b")
    case True
    then have "entry_valid (new_entry en n t a b)" by (simp add: entry_valid_def)
    from thread_post_refines [OF inv this, of "[]"] show ?thesis
    proof (elim disjE exE conjE)
      fix st assume st: "thread_post [] (new_entry en n t a b) (w_threads w) = (Inr (JStr (te_id (new_entry en n t a b))), st)"
        "thread_map (w_threads w) (te_id (new_entry en n t a b)) = None" "thread_inv st"
        "thread_map st = (thread_map (w_threads w))(te_id (new_entry en n t a b) \<mapsto> new_entry en n t a b)"
      from at_threads [OF w st(3)] st True m show ?thesis by (simp add: post_entry_def)
    qed (use True w assms(2) in \<open>simp add: post_entry_def\<close>)
  qed (use w assms(2) in \<open>simp add: post_entry_def\<close>)
qed (use assms(1) in blast)

lemma triple_update_entry:
  assumes "m i = Some e" "te_id e' = i" "changed_doc (dump_entry e) ch = dump_entry e'" "entry_valid e'"
    and "distinct (keys ch)" "''_op'' \<notin> set (keys ch)" "\<forall>f \<in> set thread_index. f \<notin> set (keys ch)"
    and "triple (at w0 (m(i \<mapsto> e'))) (f True) Q E"
    and "\<And>w. at w0 m w \<Longrightarrow> E w"
  shows "triple (at w0 m) (bind_act (update_entry i ch) f) Q E"
proof (rule triple_step [where R = "\<lambda>x. x = True"])
  fix w assume w: "at w0 m w"
  then have inv: "thread_inv (w_threads w)" and m: "thread_map (w_threads w) = m" by (simp_all add: at_def world_inv_def)
  have "st_index_fields (w_threads w) = thread_index" using inv by (simp add: model_inv_def)
  moreover have "map_of ch f = None" if "f \<in> set thread_index" for f
    using assms(7) that by (simp add: map_of_eq_None_iff)
  ultimately have u: "updatable (w_threads w) ch" using assms(5,6) by (simp add: updatable_def)
  from thread_update_refines [OF inv assms(1) [folded m] u assms(3,4,2)]
  show "case update_entry i ch w of (Inl _, w') \<Rightarrow> E w' | (Inr x, w') \<Rightarrow> x = True \<and> at w0 (m(i \<mapsto> e')) w'"
  proof (elim disjE exE conjE)
    fix st assume st: "thread_update i ch (w_threads w) = (Inr True, st)" "thread_inv st"
      "thread_map st = (thread_map (w_threads w))(i \<mapsto> e')"
    from at_threads [OF w st(2)] st m show ?thesis by (simp add: update_entry_def)
  qed (use w assms(9) in \<open>simp add: update_entry_def\<close>)
qed (use assms(8) in blast)

lemma triple_publish:
  assumes "\<And>x. triple (at w0 m) (f x) Q E" "\<And>w. at w0 m w \<Longrightarrow> E w"
  shows "triple (at w0 m) (bind_act (publish_msg en n s r ty p tp) f) Q E"
proof (rule triple_step [where R = "\<lambda>_. True"])
  fix w assume w: "at w0 m w"
  then have "bus_inv (snd (publish [] x (w_bus w)))" for x by (simp add: at_def world_inv_def bus_inv_publish)
  then have "at w0 m (w\<lparr>w_bus := snd (publish [] x (w_bus w))\<rparr>)" for x by (rule at_bus [OF w])
  with assms(2) show "case publish_msg en n s r ty p tp w of (Inl _, w') \<Rightarrow> E w' | (Inr x, w') \<Rightarrow> True \<and> at w0 m w'"
    by (simp add: publish_msg_def split_beta split: sum.split)
qed (use assms(1) in blast)

lemma triple_read_workflow:
  assumes "\<And>x. w_workflows w0 n = Inr x \<Longrightarrow> triple (at w0 m) (f x) Q E" "\<And>w. at w0 m w \<Longrightarrow> E w"
  shows "triple (at w0 m) (bind_act (read_workflow n e) f) Q E"
proof (rule triple_step [where R = "\<lambda>x. w_workflows w0 n = Inr x"])
  fix w assume w: "at w0 m w"
  then have "w_workflows w = w_workflows w0" by (simp add: at_def)
  with w assms(2) show "case read_workflow n e w of (Inl _, w') \<Rightarrow> E w' | (Inr x, w') \<Rightarrow> w_workflows w0 n = Inr x \<and> at w0 m w'"
    by (simp add: read_workflow_def split: sum.split exc.split)
qed (rule assms(1))

lemma triple_checkpoints:
  \<comment> \<open>whatever the checkpoint store answers, and whatever state it is left in\<close>
  assumes "\<And>x. triple (at w0 m) (f x) Q E" "\<And>w. at w0 m w \<Longrightarrow> E w"
  shows "triple (at w0 m) (bind_act (on_checkpoints g) f) Q E"
proof (rule triple_step [where R = "\<lambda>_. True"])
  fix w assume w: "at w0 m w"
  from at_checkpoints [OF w] assms(2)
  show "case on_checkpoints g w of (Inl _, w') \<Rightarrow> E w' | (Inr x, w') \<Rightarrow> True \<and> at w0 m w'"
    by (simp add: on_checkpoints_def split: prod.split sum.split)
qed (use assms(1) in blast)

lemma triple_post_checkpoint:
  assumes "\<And>x. triple (at w0 m) (f x) Q E" "\<And>w. at w0 m w \<Longrightarrow> E w"
  shows "triple (at w0 m) (bind_act (post_checkpoint c) f) Q E"
proof (rule triple_step [where R = "\<lambda>_. True"])
  fix w assume w: "at w0 m w"
  from at_checkpoints [OF w] assms(2)
  show "case post_checkpoint c w of (Inl _, w') \<Rightarrow> E w' | (Inr x, w') \<Rightarrow> True \<and> at w0 m w'"
    by (simp add: post_checkpoint_def split: prod.split sum.split)
qed (use assms(1) in blast)

lemmas triple_rules = triple_require triple_arg triple_arg_or triple_arg_opt triple_get_ticket triple_get_entry
  triple_ticket_entries triple_post_entry triple_publish triple_read_workflow triple_checkpoints triple_post_checkpoint triple_ret triple_raise

end
