(* ===== verification/ThreadHandlers.thy ===== *)
theory ThreadHandlers
  imports World
begin

text \<open>
  The tool handlers of \<open>jig/thread_mcp.py\<close>, each with its guards, its writes and its
  messages in the order of the code.  \<open>en\<close> is what the call draws: the entry or model
  it constructs first takes draw 0, the next one draw 1, and so on.  Arguments are read
  with the types of the tool schemas; an argument of another type raises when it is read.
\<close>

section \<open>Guards\<close>

definition human_target_escape_hatch :: "string list" where
  "human_target_escape_hatch = [''human'', ''any_human'']"

definition target_allowed :: "string \<Rightarrow> string list option \<Rightarrow> bool" where
  "target_allowed target allowlist = (case allowlist of
     None \<Rightarrow> True
   | Some xs \<Rightarrow> xs = [] \<or> target \<in> set human_target_escape_hatch \<or> target \<in> set xs)"

definition require_target_in_phase_allowlist :: "string \<Rightarrow> string list option \<Rightarrow> 'a act \<Rightarrow> 'a act" where
  "require_target_in_phase_allowlist target allowlist k =
     require (target_allowed target allowlist) (ThreadError ''target not permitted'') k"

definition require_waive_token :: "string \<Rightarrow> string list \<Rightarrow> 'a act \<Rightarrow> 'a act" where
  "require_waive_token token can_waive k = require (token \<in> set can_waive) (ThreadError ''cannot waive'') k"

definition require_ticket :: "env \<Rightarrow> string \<Rightarrow> (ticket \<Rightarrow> 'a act) \<Rightarrow> 'a act" where
  "require_ticket en i k = bind_act (get_ticket en i) (\<lambda>t. case t of
     None \<Rightarrow> raise (KeyError ''ticket'') | Some x \<Rightarrow> k x)"

definition require_entry :: "env \<Rightarrow> string \<Rightarrow> (thread_entry \<Rightarrow> 'a act) \<Rightarrow> 'a act" where
  "require_entry en i k = bind_act (get_entry en i) (\<lambda>e. case e of
     None \<Rightarrow> raise (KeyError ''entry'') | Some x \<Rightarrow> k x)"

definition topic :: "string \<Rightarrow> string" where
  "topic t = ''tickets.'' @ t"

section \<open>Questions\<close>

definition handle_thread_ask :: "env \<Rightarrow> string \<Rightarrow> string list option \<Rightarrow> doc \<Rightarrow> doc act" where
  "handle_thread_ask en sender phase_questions_to args =
    arg ''ticket_id'' args (\<lambda>ticket_id.
    arg ''target'' args (\<lambda>target.
    arg ''question'' args (\<lambda>question_text.
    let blocking = truthy (dict_get (JBool False) ''blocking'' args) in
    require (\<not> blank target) (ValueError ''target is required'') (
    require (\<not> blank question_text) (ValueError ''question is required'') (
    require_target_in_phase_allowlist target phase_questions_to (
    require_ticket en ticket_id (\<lambda>_.
    bind_act (post_entry en 0 ticket_id sender (Question \<lparr>q_target = target, q_question = question_text,
      q_blocking = blocking, q_resolved_by = None, q_accepted_answer_id = None\<rparr>)) (\<lambda>qid.
    bind_act (publish_msg en 1 sender target MQuestion [(''kind'', JStr ''thread_question_posted''),
      (''ticket_id'', JStr ticket_id), (''question_id'', JStr qid), (''author'', JStr sender),
      (''target'', JStr target), (''question'', JStr question_text), (''blocking'', JBool blocking)] (topic ticket_id)) (\<lambda>_.
    ret [(''question_id'', JStr qid), (''blocking'', JBool blocking), (''target'', JStr target)])))))))))"

definition as_open_question :: "thread_entry \<Rightarrow> (question \<Rightarrow> 'a act) \<Rightarrow> 'a act" where
  \<comment> \<open>\<open>isinstance(q, Question)\<close> and not resolved\<close>
  "as_open_question e k = (case te_body e of
     Question q \<Rightarrow> require (\<not> is_resolved e) (ThreadError ''already resolved'') (k q)
   | _ \<Rightarrow> raise (ThreadError ''not a question''))"

definition handle_thread_answer :: "env \<Rightarrow> string \<Rightarrow> doc \<Rightarrow> doc act" where
  "handle_thread_answer en sender args =
    arg ''question_id'' args (\<lambda>question_id.
    arg ''text'' args (\<lambda>txt.
    require (\<not> blank txt) (ValueError ''text is required'') (
    require_entry en question_id (\<lambda>e.
    as_open_question e (\<lambda>q.
    bind_act (post_entry en 0 (te_ticket_id e) sender (Answer \<lparr>a_question_id = question_id, a_text = txt\<rparr>)) (\<lambda>aid.
    bind_act (publish_msg en 1 sender (te_author e) MAnswer [(''kind'', JStr ''thread_answer_posted''),
      (''ticket_id'', JStr (te_ticket_id e)), (''question_id'', JStr question_id), (''answer_id'', JStr aid),
      (''author'', JStr sender), (''text'', JStr txt)] (topic (te_ticket_id e))) (\<lambda>_.
    ret [(''answer_id'', JStr aid), (''question_id'', JStr question_id)])))))))"

definition require_answer_to :: "env \<Rightarrow> string \<Rightarrow> string option \<Rightarrow> (doc \<Rightarrow> 'a act) \<Rightarrow> 'a act" where
  \<comment> \<open>the accepted answer, when one is given, must be an Answer against the question\<close>
  "require_answer_to en question_id accepted k = (case accepted of
     None \<Rightarrow> k []
   | Some aid \<Rightarrow> require_entry en aid (\<lambda>a. case te_body a of
       Answer x \<Rightarrow> require (a_question_id x = question_id) (ThreadError ''answer to another question'')
         (k [(''accepted_answer_id'', JStr aid)])
     | _ \<Rightarrow> raise (ThreadError ''not an answer'')))"

definition handle_thread_resolve_question :: "env \<Rightarrow> string \<Rightarrow> doc \<Rightarrow> doc act" where
  "handle_thread_resolve_question en sender args =
    arg ''question_id'' args (\<lambda>question_id.
    arg_opt ''accepted_answer_id'' args (\<lambda>accepted.
    require_entry en question_id (\<lambda>e.
    as_open_question e (\<lambda>q.
    require (sender = te_author e) (ThreadError ''only the asker can resolve a question'') (
    require_answer_to en question_id accepted (\<lambda>acc.
    bind_act (update_entry question_id ((''resolved_by'', JStr sender) # acc)) (\<lambda>_.
    bind_act (publish_msg en 0 sender ''broadcast'' MContextUpdate [(''kind'', JStr ''thread_question_resolved''),
      (''ticket_id'', JStr (te_ticket_id e)), (''question_id'', JStr question_id), (''resolved_by'', JStr sender),
      (''accepted_answer_id'', jopt accepted), (''reason'', dict_get JNull ''reason'' args)] (topic (te_ticket_id e))) (\<lambda>_.
    ret [(''question_id'', JStr question_id), (''resolved_by'', JStr sender),
      (''accepted_answer_id'', jopt accepted)]))))))))"

section \<open>Objections\<close>

definition handle_thread_object :: "env \<Rightarrow> string \<Rightarrow> doc \<Rightarrow> doc act" where
  "handle_thread_object en sender args =
    arg ''ticket_id'' args (\<lambda>ticket_id.
    arg ''target_artifact'' args (\<lambda>target_artifact.
    arg ''text'' args (\<lambda>txt.
    require (\<not> blank target_artifact) (ValueError ''target_artifact is required'') (
    require (\<not> blank txt) (ValueError ''text is required'') (
    require_ticket en ticket_id (\<lambda>_.
    bind_act (post_entry en 0 ticket_id sender (Objection \<lparr>o_target_artifact = target_artifact, o_text = txt,
      o_resolved_by = None, o_waived_by = None\<rparr>)) (\<lambda>oid.
    bind_act (publish_msg en 1 sender ''broadcast'' MContextUpdate [(''kind'', JStr ''thread_objection_posted''),
      (''ticket_id'', JStr ticket_id), (''objection_id'', JStr oid), (''author'', JStr sender),
      (''target_artifact'', JStr target_artifact), (''text'', JStr txt)] (topic ticket_id)) (\<lambda>_.
    ret [(''objection_id'', JStr oid), (''blocking'', JBool True)]))))))))"

definition as_open_objection :: "thread_entry \<Rightarrow> (objection \<Rightarrow> 'a act) \<Rightarrow> 'a act" where
  "as_open_objection e k = (case te_body e of
     Objection x \<Rightarrow> require (\<not> is_resolved e) (ThreadError ''already resolved'') (k x)
   | _ \<Rightarrow> raise (ThreadError ''not an objection''))"

definition handle_thread_resolve_objection :: "env \<Rightarrow> string \<Rightarrow> doc \<Rightarrow> doc act" where
  "handle_thread_resolve_objection en sender args =
    arg ''objection_id'' args (\<lambda>objection_id.
    arg ''text'' args (\<lambda>txt.
    require (\<not> blank txt) (ValueError ''text is required'') (
    require_entry en objection_id (\<lambda>e.
    as_open_objection e (\<lambda>x.
    bind_act (post_entry en 0 (te_ticket_id e) sender (Resolution \<lparr>r_objection_id = objection_id, r_text = txt\<rparr>)) (\<lambda>rid.
    bind_act (publish_msg en 1 sender (te_author e) MContextUpdate [(''kind'', JStr ''thread_resolution_posted''),
      (''ticket_id'', JStr (te_ticket_id e)), (''objection_id'', JStr objection_id), (''resolution_id'', JStr rid),
      (''author'', JStr sender), (''text'', JStr txt)] (topic (te_ticket_id e))) (\<lambda>_.
    ret [(''resolution_id'', JStr rid), (''objection_id'', JStr objection_id)])))))))"

definition handle_thread_accept_resolution :: "env \<Rightarrow> string \<Rightarrow> doc \<Rightarrow> doc act" where
  "handle_thread_accept_resolution en sender args =
    arg ''objection_id'' args (\<lambda>objection_id.
    require_entry en objection_id (\<lambda>e.
    as_open_objection e (\<lambda>x.
    require (sender = te_author e) (ThreadError ''only the objector can accept a resolution'') (
    bind_act (update_entry objection_id [(''resolved_by'', JStr sender)]) (\<lambda>_.
    bind_act (publish_msg en 0 sender ''broadcast'' MContextUpdate [(''kind'', JStr ''thread_objection_resolved''),
      (''ticket_id'', JStr (te_ticket_id e)), (''objection_id'', JStr objection_id), (''resolved_by'', JStr sender)]
      (topic (te_ticket_id e))) (\<lambda>_.
    ret [(''objection_id'', JStr objection_id), (''resolved_by'', JStr sender)]))))))"

section \<open>Waivers\<close>

definition handle_thread_waive :: "env \<Rightarrow> string \<Rightarrow> string list \<Rightarrow> doc \<Rightarrow> doc act" where
  "handle_thread_waive en sender can_waive args =
    arg ''objection_id'' args (\<lambda>objection_id.
    arg ''justification'' args (\<lambda>justification.
    require (\<not> blank justification) (ValueError ''justification is required'') (
    require_waive_token ''objection'' can_waive (
    require_entry en objection_id (\<lambda>e.
    as_open_objection e (\<lambda>x.
    bind_act (post_entry en 0 (te_ticket_id e) sender (Waiver \<lparr>w_objection_id = Some objection_id,
      w_check_failure_id = None, w_justification = justification\<rparr>)) (\<lambda>wid.
    bind_act (update_entry objection_id [(''waived_by'', JStr sender)]) (\<lambda>_.
    bind_act (publish_msg en 1 sender ''broadcast'' MContextUpdate [(''kind'', JStr ''thread_objection_waived''),
      (''ticket_id'', JStr (te_ticket_id e)), (''objection_id'', JStr objection_id), (''waiver_id'', JStr wid),
      (''waived_by'', JStr sender), (''justification'', JStr justification)] (topic (te_ticket_id e))) (\<lambda>_.
    ret [(''waiver_id'', JStr wid), (''objection_id'', JStr objection_id), (''waived_by'', JStr sender)])))))))))"

definition open_check_failure :: "string \<Rightarrow> thread_entry \<Rightarrow> bool" where
  "open_check_failure name e = (case te_body e of
     SystemEvent s \<Rightarrow> se_event_type s = ''check_failure'' \<and> se_check_name s = Some name \<and> \<not> se_waived s
   | _ \<Rightarrow> False)"

definition latest_check_failure_for_name :: "env \<Rightarrow> string \<Rightarrow> string \<Rightarrow> thread_entry option act" where
  "latest_check_failure_for_name en ticket_id check_name =
    bind_act (ticket_entries en ticket_id) (\<lambda>es. ret (List.find (open_check_failure check_name) (rev es)))"

definition find_check_failure :: "env \<Rightarrow> doc \<Rightarrow> (thread_entry \<Rightarrow> system_event \<Rightarrow> 'a act) \<Rightarrow> 'a act" where
  \<comment> \<open>the target of a waiver, by id or by ticket and check name\<close>
  "find_check_failure en args k =
    arg_opt ''check_failure_id'' args (\<lambda>cf.
    arg_opt ''ticket_id'' args (\<lambda>tk.
    arg_opt ''check_name'' args (\<lambda>cn.
    if the_default [] cf \<noteq> [] then
      require_entry en (the cf) (\<lambda>e. case te_body e of
        SystemEvent s \<Rightarrow> require (se_event_type s = ''check_failure'') (ThreadError ''not a check_failure event'') (k e s)
      | _ \<Rightarrow> raise (ThreadError ''not a check_failure event''))
    else if the_default [] tk \<noteq> [] \<and> the_default [] cn \<noteq> [] then
      require_ticket en (the tk) (\<lambda>_.
      bind_act (latest_check_failure_for_name en (the tk) (the cn)) (\<lambda>ev. case ev of
        None \<Rightarrow> raise (ThreadError ''no unwaived check_failure'')
      | Some e \<Rightarrow> (case te_body e of SystemEvent s \<Rightarrow> k e s | _ \<Rightarrow> raise (ThreadError ''no unwaived check_failure''))))
    else raise (ValueError ''supply either check_failure_id or (ticket_id, check_name)''))))"

definition handle_thread_waive_check :: "env \<Rightarrow> string \<Rightarrow> string list \<Rightarrow> doc \<Rightarrow> doc act" where
  "handle_thread_waive_check en sender can_waive args =
    arg ''justification'' args (\<lambda>justification.
    require (\<not> blank justification) (ValueError ''justification is required'') (
    find_check_failure en args (\<lambda>e s.
    require (\<not> se_waived s) (ThreadError ''already waived'') (
    case se_check_severity s of
      None \<Rightarrow> raise (ThreadError ''missing check_severity'')
    | Some severity \<Rightarrow>
        require_waive_token (''check_failure:'' @ severity) can_waive (
        bind_act (post_entry en 0 (te_ticket_id e) sender (Waiver \<lparr>w_objection_id = None,
          w_check_failure_id = Some (te_id e), w_justification = justification\<rparr>)) (\<lambda>wid.
        bind_act (update_entry (te_id e) [(''waived'', JBool True)]) (\<lambda>_.
        bind_act (publish_msg en 1 sender ''broadcast'' MContextUpdate [(''kind'', JStr ''thread_check_failure_waived''),
          (''ticket_id'', JStr (te_ticket_id e)), (''check_failure_id'', JStr (te_id e)),
          (''check_name'', jopt (se_check_name s)), (''waiver_id'', JStr wid), (''waived_by'', JStr sender),
          (''justification'', JStr justification)] (topic (te_ticket_id e))) (\<lambda>_.
        ret [(''waiver_id'', JStr wid), (''check_failure_id'', JStr (te_id e)),
          (''check_name'', jopt (se_check_name s)), (''waived_by'', JStr sender)]))))))))"

section \<open>Decisions and notes\<close>

text \<open>
  \<open>str.isdigit\<close> holds for the superscripts of Latin-1 too, which \<open>int\<close> refuses.
\<close>

definition py_isdigit :: "char \<Rightarrow> bool" where
  "py_isdigit c = (let n = of_char c :: nat in 48 \<le> n \<and> n \<le> 57 \<or> n = 178 \<or> n = 179 \<or> n = 185)"

definition ascii_digit :: "char \<Rightarrow> bool" where
  "ascii_digit c = (let n = of_char c :: nat in 48 \<le> n \<and> n \<le> 57)"

definition read_nat :: "string \<Rightarrow> nat" where
  "read_nat s = fold (\<lambda>c n. 10 * n + (of_char c - 48)) s 0"

definition seq_tail :: "string \<Rightarrow> string \<Rightarrow> string option" where
  \<comment> \<open>what is between the prefix and \<open>.md\<close>, when the name has both\<close>
  "seq_tail prefix name = (if starts_with (rev name) ''dm.'' \<and> starts_with name prefix
     then Some (take (length name - length prefix - 3) (drop (length prefix) name)) else None)"

fun highest_seq :: "string \<Rightarrow> string list \<Rightarrow> nat \<Rightarrow> nat result" where
  "highest_seq prefix [] highest = Inr highest"
| "highest_seq prefix (name # names) highest = (case seq_tail prefix name of
     None \<Rightarrow> highest_seq prefix names highest
   | Some t \<Rightarrow> if t \<noteq> [] \<and> list_all py_isdigit t
       then (if list_all ascii_digit t then highest_seq prefix names (max highest (read_nat t))
             else Inl (ValueError ''invalid literal for int''))
       else highest_seq prefix names highest)"

definition next_decision_seq :: "string \<Rightarrow> nat act" where
  "next_decision_seq ticket_id w = (case w_decisions w of
     None \<Rightarrow> (Inr 1, w)
   | Some fs \<Rightarrow> (case highest_seq (ticket_id @ ''-'') (keys fs) 0 of
       Inl e \<Rightarrow> (Inl e, w) | Inr n \<Rightarrow> (Inr (n + 1), w)))"

definition write_decision_record :: "decision_record \<Rightarrow> string act" where
  "write_decision_record r w =
    (let path = dr_ticket_id r @ ''-'' @ show_nat (dr_seq r) @ ''.md''
     in (Inr (''.jig/decisions/'' @ path),
         w\<lparr>w_decisions := Some (AList.update path (Some r) (the_default [] (w_decisions w)))\<rparr>))"

definition handle_thread_decide :: "env \<Rightarrow> string \<Rightarrow> doc \<Rightarrow> doc act" where
  "handle_thread_decide en sender args =
    arg ''ticket_id'' args (\<lambda>ticket_id.
    arg ''decision'' args (\<lambda>decision_text.
    arg ''rationale'' args (\<lambda>rationale.
    require (\<not> blank decision_text) (ValueError ''decision is required'') (
    require (\<not> blank rationale) (ValueError ''rationale is required'') (
    require_ticket en ticket_id (\<lambda>_.
    bind_act (post_entry en 0 ticket_id sender (Decision \<lparr>d_decision = decision_text, d_rationale = rationale\<rparr>)) (\<lambda>did.
    bind_act (next_decision_seq ticket_id) (\<lambda>seq.
    bind_act (write_decision_record \<lparr>dr_ticket_id = ticket_id, dr_seq = seq, dr_decision = decision_text,
      dr_rationale = rationale, dr_author = sender, dr_entry_id = did\<rparr>) (\<lambda>record_path.
    bind_act (publish_msg en 1 sender ''broadcast'' MContextUpdate [(''kind'', JStr ''thread_decision_posted''),
      (''ticket_id'', JStr ticket_id), (''decision_id'', JStr did), (''author'', JStr sender),
      (''decision'', JStr decision_text), (''rationale'', JStr rationale), (''record_path'', JStr record_path),
      (''seq'', JInt (int seq))] (topic ticket_id)) (\<lambda>_.
    ret [(''decision_id'', JStr did), (''record_path'', JStr record_path), (''seq'', JInt (int seq))]))))))))))"

definition handle_thread_note :: "env \<Rightarrow> string \<Rightarrow> doc \<Rightarrow> doc act" where
  "handle_thread_note en sender args =
    arg ''ticket_id'' args (\<lambda>ticket_id.
    arg ''text'' args (\<lambda>txt.
    require (\<not> blank txt) (ValueError ''text is required'') (
    require_ticket en ticket_id (\<lambda>_.
    bind_act (post_entry en 0 ticket_id sender (Note \<lparr>n_text = txt, n_responds_to = None, n_payload = []\<rparr>)) (\<lambda>nid.
    bind_act (publish_msg en 1 sender ''broadcast'' MContextUpdate [(''kind'', JStr ''thread_note_posted''),
      (''ticket_id'', JStr ticket_id), (''note_id'', JStr nid), (''author'', JStr sender), (''text'', JStr txt)]
      (topic ticket_id)) (\<lambda>_.
    ret [(''note_id'', JStr nid)]))))))"

section \<open>Escalations\<close>

text \<open>An unknown target is only logged when the phase declares no targets.\<close>

definition handle_thread_escalate :: "env \<Rightarrow> string \<Rightarrow> string list option \<Rightarrow> doc \<Rightarrow> doc act" where
  "handle_thread_escalate en sender phase_escalation_targets args =
    arg ''ticket_id'' args (\<lambda>ticket_id.
    arg ''reason'' args (\<lambda>reason.
    arg ''details'' args (\<lambda>details.
    arg_or ''target'' ''human'' args (\<lambda>target.
    require (\<not> blank reason) (ValueError ''reason is required'') (
    require (\<not> blank details) (ValueError ''details is required'') (
    require_ticket en ticket_id (\<lambda>_.
    require_target_in_phase_allowlist target phase_escalation_targets (
    bind_act (post_entry en 0 ticket_id sender (Escalation \<lparr>es_reason = reason, es_details = details,
      es_target = target, es_resolved_by = None, es_responds_to = None\<rparr>)) (\<lambda>eid.
    bind_act (publish_msg en 1 sender target MContextUpdate [(''kind'', JStr ''thread_escalation_posted''),
      (''ticket_id'', JStr ticket_id), (''escalation_id'', JStr eid), (''author'', JStr sender),
      (''reason'', JStr reason), (''details'', JStr details), (''target'', JStr target)] (topic ticket_id)) (\<lambda>_.
    ret [(''escalation_id'', JStr eid), (''target'', JStr target), (''blocking'', JBool True)]))))))))))"

text \<open>
  The roles are searched for as whole words; \<open>valid_roles\<close> is the set in the order it is
  iterated over, so two roles first mentioned at the same place are told apart by it.
\<close>

definition word_char :: "char \<Rightarrow> bool" where
  \<comment> \<open>\<open>\w\<close> on Latin-1\<close>
  "word_char c = (let n = of_char c :: nat in 48 \<le> n \<and> n \<le> 57 \<or> 65 \<le> n \<and> n \<le> 90 \<or> n = 95 \<or> 97 \<le> n \<and> n \<le> 122 \<or>
     n \<in> {170, 178, 179, 181, 185, 186, 188, 189, 190} \<or> 192 \<le> n \<and> n \<noteq> 215 \<and> n \<noteq> 247)"

definition word_boundary :: "string \<Rightarrow> nat \<Rightarrow> bool" where
  "word_boundary s i = ((0 < i \<and> word_char (s ! (i - 1))) \<noteq> (i < length s \<and> word_char (s ! i)))"

definition mentioned_at :: "string \<Rightarrow> string \<Rightarrow> nat \<Rightarrow> bool" where
  "mentioned_at s r i = (starts_with (drop i s) r \<and> word_boundary s i \<and> word_boundary s (i + length r))"

definition first_mention :: "string \<Rightarrow> string \<Rightarrow> nat option" where
  "first_mention s r = List.find (mentioned_at s r) [0..<length s]"

fun best_mention :: "string \<Rightarrow> string list \<Rightarrow> (nat \<times> string) option \<Rightarrow> (nat \<times> string) option" where
  "best_mention s [] best = best"
| "best_mention s (role # roles) best =
    (if role = [] then best_mention s roles best
     else (case first_mention s (lower role) of
        None \<Rightarrow> best_mention s roles best
      | Some i \<Rightarrow> best_mention s roles (case best of
            None \<Rightarrow> Some (i, role)
          | Some (j, r) \<Rightarrow> if i < j then Some (i, role) else Some (j, r))))"

definition route_uncertain :: "string \<Rightarrow> string list \<Rightarrow> string option" where
  "route_uncertain details valid_roles = map_option snd (best_mention (lower details) valid_roles None)"

definition handle_thread_uncertain :: "env \<Rightarrow> string \<Rightarrow> string list \<Rightarrow> doc \<Rightarrow> doc act" where
  "handle_thread_uncertain en sender valid_roles args =
    arg ''ticket_id'' args (\<lambda>ticket_id.
    arg ''details'' args (\<lambda>details.
    require (\<not> blank details) (ValueError ''details is required'') (
    require_ticket en ticket_id (\<lambda>_.
    bind_act (post_entry en 0 ticket_id sender (Uncertain \<lparr>u_details = details\<rparr>)) (\<lambda>uid.
    case route_uncertain details valid_roles of
      Some role \<Rightarrow>
        bind_act (post_entry en 1 ticket_id sender (Question \<lparr>q_target = role, q_question = details,
          q_blocking = False, q_resolved_by = None, q_accepted_answer_id = None\<rparr>)) (\<lambda>qid.
        bind_act (publish_msg en 2 sender role MQuestion [(''kind'', JStr ''thread_uncertain_routed_question''),
          (''ticket_id'', JStr ticket_id), (''uncertain_id'', JStr uid), (''question_id'', JStr qid),
          (''target'', JStr role), (''details'', JStr details)] (topic ticket_id)) (\<lambda>_.
        ret [(''uncertain_id'', JStr uid), (''routed'', JStr ''question''), (''question_id'', JStr qid),
          (''target'', JStr role)]))
    | None \<Rightarrow>
        bind_act (post_entry en 1 ticket_id sender (Escalation \<lparr>es_reason = ''uncertain_unroutable'',
          es_details = details, es_target = ''human'', es_resolved_by = None, es_responds_to = None\<rparr>)) (\<lambda>eid.
        bind_act (publish_msg en 2 sender ''human'' MContextUpdate [(''kind'', JStr ''thread_uncertain_escalated''),
          (''ticket_id'', JStr ticket_id), (''uncertain_id'', JStr uid), (''escalation_id'', JStr eid),
          (''details'', JStr details)] (topic ticket_id)) (\<lambda>_.
        ret [(''uncertain_id'', JStr uid), (''routed'', JStr ''escalation''), (''escalation_id'', JStr eid),
          (''target'', JStr ''human'')])))))))"

section \<open>Handoffs\<close>

fun iter_json :: "json \<Rightarrow> json list result" where
  \<comment> \<open>what \<open>for x in v\<close> yields\<close>
  "iter_json (JList xs) = Inr xs"
| "iter_json (JStr s) = Inr (map (\<lambda>c. JStr [c]) s)"
| "iter_json (JObj d) = Inr (map (\<lambda>(k, _). JStr k) d)"
| "iter_json _ = Inl (TypeError ''not iterable'')"

fun coerce_deferred :: "env \<Rightarrow> nat \<Rightarrow> json list \<Rightarrow> deferred_item list result" where
  "coerce_deferred en n [] = Inr []"
| "coerce_deferred en n (j # js) = (case j of
     JStr s \<Rightarrow> if blank s then coerce_deferred en n js
               else map_sum id (Cons \<lparr>di_id = en_uuid en n, di_item = s, di_reason = [], di_status = DOpen,
                      di_promoted_ticket_id = None\<rparr>) (coerce_deferred en (Suc n) js)
   | JObj d \<Rightarrow> (case parse_deferred \<lparr>cx_now = en_now en n, cx_uuid = en_uuid en\<rparr> n (JObj d) of
       None \<Rightarrow> Inl (ValidationError ''deferred item'')
     | Some i \<Rightarrow> map_sum id (Cons i) (coerce_deferred en (Suc n) js))
   | _ \<Rightarrow> Inl (ValueError ''deferred_items entry''))"

fun merge_deferred :: "deferred_item list \<Rightarrow> deferred_item list \<Rightarrow> deferred_item list" where
  \<comment> \<open>append the items whose text and reason are not there yet\<close>
  "merge_deferred ds [] = ds"
| "merge_deferred ds (c # cs) =
    (if (di_item c, di_reason c) \<in> set (map (\<lambda>d. (di_item d, di_reason d)) ds) then merge_deferred ds cs
     else merge_deferred (ds @ [c]) cs)"

definition pre_handoff_checkpoint ::
  "env \<Rightarrow> nat \<Rightarrow> string \<Rightarrow> string \<Rightarrow> string \<Rightarrow> string list \<Rightarrow> string \<Rightarrow> deferred_item list \<Rightarrow> checkpoint" where
  "pre_handoff_checkpoint en n ticket_id phase author outputs summary deferred =
     \<lparr>cp_id = en_uuid en n, cp_ticket_id = ticket_id, cp_phase = phase, cp_author = author, cp_created_at = en_now en n,
      cp_description = (if summary = [] then ''pre-handoff'' else ''pre-handoff: '' @ summary),
      cp_completed = outputs, cp_position = ''handoff posted'', cp_plan = [], cp_ruled_out = [],
      cp_deferred = deferred, cp_open_questions = [], cp_trigger = ''auto_pre_handoff'', cp_historical = False\<rparr>"

definition handoff_deferred ::
  "env \<Rightarrow> bool \<Rightarrow> string \<Rightarrow> string \<Rightarrow> deferred_item list \<Rightarrow> (deferred_item list \<Rightarrow> 'a act) \<Rightarrow> 'a act" where
  \<comment> \<open>the explicit items, and when there is a checkpoint store the open ones of the phase\<close>
  "handoff_deferred en cps ticket_id phase explicit k =
    (if cps then bind_act (on_checkpoints (deferred_items_open (en_draws en) ticket_id phase))
       (\<lambda>from_checkpoints. k (merge_deferred explicit from_checkpoints))
     else k explicit)"

definition handle_thread_handoff :: "env \<Rightarrow> string \<Rightarrow> bool \<Rightarrow> doc \<Rightarrow> doc act" where
  "handle_thread_handoff en sender cps args =
    arg ''ticket_id'' args (\<lambda>ticket_id.
    arg ''phase'' args (\<lambda>phase.
    arg_or ''summary'' [] args (\<lambda>summary.
    require (\<not> blank phase) (ValueError ''phase is required'') (
    case dict_get (JList []) ''outputs'' args of
      JList outs \<Rightarrow>
        require_ticket en ticket_id (\<lambda>_.
        bind_act (lift_res (case iter_json (dict_get (JList []) ''deferred_items'' args) of
            Inl e \<Rightarrow> Inl e | Inr js \<Rightarrow> coerce_deferred en 3 js)) (\<lambda>explicit.
        handoff_deferred en cps ticket_id phase explicit (\<lambda>deferred.
        case map_opt as_str outs of
          None \<Rightarrow> raise (ValidationError ''outputs'')
        | Some outputs \<Rightarrow>
            bind_act (if cps then post_checkpoint (pre_handoff_checkpoint en 2 ticket_id phase sender outputs summary deferred)
                      else ret []) (\<lambda>_.
            bind_act (post_entry en 0 ticket_id sender (Handoff \<lparr>h_phase = phase, h_outputs = outputs, h_summary = summary,
              h_deferred_items = deferred, h_new_public_surfaces = [], h_changed_assumptions = [],
              h_required_followups = [], h_unknowns = [], h_acceptance_state = Pending, h_accepted_by = None,
              h_rejection_reason = None\<rparr>)) (\<lambda>hid.
            bind_act (publish_msg en 1 sender ''broadcast'' MContextUpdate [(''kind'', JStr ''thread_handoff_posted''),
              (''ticket_id'', JStr ticket_id), (''handoff_id'', JStr hid), (''author'', JStr sender),
              (''phase'', JStr phase), (''outputs'', jstrs outputs), (''summary'', JStr summary),
              (''deferred_items'', JList (map (JObj \<circ> dump_deferred) deferred))] (topic ticket_id)) (\<lambda>_.
            ret [(''handoff_id'', JStr hid), (''phase'', JStr phase), (''acceptance_state'', JStr ''pending''),
              (''blocking'', JBool True)]))))))
    | _ \<Rightarrow> raise (ValueError ''outputs must be a list'')))))"

definition handoffs_of :: "thread_entry list \<Rightarrow> handoff list" where
  "handoffs_of es = List.map_filter (\<lambda>e. case te_body e of Handoff h \<Rightarrow> Some h | _ \<Rightarrow> None) es"

definition wants_history :: "workflow \<Rightarrow> string \<Rightarrow> bool" where
  "wants_history flow n = (case List.find (\<lambda>p. ph_name p = n) (wf_phases flow) of
     None \<Rightarrow> False | Some p \<Rightarrow> ph_evaluator p \<noteq> None)"

definition phase_evaluator_of :: "env \<Rightarrow> workflow \<Rightarrow> string \<Rightarrow> string \<Rightarrow> resolved_evaluator option act" where
  "phase_evaluator_of en flow phase ticket_id =
    bind_act (if wants_history flow phase then ticket_entries en ticket_id else ret [])
      (\<lambda>es. ret (resolve_phase_evaluator flow phase (handoffs_of es)))"

definition close_handoff ::
  "env \<Rightarrow> string \<Rightarrow> bool \<Rightarrow> string \<Rightarrow> bool \<Rightarrow> string \<Rightarrow> doc act" where
  "close_handoff en sender cps handoff_id accepted rejection_reason =
    require_entry en handoff_id (\<lambda>e. case te_body e of
      Handoff h \<Rightarrow>
        require (\<not> is_resolved e) (ThreadError ''already closed'') (
        require_ticket en (te_ticket_id e) (\<lambda>t.
        bind_act (read_workflow (tk_workflow t) (ThreadError ''workflow not found'')) (\<lambda>flow.
        bind_act (phase_evaluator_of en flow (h_phase h) (te_ticket_id e)) (\<lambda>resolved.
        case resolved of
          None \<Rightarrow> raise (ThreadError ''cannot determine evaluator'')
        | Some r \<Rightarrow>
            require (re_kind r \<noteq> KAutomated) (ThreadError ''automated_only'') (
            require (sender \<in> set (re_actors r)) (ThreadError ''only the phase evaluator'') (
            require (sender \<noteq> te_author e) (ThreadError ''evaluator cannot be the completing actor'') (
            let changes = (if accepted then [(''acceptance_state'', JStr ''accepted''), (''accepted_by'', JStr sender)]
                           else [(''acceptance_state'', JStr ''rejected''), (''rejection_reason'', JStr rejection_reason)]) in
            bind_act (update_entry handoff_id changes) (\<lambda>_.
            bind_act (if accepted \<and> cps then on_checkpoints (mark_phase_historical (te_ticket_id e) (h_phase h)) else ret 0) (\<lambda>_.
            bind_act (publish_msg en 0 sender ''broadcast'' MContextUpdate
              ([(''kind'', JStr (if accepted then ''thread_handoff_accepted'' else ''thread_handoff_rejected'')),
                (''ticket_id'', JStr (te_ticket_id e)), (''handoff_id'', JStr handoff_id), (''phase'', JStr (h_phase h))] @
               (if accepted then [(''accepted_by'', JStr sender)]
                else [(''rejection_reason'', JStr rejection_reason), (''rejected_by'', JStr sender)])) (topic (te_ticket_id e))) (\<lambda>_.
            ret [(''handoff_id'', JStr handoff_id), (''phase'', JStr (h_phase h)),
              (''acceptance_state'', JStr (if accepted then ''accepted'' else ''rejected''))])))))))))) 
    | _ \<Rightarrow> raise (ThreadError ''not a handoff''))"

definition handle_thread_accept_handoff :: "env \<Rightarrow> string \<Rightarrow> bool \<Rightarrow> doc \<Rightarrow> doc act" where
  "handle_thread_accept_handoff en sender cps args =
    arg ''handoff_id'' args (\<lambda>i. close_handoff en sender cps i True [])"

definition handle_thread_reject_handoff :: "env \<Rightarrow> string \<Rightarrow> bool \<Rightarrow> doc \<Rightarrow> doc act" where
  "handle_thread_reject_handoff en sender cps args =
    arg_or ''reason'' [] args (\<lambda>reason.
    require (\<not> blank reason) (ValueError ''reason is required'') (
    arg ''handoff_id'' args (\<lambda>i. close_handoff en sender cps i False reason)))"

end
