(* ===== verification/PyText.thy ===== *)
theory PyText
  imports Prelude
begin

text \<open>
  The text the program builds for people to read: \<open>repr\<close> of a string (on Latin-1),
  \<open>join\<close>, and decimal integers.
\<close>

definition nl :: string where
  "nl = [char_of (10 :: nat)]"

definition hex_digit :: "nat \<Rightarrow> char" where
  "hex_digit n = char_of (if n < 10 then 48 + n else 87 + n)"

definition backslash :: char where
  "backslash = char_of (92 :: nat)"

definition repr_char :: "char \<Rightarrow> char \<Rightarrow> string" where
  "repr_char q c = (let n = of_char c :: nat in
     if c = q \<or> c = backslash then [backslash, c]
     else if n = 9 then [backslash, CHR ''t'']
     else if n = 10 then [backslash, CHR ''n'']
     else if n = 13 then [backslash, CHR ''r'']
     else if n < 32 \<or> 127 \<le> n \<and> n \<le> 160 \<or> n = 173 then [backslash, CHR ''x'', hex_digit (n div 16), hex_digit (n mod 16)]
     else [c])"

definition single_quote :: char where
  "single_quote = char_of (39 :: nat)"

definition double_quote :: char where
  "double_quote = char_of (34 :: nat)"

definition py_repr :: "string \<Rightarrow> string" where
  "py_repr s = (let q = (if single_quote \<in> set s \<and> double_quote \<notin> set s then double_quote else single_quote)
     in q # concat (map (repr_char q) s) @ [q])"

fun join_with :: "string \<Rightarrow> string list \<Rightarrow> string" where
  "join_with sep [] = []"
| "join_with sep [x] = x"
| "join_with sep (x # y # ys) = x @ sep @ join_with sep (y # ys)"

definition show_int :: "int \<Rightarrow> string" where
  "show_int i = (if i < 0 then CHR ''-'' # show_nat (nat (- i)) else show_nat (nat i))"

lemma py_repr_nonempty [simp]: "py_repr s \<noteq> []"
  by (simp add: py_repr_def Let_def)

end
