(* ===== verification/Deadlock.thy ===== *)
theory Deadlock
  imports ThreadHandlers PyText
begin

text \<open>
  The deadlock sweep of \<open>jig/deadlock.py\<close>: blocking entries that stay open past a threshold
  get one nudge, and past a second one an escalation that parks the ticket in
  \<open>needs_info\<close>.  Times are microseconds.  What the loop catches is caught here too: an
  exception while an entry is handled leaves what was done before it.
\<close>

section \<open>State and helpers\<close>

definition terminal_statuses :: "ticket_status list" where
  "terminal_statuses = [StResolved, StClosed, StBlocked, StFailed, StMergeConflict]"

record sweep_result =
  sw_nudged :: "string list"
  sw_escalated :: "string list"

definition list_tickets :: "env \<Rightarrow> ticket list act" where
  "list_tickets en w = (list_all_tickets (en_draws en) (w_tickets w), w)"

definition set_ticket_status :: "env \<Rightarrow> nat \<Rightarrow> string \<Rightarrow> ticket_status \<Rightarrow> ticket act" where
  "set_ticket_status en n i s w =
    (case update_status (en_draws en) (en_now en n) i s (w_tickets w) of (r, st) \<Rightarrow> (r, w\<lparr>w_tickets := st\<rparr>))"

definition try_act :: "'a act \<Rightarrow> ('a \<Rightarrow> 'b act) \<Rightarrow> 'b act \<Rightarrow> 'b act" where
  \<comment> \<open>\<open>try: x = m; except: h; else: k x\<close>\<close>
  "try_act m k h w = (case m w of (Inl _, w') \<Rightarrow> h w' | (Inr x, w') \<Rightarrow> k x w')"

definition responds_to :: "thread_entry \<Rightarrow> string option" where
  \<comment> \<open>\<open>getattr(e, "responds_to", None)\<close>\<close>
  "responds_to e = (case te_body e of
     Note n \<Rightarrow> n_responds_to n | Escalation x \<Rightarrow> es_responds_to x | _ \<Rightarrow> None)"

definition is_note :: "thread_entry \<Rightarrow> bool" where
  "is_note e = (case te_body e of Note _ \<Rightarrow> True | _ \<Rightarrow> False)"

definition is_escalation :: "thread_entry \<Rightarrow> bool" where
  "is_escalation e = (case te_body e of Escalation _ \<Rightarrow> True | _ \<Rightarrow> False)"

definition has_responder :: "thread_entry list \<Rightarrow> (thread_entry \<Rightarrow> bool) \<Rightarrow> string \<Rightarrow> bool" where
  "has_responder entries kind_cls entry_id = list_ex (\<lambda>e. kind_cls e \<and> responds_to e = Some entry_id) entries"

definition describe_target :: "thread_entry \<Rightarrow> string" where
  "describe_target e =
    (let target = (case te_body e of Question q \<Rightarrow> q_target q | Escalation x \<Rightarrow> es_target x | _ \<Rightarrow> [])
     in if target \<noteq> [] then target
        else if te_kind e = ''handoff'' then ''an evaluator''
        else if te_kind e = ''objection'' then ''a resolver''
        else ''the relevant responder'')"

definition us_per_second :: int where
  "us_per_second = 1000000"

section \<open>Posting\<close>

definition nudge_text :: "thread_entry \<Rightarrow> int \<Rightarrow> string" where
  "nudge_text e now = ''Deadlock nudge: '' @ te_kind e @ '' '' @ py_repr (te_id e) @ '' has been open ~'' @
     show_int ((now - te_created_at e) div (3600 * us_per_second)) @ ''h waiting on '' @ describe_target e @
     ''. Please respond or reassign.''"

definition post_nudge :: "env \<Rightarrow> nat \<Rightarrow> string \<Rightarrow> thread_entry \<Rightarrow> int \<Rightarrow> unit act" where
  "post_nudge en n ticket_id e now =
    bind_act (post_entry en n ticket_id ''orchestrator'' (Note \<lparr>n_text = nudge_text e now,
      n_responds_to = Some (te_id e), n_payload = []\<rparr>)) (\<lambda>nid.
    bind_act (publish_msg en (n + 1) ''orchestrator'' ''broadcast'' MContextUpdate
      [(''kind'', JStr ''deadlock_nudge_posted''), (''ticket_id'', JStr ticket_id), (''note_id'', JStr nid),
       (''responds_to'', JStr (te_id e)), (''target'', JStr (describe_target e))] (topic ticket_id)) (\<lambda>_.
    ret ()))"

definition escalation_details :: "thread_entry \<Rightarrow> string" where
  "escalation_details e = te_kind e @ '' '' @ py_repr (te_id e) @ '' remained open past the deadlock threshold waiting on '' @
     describe_target e @ ''. Auto-escalated to human review; ticket moved to needs_info.''"

definition post_escalation :: "env \<Rightarrow> nat \<Rightarrow> string \<Rightarrow> thread_entry \<Rightarrow> unit act" where
  "post_escalation en n ticket_id e =
    bind_act (post_entry en n ticket_id ''orchestrator'' (Escalation \<lparr>es_reason = ''deadlock_timeout'',
      es_details = escalation_details e, es_target = ''any_human'', es_resolved_by = None,
      es_responds_to = Some (te_id e)\<rparr>)) (\<lambda>eid.
    bind_act (get_ticket en ticket_id) (\<lambda>t.
    bind_act (case t of
        None \<Rightarrow> ret ()
      | Some x \<Rightarrow> if tk_status x \<noteq> StNeedsInfo
                then bind_act (set_ticket_status en (n + 1) ticket_id StNeedsInfo) (\<lambda>_. ret ()) else ret ()) (\<lambda>_.
    bind_act (publish_msg en (n + 2) ''orchestrator'' ''broadcast'' MContextUpdate
      [(''kind'', JStr ''deadlock_escalation_posted''), (''ticket_id'', JStr ticket_id), (''escalation_id'', JStr eid),
       (''responds_to'', JStr (te_id e)), (''waiting_on'', JStr (describe_target e))] (topic ticket_id)) (\<lambda>_.
    ret ()))))"

section \<open>The sweep\<close>

text \<open>
  One entry: the escalation first, then the nudge.  The result lists are mutable in the
  code, so an id appended before an exception stays in them.
\<close>

definition sweep_entry ::
  "env \<Rightarrow> nat \<Rightarrow> int \<Rightarrow> int \<Rightarrow> int \<Rightarrow> string \<Rightarrow> thread_entry list \<Rightarrow> thread_entry \<Rightarrow> sweep_result \<Rightarrow> sweep_result act" where
  "sweep_entry en n nudge_after_s escalate_after_s now ticket_id entries e res =
    (let age = now - te_created_at e in
     if age < 0 then ret res
     else (let escalate = (escalate_after_s > 0 \<and> age \<ge> escalate_after_s * us_per_second \<and>
                 \<not> has_responder entries is_escalation (te_id e));
               nudge = (nudge_after_s > 0 \<and> age \<ge> nudge_after_s * us_per_second \<and>
                 \<not> has_responder entries is_note (te_id e))
           in try_act (if escalate then post_escalation en n ticket_id e else ret ())
                (\<lambda>_. let res1 = (if escalate then res\<lparr>sw_escalated := sw_escalated res @ [te_id e]\<rparr> else res) in
                  try_act (if nudge then post_nudge en (n + 3) ticket_id e now else ret ())
                    (\<lambda>_. ret (if nudge then res1\<lparr>sw_nudged := sw_nudged res1 @ [te_id e]\<rparr> else res1))
                    (ret res1))
                (ret res)))"

fun sweep_entries ::
  "env \<Rightarrow> nat \<Rightarrow> int \<Rightarrow> int \<Rightarrow> int \<Rightarrow> string \<Rightarrow> thread_entry list \<Rightarrow> thread_entry list \<Rightarrow> sweep_result \<Rightarrow> sweep_result act" where
  "sweep_entries en n na ea now t entries [] res = ret res"
| "sweep_entries en n na ea now t entries (e # es) res =
    bind_act (sweep_entry en n na ea now t entries e res) (\<lambda>res1. sweep_entries en (n + 5) na ea now t entries es res1)"

definition sweep_candidates :: "thread_entry list \<Rightarrow> thread_entry list" where
  "sweep_candidates entries = filter (\<lambda>e. is_blocking e \<and> responds_to e = None) entries"

fun sweep_tickets :: "env \<Rightarrow> nat \<Rightarrow> int \<Rightarrow> int \<Rightarrow> int \<Rightarrow> ticket list \<Rightarrow> sweep_result \<Rightarrow> sweep_result act" where
  "sweep_tickets en n na ea now [] res = ret res"
| "sweep_tickets en n na ea now (t # ts) res =
    (if tk_status t \<in> set terminal_statuses then sweep_tickets en n na ea now ts res
     else try_act (ticket_entries en (tk_id t))
       (\<lambda>entries. bind_act (sweep_entries en n na ea now (tk_id t) entries (sweep_candidates entries) res)
          (\<lambda>res1. sweep_tickets en (n + 5 * length (sweep_candidates entries)) na ea now ts res1))
       (sweep_tickets en n na ea now ts res))"

definition sweep_blocking_entries :: "env \<Rightarrow> int \<Rightarrow> int \<Rightarrow> int option \<Rightarrow> sweep_result act" where
  \<comment> \<open>draw 0 is the clock when \<open>now\<close> is not given\<close>
  "sweep_blocking_entries en nudge_after_s escalate_after_s now =
    bind_act (list_tickets en) (\<lambda>ts.
    sweep_tickets en 1 nudge_after_s escalate_after_s (the_default (en_now en 0) now) ts
      \<lparr>sw_nudged = [], sw_escalated = []\<rparr>)"

end
