(* ===== verification/CheckResults.thy ===== *)
theory CheckResults
  imports ModelStore
begin

text \<open>
  Checks and their results: the catalog of \<open>jig/checks.py\<close>, the records of
  \<open>jig/check_results.py\<close> and their store, \<open>jig/store/check_results.py\<close>.  The YAML parser
  is not part of the program: a catalog is loaded from the mapping it returns.
\<close>

section \<open>The catalog\<close>

datatype severity = SevRequired | SevWarning | SevInfo

fun show_severity :: "severity \<Rightarrow> string" where
  "show_severity SevRequired = ''required''"
| "show_severity SevWarning = ''warning''"
| "show_severity SevInfo = ''info''"

definition read_severity :: "string \<Rightarrow> severity option" where
  "read_severity s = List.find (\<lambda>x. show_severity x = s) [SevRequired, SevWarning, SevInfo]"

lemma read_severity_show [simp]: "read_severity (show_severity x) = Some x"
  by (cases x) (simp_all add: read_severity_def)

record check_base =
  ck_severity :: severity
  ck_timeout_s :: int
  ck_hook_eligible :: bool

datatype check =
    ScriptedCheck check_base (sc_command: string) (sc_working_dir: string)
  | ImplementationAwareAgentCheck check_base (ia_template: string) (ia_context: "string list") (ia_max_tokens: int)
  | BlackBoxAgentCheck check_base (bb_template: string) (bb_context: "string list") (bb_excluded: "string list") (bb_max_tokens: int)

fun check_base_of :: "check \<Rightarrow> check_base" where
  "check_base_of (ScriptedCheck b _ _) = b"
| "check_base_of (ImplementationAwareAgentCheck b _ _ _) = b"
| "check_base_of (BlackBoxAgentCheck b _ _ _ _) = b"

abbreviation check_severity :: "check \<Rightarrow> severity" where
  "check_severity c \<equiv> ck_severity (check_base_of c)"

type_synonym catalog = "(string \<times> check) list"

definition catalog_get :: "catalog \<Rightarrow> string \<Rightarrow> check option" where
  "catalog_get c n = map_of c n"

definition fld_int_or :: "string \<Rightarrow> int \<Rightarrow> doc \<Rightarrow> int option" where
  "fld_int_or k dflt d = (case map_of d k of None \<Rightarrow> Some dflt | Some (JInt i) \<Rightarrow> Some i | _ \<Rightarrow> None)"

definition parse_check_base :: "doc \<Rightarrow> check_base option" where
  "parse_check_base d = do {
     s \<leftarrow> fld_str_or ''severity'' ''required'' d;
     s \<leftarrow> read_severity s;
     t \<leftarrow> fld_int_or ''timeout_s'' 600 d;
     h \<leftarrow> fld_bool_or ''hook_eligible'' False d;
     Some \<lparr>ck_severity = s, ck_timeout_s = t, ck_hook_eligible = h\<rparr> }"

definition parse_check :: "doc \<Rightarrow> check option" where
  \<comment> \<open>the discriminated union on \<open>type\<close>\<close>
  "parse_check d = do {
     b \<leftarrow> parse_check_base d;
     ty \<leftarrow> fld_str ''type'' d;
     if ty = ''scripted'' then do {
       c \<leftarrow> fld_str ''command'' d;
       w \<leftarrow> fld_str_or ''working_dir'' ''.'' d;
       Some (ScriptedCheck b c w) }
     else if ty = ''implementation_aware_agent'' then do {
       t \<leftarrow> fld_str ''template'' d;
       c \<leftarrow> fld_strs ''context'' d;
       n \<leftarrow> fld_int_or ''max_tokens'' 50000 d;
       Some (ImplementationAwareAgentCheck b t c n) }
     else if ty = ''black_box_agent'' then do {
       t \<leftarrow> fld_str ''template'' d;
       c \<leftarrow> fld_strs ''context'' d;
       x \<leftarrow> fld_strs ''excluded'' d;
       n \<leftarrow> fld_int_or ''max_tokens'' 80000 d;
       Some (BlackBoxAgentCheck b t c x n) }
     else None }"

definition parse_catalog :: "doc \<Rightarrow> catalog result" where
  "parse_catalog d = (case map_opt (\<lambda>(n, j). Option.bind (as_obj j) (\<lambda>e. map_option (Pair n) (parse_check e))) d of
     None \<Rightarrow> Inl (ValidationError ''check catalog'') | Some c \<Rightarrow> Inr c)"

definition load_check_catalog :: "doc option \<Rightarrow> doc option \<Rightarrow> catalog result" where
  \<comment> \<open>the \<open>checks\<close> block of the project's file and of the shipped one, where the file exists\<close>
  "load_check_catalog project shipped =
    (if the_default [] project \<noteq> [] then parse_catalog (the project)
     else (case shipped of Some d \<Rightarrow> parse_catalog d | None \<Rightarrow> Inr []))"

section \<open>Results\<close>

datatype check_type = TScripted | TImplementationAware | TBlackBox

fun show_check_type :: "check_type \<Rightarrow> string" where
  "show_check_type TScripted = ''scripted''"
| "show_check_type TImplementationAware = ''implementation_aware_agent''"
| "show_check_type TBlackBox = ''black_box_agent''"

definition read_check_type :: "string \<Rightarrow> check_type option" where
  "read_check_type s = List.find (\<lambda>x. show_check_type x = s) [TScripted, TImplementationAware, TBlackBox]"

lemma read_check_type_show [simp]: "read_check_type (show_check_type x) = Some x"
  by (cases x) (simp_all add: read_check_type_def)

datatype verdict = VPass | VFail | VTimeout | VError

fun show_verdict :: "verdict \<Rightarrow> string" where
  "show_verdict VPass = ''pass''"
| "show_verdict VFail = ''fail''"
| "show_verdict VTimeout = ''timeout''"
| "show_verdict VError = ''error''"

definition read_verdict :: "string \<Rightarrow> verdict option" where
  "read_verdict s = List.find (\<lambda>x. show_verdict x = s) [VPass, VFail, VTimeout, VError]"

lemma read_verdict_show [simp]: "read_verdict (show_verdict x) = Some x"
  by (cases x) (simp_all add: read_verdict_def)

record check_result =
  cr_id :: string
  cr_ticket_id :: string
  cr_phase :: string
  cr_author :: string
  cr_created_at :: int
  cr_check_name :: string
  cr_check_type :: check_type
  cr_verdict :: verdict
  cr_severity :: severity
  cr_output :: string
  cr_started_at :: int
  cr_finished_at :: int
  cr_commit_sha :: string

definition dump_result :: "check_result \<Rightarrow> doc" where
  "dump_result r = [(''_id'', JStr (cr_id r)), (''ticket_id'', JStr (cr_ticket_id r)), (''phase'', JStr (cr_phase r)),
     (''author'', JStr (cr_author r)), (''created_at'', JTime (cr_created_at r)), (''check_name'', JStr (cr_check_name r)),
     (''check_type'', JStr (show_check_type (cr_check_type r))), (''verdict'', JStr (show_verdict (cr_verdict r))),
     (''severity'', JStr (show_severity (cr_severity r))), (''output'', JStr (cr_output r)),
     (''started_at'', JTime (cr_started_at r)), (''finished_at'', JTime (cr_finished_at r)), (''commit_sha'', JStr (cr_commit_sha r))]"

definition parse_result :: "ctx \<Rightarrow> doc \<Rightarrow> check_result option" where
  "parse_result cx d = do {
     i \<leftarrow> fld_id cx d;
     t \<leftarrow> fld_str ''ticket_id'' d;
     p \<leftarrow> fld_str ''phase'' d;
     a \<leftarrow> fld_str_or ''author'' ''harness'' d;
     c \<leftarrow> fld_time_or ''created_at'' (cx_now cx) d;
     n \<leftarrow> fld_str ''check_name'' d;
     ty \<leftarrow> Option.bind (fld_str ''check_type'' d) read_check_type;
     v \<leftarrow> Option.bind (fld_str ''verdict'' d) read_verdict;
     s \<leftarrow> Option.bind (fld_str ''severity'' d) read_severity;
     out \<leftarrow> fld_str_or ''output'' [] d;
     t1 \<leftarrow> fld_time ''started_at'' d;
     t2 \<leftarrow> fld_time ''finished_at'' d;
     sha \<leftarrow> fld_str_or ''commit_sha'' [] d;
     Some \<lparr>cr_id = i, cr_ticket_id = t, cr_phase = p, cr_author = a, cr_created_at = c, cr_check_name = n,
       cr_check_type = ty, cr_verdict = v, cr_severity = s, cr_output = out, cr_started_at = t1, cr_finished_at = t2,
       cr_commit_sha = sha\<rparr> }"

section \<open>The store\<close>

definition results_index :: "string list" where
  "results_index = [''ticket_id'', ''phase'', ''check_name'']"

definition new_results_store :: "(json list \<Rightarrow> json list) \<Rightarrow> line list \<Rightarrow> jsonl_store" where
  "new_results_store ord fl = new_store ord fl results_index default_max_record_bytes"

definition results_post :: "string \<Rightarrow> check_result \<Rightarrow> jsonl_store \<Rightarrow> json result \<times> jsonl_store" where
  "results_post fresh r st = tc_insert dump_result fresh r st"

type_synonym draws = "doc \<Rightarrow> ctx"

definition results_get :: "draws \<Rightarrow> string \<Rightarrow> jsonl_store \<Rightarrow> check_result option result" where
  "results_get cx i st = tc_get (\<lambda>d. parse_result (cx d) d) i st"

definition results_where :: "draws \<Rightarrow> doc \<Rightarrow> jsonl_store \<Rightarrow> check_result list result" where
  "results_where cx kw st = (case tc_find_where (\<lambda>d. parse_result (cx d) d) kw st of
     Inl e \<Rightarrow> Inl e | Inr rs \<Rightarrow> Inr (sort_key cr_created_at rs))"

definition results_for_ticket :: "draws \<Rightarrow> string \<Rightarrow> jsonl_store \<Rightarrow> check_result list result" where
  "results_for_ticket cx t st = results_where cx [(''ticket_id'', JStr t)] st"

definition results_for_phase :: "draws \<Rightarrow> string \<Rightarrow> string \<Rightarrow> jsonl_store \<Rightarrow> check_result list result" where
  "results_for_phase cx t p st = results_where cx [(''ticket_id'', JStr t), (''phase'', JStr p)] st"

definition latest_for_check :: "draws \<Rightarrow> string \<Rightarrow> string \<Rightarrow> string \<Rightarrow> jsonl_store \<Rightarrow> check_result option result" where
  "latest_for_check cx t p n st =
    (case results_where cx [(''ticket_id'', JStr t), (''phase'', JStr p), (''check_name'', JStr n)] st of
       Inl e \<Rightarrow> Inl e | Inr rs \<Rightarrow> Inr (if rs = [] then None else Some (last rs)))"

definition latest_of :: "check_result list \<Rightarrow> (string \<times> check_result) list" where
  \<comment> \<open>\<open>latest[r.check_name] = r\<close> over the list\<close>
  "latest_of rs = fold (\<lambda>r. AList.update (cr_check_name r) r) rs []"

definition latest_batch :: "draws \<Rightarrow> string \<Rightarrow> string \<Rightarrow> jsonl_store \<Rightarrow> check_result list result" where
  "latest_batch cx t p st = (case results_for_phase cx t p st of
     Inl e \<Rightarrow> Inl e | Inr rs \<Rightarrow> Inr (map snd (latest_of rs)))"

section \<open>Refinement\<close>

lemma parse_result_dump: "parse_result cx (dump_result r) = Some r"
  by (simp add: parse_result_def dump_result_def codec)

interpretation crs: stored_model results_index dump_result "\<lambda>d. parse_result (cx d) d" cr_id "\<lambda>_. True" for cx
proof
  show "parse_result (cx (dump_result m)) (dump_result m) = Some m" for m
    by (rule parse_result_dump)
qed (auto simp: results_index_def dump_result_def)

abbreviation results_inv :: "jsonl_store \<Rightarrow> bool" where
  "results_inv \<equiv> model_inv results_index dump_result cr_id (\<lambda>_. True)"

definition result_map :: "jsonl_store \<Rightarrow> string \<Rightarrow> check_result option" where
  "result_map st = models (\<lambda>d. parse_result \<lparr>cx_now = 0, cx_uuid = \<lambda>_. []\<rparr> d) st"

lemma models_result_map: "results_inv st \<Longrightarrow> models (\<lambda>d. parse_result (cx d) d) st = result_map st"
  unfolding result_map_def
proof (rule ext)
  fix i assume inv: "results_inv st"
  show "models (\<lambda>d. parse_result (cx d) d) st i = models (\<lambda>d. parse_result \<lparr>cx_now = 0, cx_uuid = \<lambda>_. []\<rparr> d) st i"
  proof (cases "map_of (st_docs st) (JStr i)")
    case (Some d)
    with inv obtain m where "d = dump_result m" unfolding model_inv_def by blast
    with Some show ?thesis by (simp add: models_def parse_result_dump)
  qed (simp add: models_def)
qed

lemma results_for_phase_refines:
  assumes inv: "results_inv st"
  obtains rs where "results_for_phase cx t p st = Inr rs" "sorted (map cr_created_at rs)" "distinct (map cr_id rs)"
    "set rs = {r. \<exists>i. result_map st i = Some r \<and> cr_ticket_id r = t \<and> cr_phase r = p}"
proof -
  let ?kw = "[(''ticket_id'', JStr t), (''phase'', JStr p)]"
  have s: "searchable st ?kw" by (simp add: searchable_def)
  obtain rs where rs: "tc_find_where (\<lambda>d. parse_result (cx d) d) ?kw st = Inr rs"
    and "find_where ?kw st = Inr (map dump_result rs)"
    and set: "set rs = {r. \<exists>i. models (\<lambda>d. parse_result (cx d) d) st i = Some r \<and> matches_all ?kw (dump_result r)}"
    and ids: "distinct (map cr_id rs)"
    by (rule crs.find_where_refines [OF inv s])
  have "matches_all ?kw (dump_result r) \<longleftrightarrow> cr_ticket_id r = t \<and> cr_phase r = p" for r
    by (auto simp: matches_all_def field_eq_def dump_result_def)
  with rs set [unfolded models_result_map [OF inv]] ids show thesis
    by (intro that [of "sort_key cr_created_at rs"]) (simp_all add: results_for_phase_def results_where_def distinct_map)
qed

lemma results_post_refines:
  assumes "results_inv st"
  shows "(\<exists>x. results_post fresh r st = (Inl x, st)) \<or>
    (\<exists>st'. results_post fresh r st = (Inr (JStr (cr_id r)), st') \<and> result_map st (cr_id r) = None \<and>
       results_inv st' \<and> result_map st' = (result_map st)(cr_id r \<mapsto> r))"
  using crs.insert_refines [where m = r, OF assms TrueI, of fresh "\<lambda>_. \<lparr>cx_now = 0, cx_uuid = \<lambda>_. []\<rparr>"]
  unfolding results_post_def result_map_def by blast

text \<open>The newest result of a check is the last one of the sorted list.\<close>

definition last_named :: "string \<Rightarrow> check_result list \<Rightarrow> check_result option" where
  "last_named n rs = List.find (\<lambda>r. cr_check_name r = n) (rev rs)"

lemma latest_of_last: "map_of (latest_of rs) n = last_named n rs"
  unfolding latest_of_def last_named_def
  by (induction rs rule: rev_induct) (auto simp: update_conv')

lemma latest_of_distinct: "distinct (keys (latest_of rs))"
  unfolding latest_of_def by (induction rs rule: rev_induct) (simp_all add: distinct_update)

lemma latest_of_name: "(n, r) \<in> set (latest_of rs) \<Longrightarrow> cr_check_name r = n"
  using map_of_is_SomeI [OF latest_of_distinct, of n r rs] latest_of_last [of rs n]
  by (auto simp: last_named_def find_Some_iff)

lemma latest_names: "map (\<lambda>r. (cr_check_name r, r)) (map snd (latest_of rs)) = latest_of rs"
  by (auto simp: o_def intro!: map_idI dest: latest_of_name)

end
