(* ===== verification/CheckGate.thy ===== *)
theory CheckGate
  imports ThreadHandlers CheckResults PyText
begin

text \<open>
  The gate of a handoff: \<open>jig/check_gate.py\<close> scores the latest results of the required
  checks of a phase, and \<open>jig/handoff_gate.py\<close> bounces the handoff or accepts it.  The
  results are a store of their own, which the gate only reads; what it posts goes to the
  thread store of the world.
\<close>

section \<open>Scoring\<close>

definition excerpt_tail_bytes :: nat where
  "excerpt_tail_bytes = 2048"

definition excerpt :: "string \<Rightarrow> string" where
  "excerpt out = (if length out \<le> excerpt_tail_bytes then out
     else ''...[trimmed]...'' @ nl @ drop (length out - excerpt_tail_bytes) out)"

definition build_failure_content :: "check_result \<Rightarrow> string" where
  "build_failure_content r =
    (let header = ''Required check '' @ py_repr (cr_check_name r) @ '' did not pass (verdict='' @
           py_repr (show_verdict (cr_verdict r)) @ '', severity='' @ py_repr (show_severity (cr_severity r)) @ '').''
     in if blank (cr_output r) then header else header @ nl @ nl @ excerpt (cr_output r))"

definition failure_event :: "check_result \<Rightarrow> body" where
  "failure_event r = SystemEvent \<lparr>se_event_type = ''check_failure'', se_content = build_failure_content r,
     se_commit_sha = (if cr_commit_sha r = [] then None else Some (cr_commit_sha r)), se_phase_result = None,
     se_phase_branch = None, se_check_name = Some (cr_check_name r),
     se_check_severity = Some (show_severity (cr_severity r)), se_check_verdict = Some (show_verdict (cr_verdict r)),
     se_excerpt = excerpt (cr_output r), se_waived = False, se_payload = []\<rparr>"

definition post_failure_event :: "env \<Rightarrow> nat \<Rightarrow> check_result \<Rightarrow> string act" where
  "post_failure_event en n r = post_entry en n (cr_ticket_id r) ''harness'' (failure_event r)"

definition check_failure_of :: "string \<Rightarrow> thread_entry \<Rightarrow> bool" where
  "check_failure_of name e = (case te_body e of
     SystemEvent v \<Rightarrow> se_event_type v = ''check_failure'' \<and> se_check_name v = Some name | _ \<Rightarrow> False)"

definition waives :: "check_result \<Rightarrow> thread_entry \<Rightarrow> bool" where
  "waives r e = (case te_body e of
     SystemEvent v \<Rightarrow> se_waived v \<and> se_commit_sha v = Some (cr_commit_sha r) | _ \<Rightarrow> False)"

definition latest_failure_waived_for_result :: "env \<Rightarrow> string \<Rightarrow> string \<Rightarrow> check_result \<Rightarrow> bool act" where
  "latest_failure_waived_for_result en ticket_id check_name r =
    (if cr_commit_sha r = [] then ret False
     else bind_act (ticket_entries en ticket_id) (\<lambda>es.
       ret (case List.find (check_failure_of check_name) (rev es) of None \<Rightarrow> False | Some e \<Rightarrow> waives r e)))"

record failure_entry =
  fe_check_name :: string
  fe_verdict :: verdict
  fe_severity :: severity
  fe_event_id :: string

datatype gate_mode = PreSpawn | AtHandoff

record gate_verdict =
  gv_passing :: bool
  gv_failing :: "failure_entry list"
  gv_missing :: "string list"
  gv_posted_events :: "string list"
  gv_mode :: gate_mode

record gate_acc =
  ga_failing :: "failure_entry list"
  ga_missing :: "string list"
  ga_posted :: "string list"

fun gate_loop :: "env \<Rightarrow> catalog \<Rightarrow> (string \<times> check_result) list \<Rightarrow> string \<Rightarrow> bool \<Rightarrow> string list \<Rightarrow> gate_acc \<Rightarrow> gate_acc act" where
  \<comment> \<open>the draws of the call are the events it posts, one each\<close>
  "gate_loop en cat latest t post_events [] acc = ret acc"
| "gate_loop en cat latest t post_events (n # ns) acc = (case catalog_get cat n of
     None \<Rightarrow> raise (RuntimeError ''assert'')
   | Some c \<Rightarrow>
       if check_severity c \<noteq> SevRequired then gate_loop en cat latest t post_events ns acc
       else (case map_of latest n of
         None \<Rightarrow> gate_loop en cat latest t post_events ns (acc\<lparr>ga_missing := ga_missing acc @ [n]\<rparr>)
       | Some r \<Rightarrow>
           if cr_verdict r = VPass then gate_loop en cat latest t post_events ns acc
           else bind_act (latest_failure_waived_for_result en t n r) (\<lambda>waived.
             if waived then gate_loop en cat latest t post_events ns acc
             else bind_act (if post_events then post_failure_event en (length (ga_posted acc)) r else ret []) (\<lambda>eid.
               gate_loop en cat latest t post_events ns
                 (acc\<lparr>ga_failing := ga_failing acc @ [\<lparr>fe_check_name = n, fe_verdict = cr_verdict r,
                       fe_severity = SevRequired, fe_event_id = eid\<rparr>],
                      ga_posted := ga_posted acc @ (if post_events then [eid] else [])\<rparr>)))))"

definition evaluate_handoff_gate ::
  "env \<Rightarrow> catalog \<Rightarrow> jsonl_store \<Rightarrow> string \<Rightarrow> string \<Rightarrow> string list \<Rightarrow> bool \<Rightarrow> gate_verdict act" where
  "evaluate_handoff_gate en cat results ticket_id phase names post_events =
    (case List.find (\<lambda>n. catalog_get cat n = None) names of
       Some n \<Rightarrow> raise (KeyError n)
     | None \<Rightarrow>
         bind_act (lift_res (latest_batch (en_draws en) ticket_id phase results)) (\<lambda>batch.
         bind_act (gate_loop en cat (latest_of batch) ticket_id post_events names
           \<lparr>ga_failing = [], ga_missing = [], ga_posted = []\<rparr>) (\<lambda>acc.
         ret \<lparr>gv_passing = (ga_failing acc = [] \<and> ga_missing acc = []), gv_failing = ga_failing acc,
           gv_missing = ga_missing acc, gv_posted_events = ga_posted acc, gv_mode = AtHandoff\<rparr>)))"

definition check_gate_status ::
  "env \<Rightarrow> catalog \<Rightarrow> jsonl_store \<Rightarrow> string \<Rightarrow> string \<Rightarrow> string list \<Rightarrow> gate_verdict act" where
  "check_gate_status en cat results ticket_id phase names =
    bind_act (evaluate_handoff_gate en cat results ticket_id phase names False) (\<lambda>v. ret (v\<lparr>gv_mode := PreSpawn\<rparr>))"

section \<open>Acting on the verdict\<close>

definition harness_author :: string where
  "harness_author = ''harness''"

definition require_pending_handoff :: "env \<Rightarrow> string \<Rightarrow> (thread_entry \<Rightarrow> handoff \<Rightarrow> 'a act) \<Rightarrow> 'a act" where
  "require_pending_handoff en i k = require_entry en i (\<lambda>e. case te_body e of
     Handoff h \<Rightarrow> require (\<not> is_resolved e) (ThreadError ''already closed'') (k e h)
   | _ \<Rightarrow> raise (ThreadError ''not a handoff''))"

definition compose_bounce_reason :: "gate_verdict \<Rightarrow> string" where
  "compose_bounce_reason v = join_with nl
    ([''Handoff bounced: required check gate failed.''] @
     (if gv_failing v = [] then [] else [[], ''Failing required checks:''] @
        map (\<lambda>f. ''  - '' @ fe_check_name f @ '' ('' @ show_verdict (fe_verdict f) @ '') [event '' @ fe_event_id f @ '']'') (gv_failing v)) @
     (if gv_missing v = [] then [] else [[], ''Required checks with no result (treated as fail):''] @
        map (\<lambda>n. ''  - '' @ n) (gv_missing v)) @
     [[], ''See the thread's check_failure events for full output. Fix the underlying issues and post a new handoff.''])"

definition bounce_handoff :: "env \<Rightarrow> string \<Rightarrow> gate_verdict \<Rightarrow> string act" where
  "bounce_handoff en i v =
    require_pending_handoff en i (\<lambda>e h.
    require (\<not> gv_passing v) (ThreadError ''passing verdict'') (
    require (gv_mode v = AtHandoff) (ThreadError ''not a handoff-mode verdict'') (
    require (gv_failing v = [] \<or> length (gv_posted_events v) = length (gv_failing v)) (ThreadError ''one event per failure'') (
    let reason = compose_bounce_reason v in
    bind_act (update_entry i [(''acceptance_state'', JStr ''rejected''), (''rejection_reason'', JStr reason)]) (\<lambda>_.
    bind_act (publish_msg en 0 harness_author ''broadcast'' MContextUpdate [(''kind'', JStr ''thread_handoff_rejected''),
      (''ticket_id'', JStr (te_ticket_id e)), (''handoff_id'', JStr i), (''phase'', JStr (h_phase h)),
      (''rejection_reason'', JStr reason), (''rejected_by'', JStr harness_author), (''bounce'', JBool True),
      (''failing_checks'', jstrs (map fe_check_name (gv_failing v))), (''missing_checks'', jstrs (gv_missing v))]
      (topic (te_ticket_id e))) (\<lambda>_. ret reason))))))"

definition accept_handoff_automated :: "env \<Rightarrow> string \<Rightarrow> bool \<Rightarrow> unit act" where
  "accept_handoff_automated en i cps =
    require_pending_handoff en i (\<lambda>e h.
    bind_act (update_entry i [(''acceptance_state'', JStr ''accepted''), (''accepted_by'', JStr harness_author)]) (\<lambda>_.
    bind_act (if cps then on_checkpoints (mark_phase_historical (te_ticket_id e) (h_phase h)) else ret 0) (\<lambda>_.
    bind_act (publish_msg en 0 harness_author ''broadcast'' MContextUpdate [(''kind'', JStr ''thread_handoff_accepted''),
      (''ticket_id'', JStr (te_ticket_id e)), (''handoff_id'', JStr i), (''phase'', JStr (h_phase h)),
      (''accepted_by'', JStr harness_author), (''auto'', JBool True)] (topic (te_ticket_id e))) (\<lambda>_.
    ret ()))))"

end
