(* ===== verification/ThreadProtocol.thy ===== *)
theory ThreadProtocol
  imports ThreadHandlers
begin

text \<open>
  The protocol the thread handlers implement: who may change which entry, and how.
  \<open>body_step\<close> lists the legal changes of an entry, \<open>evolves\<close> lifts them to the whole
  thread store (entries are never removed or rewritten otherwise, and what is added is
  new and unresolved), and every handler is shown to stay within them, whatever its
  arguments and however it ends.
\<close>

section \<open>Legal changes\<close>

definition ticket_thread :: "(string \<Rightarrow> thread_entry option) \<Rightarrow> string \<Rightarrow> thread_entry list \<Rightarrow> bool" where
  \<comment> \<open>the entries of a ticket, oldest first\<close>
  "ticket_thread m t es \<longleftrightarrow> sorted (map te_created_at es) \<and> distinct (map te_id es) \<and>
     set es = {e. \<exists>i. m i = Some e \<and> te_ticket_id e = t}"

definition may_close :: "world \<Rightarrow> string \<Rightarrow> thread_entry \<Rightarrow> handoff \<Rightarrow> bool" where
  \<comment> \<open>the sender is an evaluator of the phase, and not the author\<close>
  "may_close w s e h \<longleftrightarrow> s \<noteq> te_author e \<and> (\<exists>t flow es r. kmap w (te_ticket_id e) = Some t \<and>
     w_workflows w (tk_workflow t) = Inr flow \<and> ticket_thread (tmap w) (te_ticket_id e) es \<and>
     resolve_phase_evaluator flow (h_phase h) (handoffs_of es) = Some r \<and> re_kind r \<noteq> KAutomated \<and> s \<in> set (re_actors r))"

inductive body_step :: "world \<Rightarrow> string \<Rightarrow> string list \<Rightarrow> thread_entry \<Rightarrow> body \<Rightarrow> bool"
  for w s cw e where
  resolve_question: "te_body e = Question q \<Longrightarrow> q_resolved_by q = None \<Longrightarrow> te_author e = s \<Longrightarrow>
    body_step w s cw e (Question (q\<lparr>q_resolved_by := Some s, q_accepted_answer_id := a\<rparr>))"
| accept_resolution: "te_body e = Objection x \<Longrightarrow> o_resolved_by x = None \<Longrightarrow> o_waived_by x = None \<Longrightarrow> te_author e = s \<Longrightarrow>
    body_step w s cw e (Objection (x\<lparr>o_resolved_by := Some s\<rparr>))"
| waive: "te_body e = Objection x \<Longrightarrow> o_resolved_by x = None \<Longrightarrow> o_waived_by x = None \<Longrightarrow> ''objection'' \<in> set cw \<Longrightarrow>
    body_step w s cw e (Objection (x\<lparr>o_waived_by := Some s\<rparr>))"
| waive_check: "te_body e = SystemEvent v \<Longrightarrow> se_event_type v = ''check_failure'' \<Longrightarrow> \<not> se_waived v \<Longrightarrow>
    se_check_severity v = Some sev \<Longrightarrow> ''check_failure:'' @ sev \<in> set cw \<Longrightarrow>
    body_step w s cw e (SystemEvent (v\<lparr>se_waived := True\<rparr>))"
| accept_handoff: "te_body e = Handoff h \<Longrightarrow> h_acceptance_state h = Pending \<Longrightarrow> may_close w s e h \<Longrightarrow>
    body_step w s cw e (Handoff (h\<lparr>h_acceptance_state := Accepted, h_accepted_by := Some s\<rparr>))"
| reject_handoff: "te_body e = Handoff h \<Longrightarrow> h_acceptance_state h = Pending \<Longrightarrow> may_close w s e h \<Longrightarrow>
    body_step w s cw e (Handoff (h\<lparr>h_acceptance_state := Rejected, h_rejection_reason := Some r\<rparr>))"

inductive_simps body_step_question: "body_step w s cw e (Question q)"
inductive_simps body_step_objection: "body_step w s cw e (Objection x)"
inductive_simps body_step_handoff: "body_step w s cw e (Handoff h)"
inductive_cases body_stepE: "body_step w s cw e b"

fun fresh_body :: "body \<Rightarrow> bool" where
  "fresh_body (Question q) = (q_resolved_by q = None \<and> q_accepted_answer_id q = None)"
| "fresh_body (Objection x) = (o_resolved_by x = None \<and> o_waived_by x = None)"
| "fresh_body (Escalation x) = (es_resolved_by x = None)"
| "fresh_body (Handoff h) = (h_acceptance_state h = Pending)"
| "fresh_body (Proposal p) = False"
| "fresh_body (SystemEvent v) = False"
| "fresh_body _ = True"

definition evolves :: "world \<Rightarrow> string \<Rightarrow> string list \<Rightarrow> (string \<Rightarrow> thread_entry option) \<Rightarrow> (string \<Rightarrow> thread_entry option) \<Rightarrow> bool" where
  "evolves w s cw m m' \<longleftrightarrow>
     (\<forall>i e. m i = Some e \<longrightarrow> (\<exists>b. m' i = Some (e\<lparr>te_body := b\<rparr>) \<and> (b = te_body e \<or> body_step w s cw e b))) \<and>
     (\<forall>i e. m i = None \<longrightarrow> m' i = Some e \<longrightarrow> te_author e = s \<and> fresh_body (te_body e))"

lemma te_body_same [simp]: "e\<lparr>te_body := te_body e\<rparr> = e"
  by (cases e) simp

lemma evolves_refl [intro, simp]: "evolves w s cw m m"
proof -
  have "\<exists>b. Some e = Some (e\<lparr>te_body := b\<rparr>) \<and> (b = te_body e \<or> body_step w s cw e b)" for e
    by (rule exI [of _ "te_body e"]) simp
  then show ?thesis by (simp add: evolves_def)
qed

lemma evolves_post [intro]:
  "evolves w s cw m0 m \<Longrightarrow> m i = None \<Longrightarrow> te_author e = s \<Longrightarrow> fresh_body (te_body e) \<Longrightarrow> evolves w s cw m0 (m(i \<mapsto> e))"
  by (fastforce simp: evolves_def)

lemma evolves_update:
  "evolves w s cw m0 m \<Longrightarrow> m0 i = Some e \<Longrightarrow> body_step w s cw e b \<Longrightarrow> evolves w s cw m0 (m(i \<mapsto> e\<lparr>te_body := b\<rparr>))"
  by (auto simp: evolves_def)

section \<open>Safe calls\<close>

definition safe :: "world \<Rightarrow> string \<Rightarrow> string list \<Rightarrow> world \<Rightarrow> bool" where
  "safe w0 s cw w \<longleftrightarrow> world_inv w \<and> w_tickets w = w_tickets w0 \<and> w_workflows w = w_workflows w0 \<and>
     evolves w0 s cw (tmap w0) (tmap w)"

lemma safeI: "evolves w0 s cw (tmap w0) m \<Longrightarrow> at w0 m w \<Longrightarrow> safe w0 s cw w"
  by (auto simp: safe_def at_def)

lemma triple_require_ticket:
  assumes "\<And>t. kmap w0 i = Some t \<Longrightarrow> triple (at w0 m) (k t) Q E" "\<And>w. at w0 m w \<Longrightarrow> E w"
  shows "triple (at w0 m) (require_ticket en i k) Q E"
  unfolding require_ticket_def
  by (rule triple_get_ticket) (use assms in \<open>auto intro: triple_raise split: option.split\<close>)

lemma triple_require_entry:
  assumes "\<And>e. m i = Some e \<Longrightarrow> triple (at w0 m) (k e) Q E" "\<And>w. at w0 m w \<Longrightarrow> E w"
  shows "triple (at w0 m) (require_entry en i k) Q E"
  unfolding require_entry_def
  by (rule triple_get_entry) (use assms in \<open>auto intro: triple_raise split: option.split\<close>)

lemma triple_open_question:
  assumes "\<And>q. te_body e = Question q \<Longrightarrow> q_resolved_by q = None \<Longrightarrow> triple P (k q) Q E" "\<And>w. P w \<Longrightarrow> E w"
  shows "triple P (as_open_question e k) Q E"
  using assms by (auto simp: as_open_question_def is_resolved_def intro!: triple_raise triple_require split: body.split)

lemma triple_open_objection:
  assumes "\<And>x. te_body e = Objection x \<Longrightarrow> o_resolved_by x = None \<Longrightarrow> o_waived_by x = None \<Longrightarrow> triple P (k x) Q E"
    and "\<And>w. P w \<Longrightarrow> E w"
  shows "triple P (as_open_objection e k) Q E"
  using assms by (auto simp: as_open_objection_def is_resolved_def intro!: triple_raise triple_require split: body.split)

lemmas call_rules = triple_require triple_arg triple_arg_or triple_arg_opt triple_require_ticket triple_require_entry
  triple_open_question triple_open_objection triple_ticket_entries triple_post_entry triple_publish
  triple_read_workflow triple_checkpoints triple_post_checkpoint triple_ret triple_raise triple_option

lemmas guard_defs = require_target_in_phase_allowlist_def require_waive_token_def Let_def

text \<open>A world of the kind \<open>at\<close> knows its entries by their ids, and all are valid.\<close>

lemma triple_at: "(\<And>w. at w0 m w \<Longrightarrow> triple (at w0 m) a Q E) \<Longrightarrow> triple (at w0 m) a Q E"
  by (simp add: triple_def)

lemma at_entry: "at w0 m w \<Longrightarrow> m i = Some e \<Longrightarrow> te_id e = i \<and> entry_valid e"
  using thread_map_id [of "w_threads w" i e] by (simp add: at_def world_inv_def)

lemma triple_update_body:
  assumes i: "m i = Some e"
    and ch: "changed_doc (dump_entry e) ch = dump_entry (e\<lparr>te_body := b\<rparr>)" "body_valid (te_body e) \<Longrightarrow> body_valid b"
      "distinct (keys ch)" "''_op'' \<notin> set (keys ch)" "\<forall>f \<in> set thread_index. f \<notin> set (keys ch)"
    and rest: "triple (at w0 (m(i \<mapsto> e\<lparr>te_body := b\<rparr>))) (f True) Q E" "\<And>w. at w0 m w \<Longrightarrow> E w"
  shows "triple (at w0 m) (bind_act (update_entry i ch) f) Q E"
proof (rule triple_at)
  fix w assume "at w0 m w"
  from at_entry [OF this i] have e: "te_id e = i" "body_valid (te_body e)" by (simp_all add: entry_valid_def)
  show ?thesis
    by (rule triple_update_entry [where e = e and e' = "e\<lparr>te_body := b\<rparr>"])
      (use i e ch rest in \<open>simp_all add: entry_valid_def\<close>)
qed

lemmas patch_defs = changed_doc_def dict_without_def dump_entry_def jopt_def

lemma patch_question:
  "te_body e = Question q \<Longrightarrow> changed_doc (dump_entry e) [(''resolved_by'', JStr s)] =
     dump_entry (e\<lparr>te_body := Question (q\<lparr>q_resolved_by := Some s\<rparr>)\<rparr>)"
  "te_body e = Question q \<Longrightarrow> changed_doc (dump_entry e) [(''resolved_by'', JStr s), (''accepted_answer_id'', JStr a)] =
     dump_entry (e\<lparr>te_body := Question (q\<lparr>q_resolved_by := Some s, q_accepted_answer_id := Some a\<rparr>)\<rparr>)"
  by (simp_all add: patch_defs)

lemma patch_objection:
  "te_body e = Objection x \<Longrightarrow> changed_doc (dump_entry e) [(''resolved_by'', JStr s)] =
     dump_entry (e\<lparr>te_body := Objection (x\<lparr>o_resolved_by := Some s\<rparr>)\<rparr>)"
  "te_body e = Objection x \<Longrightarrow> changed_doc (dump_entry e) [(''waived_by'', JStr s)] =
     dump_entry (e\<lparr>te_body := Objection (x\<lparr>o_waived_by := Some s\<rparr>)\<rparr>)"
  by (simp_all add: patch_defs)

lemma patch_check:
  "te_body e = SystemEvent v \<Longrightarrow> changed_doc (dump_entry e) [(''waived'', JBool True)] =
     dump_entry (e\<lparr>te_body := SystemEvent (v\<lparr>se_waived := True\<rparr>)\<rparr>)"
  by (simp add: patch_defs)

lemma patch_handoff:
  "te_body e = Handoff h \<Longrightarrow> changed_doc (dump_entry e) [(''acceptance_state'', JStr ''accepted''), (''accepted_by'', JStr s)] =
     dump_entry (e\<lparr>te_body := Handoff (h\<lparr>h_acceptance_state := Accepted, h_accepted_by := Some s\<rparr>)\<rparr>)"
  "te_body e = Handoff h \<Longrightarrow> changed_doc (dump_entry e) [(''acceptance_state'', JStr ''rejected''), (''rejection_reason'', JStr r)] =
     dump_entry (e\<lparr>te_body := Handoff (h\<lparr>h_acceptance_state := Rejected, h_rejection_reason := Some r\<rparr>)\<rparr>)"
  by (simp_all add: patch_defs)

section \<open>Every handler is safe\<close>

lemma ask_safe: "triple (at w0 (tmap w0)) (handle_thread_ask en s al args) (\<lambda>_. safe w0 s cw) (safe w0 s cw)"
  unfolding handle_thread_ask_def guard_defs by (intro call_rules; (rule safeI; auto)?)

lemma answer_safe: "triple (at w0 (tmap w0)) (handle_thread_answer en s args) (\<lambda>_. safe w0 s cw) (safe w0 s cw)"
  unfolding handle_thread_answer_def guard_defs by (intro call_rules; (rule safeI; auto)?)

lemma object_safe: "triple (at w0 (tmap w0)) (handle_thread_object en s args) (\<lambda>_. safe w0 s cw) (safe w0 s cw)"
  unfolding handle_thread_object_def guard_defs by (intro call_rules; (rule safeI; auto)?)

lemma resolve_objection_safe:
  "triple (at w0 (tmap w0)) (handle_thread_resolve_objection en s args) (\<lambda>_. safe w0 s cw) (safe w0 s cw)"
  unfolding handle_thread_resolve_objection_def guard_defs by (intro call_rules; (rule safeI; auto)?)

lemma note_safe: "triple (at w0 (tmap w0)) (handle_thread_note en s args) (\<lambda>_. safe w0 s cw) (safe w0 s cw)"
  unfolding handle_thread_note_def guard_defs by (intro call_rules; (rule safeI; auto)?)

lemma escalate_safe:
  "triple (at w0 (tmap w0)) (handle_thread_escalate en s al args) (\<lambda>_. safe w0 s cw) (safe w0 s cw)"
  unfolding handle_thread_escalate_def guard_defs by (intro call_rules; (rule safeI; auto)?)

lemma uncertain_safe:
  "triple (at w0 (tmap w0)) (handle_thread_uncertain en s roles args) (\<lambda>_. safe w0 s cw) (safe w0 s cw)"
  unfolding handle_thread_uncertain_def guard_defs
  by (intro call_rules; (erule safeI [rotated]; (rule evolves_refl evolves_post | assumption | simp only: new_entry_simps fresh_body.simps question.simps escalation.simps simp_thms)+)?)

lemma triple_decision_seq:
  assumes "\<And>x. triple (at w0 m) (f x) Q E" "\<And>w. at w0 m w \<Longrightarrow> E w"
  shows "triple (at w0 m) (bind_act (next_decision_seq t) f) Q E"
  by (rule triple_step [where R = "\<lambda>_. True" and P' = "at w0 m"])
    (use assms in \<open>simp_all add: next_decision_seq_def split: option.split sum.split\<close>)

lemma at_decisions: "at w0 m w \<Longrightarrow> at w0 m (w\<lparr>w_decisions := x\<rparr>)"
  unfolding at_def world_inv_def by (elim conjE, intro conjI) simp_all

lemma triple_write_decision:
  assumes "\<And>x. triple (at w0 m) (f x) Q E"
  shows "triple (at w0 m) (bind_act (write_decision_record r) f) Q E"
  by (rule triple_step [where R = "\<lambda>_. True" and P' = "at w0 m"])
    (use assms at_decisions in \<open>simp_all add: write_decision_record_def Let_def\<close>)

lemma decide_safe: "triple (at w0 (tmap w0)) (handle_thread_decide en s args) (\<lambda>_. safe w0 s cw) (safe w0 s cw)"
  unfolding handle_thread_decide_def guard_defs
  by (intro call_rules triple_decision_seq triple_write_decision; (rule safeI; auto)?)

lemma triple_safe_update:
  assumes "evolves w0 s cw (tmap w0) m" "m i = Some e" "tmap w0 i = Some e" "body_step w0 s cw e b"
    and ch: "changed_doc (dump_entry e) ch = dump_entry (e\<lparr>te_body := b\<rparr>)" "body_valid (te_body e) \<Longrightarrow> body_valid b"
      "distinct (keys ch)" "''_op'' \<notin> set (keys ch)" "\<forall>f \<in> set thread_index. f \<notin> set (keys ch)"
    and rest: "evolves w0 s cw (tmap w0) (m(i \<mapsto> e\<lparr>te_body := b\<rparr>)) \<Longrightarrow>
      triple (at w0 (m(i \<mapsto> e\<lparr>te_body := b\<rparr>))) (f True) Q (safe w0 s cw)"
  shows "triple (at w0 m) (bind_act (update_entry i ch) f) Q (safe w0 s cw)"
proof (rule triple_update_body [where m = m and e = e and b = b, OF assms(2) ch])
  show "triple (at w0 (m(i \<mapsto> e\<lparr>te_body := b\<rparr>))) (f True) Q (safe w0 s cw)"
    by (rule rest, rule evolves_update) (fact assms)+
qed (assumption, rule safeI [OF assms(1)])

lemmas thread_keys = thread_index_def objection_ok_def system_event_ok_def

lemma accept_resolution_safe:
  "triple (at w0 (tmap w0)) (handle_thread_accept_resolution en s args) (\<lambda>_. safe w0 s cw) (safe w0 s cw)"
  unfolding handle_thread_accept_resolution_def guard_defs
  apply (intro call_rules; (rule safeI; auto; fail)?)
  subgoal for i e x
    by (rule triple_safe_update [where b = "Objection (x\<lparr>o_resolved_by := Some s\<rparr>)"])
      (auto intro!: triple_publish triple_ret body_step.accept_resolution intro: safeI simp: patch_objection thread_keys)
  done

lemma triple_answer_to:
  assumes "accepted = None \<Longrightarrow> triple (at w0 m) (k []) Q E"
    and "\<And>aid a x. accepted = Some aid \<Longrightarrow> m aid = Some a \<Longrightarrow> te_body a = Answer x \<Longrightarrow> a_question_id x = i \<Longrightarrow>
      triple (at w0 m) (k [(''accepted_answer_id'', JStr aid)]) Q E"
    and "\<And>w. at w0 m w \<Longrightarrow> E w"
  shows "triple (at w0 m) (require_answer_to en i accepted k) Q E"
  unfolding require_answer_to_def
  using assms by (auto intro!: triple_require_entry triple_require triple_raise split: option.split body.split)

lemma resolve_question_plain: "te_body e = Question q \<Longrightarrow> q_resolved_by q = None \<Longrightarrow> te_author e = s \<Longrightarrow>
    body_step w s cw e (Question (q\<lparr>q_resolved_by := Some s\<rparr>))"
  using body_step.resolve_question [of e q s w cw "q_accepted_answer_id q"] by simp

lemma resolve_question_safe:
  "triple (at w0 (tmap w0)) (handle_thread_resolve_question en s args) (\<lambda>_. safe w0 s cw) (safe w0 s cw)"
  unfolding handle_thread_resolve_question_def guard_defs
  apply (intro call_rules triple_answer_to; (rule safeI; auto; fail)?)
  subgoal for i acc e q
    by (rule triple_safe_update [where b = "Question (q\<lparr>q_resolved_by := Some s\<rparr>)"])
      (auto intro!: triple_publish triple_ret resolve_question_plain intro: safeI simp: patch_question thread_keys)
  subgoal for i acc e q aid a x
    by (rule triple_safe_update [where b = "Question (q\<lparr>q_resolved_by := Some s, q_accepted_answer_id := Some aid\<rparr>)"])
      (auto intro!: triple_publish triple_ret body_step.resolve_question intro: safeI simp: patch_question thread_keys)
  done

lemma waive_safe:
  "triple (at w0 (tmap w0)) (handle_thread_waive en s cw args) (\<lambda>_. safe w0 s cw) (safe w0 s cw)"
  unfolding handle_thread_waive_def guard_defs
  apply (intro call_rules; (rule safeI; auto; fail)?)
  subgoal for i j e x
    by (rule triple_safe_update [where b = "Objection (x\<lparr>o_waived_by := Some s\<rparr>)"])
      (auto intro!: triple_publish triple_ret body_step.waive intro: safeI simp: patch_objection thread_keys)
  done

lemma find_rev: "List.find P (rev xs) = Some x \<Longrightarrow> x \<in> set xs \<and> P x"
  by (auto simp: find_Some_iff) (metis length_rev nth_mem set_rev)

text \<open>The target of a check waiver is an entry of the store, under its own id.\<close>

lemma triple_find_check_failure:
  assumes k: "\<And>i e v. m i = Some e \<Longrightarrow> te_id e = i \<Longrightarrow> te_body e = SystemEvent v \<Longrightarrow>
      se_event_type v = ''check_failure'' \<Longrightarrow> triple (at w0 m) (k e v) Q E"
    and E: "\<And>w. at w0 m w \<Longrightarrow> E w"
  shows "triple (at w0 m) (find_check_failure en args k) Q E"
proof -
  have by_id: "triple (at w0 m) (require_entry en i (\<lambda>e. case te_body e of
      SystemEvent s \<Rightarrow> require (se_event_type s = ''check_failure'') (ThreadError ''not a check_failure event'') (k e s)
    | _ \<Rightarrow> raise (ThreadError ''not a check_failure event''))) Q E" for i
  proof (rule triple_at)
    fix w assume w: "at w0 m w"
    show "triple (at w0 m) (require_entry en i (\<lambda>e. case te_body e of
      SystemEvent s \<Rightarrow> require (se_event_type s = ''check_failure'') (ThreadError ''not a check_failure event'') (k e s)
    | _ \<Rightarrow> raise (ThreadError ''not a check_failure event''))) Q E"
      using at_entry [OF w] k E
      by (intro triple_require_entry) (auto intro!: triple_require triple_raise split: body.split)
  qed
  have by_name: "triple (at w0 m) (bind_act (latest_check_failure_for_name en t n) (\<lambda>ev. case ev of
        None \<Rightarrow> raise (ThreadError ''no unwaived check_failure'')
      | Some e \<Rightarrow> (case te_body e of SystemEvent s \<Rightarrow> k e s | _ \<Rightarrow> raise (ThreadError ''no unwaived check_failure'')))) Q E" for t n
  proof (rule triple_at)
    fix w assume w: "at w0 m w"
    show "triple (at w0 m) (bind_act (latest_check_failure_for_name en t n) (\<lambda>ev. case ev of
        None \<Rightarrow> raise (ThreadError ''no unwaived check_failure'')
      | Some e \<Rightarrow> (case te_body e of SystemEvent s \<Rightarrow> k e s | _ \<Rightarrow> raise (ThreadError ''no unwaived check_failure'')))) Q E"
    proof (rule triple_bind)
      show "triple (at w0 m) (latest_check_failure_for_name en t n)
         (\<lambda>x w. at w0 m w \<and> (\<forall>e. x = Some e \<longrightarrow> m (te_id e) = Some e \<and> open_check_failure n e)) E"
        unfolding latest_check_failure_for_name_def
        by (rule triple_ticket_entries, rule triple_ret)
          (use at_entry [OF w] in \<open>auto dest!: find_rev\<close>)
    next
      fix x
      show "triple (\<lambda>w. at w0 m w \<and> (\<forall>e. x = Some e \<longrightarrow> m (te_id e) = Some e \<and> open_check_failure n e)) (case x of
        None \<Rightarrow> raise (ThreadError ''no unwaived check_failure'')
      | Some e \<Rightarrow> (case te_body e of SystemEvent s \<Rightarrow> k e s | _ \<Rightarrow> raise (ThreadError ''no unwaived check_failure''))) Q E"
      proof (cases x)
        case (Some e)
        show ?thesis
        proof (cases "m (te_id e) = Some e \<and> open_check_failure n e")
          case True
          then show ?thesis
            using k E Some by (auto simp: open_check_failure_def split: body.splits intro: triple_weaken)
        qed (auto simp: Some triple_def)
      qed (use E in \<open>auto intro: triple_raise\<close>)
    qed
  qed
  show ?thesis
    unfolding find_check_failure_def
    by (intro triple_arg_opt) (use by_id by_name E in \<open>auto intro!: triple_require_ticket triple_raise\<close>)
qed

lemma waive_check_safe:
  "triple (at w0 (tmap w0)) (handle_thread_waive_check en s cw args) (\<lambda>_. safe w0 s cw) (safe w0 s cw)"
  unfolding handle_thread_waive_check_def guard_defs
  apply (intro call_rules triple_find_check_failure; (rule safeI; auto; fail)?)
  subgoal for j i e v sev
    by (rule triple_safe_update [where b = "SystemEvent (v\<lparr>se_waived := True\<rparr>)"])
      (auto intro!: triple_publish triple_ret body_step.waive_check intro: safeI simp: patch_check thread_keys)
  done

lemma triple_res:
  assumes "\<And>x. r = Inr x \<Longrightarrow> triple (at w0 m) (f x) Q E" "\<And>w. at w0 m w \<Longrightarrow> E w"
  shows "triple (at w0 m) (bind_act (lift_res r) f) Q E"
  by (rule triple_step [where R = "\<lambda>x. r = Inr x"]) (use assms in \<open>auto simp: lift_res_def split: sum.split\<close>)

lemma triple_handoff_deferred:
  assumes "\<And>ds. triple (at w0 m) (k ds) Q E" "\<And>w. at w0 m w \<Longrightarrow> E w"
  shows "triple (at w0 m) (handoff_deferred en cps t p ds k) Q E"
  unfolding handoff_deferred_def using assms by (auto intro: triple_checkpoints)

lemma triple_pure:
  "(\<And>x. triple (at w0 m) (f x) Q E) \<Longrightarrow> triple (at w0 m) (bind_act (ret y) f) Q E"
  by (rule triple_step [where R = "\<lambda>_. True" and P' = "at w0 m"]) (auto simp: ret_def)

lemma triple_post_checkpoint_if:
  assumes "\<And>x. triple (at w0 m) (f x) Q E" "\<And>w. at w0 m w \<Longrightarrow> E w"
  shows "triple (at w0 m) (bind_act (if b then post_checkpoint c else ret []) f) Q E"
  using assms by (auto intro: triple_post_checkpoint triple_pure)

lemma triple_json_list:
  "(\<And>xs. x = JList xs \<Longrightarrow> triple P (f xs) Q E) \<Longrightarrow> (\<And>w. P w \<Longrightarrow> E w) \<Longrightarrow>
     triple P (case x of JList xs \<Rightarrow> f xs | _ \<Rightarrow> raise e) Q E"
  by (cases x) (auto intro: triple_raise)

lemma handoff_safe:
  "triple (at w0 (tmap w0)) (handle_thread_handoff en s cps args) (\<lambda>_. safe w0 s cw) (safe w0 s cw)"
  unfolding handle_thread_handoff_def guard_defs
  by (intro call_rules triple_json_list triple_res triple_handoff_deferred triple_post_checkpoint_if;
      (rule safeI; auto; fail)?)

text \<open>A phase without an evaluator block is resolved without looking at its history.\<close>

lemma resolve_without_history:
  "\<not> wants_history flow p \<Longrightarrow> resolve_phase_evaluator flow p hs = resolve_phase_evaluator flow p hs'"
  by (auto simp: wants_history_def resolve_phase_evaluator_def split: option.splits)

lemma triple_phase_evaluator:
  assumes "\<And>r es. ticket_thread m t es \<Longrightarrow> r = resolve_phase_evaluator flow p (handoffs_of es) \<Longrightarrow> triple (at w0 m) (f r) Q E"
  shows "triple (at w0 m) (bind_act (phase_evaluator_of en flow p t) f) Q E"
proof (rule triple_at)
  fix w assume w: "at w0 m w"
  then have inv: "thread_inv (w_threads w)" and m: "m = thread_map (w_threads w)" by (simp_all add: at_def world_inv_def)
  obtain es where es: "ticket_thread m t es"
    by (rule for_ticket_refines [OF inv, of "en_draws en" t]) (use m in \<open>auto simp: ticket_thread_def\<close>)
  show "triple (at w0 m) (bind_act (phase_evaluator_of en flow p t) f) Q E"
  proof (rule triple_step [where R = "\<lambda>r. \<exists>es. ticket_thread m t es \<and> r = resolve_phase_evaluator flow p (handoffs_of es)"
      and P' = "at w0 m"])
    fix w assume w: "at w0 m w"
    have "triple (at w0 m) (phase_evaluator_of en flow p t)
       (\<lambda>r w. (\<exists>es. ticket_thread m t es \<and> r = resolve_phase_evaluator flow p (handoffs_of es)) \<and> at w0 m w) E"
    proof (cases "wants_history flow p")
      case True
      then show ?thesis
        by (auto simp: phase_evaluator_of_def ticket_thread_def intro!: triple_ticket_entries triple_ret)
    next
      case False
      then show ?thesis
        using es by (auto simp: phase_evaluator_of_def
          intro!: triple_pure triple_ret exI [of _ es] resolve_without_history [OF False])
    qed
    with w show "case phase_evaluator_of en flow p t w of (Inl _, w') \<Rightarrow> E w'
      | (Inr r, w') \<Rightarrow> (\<exists>es. ticket_thread m t es \<and> r = resolve_phase_evaluator flow p (handoffs_of es)) \<and> at w0 m w'"
      by (simp add: triple_def)
  qed (use assms in blast)
qed

text \<open>
  Closing a handoff: the action after the guards runs only when \<open>may_close\<close> holds.
\<close>

lemma may_closeI:
  "tmap w0 i = Some e \<Longrightarrow> s \<noteq> te_author e \<Longrightarrow> kmap w0 (te_ticket_id e) = Some t \<Longrightarrow>
     w_workflows w0 (tk_workflow t) = Inr flow \<Longrightarrow> ticket_thread (tmap w0) (te_ticket_id e) es \<Longrightarrow>
     Some r = resolve_phase_evaluator flow (h_phase h) (handoffs_of es) \<Longrightarrow> re_kind r \<noteq> KAutomated \<Longrightarrow>
     s \<in> set (re_actors r) \<Longrightarrow> may_close w0 s e h"
  unfolding may_close_def by metis

lemma triple_handoff_case:
  "(\<And>h. b = Handoff h \<Longrightarrow> triple P (f h) Q E) \<Longrightarrow> (\<And>w. P w \<Longrightarrow> E w) \<Longrightarrow>
     triple P (case b of Handoff h \<Rightarrow> f h | _ \<Rightarrow> raise e) Q E"
  by (cases b) (auto intro: triple_raise)

lemma handoff_open: "te_body e = Handoff h \<Longrightarrow> \<not> is_resolved e \<longleftrightarrow> h_acceptance_state h = Pending"
  by (simp add: is_resolved_def)

lemma handoff_closed:
  assumes "handoff_ok h" "h_acceptance_state h = Pending"
  shows "handoff_ok (h\<lparr>h_acceptance_state := Accepted, h_accepted_by := Some s\<rparr>)"
    and "handoff_ok (h\<lparr>h_acceptance_state := Rejected, h_rejection_reason := Some r\<rparr>)"
  using assms by (simp_all add: handoff_ok_def)

lemma accept_safe: "triple (at w0 (tmap w0)) (close_handoff en s cps i True r) (\<lambda>_. safe w0 s cw) (safe w0 s cw)"
  unfolding close_handoff_def Let_def simp_thms if_True
  apply (intro call_rules triple_handoff_case triple_phase_evaluator; (rule safeI; auto; fail)?)
  subgoal for e h t flow rs es r
    by (rule triple_safe_update [where b = "Handoff (h\<lparr>h_acceptance_state := Accepted, h_accepted_by := Some s\<rparr>)"])
      (auto intro!: triple_publish triple_ret triple_checkpoints triple_pure body_step.accept_handoff
        intro: safeI may_closeI simp: patch_handoff thread_index_def handoff_open handoff_closed)
  done

lemma reject_safe: "triple (at w0 (tmap w0)) (close_handoff en s cps i False r) (\<lambda>_. safe w0 s cw) (safe w0 s cw)"
  unfolding close_handoff_def Let_def simp_thms if_False
  apply (intro call_rules triple_handoff_case triple_phase_evaluator; (rule safeI; auto; fail)?)
  subgoal for e h t flow rs es r'
    by (rule triple_safe_update [where b = "Handoff (h\<lparr>h_acceptance_state := Rejected, h_rejection_reason := Some r\<rparr>)"])
      (auto intro!: triple_publish triple_ret triple_pure body_step.reject_handoff
        intro: safeI may_closeI simp: patch_handoff thread_index_def handoff_open handoff_closed)
  done

lemma accept_handoff_safe:
  "triple (at w0 (tmap w0)) (handle_thread_accept_handoff en s cps args) (\<lambda>_. safe w0 s cw) (safe w0 s cw)"
  unfolding handle_thread_accept_handoff_def by (intro triple_arg accept_safe) (auto intro: safeI)

lemma reject_handoff_safe:
  "triple (at w0 (tmap w0)) (handle_thread_reject_handoff en s cps args) (\<lambda>_. safe w0 s cw) (safe w0 s cw)"
  unfolding handle_thread_reject_handoff_def by (intro triple_arg triple_arg_or triple_require reject_safe) (auto intro: safeI)

end
