(* ===== verification/ThreadRuns.thy ===== *)
theory ThreadRuns
  imports ThreadProtocol TicketProps
begin

text \<open>
  The thread tools as an agent's tool server offers them (\<open>create_agent_mcp_server\<close> of
  \<open>jig/mcp_server.py\<close>): the role, its waiver tokens, the allowlists of its phase and the
  known roles are fixed when the server is made, the agent chooses the tool and the
  arguments.  Runs are sequences of such calls by any agents; the theorems say what no
  sequence of calls can do to the entries of a thread.
\<close>

section \<open>The tool server\<close>

record agent_ctx =
  ac_role :: string
  ac_valid_roles :: "string list"
  ac_checkpoints :: bool
  ac_can_waive :: "string list"
  ac_questions_to :: "string list"
  ac_escalation_targets :: "string list"

datatype thread_tool =
    ThreadAsk | ThreadAnswer | ThreadResolveQuestion
  | ThreadObject | ThreadResolveObjection | ThreadAcceptResolution
  | ThreadWaive | ThreadWaiveCheck | ThreadDecide | ThreadNote
  | ThreadEscalate | ThreadUncertain
  | ThreadHandoff | ThreadAcceptHandoff | ThreadRejectHandoff

definition or_none :: "string list \<Rightarrow> string list option" where
  \<comment> \<open>\<open>xs or None\<close>\<close>
  "or_none xs = (if xs = [] then None else Some xs)"

definition forwarded_waiver_args :: "doc \<Rightarrow> doc" where
  "forwarded_waiver_args args =
     filter (\<lambda>(k, v). k \<in> {''justification'', ''check_failure_id'', ''ticket_id'', ''check_name''} \<and> truthy v) args"

fun thread_tool_call :: "thread_tool \<Rightarrow> env \<Rightarrow> agent_ctx \<Rightarrow> doc \<Rightarrow> doc act" where
  "thread_tool_call ThreadAsk en c args = handle_thread_ask en (ac_role c) (or_none (ac_questions_to c)) args"
| "thread_tool_call ThreadAnswer en c args = handle_thread_answer en (ac_role c) args"
| "thread_tool_call ThreadResolveQuestion en c args = handle_thread_resolve_question en (ac_role c) args"
| "thread_tool_call ThreadObject en c args = handle_thread_object en (ac_role c) args"
| "thread_tool_call ThreadResolveObjection en c args = handle_thread_resolve_objection en (ac_role c) args"
| "thread_tool_call ThreadAcceptResolution en c args = handle_thread_accept_resolution en (ac_role c) args"
| "thread_tool_call ThreadWaive en c args = handle_thread_waive en (ac_role c) (ac_can_waive c) args"
| "thread_tool_call ThreadWaiveCheck en c args =
     handle_thread_waive_check en (ac_role c) (ac_can_waive c) (forwarded_waiver_args args)"
| "thread_tool_call ThreadDecide en c args = handle_thread_decide en (ac_role c) args"
| "thread_tool_call ThreadNote en c args = handle_thread_note en (ac_role c) args"
| "thread_tool_call ThreadEscalate en c args =
     handle_thread_escalate en (ac_role c) (or_none (ac_escalation_targets c)) args"
| "thread_tool_call ThreadUncertain en c args = handle_thread_uncertain en (ac_role c) (ac_valid_roles c) args"
| "thread_tool_call ThreadHandoff en c args = handle_thread_handoff en (ac_role c) (ac_checkpoints c) args"
| "thread_tool_call ThreadAcceptHandoff en c args = handle_thread_accept_handoff en (ac_role c) (ac_checkpoints c) args"
| "thread_tool_call ThreadRejectHandoff en c args = handle_thread_reject_handoff en (ac_role c) (ac_checkpoints c) args"

lemmas handler_safe = ask_safe answer_safe resolve_question_safe object_safe resolve_objection_safe
  accept_resolution_safe waive_safe waive_check_safe decide_safe note_safe escalate_safe uncertain_safe
  handoff_safe accept_handoff_safe reject_handoff_safe

lemma tool_call_safe:
  "triple (at w0 (tmap w0)) (thread_tool_call t en c args)
     (\<lambda>_. safe w0 (ac_role c) (ac_can_waive c)) (safe w0 (ac_role c) (ac_can_waive c))"
  by (cases t) (simp_all add: handler_safe)

lemma at_start: "world_inv w \<Longrightarrow> at w (tmap w) w"
  by (simp add: at_def)

lemma tool_call_evolves:
  assumes "world_inv w" "thread_tool_call t en c args w = (r, w')"
  shows "world_inv w'" "w_tickets w' = w_tickets w" "w_workflows w' = w_workflows w"
    "evolves w (ac_role c) (ac_can_waive c) (tmap w) (tmap w')"
proof -
  from tripleD [OF tool_call_safe at_start [OF assms(1)] assms(2)]
  have "safe w (ac_role c) (ac_can_waive c) w'" by (cases r) simp_all
  then show "world_inv w'" "w_tickets w' = w_tickets w" "w_workflows w' = w_workflows w"
    "evolves w (ac_role c) (ac_can_waive c) (tmap w) (tmap w')"
    unfolding safe_def by blast+
qed

section \<open>Runs\<close>

inductive agent_step :: "world \<Rightarrow> world \<Rightarrow> bool" where
  call: "thread_tool_call t en c args w = (r, w') \<Longrightarrow> agent_step w w'"

inductive_cases agent_stepE: "agent_step w w'"

abbreviation agent_run :: "world \<Rightarrow> world \<Rightarrow> bool" where
  "agent_run \<equiv> agent_step\<^sup>*\<^sup>*"

definition authorised :: "thread_entry \<Rightarrow> bool" where
  \<comment> \<open>who closed the entry was entitled to\<close>
  "authorised e \<longleftrightarrow> (case te_body e of
     Question q \<Rightarrow> q_resolved_by q \<in> {None, Some (te_author e)}
   | Objection x \<Rightarrow> o_resolved_by x \<in> {None, Some (te_author e)} \<and> (o_resolved_by x = None \<or> o_waived_by x = None)
   | Handoff h \<Rightarrow> h_accepted_by h \<noteq> Some (te_author e)
   | _ \<Rightarrow> True)"

definition closed_entry :: "thread_entry \<Rightarrow> bool" where
  "closed_entry e \<longleftrightarrow> (case te_body e of
     SystemEvent v \<Rightarrow> se_event_type v \<noteq> ''check_failure'' \<or> se_waived v | _ \<Rightarrow> is_resolved e)"

lemma authorised_fresh: "fresh_body b \<Longrightarrow> te_body e = b \<Longrightarrow> body_valid b \<Longrightarrow> authorised e"
  by (cases b) (auto simp: authorised_def handoff_ok_def)

lemma authorised_step:
  assumes "body_step w s cw e b" "authorised e" "entry_valid e"
  shows "authorised (e\<lparr>te_body := b\<rparr>)"
  using assms by (cases rule: body_step.cases)
    (auto simp: authorised_def may_close_def entry_valid_def handoff_ok_def)

lemma closed_step: "body_step w s cw e b \<Longrightarrow> \<not> closed_entry e"
  by (cases rule: body_step.cases) (auto simp: closed_entry_def is_resolved_def)

lemma world_entry_valid: "world_inv w \<Longrightarrow> tmap w i = Some e \<Longrightarrow> te_id e = i \<and> body_valid (te_body e)"
  using at_entry [OF at_start] by (simp add: entry_valid_def)

text \<open>What one call keeps of every entry, stated once for the run theorems.\<close>

lemma call_keeps:
  assumes "world_inv w" "thread_tool_call t en c args w = (r, w')" "tmap w i = Some e"
  obtains b where "tmap w' i = Some (e\<lparr>te_body := b\<rparr>)" "b = te_body e \<or> body_step w (ac_role c) (ac_can_waive c) e b"
  using tool_call_evolves(4) [OF assms(1,2)] assms(3) unfolding evolves_def by blast

lemma call_adds:
  assumes "world_inv w" "thread_tool_call t en c args w = (r, w')" "tmap w i = None" "tmap w' i = Some e"
  shows "te_author e = ac_role c" "fresh_body (te_body e)"
  using tool_call_evolves(4) [OF assms(1,2)] assms(3,4) unfolding evolves_def by blast+

lemma agent_step_inv: "agent_step w w' \<Longrightarrow> world_inv w \<Longrightarrow> world_inv w'"
  by (elim agent_stepE) (rule tool_call_evolves(1))

lemma agent_run_inv: "agent_run w w' \<Longrightarrow> world_inv w \<Longrightarrow> world_inv w'"
  by (induction rule: rtranclp_induct) (auto intro: agent_step_inv)

lemma authorised_call:
  assumes "world_inv w" "thread_tool_call t en c args w = (r, w')" "\<forall>i e. tmap w i = Some e \<longrightarrow> authorised e"
  shows "\<forall>i e. tmap w' i = Some e \<longrightarrow> authorised e"
proof (intro allI impI)
  fix i e' assume e': "tmap w' i = Some e'"
  show "authorised e'"
  proof (cases "tmap w i")
    case None
    from call_adds [OF assms(1,2) None e'] world_entry_valid [OF tool_call_evolves(1) [OF assms(1,2)] e'] show ?thesis
      by (auto intro: authorised_fresh)
  next
    case (Some e)
    from world_entry_valid [OF assms(1) Some] assms(3) Some call_keeps [OF assms(1,2) Some] e' show ?thesis
      by (metis authorised_step entry_valid_def option.inject te_body_same)
  qed
qed

lemma kind_step: "body_step w s cw e b \<Longrightarrow> body_kind b = te_kind e"
  by (erule body_step.cases) auto

lemma waive_step:
  "body_step w s cw e (Objection x') \<Longrightarrow> te_body e = Objection x \<Longrightarrow> o_waived_by x' \<noteq> o_waived_by x \<Longrightarrow>
     ''objection'' \<in> set cw \<and> o_waived_by x' = Some s"
  by (erule body_step.cases) auto

lemma waive_check_step:
  "body_step w s cw e (SystemEvent v') \<Longrightarrow> te_body e = SystemEvent v \<Longrightarrow> se_waived v' \<noteq> se_waived v \<Longrightarrow>
     \<exists>sev. se_check_severity v = Some sev \<and> ''check_failure:'' @ sev \<in> set cw"
  by (erule body_step.cases) auto

section \<open>What no sequence of calls can do\<close>

text \<open>
  The tools keep the world well formed: after any sequence of calls by any agents,
  whatever the arguments and whether the calls return or raise, the thread store and the
  bus are well formed and every entry is still there, with its id, ticket, author, time and
  kind; tickets and workflows are untouched.
\<close>

theorem thread_tools_keep_entries:
  assumes "agent_run w w'" "world_inv w"
  shows "world_inv w' \<and> w_tickets w' = w_tickets w \<and> w_workflows w' = w_workflows w \<and>
    (\<forall>i e. tmap w i = Some e \<longrightarrow> (\<exists>b. tmap w' i = Some (e\<lparr>te_body := b\<rparr>) \<and> body_kind b = te_kind e))"
  using assms
proof (induction rule: rtranclp_induct)
  case base
  have "\<exists>b. Some e = Some (e\<lparr>te_body := b\<rparr>) \<and> body_kind b = te_kind e" for e
    by (rule exI [of _ "te_body e"]) simp
  with base show ?case by simp
next
  case (step w1 w2)
  from step.hyps(2) obtain t en c args r where c: "thread_tool_call t en c args w1 = (r, w2)" by (rule agent_stepE)
  from step.IH [OF step.prems] have inv: "world_inv w1" "w_tickets w1 = w_tickets w" "w_workflows w1 = w_workflows w"
    and ih: "\<And>i e. tmap w i = Some e \<Longrightarrow> \<exists>b. tmap w1 i = Some (e\<lparr>te_body := b\<rparr>) \<and> body_kind b = te_kind e"
    by blast+
  have "\<exists>b. tmap w2 i = Some (e\<lparr>te_body := b\<rparr>) \<and> body_kind b = te_kind e" if e: "tmap w i = Some e" for i e
  proof -
    from ih [OF e] obtain b where b: "tmap w1 i = Some (e\<lparr>te_body := b\<rparr>)" "body_kind b = te_kind e" by blast
    from call_keeps [OF inv(1) c b(1)] obtain b' where "tmap w2 i = Some (e\<lparr>te_body := b\<rparr>\<lparr>te_body := b'\<rparr>)"
      "b' = b \<or> body_step w1 (ac_role c) (ac_can_waive c) (e\<lparr>te_body := b\<rparr>) b'" by auto
    with b(2) kind_step show ?thesis by fastforce
  qed
  with tool_call_evolves(1-3) [OF inv(1) c] inv(2,3) show ?case by simp
qed

text \<open>
  What the thread tools alone keep: questions closed by their askers, objections accepted by the
  objectors, handoffs accepted by others than their authors.
\<close>

lemma agents_stay_authorised:
  assumes "agent_run w w'" "world_inv w" "\<forall>i e. tmap w i = Some e \<longrightarrow> authorised e"
  shows "\<forall>i e. tmap w' i = Some e \<longrightarrow> authorised e"
  using assms(1)
proof (induction rule: rtranclp_induct)
  case (step w1 w2)
  from step.hyps(2) obtain t en c args r where "thread_tool_call t en c args w1 = (r, w2)" by (rule agent_stepE)
  with agent_run_inv [OF step.hyps(1) assms(2)] show ?case using step.IH by (rule authorised_call)
qed (rule assms(3))

text \<open>
  C3: Who closes a handoff with the thread tools: a call of one of them changes a handoff only if it was pending,
  the agent is not its author and is one of the actors that the workflow's evaluator for the phase
  resolves to over the ticket's thread; it is then accepted by that agent, or rejected.  What the gate
  of the harness does to a handoff is no call of an agent and not spoken of.
\<close>

theorem handoff_closed_by_evaluator:
  assumes "thread_tool_call t en c args w = (r, w')" "world_inv w" "tmap w i = Some e" "te_body e = Handoff h"
    "tmap w' i \<noteq> tmap w i"
  shows "h_acceptance_state h = Pending \<and> may_close w (ac_role c) e h \<and>
    (\<exists>h'. tmap w' i = Some (e\<lparr>te_body := Handoff h'\<rparr>) \<and>
       (h' = h\<lparr>h_acceptance_state := Accepted, h_accepted_by := Some (ac_role c)\<rparr> \<or>
        (\<exists>reason. h' = h\<lparr>h_acceptance_state := Rejected, h_rejection_reason := Some reason\<rparr>)))"
proof -
  from call_keeps [OF assms(2,1,3)] obtain b where b: "tmap w' i = Some (e\<lparr>te_body := b\<rparr>)"
    "b = te_body e \<or> body_step w (ac_role c) (ac_can_waive c) e b" by blast
  with assms(3,5) have "body_step w (ac_role c) (ac_can_waive c) e b" by auto
  from this b(1) assms(4) show ?thesis by (cases rule: body_step.cases) auto
qed

text \<open>
  C5: A waiver needs its token: an objection that a call waives, or a failed check it
  waives, is one the agent holds the token for: \<open>objection\<close>, or \<open>check_failure:\<close> with the
  severity recorded in the event.
\<close>

theorem waiver_needs_token:
  assumes "thread_tool_call t en c args w = (r, w')" "world_inv w" "tmap w i = Some e" "tmap w' i = Some e'"
  shows "(\<forall>x x'. te_body e = Objection x \<and> te_body e' = Objection x' \<and> o_waived_by x' \<noteq> o_waived_by x \<longrightarrow>
      ''objection'' \<in> set (ac_can_waive c) \<and> o_waived_by x' = Some (ac_role c)) \<and>
    (\<forall>v v'. te_body e = SystemEvent v \<and> te_body e' = SystemEvent v' \<and> se_waived v' \<noteq> se_waived v \<longrightarrow>
      (\<exists>sev. se_check_severity v = Some sev \<and> ''check_failure:'' @ sev \<in> set (ac_can_waive c)))"
proof -
  from call_keeps [OF assms(2,1,3)] obtain b where "tmap w' i = Some (e\<lparr>te_body := b\<rparr>)"
    "b = te_body e \<or> body_step w (ac_role c) (ac_can_waive c) e b" .
  moreover from this(1) assms(4) have "e' = e\<lparr>te_body := b\<rparr>" by simp
  ultimately have st: "te_body e' = te_body e \<or> body_step w (ac_role c) (ac_can_waive c) e (te_body e')" by simp
  show ?thesis
  proof (intro conjI allI impI; elim conjE)
    fix x x' assume x: "te_body e = Objection x" "te_body e' = Objection x'" "o_waived_by x' \<noteq> o_waived_by x"
    with st have "body_step w (ac_role c) (ac_can_waive c) e (Objection x')" by (metis body.inject(3))
    from waive_step [OF this x(1,3)]
    show "''objection'' \<in> set (ac_can_waive c)" "o_waived_by x' = Some (ac_role c)" by (rule conjunct1, rule conjunct2)
  next
    fix v v' assume v: "te_body e = SystemEvent v" "te_body e' = SystemEvent v'" "se_waived v' \<noteq> se_waived v"
    with st have "body_step w (ac_role c) (ac_can_waive c) e (SystemEvent v')" by (metis body.inject(12))
    from waive_check_step [OF this v(1,3)]
    show "\<exists>sev. se_check_severity v = Some sev \<and> ''check_failure:'' @ sev \<in> set (ac_can_waive c)" .
  qed
qed

section \<open>What the entitled agents can do\<close>

text \<open>An update of an entry fails exactly when its log line is over the cap of the store.\<close>

abbreviation fits :: "string \<Rightarrow> doc \<Rightarrow> jsonl_store \<Rightarrow> bool" where
  "fits i ch st \<equiv> dumps_len (JObj (update_record (JStr i) ch)) \<le> st_max_record_bytes st"

lemma thread_update_fits:
  assumes inv: "thread_inv st" and cur: "thread_map st i = Some e" and u: "updatable st ch"
    and new: "changed_doc (dump_entry e) ch = dump_entry e'" "entry_valid e'" "te_id e' = i"
  shows "\<not> fits i ch st \<and> thread_update i ch st = (Inl RecordTooLargeError, st) \<or>
    fits i ch st \<and> (\<exists>st'. thread_update i ch st = (Inr True, st') \<and> thread_inv st' \<and> thread_map st' = (thread_map st)(i \<mapsto> e'))"
proof (cases "fits i ch st")
  case False
  moreover have "thread_update i ch st = (Inl RecordTooLargeError, st)"
    using False inv cur unfolding thread_update_def thread_map_def
    by (intro update_doc_too_large) (auto simp: th.models_Some)
  ultimately show ?thesis by simp
next
  case True
  have "store_inv st" "map_of (st_docs st) (JStr i) = Some (dump_entry e)"
    using inv cur unfolding thread_map_def by (auto simp: th.models_Some model_inv_def)
  from update_doc_ok [OF this u True] have "fst (thread_update i ch st) = Inr True"
    unfolding thread_update_def by (metis fst_conv)
  with True thread_update_refines [OF assms] show ?thesis by auto
qed

text \<open>
  A question can always be closed by its asker: for an open question of the store, the
  call of its author resolves it, whoever it was addressed to, so that it blocks no longer;
  or the log line is over the record cap and nothing has changed.
\<close>

theorem asker_can_resolve:
  assumes "world_inv w" "tmap w i = Some e" "te_body e = Question q" "q_resolved_by q = None" "ac_role c = te_author e"
    and "thread_tool_call ThreadResolveQuestion en c [(''question_id'', JStr i)] w = (r, w')"
  shows "(\<exists>e'. tmap w' = (tmap w)(i \<mapsto> e') \<and> e' = e\<lparr>te_body := Question (q\<lparr>q_resolved_by := Some (te_author e)\<rparr>)\<rparr> \<and>
      \<not> is_blocking e') \<or>
    \<not> fits i [(''resolved_by'', JStr (te_author e))] (w_threads w) \<and> r = Inl RecordTooLargeError \<and> w' = w"
proof -
  let ?ch = "[(''resolved_by'', JStr (te_author e))]"
  let ?e' = "e\<lparr>te_body := Question (q\<lparr>q_resolved_by := Some (te_author e)\<rparr>)\<rparr>"
  have inv: "thread_inv (w_threads w)" using assms(1) by (simp add: world_inv_def)
  have e: "te_id e = i" "body_valid (te_body e)" using world_entry_valid [OF assms(1,2)] by simp_all
  have g: "get_entry en i w = (Inr (Some e), w)"
    using assms(2) by (simp add: get_entry_def thread_get_refines [OF inv])
  have "st_index_fields (w_threads w) = thread_index" using inv by (simp add: model_inv_def)
  then have u: "updatable (w_threads w) ?ch" by (simp add: updatable_def thread_index_def)
  have ok: "entry_valid ?e'" "te_id ?e' = i" using e assms(3) by (simp_all add: entry_valid_def)
  have call: "thread_tool_call ThreadResolveQuestion en c [(''question_id'', JStr i)] w =
    bind_act (update_entry i ?ch) (\<lambda>_. bind_act (publish_msg en 0 (te_author e) ''broadcast'' MContextUpdate
      [(''kind'', JStr ''thread_question_resolved''), (''ticket_id'', JStr (te_ticket_id e)), (''question_id'', JStr i),
       (''resolved_by'', JStr (te_author e)), (''accepted_answer_id'', JNull), (''reason'', JNull)] (topic (te_ticket_id e)))
      (\<lambda>_. ret [(''question_id'', JStr i), (''resolved_by'', JStr (te_author e)), (''accepted_answer_id'', JNull)])) w"
    using assms(3-5) g by (simp add: handle_thread_resolve_question_def arg_def arg_opt_def require_entry_def
      bind_act_def as_open_question_def require_def is_resolved_def require_answer_to_def jopt_def dict_get_def)
  from thread_update_fits [OF inv assms(2) u patch_question(1) [OF assms(3)] ok] show ?thesis
  proof (elim disjE exE conjE)
    assume big: "\<not> fits i ?ch (w_threads w)" and "thread_update i ?ch (w_threads w) = (Inl RecordTooLargeError, w_threads w)"
    then have "thread_tool_call ThreadResolveQuestion en c [(''question_id'', JStr i)] w = (Inl RecordTooLargeError, w)"
      unfolding call by (simp add: bind_act_def update_entry_def)
    with assms(6) big show ?thesis by simp
  next
    fix st assume "thread_update i ?ch (w_threads w) = (Inr True, st)" "thread_map st = (tmap w)(i \<mapsto> ?e')"
    then have "tmap w' = (tmap w)(i \<mapsto> ?e')"
      using assms(6) unfolding call
      by (auto simp: bind_act_def update_entry_def publish_msg_def ret_def split: prod.splits sum.splits)
    then show ?thesis by (simp add: is_blocking_def)
  qed
qed

lemma accept_handoff_effect:
  assumes "world_inv w" "tmap w i = Some e" "te_body e = Handoff h" "h_acceptance_state h = Pending"
    and "kmap w (te_ticket_id e) = Some t" "w_workflows w (tk_workflow t) = Inr flow"
    and "for_ticket (en_draws en) (te_ticket_id e) (w_threads w) = Inr es"
    and "resolve_phase_evaluator flow (h_phase h) (handoffs_of es) = Some res" "re_kind res \<noteq> KAutomated"
    and "ac_role c \<in> set (re_actors res)" "ac_role c \<noteq> te_author e"
    and "thread_tool_call ThreadAcceptHandoff en c [(''handoff_id'', JStr i)] w = (r, w')"
  shows "tmap w' = (tmap w)(i \<mapsto> e\<lparr>te_body := Handoff (h\<lparr>h_acceptance_state := Accepted,
      h_accepted_by := Some (ac_role c)\<rparr>)\<rparr>) \<or>
    \<not> fits i [(''acceptance_state'', JStr ''accepted''), (''accepted_by'', JStr (ac_role c))] (w_threads w) \<and>
      r = Inl RecordTooLargeError \<and> w' = w"
proof -
  let ?ch = "[(''acceptance_state'', JStr ''accepted''), (''accepted_by'', JStr (ac_role c))]"
  let ?e' = "e\<lparr>te_body := Handoff (h\<lparr>h_acceptance_state := Accepted, h_accepted_by := Some (ac_role c)\<rparr>)\<rparr>"
  have inv: "thread_inv (w_threads w)" "ticket_inv (ts_coll (w_tickets w))" using assms(1) by (simp_all add: world_inv_def)
  have e: "te_id e = i" "body_valid (te_body e)" using world_entry_valid [OF assms(1,2)] by simp_all
  have g: "get_entry en i w = (Inr (Some e), w)"
    using assms(2) by (simp add: get_entry_def thread_get_refines [OF inv(1)])
  have k: "get_ticket en (te_ticket_id e) w = (Inr (Some t), w)"
    using assms(5) by (simp add: get_ticket_def ticket_get_refines [OF inv(2)])
  have ev: "phase_evaluator_of en flow (h_phase h) (te_ticket_id e) w = (Inr (Some res), w)"
    using assms(7,8) resolve_without_history [of flow "h_phase h" "handoffs_of es" "handoffs_of []"]
    by (auto simp: phase_evaluator_of_def bind_act_def ticket_entries_def ret_def)
  have "st_index_fields (w_threads w) = thread_index" using inv by (simp add: model_inv_def)
  then have u: "updatable (w_threads w) ?ch" by (simp add: updatable_def thread_index_def)
  have ok: "entry_valid ?e'" "te_id ?e' = i" using e assms(3,4) by (simp_all add: entry_valid_def handoff_closed)
  obtain rest where call: "thread_tool_call ThreadAcceptHandoff en c [(''handoff_id'', JStr i)] w =
    bind_act (update_entry i ?ch) (\<lambda>_. bind_act
      (if ac_checkpoints c then on_checkpoints (mark_phase_historical (te_ticket_id e) (h_phase h)) else ret 0)
      (\<lambda>_. bind_act (publish_msg en 0 (ac_role c) ''broadcast'' MContextUpdate rest (topic (te_ticket_id e)))
      (\<lambda>_. ret [(''handoff_id'', JStr i), (''phase'', JStr (h_phase h)), (''acceptance_state'', JStr ''accepted'')]))) w"
    using assms(3-6,9-11) g k ev that
    by (simp add: handle_thread_accept_handoff_def close_handoff_def arg_def require_entry_def require_ticket_def
      bind_act_def require_def is_resolved_def read_workflow_def)
  from thread_update_fits [OF inv(1) assms(2) u patch_handoff(1) [OF assms(3)] ok] show ?thesis
  proof (elim disjE exE conjE)
    assume big: "\<not> fits i ?ch (w_threads w)" and "thread_update i ?ch (w_threads w) = (Inl RecordTooLargeError, w_threads w)"
    then have "thread_tool_call ThreadAcceptHandoff en c [(''handoff_id'', JStr i)] w = (Inl RecordTooLargeError, w)"
      unfolding call by (simp add: bind_act_def update_entry_def)
    with assms(12) big show ?thesis by simp
  next
    fix st assume "thread_update i ?ch (w_threads w) = (Inr True, st)" "thread_map st = (tmap w)(i \<mapsto> ?e')"
    then have "tmap w' = (tmap w)(i \<mapsto> ?e')"
      using assms(12) unfolding call
      by (auto simp: bind_act_def update_entry_def publish_msg_def on_checkpoints_def ret_def split: prod.splits sum.splits if_splits)
    then show ?thesis by simp
  qed
qed

text \<open>
  Any one of the actors is enough for the code, of a \<open>multi\<close> evaluator too, where the documentation wants all.
\<close>

lemma any_evaluator_accepts:
  assumes "world_inv w" "tmap w i = Some e" "te_body e = Handoff h" "h_acceptance_state h = Pending"
    and "kmap w (te_ticket_id e) = Some t" "w_workflows w (tk_workflow t) = Inr flow"
    and "for_ticket (en_draws en) (te_ticket_id e) (w_threads w) = Inr es"
    and "resolve_phase_evaluator flow (h_phase h) (handoffs_of es) = Some res" "re_kind res \<noteq> KAutomated"
    and "ac_role c \<in> set (re_actors res)" "ac_role c \<noteq> te_author e"
    and "thread_tool_call ThreadAcceptHandoff en c [(''handoff_id'', JStr i)] w = (r, w')"
  shows "tmap w' = (tmap w)(i \<mapsto> e\<lparr>te_body := Handoff (h\<lparr>h_acceptance_state := Accepted,
      h_accepted_by := Some (ac_role c)\<rparr>)\<rparr>) \<or>
    \<not> fits i [(''acceptance_state'', JStr ''accepted''), (''accepted_by'', JStr (ac_role c))] (w_threads w) \<and>
      r = Inl RecordTooLargeError \<and> w' = w"
  by (rule accept_handoff_effect [OF assms])

text \<open>
  C40: A pending handoff of a phase whose evaluator is one actor, and not the author, is accepted by that
  actor's first call; or the log line is over the record cap and nothing has changed.
\<close>

theorem single_evaluator_accepts:
  assumes "world_inv w" "tmap w i = Some e" "te_body e = Handoff h" "h_acceptance_state h = Pending"
    and "kmap w (te_ticket_id e) = Some t" "w_workflows w (tk_workflow t) = Inr flow"
    and "for_ticket (en_draws en) (te_ticket_id e) (w_threads w) = Inr es"
    and "resolve_phase_evaluator flow (h_phase h) (handoffs_of es) = Some res" "re_kind res \<in> {KRole, KHuman}"
    and "re_actors res = [ac_role c]" "ac_role c \<noteq> te_author e"
    and "thread_tool_call ThreadAcceptHandoff en c [(''handoff_id'', JStr i)] w = (r, w')"
  shows "tmap w' = (tmap w)(i \<mapsto> e\<lparr>te_body := Handoff (h\<lparr>h_acceptance_state := Accepted,
      h_accepted_by := Some (ac_role c)\<rparr>)\<rparr>) \<or>
    \<not> fits i [(''acceptance_state'', JStr ''accepted''), (''accepted_by'', JStr (ac_role c))] (w_threads w) \<and>
      r = Inl RecordTooLargeError \<and> w' = w"
  by (rule any_evaluator_accepts [OF assms(1-8) _ _ assms(11,12)]) (use assms(9,10) in auto)

section \<open>Witnesses\<close>

lemma demo_world_exists:
  assumes "entry_valid e" "dumps_len (JObj (insert_record [] (dump_entry e))) \<le> default_max_record_bytes"
  shows "\<exists>w. world_inv w \<and> tmap w = [te_id e \<mapsto> e] \<and> kmap w = [''t'' \<mapsto> demo_ticket] \<and>
    w_workflows w = (\<lambda>_. Inr demo_workflow) \<and> st_max_record_bytes (w_threads w) = default_max_record_bytes"
proof -
  have m: "st_max_record_bytes empty_threads = default_max_record_bytes" by (simp add: new_thread_store_def new_store_def)
  have inv: "thread_inv empty_threads" "thread_map empty_threads = Map.empty"
    using thread_inv_empty [of "\<lambda>xs. xs"] by simp_all
  obtain st where st: "thread_inv st" "thread_map st = [te_id e \<mapsto> e]" "st_max_record_bytes st = default_max_record_bytes"
    using th.insert_succeeds [OF inv(1) assms(1), of no_ctx "[]"] assms(2) m inv(2)
    unfolding thread_map_def by auto
  obtain ks where "ticket_inv (ts_coll ks)" "ticket_map ks = [''t'' \<mapsto> demo_ticket]"
    using demo_store_exists by blast
  with st empty_bus_inv show ?thesis
    by (intro exI [of _ "\<lparr>w_tickets = ks, w_threads = st, w_checkpoints = st, w_bus = empty_bus,
        w_workflows = \<lambda>_. Inr demo_workflow, w_decisions = None\<rparr>"]) (simp add: world_inv_def)
qed

definition demo_handoff :: thread_entry where
  "demo_handoff = \<lparr>te_id = ''h'', te_ticket_id = ''t'', te_author = ''dev'', te_created_at = 0,
     te_body = Handoff \<lparr>h_phase = ''dev'', h_outputs = [], h_summary = [], h_deferred_items = [], h_new_public_surfaces = [],
       h_changed_assumptions = [], h_required_followups = [], h_unknowns = [], h_acceptance_state = Pending,
       h_accepted_by = None, h_rejection_reason = None\<rparr>\<rparr>"

definition demo_objection :: thread_entry where
  "demo_objection = \<lparr>te_id = ''o'', te_ticket_id = ''t'', te_author = ''a'', te_created_at = 0,
     te_body = Objection \<lparr>o_target_artifact = ''x'', o_text = ''y'', o_resolved_by = None, o_waived_by = None\<rparr>\<rparr>"

definition demo_closed :: thread_entry where
  "demo_closed = demo_question\<lparr>te_body := Question \<lparr>q_target = ''b'', q_question = ''c'', q_blocking = True,
     q_resolved_by = Some ''a'', q_accepted_answer_id = None\<rparr>\<rparr>"

lemmas demo_entry_defs = entry_valid_def demo_question_def demo_closed_def demo_handoff_def demo_objection_def prose_ok_def
  max_agent_prose_len_def handoff_ok_def objection_ok_def insert_record_def stored_doc_def dump_entry_def jopt_def jstrs_def
  default_max_record_bytes_def dump_str_len_def dump_char_len_def

lemma demo_entries_ok:
  "entry_valid demo_question" "dumps_len (JObj (insert_record [] (dump_entry demo_question))) \<le> default_max_record_bytes"
  "entry_valid demo_closed" "dumps_len (JObj (insert_record [] (dump_entry demo_closed))) \<le> default_max_record_bytes"
  "entry_valid demo_handoff" "dumps_len (JObj (insert_record [] (dump_entry demo_handoff))) \<le> default_max_record_bytes"
  "entry_valid demo_objection" "dumps_len (JObj (insert_record [] (dump_entry demo_objection))) \<le> default_max_record_bytes"
  by (simp_all add: demo_entry_defs)

abbreviation demo_agent :: "string \<Rightarrow> string list \<Rightarrow> agent_ctx" where
  "demo_agent r ws \<equiv> \<lparr>ac_role = r, ac_valid_roles = [''dev'', ''reviewer''], ac_checkpoints = False, ac_can_waive = ws,
     ac_questions_to = [], ac_escalation_targets = []\<rparr>"

lemma agent_run_call: "agent_run w (snd (thread_tool_call t en c args w))"
  by (rule r_into_rtranclp, rule agent_step.call [of t en c args w "fst (thread_tool_call t en c args w)"]) simp

theorem thread_tools_keep_entries_witness:
  "\<exists>w. tmap w = [''q'' \<mapsto> demo_question] \<and> (\<forall>t en c args. world_inv (snd (thread_tool_call t en c args w)) \<and>
     (\<exists>b. tmap (snd (thread_tool_call t en c args w)) ''q'' = Some (demo_question\<lparr>te_body := b\<rparr>) \<and> body_kind b = ''question''))"
proof -
  obtain w where w: "world_inv w" "tmap w = [''q'' \<mapsto> demo_question]"
    using demo_world_exists [OF demo_entries_ok(1,2)] by (auto simp: demo_question_def)
  have "te_kind demo_question = ''question''" by (simp add: demo_question_def)
  with w thread_tools_keep_entries [OF agent_run_call w(1)] show ?thesis
    by (intro exI [of _ w]) (metis fun_upd_same)
qed

definition demo_env :: env where
  "demo_env = \<lparr>en_now = \<lambda>_. 0, en_uuid = \<lambda>n. replicate (Suc n) CHR ''u'', en_draws = no_draws\<rparr>"

theorem asker_can_resolve_witness:
  "\<exists>w. tmap w = [''q'' \<mapsto> demo_question] \<and>
     tmap (snd (thread_tool_call ThreadResolveQuestion demo_env (demo_agent ''a'' []) [(''question_id'', JStr ''q'')] w)) =
       [''q'' \<mapsto> demo_closed]"
proof -
  let ?c = "demo_agent ''a'' []"
  obtain w where w: "world_inv w" "tmap w = [''q'' \<mapsto> demo_question]" "st_max_record_bytes (w_threads w) = default_max_record_bytes"
    using demo_world_exists [OF demo_entries_ok(1,2)] by (auto simp: demo_question_def)
  let ?out = "thread_tool_call ThreadResolveQuestion demo_env ?c [(''question_id'', JStr ''q'')] w"
  have "fits ''q'' [(''resolved_by'', JStr ''a'')] (w_threads w)"
    unfolding w(3) by (simp add: update_record_def dict_without_def default_max_record_bytes_def dump_str_len_def dump_char_len_def)
  with asker_can_resolve [of w "''q''" demo_question _ ?c demo_env "fst ?out" "snd ?out"] w
  have "tmap (snd ?out) = [''q'' \<mapsto> demo_closed]"
    by (simp add: demo_question_def demo_closed_def)
  with w(2) show ?thesis by blast
qed

lemma demo_handoff_world:
  obtains w where "world_inv w" "tmap w = [''h'' \<mapsto> demo_handoff]" "kmap w = [''t'' \<mapsto> demo_ticket]"
    "w_workflows w = (\<lambda>_. Inr demo_workflow)" "st_max_record_bytes (w_threads w) = default_max_record_bytes"
    "for_ticket no_draws ''t'' (w_threads w) = Inr [demo_handoff]"
proof -
  obtain w where w: "world_inv w" "tmap w = [''h'' \<mapsto> demo_handoff]" "kmap w = [''t'' \<mapsto> demo_ticket]"
    "w_workflows w = (\<lambda>_. Inr demo_workflow)" "st_max_record_bytes (w_threads w) = default_max_record_bytes"
    using demo_world_exists [OF demo_entries_ok(5,6)] by (auto simp: demo_handoff_def)
  from w(1) have inv: "thread_inv (w_threads w)" by (simp add: world_inv_def)
  obtain es where es: "for_ticket no_draws ''t'' (w_threads w) = Inr es" "distinct (map te_id es)"
    "set es = {e. \<exists>i. tmap w i = Some e \<and> te_ticket_id e = ''t''}"
    by (rule for_ticket_refines [OF inv])
  have "set es = {demo_handoff}" unfolding es(3) w(2) by (auto simp: demo_handoff_def split: if_splits)
  moreover have "distinct es" using es(2) by (simp add: distinct_map)
  ultimately have "es = [demo_handoff]" by (cases es; cases "tl es") auto
  with w es(1) that show thesis by simp
qed

lemma demo_resolves: "resolve_phase_evaluator demo_workflow ''dev'' hs = Some (ResolvedEvaluator KRole [''reviewer''] [])"
  by (simp add: resolve_phase_evaluator_def demo_workflow_def natural_next_role_def)

abbreviation demo_accept :: "world \<Rightarrow> doc result \<times> world" where
  "demo_accept w \<equiv> thread_tool_call ThreadAcceptHandoff demo_env (demo_agent ''reviewer'' []) [(''handoff_id'', JStr ''h'')] w"

definition demo_accepted :: thread_entry where
  "demo_accepted = demo_handoff\<lparr>te_body := Handoff \<lparr>h_phase = ''dev'', h_outputs = [], h_summary = [], h_deferred_items = [],
     h_new_public_surfaces = [], h_changed_assumptions = [], h_required_followups = [], h_unknowns = [],
     h_acceptance_state = Accepted, h_accepted_by = Some ''reviewer'', h_rejection_reason = None\<rparr>\<rparr>"

lemma demo_accept_fits:
  "st_max_record_bytes st = default_max_record_bytes \<Longrightarrow>
     fits ''h'' [(''acceptance_state'', JStr ''accepted''), (''accepted_by'', JStr ''reviewer'')] st"
  by (simp add: update_record_def dict_without_def default_max_record_bytes_def dump_str_len_def dump_char_len_def)

theorem single_evaluator_accepts_witness:
  "\<exists>w. tmap w = [''h'' \<mapsto> demo_handoff] \<and> tmap (snd (demo_accept w)) = [''h'' \<mapsto> demo_accepted]"
proof -
  obtain w where w: "world_inv w" "tmap w = [''h'' \<mapsto> demo_handoff]" "kmap w = [''t'' \<mapsto> demo_ticket]"
    "w_workflows w = (\<lambda>_. Inr demo_workflow)" "st_max_record_bytes (w_threads w) = default_max_record_bytes"
    "for_ticket no_draws ''t'' (w_threads w) = Inr [demo_handoff]" by (rule demo_handoff_world)
  with demo_resolves demo_accept_fits [OF w(5)]
    single_evaluator_accepts [where w = w and i = "''h''" and e = demo_handoff and en = demo_env and flow = demo_workflow
      and c = "demo_agent ''reviewer'' []" and t = demo_ticket and r = "fst (demo_accept w)" and w' = "snd (demo_accept w)"
      and es = "[demo_handoff]" and res = "ResolvedEvaluator KRole [''reviewer''] []"]
  have "tmap (snd (demo_accept w)) = [''h'' \<mapsto> demo_accepted]"
    by (simp add: demo_env_def demo_handoff_def demo_accepted_def)
  with w(2) show ?thesis by blast
qed

theorem handoff_closed_by_evaluator_witness:
  "\<exists>w e h. tmap w = [''h'' \<mapsto> demo_handoff] \<and> tmap (snd (demo_accept w)) ''h'' = Some demo_accepted \<and>
     e = demo_handoff \<and> te_body e = Handoff h \<and> may_close w ''reviewer'' e h"
proof -
  obtain w where w: "world_inv w" "tmap w = [''h'' \<mapsto> demo_handoff]" "kmap w = [''t'' \<mapsto> demo_ticket]"
    "w_workflows w = (\<lambda>_. Inr demo_workflow)" "st_max_record_bytes (w_threads w) = default_max_record_bytes"
    "for_ticket no_draws ''t'' (w_threads w) = Inr [demo_handoff]" by (rule demo_handoff_world)
  with demo_resolves demo_accept_fits [OF w(5)]
    accept_handoff_effect [where w = w and i = "''h''" and e = demo_handoff and en = demo_env and flow = demo_workflow
      and c = "demo_agent ''reviewer'' []" and t = demo_ticket and r = "fst (demo_accept w)" and w' = "snd (demo_accept w)"
      and es = "[demo_handoff]" and res = "ResolvedEvaluator KRole [''reviewer''] []"]
  have a: "tmap (snd (demo_accept w)) = [''h'' \<mapsto> demo_accepted]"
    by (simp add: demo_env_def demo_handoff_def demo_accepted_def)
  obtain h where h: "te_body demo_handoff = Handoff h" by (simp add: demo_handoff_def)
  have "demo_accepted \<noteq> demo_handoff" by (simp add: demo_handoff_def demo_accepted_def)
  with handoff_closed_by_evaluator [where w = w and i = "''h''" and c = "demo_agent ''reviewer'' []", OF surjective_pairing w(1) _ h, of ThreadAcceptHandoff
      demo_env "[(''handoff_id'', JStr ''h'')]"] a w(2) h
  show ?thesis by (intro exI [of _ w] exI [of _ demo_handoff] exI [of _ h]) simp
qed

definition unwaived :: "thread_entry \<Rightarrow> bool" where
  "unwaived e = (case te_body e of Objection x \<Rightarrow> o_waived_by x = None | _ \<Rightarrow> False)"

theorem waiver_needs_token_witness:
  "\<exists>w. tmap w = [''o'' \<mapsto> demo_objection] \<and> (\<forall>t en r args. \<exists>e'.
     tmap (snd (thread_tool_call t en (demo_agent r [''check_failure:warning'']) args w)) ''o'' = Some e' \<and> unwaived e')"
proof -
  obtain w where w: "world_inv w" "tmap w = [''o'' \<mapsto> demo_objection]"
    using demo_world_exists [OF demo_entries_ok(7,8)] by (auto simp: demo_objection_def)
  have "\<exists>e'. tmap (snd (thread_tool_call t en (demo_agent r [''check_failure:warning'']) args w)) ''o'' = Some e' \<and> unwaived e'"
    for t en r args
  proof -
    let ?out = "thread_tool_call t en (demo_agent r [''check_failure:warning'']) args w"
    have o: "tmap w ''o'' = Some demo_objection" using w(2) by simp
    from call_keeps [OF w(1) surjective_pairing o, of t en _ args] obtain b where
      b: "tmap (snd ?out) ''o'' = Some (demo_objection\<lparr>te_body := b\<rparr>)" "b = te_body demo_objection \<or>
        body_step w (ac_role (demo_agent r [''check_failure:warning''])) (ac_can_waive (demo_agent r [''check_failure:warning''])) demo_objection b" .
    then have "body_kind b = ''objection''" using kind_step by (fastforce simp: demo_objection_def)
    then obtain x' where x': "b = Objection x'" by (cases b) simp_all
    from waiver_needs_token [OF surjective_pairing w(1) o b(1)] x'
    have "o_waived_by x' = None" by (simp add: demo_objection_def)
    with b(1) x' show ?thesis by (simp add: unwaived_def)
  qed
  with w(2) show ?thesis by blast
qed

end
