(* ===== verification/CheckGateProps.thy ===== *)
theory CheckGateProps
  imports CheckGate ThreadRuns
begin

text \<open>
  What the gate decides and what its verdict may do to a handoff: passing is exactly that
  every required check passed or had this very failure waived, and only a pending handoff
  is bounced or accepted.
\<close>

section \<open>The verdict\<close>

definition required_ok :: "catalog \<Rightarrow> check_result list \<Rightarrow> thread_entry list \<Rightarrow> string \<Rightarrow> bool" where
  \<comment> \<open>the newest result passed, or the newest failure event is a waiver of this run's commit\<close>
  "required_ok cat rs es n \<longleftrightarrow> (\<exists>c. catalog_get cat n = Some c \<and> (check_severity c = SevRequired \<longrightarrow>
     (\<exists>r. last_named n rs = Some r \<and> (cr_verdict r = VPass \<or> cr_commit_sha r \<noteq> [] \<and>
        (\<exists>e. List.find (check_failure_of n) (rev es) = Some e \<and> waives r e)))))"

definition blocked :: "gate_acc \<Rightarrow> bool" where
  "blocked acc \<longleftrightarrow> ga_failing acc \<noteq> [] \<or> ga_missing acc \<noteq> []"

lemma blocked_simps [simp]:
  "blocked (acc\<lparr>ga_missing := ga_missing acc @ [n]\<rparr>)" "blocked (acc\<lparr>ga_failing := ga_failing acc @ [f], ga_posted := ps\<rparr>)"
  "blocked (acc\<lparr>ga_failing := ga_failing acc @ [f]\<rparr>)"
  by (simp_all add: blocked_def)

lemma waived_run:
  assumes "for_ticket (en_draws en) t (w_threads w) = Inr es"
  shows "latest_failure_waived_for_result en t n r w = (Inr (cr_commit_sha r \<noteq> [] \<and>
     (\<exists>e. List.find (check_failure_of n) (rev es) = Some e \<and> waives r e)), w)"
  using assms by (simp add: latest_failure_waived_for_result_def ret_def bind_act_def ticket_entries_def split: option.split)

lemma gate_loop_ok:
  assumes "for_ticket (en_draws en) t (w_threads w) = Inr es" "\<And>n. map_of latest n = last_named n rs"
    and "\<forall>n \<in> set names. required_ok cat rs es n"
  shows "gate_loop en cat latest t post names acc w = (Inr acc, w)"
  using assms(3)
proof (induction names)
  case (Cons n names)
  then have "required_ok cat rs es n" by simp
  with Cons show ?case
    by (auto simp: required_ok_def assms(2) bind_act_def waived_run [OF assms(1)] split: option.split)
qed (simp add: ret_def)

lemma gate_loop_grows:
  "gate_loop en cat latest t post names acc w = (Inr acc', w') \<Longrightarrow> blocked acc \<Longrightarrow> blocked acc'"
proof (induction names arbitrary: post acc w)
  case (Cons n names)
  from Cons.prems show ?case
    by (auto simp: bind_act_def raise_def split: option.splits if_splits prod.splits sum.splits dest!: Cons.IH)
qed (simp add: ret_def)

lemma gate_loop_bad:
  assumes es: "for_ticket (en_draws en) t (w_threads w) = Inr es" and l: "\<And>n. map_of latest n = last_named n rs"
    and "gate_loop en cat latest t post names acc w = (Inr acc', w')" "\<exists>n \<in> set names. \<not> required_ok cat rs es n"
  shows "blocked acc'"
  using assms(3,4)
proof (induction names)
  case (Cons n names)
  show ?case
  proof (cases "required_ok cat rs es n")
    case True
    then have "gate_loop en cat latest t post (n # names) acc w = gate_loop en cat latest t post names acc w"
      by (auto simp: required_ok_def l bind_act_def waived_run [OF es] split: option.split)
    with Cons True show ?thesis by simp
  next
    case False
    with Cons.prems(1) show ?thesis
      by (auto simp: required_ok_def l bind_act_def raise_def waived_run [OF es]
        split: option.splits if_splits prod.splits sum.splits dest!: gate_loop_grows)
  qed
qed simp

lemma gate_loop_quiet: "gate_loop en cat latest t False names acc w = (r, w') \<Longrightarrow> w' = w"
proof (induction names arbitrary: acc)
  case (Cons n names)
  from Cons.prems show ?case
    by (auto simp: bind_act_def raise_def ret_def latest_failure_waived_for_result_def ticket_entries_def
      split: option.splits if_splits prod.splits sum.splits dest: Cons.IH)
qed (simp add: ret_def)

lemma last_named_distinct:
  "distinct (map cr_check_name xs) \<Longrightarrow> last_named n xs = map_of (map (\<lambda>r. (cr_check_name r, r)) xs) n"
  unfolding last_named_def
  by (induction xs) (auto simp: find_append find_None_iff image_iff split: option.split dest!: map_of_SomeD)

lemma latest_batch_last: "map_of (latest_of (map snd (latest_of rs))) n = last_named n rs"
proof -
  have "map cr_check_name (map snd (latest_of rs)) = keys (latest_of rs)"
    using latest_of_name by fastforce
  then show ?thesis
    using last_named_distinct [of "map snd (latest_of rs)" n] latest_of_distinct [of rs]
    by (simp only: latest_of_last latest_names)
qed

lemma gate_verdict_exact:
  assumes "results_inv results" "world_inv w"
    and "evaluate_handoff_gate en cat results t p names post w = (Inr v, w')"
  shows "\<exists>rs es. results_for_phase (en_draws en) t p results = Inr rs \<and> for_ticket (en_draws en) t (w_threads w) = Inr es \<and>
    (gv_passing v \<longleftrightarrow> (\<forall>n \<in> set names. required_ok cat rs es n)) \<and> (gv_passing v \<or> \<not> post \<longrightarrow> w' = w)"
proof -
  obtain rs where rs: "results_for_phase (en_draws en) t p results = Inr rs"
    by (rule results_for_phase_refines [OF assms(1)])
  have "thread_inv (w_threads w)" using assms(2) by (simp add: world_inv_def)
  then obtain es where es: "for_ticket (en_draws en) t (w_threads w) = Inr es"
    using for_ticket_refines by blast
  let ?acc0 = "\<lparr>ga_failing = [], ga_missing = [], ga_posted = []\<rparr>"
  let ?run = "\<lambda>post. gate_loop en cat (latest_of (map snd (latest_of rs))) t post names ?acc0 w"
  from assms(3) obtain acc where run: "?run post = (Inr acc, w')" and v: "gv_passing v \<longleftrightarrow> \<not> blocked acc"
    by (auto simp: evaluate_handoff_gate_def raise_def bind_act_def lift_res_def latest_batch_def rs ret_def blocked_def
      split: option.splits prod.splits sum.splits)
  have ok: "?run post = (Inr ?acc0, w)" if "\<forall>n \<in> set names. required_ok cat rs es n"
    by (rule gate_loop_ok [OF es latest_batch_last that])
  have "gv_passing v \<longleftrightarrow> (\<forall>n \<in> set names. required_ok cat rs es n)"
    using gate_loop_bad [OF es latest_batch_last run] ok run v by (auto simp: blocked_def)
  moreover have "w' = w" if "gv_passing v \<or> \<not> post"
    using that ok run calculation gate_loop_quiet run by auto
  ultimately show ?thesis using rs es by blast
qed

text \<open>
  C10: The gate passes exactly when, for every listed check that the catalog declares
  required, the newest result of the phase passed, or that run has a commit and the newest
  failure event of the check on the ticket is waived for the same commit: a waiver does not
  carry over to a later run.  A passing gate, and a gate evaluated without posting, changes
  nothing.
\<close>

theorem gate_passing_exact:
  assumes "results_inv results" "world_inv w"
    and "evaluate_handoff_gate en cat results t p names post w = (Inr v, w')"
  shows "\<exists>rs es. results_for_phase (en_draws en) t p results = Inr rs \<and> for_ticket (en_draws en) t (w_threads w) = Inr es \<and>
    (gv_passing v \<longleftrightarrow> (\<forall>n \<in> set names. required_ok cat rs es n)) \<and> (gv_passing v \<or> \<not> post \<longrightarrow> w' = w)"
  by (rule gate_verdict_exact [OF assms])

text \<open>
  The severity of a failure event is the one recorded with the run, although the gate
  scores by the catalog: for a required check whose newest run failed, the event of a run
  recorded as a warning says \<open>warning\<close>, so that the token for warnings waives it, and for a
  run recorded as \<open>info\<close> the event is refused and the gate raises instead of failing.
\<close>

theorem stale_severity_in_event:
  assumes "results_inv results" "world_inv w" "results_for_phase (en_draws en) t p results = Inr rs"
    and "catalog_get cat n = Some c" "check_severity c = SevRequired" "last_named n rs = Some r" "cr_verdict r \<noteq> VPass"
    and "cr_commit_sha r = []" "evaluate_handoff_gate en cat results t p [n] True w = (out, w')"
  shows "(cr_severity r = SevInfo \<longrightarrow> out = Inl (ValidationError ''entry'') \<and> w' = w) \<and>
    (\<forall>v. out = Inr v \<longrightarrow> (\<exists>e se. tmap w' = (tmap w)(te_id e \<mapsto> e) \<and> te_body e = SystemEvent se \<and>
       se_check_name se = Some n \<and> se_check_severity se = Some (show_severity (cr_severity r))))"
proof -
  have n: "cr_check_name r = n" using assms(6) by (auto simp: last_named_def find_Some_iff)
  have inv: "thread_inv (w_threads w)" using assms(2) by (simp add: world_inv_def)
  note eval = assms(9) [unfolded evaluate_handoff_gate_def latest_batch_def assms(3)]
  show ?thesis
  proof (cases "body_valid (failure_event r)")
    case False
    then have "out = Inl (ValidationError ''entry'')" "w' = w"
      using eval assms(4-8) by (auto simp: bind_act_def lift_res_def latest_batch_last
        latest_failure_waived_for_result_def ret_def post_failure_event_def post_entry_def)
    then show ?thesis by simp
  next
    case True
    then have "cr_severity r \<noteq> SevInfo"
      by (auto simp: failure_event_def system_event_ok_def opt_in_def check_severities_def)
    let ?e = "new_entry en 0 (cr_ticket_id r) ''harness'' (failure_event r)"
    have "entry_valid ?e" using True by (simp add: entry_valid_def)
    from thread_post_refines [OF inv this, of "[]"]
    have "tmap w' = (tmap w)(te_id ?e \<mapsto> ?e)" if "out = Inr v" for v
      using that eval assms(4-8) True
      by (auto simp: bind_act_def lift_res_def latest_batch_last latest_failure_waived_for_result_def ret_def
        post_failure_event_def post_entry_def split: sum.splits prod.splits)
    then show ?thesis using \<open>cr_severity r \<noteq> SevInfo\<close> n
      by (auto intro!: exI [of _ ?e] simp: failure_event_def)
  qed
qed

section \<open>Closing handoffs\<close>

lemma triple_pending:
  assumes "\<And>e h. m i = Some e \<Longrightarrow> te_body e = Handoff h \<Longrightarrow> h_acceptance_state h = Pending \<Longrightarrow> triple (at w0 m) (k e h) Q E"
    and "\<And>w. at w0 m w \<Longrightarrow> E w"
  shows "triple (at w0 m) (require_pending_handoff en i k) Q E"
  unfolding require_pending_handoff_def
  by (intro triple_require_entry triple_handoff_case triple_require) (use assms in \<open>auto simp: handoff_open\<close>)

definition handoff_step :: "(string \<Rightarrow> thread_entry option) \<Rightarrow> string \<Rightarrow> (handoff \<Rightarrow> handoff) \<Rightarrow> (string \<Rightarrow> thread_entry option) \<Rightarrow> bool" where
  \<comment> \<open>the entry \<open>i\<close> is a pending handoff and only it changes, by \<open>f\<close>\<close>
  "handoff_step m i f m' \<longleftrightarrow> (\<exists>e h. m i = Some e \<and> te_body e = Handoff h \<and> h_acceptance_state h = Pending \<and>
     m' = m(i \<mapsto> e\<lparr>te_body := Handoff (f h)\<rparr>))"

abbreviation rejected :: "string \<Rightarrow> handoff \<Rightarrow> handoff" where
  "rejected reason h \<equiv> h\<lparr>h_acceptance_state := Rejected, h_rejection_reason := Some reason\<rparr>"

abbreviation accepted :: "string \<Rightarrow> handoff \<Rightarrow> handoff" where
  "accepted s h \<equiv> h\<lparr>h_acceptance_state := Accepted, h_accepted_by := Some s\<rparr>"

definition after_step :: "world \<Rightarrow> string \<Rightarrow> (handoff \<Rightarrow> handoff) \<Rightarrow> world \<Rightarrow> bool" where
  "after_step w0 i f w \<longleftrightarrow> world_inv w \<and> (tmap w = tmap w0 \<or> handoff_step (tmap w0) i f (tmap w))"

lemma after_stepI:
  "at w0 (tmap w0) w \<Longrightarrow> after_step w0 i f w"
  "at w0 m w \<Longrightarrow> handoff_step (tmap w0) i f m \<Longrightarrow> after_step w0 i f w"
  by (simp_all add: after_step_def at_def)

lemma bounce_triple:
  "triple (at w0 (tmap w0)) (bounce_handoff en i v)
     (\<lambda>_ w. \<not> gv_passing v \<and> gv_mode v = AtHandoff \<and> after_step w0 i (rejected (compose_bounce_reason v)) w)
     (after_step w0 i (rejected (compose_bounce_reason v)))"
  unfolding bounce_handoff_def Let_def
  apply (intro triple_pending triple_require; (rule after_stepI(1), assumption)?)
  subgoal for e h
    by (rule triple_update_body [where b = "Handoff (rejected (compose_bounce_reason v) h)"])
      (auto intro!: triple_publish triple_ret intro: after_stepI
        simp: patch_handoff thread_index_def handoff_closed handoff_step_def)
  done

lemma auto_accept_triple:
  "triple (at w0 (tmap w0)) (accept_handoff_automated en i cps)
     (\<lambda>_. after_step w0 i (accepted harness_author)) (after_step w0 i (accepted harness_author))"
  unfolding accept_handoff_automated_def
  apply (intro triple_pending; (rule after_stepI(1), assumption)?)
  subgoal for e h
    by (rule triple_update_body [where b = "Handoff (accepted harness_author h)"])
      (auto intro!: triple_publish triple_ret triple_checkpoints triple_pure intro: after_stepI
        simp: patch_handoff thread_index_def handoff_closed handoff_step_def)
  done

lemma bounce_effect:
  assumes "world_inv w" "bounce_handoff en i v w = (r, w')"
  shows "after_step w i (rejected (compose_bounce_reason v)) w' \<and> (is_ok r \<longrightarrow> \<not> gv_passing v \<and> gv_mode v = AtHandoff)"
  using tripleD [OF bounce_triple at_start [OF assms(1)] assms(2)] by (cases r) simp_all

lemma auto_accept_effect:
  assumes "world_inv w" "accept_handoff_automated en i cps w = (r, w')"
  shows "after_step w i (accepted harness_author) w'"
  using tripleD [OF auto_accept_triple at_start [OF assms(1)] assms(2)] by (cases r) simp_all

section \<open>Agents and the gate together\<close>

text \<open>The gate only adds entries.\<close>

fun born_open :: "body \<Rightarrow> bool" where
  "born_open (Question q) = (q_resolved_by q = None)"
| "born_open (Objection x) = (o_resolved_by x = None \<and> o_waived_by x = None)"
| "born_open (Handoff h) = (h_acceptance_state h = Pending \<and> h_accepted_by h = None)"
| "born_open _ = True"

definition adds :: "(string \<Rightarrow> thread_entry option) \<Rightarrow> (string \<Rightarrow> thread_entry option) \<Rightarrow> bool" where
  \<comment> \<open>entries are added, and nobody has closed a new one yet\<close>
  "adds m m' \<longleftrightarrow> m \<subseteq>\<^sub>m m' \<and> (\<forall>i e. m i = None \<longrightarrow> m' i = Some e \<longrightarrow> born_open (te_body e))"

definition grown :: "world \<Rightarrow> (string \<Rightarrow> thread_entry option) \<Rightarrow> world \<Rightarrow> bool" where
  "grown w0 m w \<longleftrightarrow> world_inv w \<and> adds m (tmap w)"

lemma adds_refl: "adds m m"
  by (simp add: adds_def)

lemma adds_le: "adds m m' \<Longrightarrow> m \<subseteq>\<^sub>m m'"
  by (simp add: adds_def)

lemma adds_trans:
  assumes "adds m0 m" "adds m m'"
  shows "adds m0 m'"
  unfolding adds_def
proof (intro conjI allI impI)
  show "m0 \<subseteq>\<^sub>m m'" using assms by (auto simp: adds_def intro: map_le_trans)
  fix i e assume "m0 i = None" "m' i = Some e"
  with assms show "born_open (te_body e)" unfolding adds_def map_le_def dom_def by (cases "m i") (metis (mono_tags, lifting) mem_Collect_eq option.simps(3))+
qed

lemma adds_post: "adds m0 m \<Longrightarrow> m i = None \<Longrightarrow> born_open (te_body e) \<Longrightarrow> adds m0 (m(i \<mapsto> e))"
  by (erule adds_trans) (auto simp: adds_def map_le_def)

lemma grown_at: "at w0 m w \<Longrightarrow> adds m0 m \<Longrightarrow> grown w0 m0 w"
  by (simp add: grown_def at_def)

lemma triple_waived:
  "(\<And>b. triple (at w0 m) (f b) Q E) \<Longrightarrow> triple (at w0 m) (bind_act (latest_failure_waived_for_result en t n r) f) Q E"
proof (rule triple_step [where R = "\<lambda>_. True" and P' = "at w0 m"])
  fix w assume w: "at w0 m w"
  then have "thread_inv (w_threads w)" by (simp add: at_def world_inv_def)
  then obtain es where "for_ticket (en_draws en) t (w_threads w) = Inr es" using for_ticket_refines by blast
  from waived_run [OF this] w show "case latest_failure_waived_for_result en t n r w of (Inl _, w') \<Rightarrow> E w'
    | (Inr _, w') \<Rightarrow> True \<and> at w0 m w'" by simp
qed

lemma triple_failure_event:
  assumes "\<And>m' x. adds m m' \<Longrightarrow> triple (at w0 m') (f x) Q E" "\<And>w. at w0 m w \<Longrightarrow> E w"
  shows "triple (at w0 m) (bind_act (if b then post_failure_event en n r else ret []) f) Q E"
proof (cases b)
  case True
  then show ?thesis
    using assms by (auto simp: post_failure_event_def failure_event_def intro!: triple_post_entry intro: assms(1) [OF adds_post [OF adds_refl]])
next
  case False
  then show ?thesis using assms(1) [OF adds_refl] by (simp add: triple_pure)
qed

lemma gate_loop_grown:
  "adds m0 m \<Longrightarrow> triple (at w0 m) (gate_loop en cat latest t post names acc) (\<lambda>_. grown w0 m0) (grown w0 m0)"
proof (induction names arbitrary: acc m)
  case (Cons n names)
  have g: "at w0 m w \<Longrightarrow> grown w0 m0 w" for w by (rule grown_at [OF _ Cons.prems])
  show ?case
    unfolding gate_loop.simps
    by (intro triple_option triple_raise triple_if triple_waived triple_failure_event Cons.IH Cons.prems g;
        (assumption | (erule adds_trans [OF Cons.prems])))
qed (auto simp: ret_def triple_def intro: grown_at)

lemma gate_grown:
  "triple (at w0 (tmap w0)) (evaluate_handoff_gate en cat results t p names post) (\<lambda>_. grown w0 (tmap w0)) (grown w0 (tmap w0))"
proof -
  have E: "at w0 (tmap w0) w \<Longrightarrow> grown w0 (tmap w0) w" for w by (rule grown_at [OF _ adds_refl])
  have "triple (at w0 (tmap w0)) (bind_act (gate_loop en cat l t post names acc) (\<lambda>x. ret (f x)))
      (\<lambda>_. grown w0 (tmap w0)) (grown w0 (tmap w0))" for l acc and f :: "gate_acc \<Rightarrow> gate_verdict"
    by (rule triple_bind [OF gate_loop_grown [OF adds_refl]]) (simp_all add: triple_ret)
  then show ?thesis
    unfolding evaluate_handoff_gate_def by (auto intro!: triple_raise triple_res E split: option.split)
qed

text \<open>
  What happens to the threads of a project: the thread tools of any agent, the scoring of a
  gate by any catalog and results, and the two ways the gate closes a handoff.
\<close>

inductive project_step :: "world \<Rightarrow> world \<Rightarrow> bool" where
  agent: "agent_step w w' \<Longrightarrow> project_step w w'"
| gate: "evaluate_handoff_gate en cat results t p names post w = (r, w') \<Longrightarrow> project_step w w'"
| bounce: "bounce_handoff en i v w = (r, w') \<Longrightarrow> project_step w w'"
| auto_accept: "accept_handoff_automated en i cps w = (r', w') \<Longrightarrow> project_step w w'"

abbreviation project_run :: "world \<Rightarrow> world \<Rightarrow> bool" where
  "project_run \<equiv> project_step\<^sup>*\<^sup>*"

definition keeps_closed :: "world \<Rightarrow> world \<Rightarrow> bool" where
  "keeps_closed w w' \<longleftrightarrow> world_inv w' \<and> (\<forall>i e. tmap w i = Some e \<longrightarrow> closed_entry e \<longrightarrow> tmap w' i = Some e)"

lemma after_step_keeps: "world_inv w \<Longrightarrow> after_step w i f w' \<Longrightarrow> keeps_closed w w'"
  by (auto simp: after_step_def keeps_closed_def handoff_step_def closed_entry_def is_resolved_def)

lemma grown_keeps: "grown w (tmap w) w' \<Longrightarrow> keeps_closed w w'"
  by (auto simp: grown_def adds_def keeps_closed_def map_le_def dom_def)

lemma agent_keeps: "world_inv w \<Longrightarrow> agent_step w w' \<Longrightarrow> keeps_closed w w'"
proof (elim agent_stepE)
  fix t en c args r assume inv: "world_inv w" and c: "thread_tool_call t en c args w = (r, w')"
  have "tmap w' i = Some e" if "tmap w i = Some e" "closed_entry e" for i e
    using call_keeps [OF inv c that(1)] closed_step that(2) by (metis te_body_same)
  with tool_call_evolves(1) [OF inv c] show ?thesis by (simp add: keeps_closed_def)
qed

lemma project_step_keeps: "project_step w w' \<Longrightarrow> world_inv w \<Longrightarrow> keeps_closed w w'"
proof (induction rule: project_step.induct)
  case (agent w w')
  then show ?case by (simp add: agent_keeps)
next
  case (gate en cat results t p names post w r w')
  from tripleD [OF gate_grown at_start [OF gate.prems] gate.hyps] have "grown w (tmap w) w'" by (cases r) simp_all
  then show ?case by (rule grown_keeps)
next
  case (bounce en i v w r w')
  then show ?case using bounce_effect after_step_keeps by blast
next
  case (auto_accept en i cps w r w')
  then show ?case using auto_accept_effect after_step_keeps by blast
qed

text \<open>
  The gate closes only what is open: a bounce changes the threads only by rejecting the
  named handoff, which was pending, with the composed reason, and succeeds only on a failing
  verdict of a scoring that posted its events; an automatic accept changes them only by
  accepting the named pending handoff in the name of the harness.
\<close>

theorem gate_closes_pending_only:
  assumes "world_inv w" "bounce_handoff en i v w = (r1, w1)" "accept_handoff_automated en i cps w = (r2, w2)"
  shows "(tmap w1 = tmap w \<or> handoff_step (tmap w) i (rejected (compose_bounce_reason v)) (tmap w1)) \<and>
    (is_ok r1 \<longrightarrow> \<not> gv_passing v \<and> gv_mode v = AtHandoff) \<and>
    (tmap w2 = tmap w \<or> handoff_step (tmap w) i (accepted harness_author) (tmap w2))"
  using bounce_effect [OF assms(1,2)] auto_accept_effect [OF assms(1,3)] by (simp add: after_step_def)

section \<open>Witnesses\<close>

definition demo_result :: check_result where
  "demo_result = \<lparr>cr_id = ''r'', cr_ticket_id = ''t'', cr_phase = ''dev'', cr_author = ''harness'', cr_created_at = 0,
     cr_check_name = ''tests'', cr_check_type = TScripted, cr_verdict = VFail, cr_severity = SevInfo, cr_output = ''boom'',
     cr_started_at = 0, cr_finished_at = 1, cr_commit_sha = []\<rparr>"

definition demo_catalog :: catalog where
  "demo_catalog = [(''tests'', ScriptedCheck \<lparr>ck_severity = SevRequired, ck_timeout_s = 600, ck_hook_eligible = False\<rparr> ''pytest'' ''.'')]"

lemma demo_results_exist: "\<exists>st. results_inv st \<and> (\<forall>cx. results_for_phase cx ''t'' ''dev'' st = Inr [demo_result])"
proof -
  let ?st0 = "new_results_store (\<lambda>xs. xs) []"
  have inv: "results_inv ?st0" "result_map ?st0 = Map.empty"
    by (simp_all add: new_results_store_def result_map_def model_inv_empty)
  have fits: "dumps_len (JObj (insert_record [] (dump_result demo_result))) \<le> st_max_record_bytes ?st0"
    by (simp add: demo_result_def insert_record_def stored_doc_def dump_result_def new_results_store_def new_store_def
        default_max_record_bytes_def dump_str_len_def dump_char_len_def)
  obtain st where st: "results_inv st" "result_map st = [''r'' \<mapsto> demo_result]"
    using crs.insert_succeeds [where m = demo_result, OF inv(1) TrueI _ fits, of "\<lambda>_. \<lparr>cx_now = 0, cx_uuid = \<lambda>_. []\<rparr>"] inv(2)
    unfolding result_map_def by (auto simp: demo_result_def)
  have "results_for_phase cx ''t'' ''dev'' st = Inr [demo_result]" for cx
  proof -
    obtain rs where rs: "results_for_phase cx ''t'' ''dev'' st = Inr rs" "distinct (map cr_id rs)"
      "set rs = {r. \<exists>i. result_map st i = Some r \<and> cr_ticket_id r = ''t'' \<and> cr_phase r = ''dev''}"
      by (rule results_for_phase_refines [OF st(1)])
    have "set rs = {demo_result}" unfolding rs(3) st(2) by (auto simp: demo_result_def split: if_splits)
    moreover have "distinct rs" using rs(2) by (simp add: distinct_map)
    ultimately have "rs = [demo_result]" by (cases rs; cases "tl rs") auto
    with rs(1) show ?thesis by simp
  qed
  with st(1) show ?thesis by blast
qed

theorem gate_passing_exact_witness:
  "\<exists>w st v w'. evaluate_handoff_gate demo_env demo_catalog st ''t'' ''dev'' [''tests''] False w = (Inr v, w') \<and>
     \<not> gv_passing v \<and> w' = w"
proof -
  obtain st where st: "results_inv st" "\<And>cx. results_for_phase cx ''t'' ''dev'' st = Inr [demo_result]"
    using demo_results_exist by blast
  obtain w where w: "world_inv w" "for_ticket no_draws ''t'' (w_threads w) = Inr [demo_handoff]"
    by (rule demo_handoff_world)
  have "\<exists>v w'. evaluate_handoff_gate demo_env demo_catalog st ''t'' ''dev'' [''tests''] False w = (Inr v, w')"
    using st(2) by (simp add: evaluate_handoff_gate_def demo_catalog_def catalog_get_def bind_act_def lift_res_def
      latest_batch_def latest_of_def demo_result_def latest_failure_waived_for_result_def ret_def)
  then obtain v w' where v: "evaluate_handoff_gate demo_env demo_catalog st ''t'' ''dev'' [''tests''] False w = (Inr v, w')" by blast
  have "\<not> required_ok demo_catalog [demo_result] es ''tests''" for es
    by (simp add: required_ok_def demo_catalog_def catalog_get_def last_named_def demo_result_def)
  with gate_passing_exact [OF st(1) w(1) v] st(2) have "\<not> gv_passing v \<and> w' = w" by auto
  with v show ?thesis by blast
qed

theorem stale_severity_in_event_witness:
  "\<exists>st w. results_inv st \<and> evaluate_handoff_gate demo_env demo_catalog st ''t'' ''dev'' [''tests''] True w =
     (Inl (ValidationError ''entry''), w)"
proof -
  obtain st where st: "results_inv st" "\<And>cx. results_for_phase cx ''t'' ''dev'' st = Inr [demo_result]"
    using demo_results_exist by blast
  obtain w where w: "world_inv w" by (rule demo_handoff_world)
  have "catalog_get demo_catalog ''tests'' = Some (snd (hd demo_catalog))" "check_severity (snd (hd demo_catalog)) = SevRequired"
    "last_named ''tests'' [demo_result] = Some demo_result" "cr_verdict demo_result \<noteq> VPass" "cr_commit_sha demo_result = []"
    "cr_severity demo_result = SevInfo"
    by (simp_all add: demo_catalog_def catalog_get_def last_named_def demo_result_def)
  from stale_severity_in_event [OF st(1) w st(2) this(1-5) surjective_pairing] this(6) st(1) show ?thesis
    by (metis prod.collapse)
qed

theorem gate_closes_pending_only_witness:
  "\<exists>w. tmap w = [''h'' \<mapsto> demo_handoff] \<and> (\<forall>en v. tmap (snd (bounce_handoff en ''h'' v w)) = [''h'' \<mapsto> demo_handoff] \<or>
     handoff_step [''h'' \<mapsto> demo_handoff] ''h'' (rejected (compose_bounce_reason v)) (tmap (snd (bounce_handoff en ''h'' v w))))"
proof -
  obtain w where w: "world_inv w" "tmap w = [''h'' \<mapsto> demo_handoff]" by (rule demo_handoff_world)
  from gate_closes_pending_only [OF w(1) surjective_pairing surjective_pairing, of _ "''h''"] w(2) show ?thesis
    by (intro exI [of _ w]) simp
qed

end
