(* ===== verification/DeadlockProps.thy ===== *)
theory DeadlockProps
  imports Deadlock CheckGateProps
begin

text \<open>
  The sweep never raises and never acts twice: what it nudges or escalates had no such
  responder, and has one from then on, whatever agents, gates and later sweeps do.
\<close>

section \<open>Rules\<close>

definition th_at :: "(string \<Rightarrow> thread_entry option) \<Rightarrow> world \<Rightarrow> bool" where
  "th_at m w \<longleftrightarrow> world_inv w \<and> tmap w = m"

lemma at_th: "at w0 m w \<Longrightarrow> th_at m w"
  by (simp add: at_def th_at_def)

lemma triple_th: "(\<And>w0. triple (at w0 m) a Q E) \<Longrightarrow> triple (th_at m) a Q E"
  by (auto simp: triple_def th_at_def at_def)

lemma triple_ex:
  assumes "\<And>m w0. C m \<Longrightarrow> triple (at w0 m) a Q E"
  shows "triple (\<lambda>w. \<exists>m. th_at m w \<and> C m) a Q E"
  unfolding triple_def
proof (intro allI impI)
  fix w assume "\<exists>m. th_at m w \<and> C m"
  then have "C (tmap w)" "at w (tmap w) w" by (auto simp: th_at_def at_def)
  with assms [of "tmap w" w] show "case a w of (Inl _, w') \<Rightarrow> E w' | (Inr x, w') \<Rightarrow> Q x w'"
    by (simp add: triple_def)
qed

lemma triple_try:
  "triple P a R H \<Longrightarrow> (\<And>x. triple (R x) (k x) Q E) \<Longrightarrow> triple H h Q E \<Longrightarrow> triple P (try_act a k h) Q E"
  unfolding triple_def try_act_def by (fastforce split: prod.splits sum.splits)

lemma update_status_inv: "ticket_inv (ts_coll st) \<Longrightarrow> ticket_inv (ts_coll (snd (update_status cx now i s st)))"
proof -
  assume inv: "ticket_inv (ts_coll st)"
  have "ticket_inv (ts_coll (snd (write_update cx now i [(''status'', JStr (show_status s))] st)))"
    by (cases rule: write_update_cases [OF inv status_change(1) [of s] status_change(2) [of s],
      where cx = cx and now = now and i = i and cx' = "no_draws []", case_names fails writes]) (simp_all add: inv)
  then show ?thesis
    using inv by (simp add: update_status_def ticket_update_def ticket_get_refines split: option.split)
qed

lemma triple_set_status:
  assumes "\<And>x w0. triple (at w0 m) (f x) Q E" "\<And>w. th_at m w \<Longrightarrow> E w"
  shows "triple (at w0 m) (bind_act (set_ticket_status en n i s) f) Q E"
proof (rule triple_step [where R = "\<lambda>_. True" and P' = "th_at m"])
  fix w assume w: "at w0 m w"
  let ?st = "snd (update_status (en_draws en) (en_now en n) i s (w_tickets w))"
  have "ticket_inv (ts_coll ?st)"
    using w unfolding at_def world_inv_def by (blast intro: update_status_inv)
  then have "th_at m (w\<lparr>w_tickets := ?st\<rparr>)"
    using at_th [OF w] unfolding th_at_def world_inv_def by (elim conjE, intro conjI) simp_all
  then show "case set_ticket_status en n i s w of (Inl _, w') \<Rightarrow> E w' | (Inr _, w') \<Rightarrow> True \<and> th_at m w'"
    using assms(2) by (simp add: set_ticket_status_def split_beta split: sum.split)
qed (use assms(1) in \<open>auto intro: triple_th\<close>)

section \<open>One entry\<close>

definition grows :: "(string \<Rightarrow> thread_entry option) \<Rightarrow> (string \<Rightarrow> thread_entry option) \<Rightarrow> bool" where
  \<comment> \<open>only responders are added\<close>
  "grows m0 m \<longleftrightarrow> m0 \<subseteq>\<^sub>m m \<and> (\<forall>i e. m i = Some e \<longrightarrow> m0 i = None \<longrightarrow> responds_to e \<noteq> None)"

definition responded :: "(thread_entry \<Rightarrow> bool) \<Rightarrow> string \<Rightarrow> string \<Rightarrow> (string \<Rightarrow> thread_entry option) \<Rightarrow> bool" where
  "responded cls t x m \<longleftrightarrow> (\<exists>i e. m i = Some e \<and> te_ticket_id e = t \<and> cls e \<and> responds_to e = Some x)"

lemma grows_refl [simp]: "grows m m"
  by (simp add: grows_def map_le_refl)

lemma grows_trans: "grows m0 m1 \<Longrightarrow> grows m1 m2 \<Longrightarrow> grows m0 m2"
  unfolding grows_def by (metis map_le_def domIff map_le_trans option.exhaust)

lemma grows_post: "m i = None \<Longrightarrow> responds_to e \<noteq> None \<Longrightarrow> grows m (m(i \<mapsto> e))"
  by (auto simp: grows_def map_le_def)

lemma responded_mono: "responded cls t x m0 \<Longrightarrow> m0 \<subseteq>\<^sub>m m \<Longrightarrow> responded cls t x m"
  unfolding responded_def map_le_def dom_def by (metis (mono_tags, lifting) mem_Collect_eq option.distinct(1))

lemma responds_new [simp]:
  "responds_to (new_entry en n t a (Note y)) = n_responds_to y" "is_note (new_entry en n t a (Note y))"
  "responds_to (new_entry en n t a (Escalation x)) = es_responds_to x" "is_escalation (new_entry en n t a (Escalation x))"
  by (simp_all add: responds_to_def is_note_def is_escalation_def)

abbreviation posted :: "(string \<Rightarrow> thread_entry option) \<Rightarrow> (thread_entry \<Rightarrow> bool) \<Rightarrow> string \<Rightarrow> string \<Rightarrow> world \<Rightarrow> bool" where
  "posted m cls t x w \<equiv> \<exists>m1. th_at m1 w \<and> (grows m m1 \<and> responded cls t x m1)"

abbreviation maybe_posted :: "(string \<Rightarrow> thread_entry option) \<Rightarrow> world \<Rightarrow> bool" where
  "maybe_posted m w \<equiv> \<exists>m1. th_at m1 w \<and> grows m m1"

lemma triple_post_responder:
  assumes "\<And>m1 w0. grows m m1 \<Longrightarrow> responded cls t x m1 \<Longrightarrow> triple (at w0 m1) (f (en_uuid en n)) Q (maybe_posted m)"
    and "responds_to (new_entry en n t a b) = Some x" "cls (new_entry en n t a b)"
  shows "triple (at w0 m) (bind_act (post_entry en n t a b) f) Q (maybe_posted m)"
proof (rule triple_post_entry)
  assume "m (en_uuid en n) = None"
  then have "grows m (m(en_uuid en n \<mapsto> new_entry en n t a b))"
    "responded cls t x (m(en_uuid en n \<mapsto> new_entry en n t a b))"
    using assms(2,3) by (auto intro!: grows_post simp: responded_def)
  then show "triple (at w0 (m(en_uuid en n \<mapsto> new_entry en n t a b))) (f (en_uuid en n)) Q (maybe_posted m)" by (rule assms(1))
qed (auto dest: at_th)

lemma nudge_triple:
  "triple (at w0 m) (post_nudge en n t e now) (\<lambda>_. posted m is_note t (te_id e)) (maybe_posted m)"
  unfolding post_nudge_def
  by (intro triple_post_responder [where cls = is_note and x = "te_id e"] triple_publish triple_ret) (auto dest: at_th)

lemma escalation_triple:
  "triple (at w0 m) (post_escalation en n t e) (\<lambda>_. posted m is_escalation t (te_id e)) (maybe_posted m)"
  unfolding post_escalation_def
proof (intro triple_post_responder [where cls = is_escalation and x = "te_id e"])
  fix m1 w0 assume m1: "grows m m1" "responded is_escalation t (te_id e) m1"
  have fin: "triple (at w1 m1) (bind_act (publish_msg en n' s r ty p tp) (\<lambda>_. ret ()))
      (\<lambda>_. posted m is_escalation t (te_id e)) (maybe_posted m)" for w1 n' s r ty p tp
    using m1 by (intro triple_publish triple_ret) (auto dest: at_th)
  show "triple (at w0 m1) (bind_act (get_ticket en t) (\<lambda>ta. bind_act (case ta of None \<Rightarrow> ret ()
      | Some x \<Rightarrow> if tk_status x \<noteq> StNeedsInfo then bind_act (set_ticket_status en (n + 1) t StNeedsInfo) (\<lambda>_. ret ()) else ret ())
      (\<lambda>_. bind_act (publish_msg en (n + 2) ''orchestrator'' ''broadcast'' MContextUpdate
      [(''kind'', JStr ''deadlock_escalation_posted''), (''ticket_id'', JStr t), (''escalation_id'', JStr (en_uuid en n)),
       (''responds_to'', JStr (te_id e)), (''waiting_on'', JStr (describe_target e))] (topic t)) (\<lambda>_. ret ()))))
      (\<lambda>_. posted m is_escalation t (te_id e)) (maybe_posted m)"
  proof (rule triple_get_ticket)
    fix ta
    have "triple (at w0 m1) (case ta of None \<Rightarrow> ret ()
      | Some x \<Rightarrow> if tk_status x \<noteq> StNeedsInfo then bind_act (set_ticket_status en (n + 1) t StNeedsInfo) (\<lambda>_. ret ()) else ret ())
      (\<lambda>_. th_at m1) (maybe_posted m)"
      using m1 by (auto intro!: triple_ret triple_set_status dest: at_th split: option.split)
    then show "triple (at w0 m1) (bind_act (case ta of None \<Rightarrow> ret ()
      | Some x \<Rightarrow> if tk_status x \<noteq> StNeedsInfo then bind_act (set_ticket_status en (n + 1) t StNeedsInfo) (\<lambda>_. ret ()) else ret ())
      (\<lambda>_. bind_act (publish_msg en (n + 2) ''orchestrator'' ''broadcast'' MContextUpdate
      [(''kind'', JStr ''deadlock_escalation_posted''), (''ticket_id'', JStr t), (''escalation_id'', JStr (en_uuid en n)),
       (''responds_to'', JStr (te_id e)), (''waiting_on'', JStr (describe_target e))] (topic t)) (\<lambda>_. ret ())))
      (\<lambda>_. posted m is_escalation t (te_id e)) (maybe_posted m)"
      by (rule triple_bind) (intro triple_th fin)
  qed
qed simp_all

section \<open>The sweep\<close>

definition told :: "(thread_entry \<Rightarrow> bool) \<Rightarrow> (string \<Rightarrow> thread_entry option) \<Rightarrow> (string \<Rightarrow> thread_entry option) \<Rightarrow> string \<Rightarrow> bool" where
  \<comment> \<open>the entry had no responder of the class before, and has one now\<close>
  "told cls m0 m x \<longleftrightarrow> (\<exists>e. m0 x = Some e \<and> \<not> responded cls (te_ticket_id e) x m0 \<and> responded cls (te_ticket_id e) x m)"

definition swept :: "(string \<Rightarrow> thread_entry option) \<Rightarrow> sweep_result \<Rightarrow> (string \<Rightarrow> thread_entry option) \<Rightarrow> bool" where
  "swept m0 res m \<longleftrightarrow> grows m0 m \<and> (\<forall>x \<in> set (sw_escalated res). told is_escalation m0 m x) \<and>
     (\<forall>x \<in> set (sw_nudged res). told is_note m0 m x)"

abbreviation sweeping :: "(string \<Rightarrow> thread_entry option) \<Rightarrow> sweep_result \<Rightarrow> world \<Rightarrow> bool" where
  "sweeping m0 res w \<equiv> \<exists>m. th_at m w \<and> swept m0 res m"

lemma told_mono: "told cls m0 m x \<Longrightarrow> grows m m1 \<Longrightarrow> told cls m0 m1 x"
  unfolding told_def grows_def using responded_mono by blast

lemma swept_grows: "swept m0 res m \<Longrightarrow> grows m m1 \<Longrightarrow> swept m0 res m1"
  unfolding swept_def using told_mono grows_trans by blast

text \<open>The snapshot of a ticket has all its entries of before the sweep.\<close>

definition snapshot :: "(string \<Rightarrow> thread_entry option) \<Rightarrow> string \<Rightarrow> thread_entry list \<Rightarrow> bool" where
  "snapshot m0 t entries \<longleftrightarrow> (\<forall>i e. m0 i = Some e \<longrightarrow> te_ticket_id e = t \<longrightarrow> e \<in> set entries)"

lemma snapshot_responder: "snapshot m0 t entries \<Longrightarrow> \<not> has_responder entries cls x \<Longrightarrow> \<not> responded cls t x m0"
  by (auto simp: snapshot_def has_responder_def responded_def list_ex_iff)

lemma swept_escalated:
  assumes "swept m0 res m" "grows m m1" "responded is_escalation t (te_id e) m1" "m0 (te_id e) = Some e" "te_ticket_id e = t"
    "\<not> responded is_escalation t (te_id e) m0"
  shows "swept m0 (res\<lparr>sw_escalated := sw_escalated res @ [te_id e]\<rparr>) m1"
  using swept_grows [OF assms(1,2)] assms(3-6) by (auto simp: swept_def told_def)

lemma swept_nudged:
  assumes "swept m0 res m" "grows m m1" "responded is_note t (te_id e) m1" "m0 (te_id e) = Some e" "te_ticket_id e = t"
    "\<not> responded is_note t (te_id e) m0"
  shows "swept m0 (res\<lparr>sw_nudged := sw_nudged res @ [te_id e]\<rparr>) m1"
  using swept_grows [OF assms(1,2)] assms(3-6) by (auto simp: swept_def told_def)

lemma sweep_entry_triple:
  assumes snap: "snapshot m0 t entries" and e: "m0 (te_id e) = Some e" "te_ticket_id e = t" and sw: "swept m0 res m"
  shows "triple (at w0 m) (sweep_entry en n na ea now t entries e res) (sweeping m0) (\<lambda>_. False)"
proof -
  define esc where "esc \<longleftrightarrow> ea > 0 \<and> now - te_created_at e \<ge> ea * us_per_second \<and> \<not> has_responder entries is_escalation (te_id e)"
  define nud where "nud \<longleftrightarrow> na > 0 \<and> now - te_created_at e \<ge> na * us_per_second \<and> \<not> has_responder entries is_note (te_id e)"
  let ?res1 = "if esc then res\<lparr>sw_escalated := sw_escalated res @ [te_id e]\<rparr> else res"
  have nudge: "triple (at w1 m1) (try_act (if nud then post_nudge en (n + 3) t e now else ret ())
      (\<lambda>_. ret (if nud then r\<lparr>sw_nudged := sw_nudged r @ [te_id e]\<rparr> else r)) (ret r)) (sweeping m0) (\<lambda>_. False)"
    if r: "swept m0 r m1" for w1 m1 r
  proof (rule triple_try [where R = "\<lambda>_ w. \<exists>m2. th_at m2 w \<and> (grows m1 m2 \<and> (nud \<longrightarrow> responded is_note t (te_id e) m2))"
      and H = "maybe_posted m1"])
    show "triple (at w1 m1) (if nud then post_nudge en (n + 3) t e now else ret ())
        (\<lambda>_ w. \<exists>m2. th_at m2 w \<and> (grows m1 m2 \<and> (nud \<longrightarrow> responded is_note t (te_id e) m2))) (maybe_posted m1)"
      using nudge_triple by (auto intro!: triple_ret dest: at_th)
    show "triple (maybe_posted m1) (ret r) (sweeping m0) (\<lambda>_. False)"
      using swept_grows [OF r] by (intro triple_ret) blast
    have "\<not> responded is_note t (te_id e) m0" if nud using snapshot_responder [OF snap] that by (simp add: nud_def)
    with swept_grows [OF r] swept_nudged [OF r _ _ e]
    show "triple (\<lambda>w. \<exists>m2. th_at m2 w \<and> (grows m1 m2 \<and> (nud \<longrightarrow> responded is_note t (te_id e) m2)))
        (ret (if nud then r\<lparr>sw_nudged := sw_nudged r @ [te_id e]\<rparr> else r)) (sweeping m0) (\<lambda>_. False)" for x
      by (intro triple_ret) auto
  qed
  have "triple (at w0 m) (try_act (if esc then post_escalation en n t e else ret ())
      (\<lambda>_. try_act (if nud then post_nudge en (n + 3) t e now else ret ())
        (\<lambda>_. ret (if nud then ?res1\<lparr>sw_nudged := sw_nudged ?res1 @ [te_id e]\<rparr> else ?res1)) (ret ?res1)) (ret res))
      (sweeping m0) (\<lambda>_. False)"
  proof (rule triple_try [where R = "\<lambda>_ w. \<exists>m1. th_at m1 w \<and> (grows m m1 \<and> (esc \<longrightarrow> responded is_escalation t (te_id e) m1))"
      and H = "maybe_posted m"])
    show "triple (at w0 m) (if esc then post_escalation en n t e else ret ())
        (\<lambda>_ w. \<exists>m1. th_at m1 w \<and> (grows m m1 \<and> (esc \<longrightarrow> responded is_escalation t (te_id e) m1))) (maybe_posted m)"
      using escalation_triple by (auto intro!: triple_ret dest: at_th)
    show "triple (maybe_posted m) (ret res) (sweeping m0) (\<lambda>_. False)"
      using swept_grows [OF sw] by (intro triple_ret) blast
    fix x :: unit
    have "\<not> responded is_escalation t (te_id e) m0" if esc using snapshot_responder [OF snap] that by (simp add: esc_def)
    with swept_grows [OF sw] swept_escalated [OF sw _ _ e]
    have "swept m0 ?res1 m1" if "grows m m1 \<and> (esc \<longrightarrow> responded is_escalation t (te_id e) m1)" for m1 using that by auto
    then show "triple (\<lambda>w. \<exists>m1. th_at m1 w \<and> (grows m m1 \<and> (esc \<longrightarrow> responded is_escalation t (te_id e) m1)))
        (try_act (if nud then post_nudge en (n + 3) t e now else ret ())
        (\<lambda>_. ret (if nud then ?res1\<lparr>sw_nudged := sw_nudged ?res1 @ [te_id e]\<rparr> else ?res1)) (ret ?res1)) (sweeping m0) (\<lambda>_. False)"
      by (intro triple_ex nudge)
  qed
  then show ?thesis
    using sw by (auto simp: sweep_entry_def Let_def esc_def [symmetric] nud_def [symmetric] intro!: triple_ret dest: at_th)
qed

lemma sweep_entries_triple:
  assumes "snapshot m0 t entries"
  shows "\<forall>e \<in> set es. m0 (te_id e) = Some e \<and> te_ticket_id e = t \<Longrightarrow> swept m0 res m \<Longrightarrow>
    triple (at w0 m) (sweep_entries en n na ea now t entries es res) (sweeping m0) (\<lambda>_. False)"
proof (induction es arbitrary: n res m w0)
  case Nil
  then show ?case by (auto intro!: triple_ret dest: at_th)
next
  case (Cons e es)
  have "triple (at w0 m) (sweep_entry en n na ea now t entries e res) (sweeping m0) (\<lambda>_. False)"
    using Cons.prems by (intro sweep_entry_triple [OF assms]) simp_all
  then show ?case
    unfolding sweep_entries.simps by (rule triple_bind) (intro triple_ex Cons.IH; use Cons.prems in simp)
qed

lemma sweep_tickets_triple:
  "swept m0 res m \<Longrightarrow> triple (at w0 m) (sweep_tickets en n na ea now ts res) (sweeping m0) (\<lambda>_. False)"
proof (induction ts arbitrary: n res m w0)
  case Nil
  then show ?case by (auto intro!: triple_ret dest: at_th)
next
  case (Cons t ts)
  have skip: "triple (at w1 m) (sweep_tickets en n' na ea now ts res) (sweeping m0) (\<lambda>_. False)" for w1 n'
    by (rule Cons.IH [OF Cons.prems])
  have "triple (at w0 m) (try_act (ticket_entries en (tk_id t))
       (\<lambda>entries. bind_act (sweep_entries en n na ea now (tk_id t) entries (sweep_candidates entries) res)
          (\<lambda>res1. sweep_tickets en (n + 5 * length (sweep_candidates entries)) na ea now ts res1))
       (sweep_tickets en n na ea now ts res)) (sweeping m0) (\<lambda>_. False)"
  proof (rule triple_try [where R = "\<lambda>entries w. at w0 m w \<and> ticket_thread m (tk_id t) entries" and H = "at w0 m"])
    have "triple (at w0 m) (bind_act (ticket_entries en (tk_id t)) ret) (\<lambda>entries w. at w0 m w \<and> ticket_thread m (tk_id t) entries) (at w0 m)"
      by (auto simp: ticket_thread_def intro!: triple_ticket_entries triple_ret)
    then show "triple (at w0 m) (ticket_entries en (tk_id t)) (\<lambda>entries w. at w0 m w \<and> ticket_thread m (tk_id t) entries) (at w0 m)"
      by (auto simp: triple_def bind_act_def ret_def ticket_entries_def split: prod.splits sum.splits)
    fix entries
    show "triple (\<lambda>w. at w0 m w \<and> ticket_thread m (tk_id t) entries)
       (bind_act (sweep_entries en n na ea now (tk_id t) entries (sweep_candidates entries) res)
          (\<lambda>res1. sweep_tickets en (n + 5 * length (sweep_candidates entries)) na ea now ts res1)) (sweeping m0) (\<lambda>_. False)"
    proof (cases "ticket_thread m (tk_id t) entries \<and> (\<exists>w. at w0 m w)")
      case True
      then obtain w where w: "at w0 m w" and th: "set entries = {e. \<exists>i. m i = Some e \<and> te_ticket_id e = tk_id t}"
        by (auto simp: ticket_thread_def)
      have g: "m0 \<subseteq>\<^sub>m m" "\<And>i e. m i = Some e \<Longrightarrow> m0 i = None \<Longrightarrow> responds_to e \<noteq> None"
        using Cons.prems by (auto simp: swept_def grows_def)
      have snap: "snapshot m0 (tk_id t) entries"
        using g(1) unfolding snapshot_def th map_le_def dom_def by (metis (mono_tags, lifting) mem_Collect_eq option.distinct(1))
      have "m0 (te_id e) = Some e \<and> te_ticket_id e = tk_id t" if "e \<in> set (sweep_candidates entries)" for e
      proof -
        from that th obtain i where i: "m i = Some e" "te_ticket_id e = tk_id t" "responds_to e = None"
          by (auto simp: sweep_candidates_def)
        then obtain e' where "m0 i = Some e'" using g(2) [of i e] by (cases "m0 i") simp_all
        moreover have "m i = Some e'" using calculation g(1) by (auto simp: map_le_def dom_def)
        ultimately have "m0 i = Some e" using i(1) by simp
        moreover have "te_id e = i" using at_entry [OF w i(1)] by simp
        ultimately show ?thesis using i(2) by simp
      qed
      then have "triple (at w0 m) (bind_act (sweep_entries en n na ea now (tk_id t) entries (sweep_candidates entries) res)
          (\<lambda>res1. sweep_tickets en (n + 5 * length (sweep_candidates entries)) na ea now ts res1)) (sweeping m0) (\<lambda>_. False)"
        by (intro triple_bind [OF sweep_entries_triple [OF snap _ Cons.prems]] triple_ex Cons.IH) simp_all
      then show ?thesis by (rule triple_weaken) simp_all
    qed (auto simp: triple_def)
  qed (rule skip)
  then show ?case using skip by simp
qed

lemma list_tickets_ok: "world_inv w \<Longrightarrow> \<exists>ts. list_tickets en w = (Inr ts, w)"
proof -
  assume "world_inv w"
  then have inv: "ticket_inv (ts_coll (w_tickets w))" by (simp add: world_inv_def)
  obtain ts where "to_models (\<lambda>d. validate_ticket (en_draws en d) d) (find_docs None (ts_coll (w_tickets w))) = Inr ts"
    by (rule coll_find [OF ticket_inv_coll [OF inv]])
  then show ?thesis by (simp add: list_tickets_def list_all_tickets_def tc_find_def)
qed

lemma sweep_effect:
  assumes "world_inv w"
  shows "\<exists>res w'. sweep_blocking_entries en na ea now w = (Inr res, w') \<and> world_inv w' \<and> swept (tmap w) res (tmap w')"
proof -
  obtain ts where ts: "list_tickets en w = (Inr ts, w)" using list_tickets_ok [OF assms] by blast
  let ?res0 = "\<lparr>sw_nudged = [], sw_escalated = []\<rparr>"
  have "swept (tmap w) ?res0 (tmap w)" by (simp add: swept_def)
  note tr = sweep_tickets_triple [OF this, of w en 1 na ea "the_default (en_now en 0) now" ts]
  obtain r w' where run: "sweep_tickets en 1 na ea (the_default (en_now en 0) now) ts ?res0 w = (r, w')" by fastforce
  from tripleD [OF tr at_start [OF assms] run] obtain res where r: "r = Inr res" "sweeping (tmap w) res w'"
    by (cases r) simp_all
  have "sweep_blocking_entries en na ea now w = (Inr res, w')"
    using run r(1) unfolding sweep_blocking_entries_def bind_act_def ts by simp
  with r(2) show ?thesis by (auto simp: th_at_def)
qed

section \<open>Over time\<close>

text \<open>An entry stays on its ticket, and a responder stays what it is.\<close>

definition persists :: "(string \<Rightarrow> thread_entry option) \<Rightarrow> (string \<Rightarrow> thread_entry option) \<Rightarrow> bool" where
  "persists m m' \<longleftrightarrow> (\<forall>i e. m i = Some e \<longrightarrow> (\<exists>b. m' i = Some (e\<lparr>te_body := b\<rparr>) \<and> (is_note e \<or> is_escalation e \<longrightarrow> b = te_body e)))"

lemma persists_le: "m \<subseteq>\<^sub>m m' \<Longrightarrow> persists m m'"
  unfolding persists_def map_le_def dom_def by (metis (mono_tags, lifting) mem_Collect_eq option.distinct(1) te_body_same)

lemma persists_trans: "persists m0 m1 \<Longrightarrow> persists m1 m2 \<Longrightarrow> persists m0 m2"
  unfolding persists_def
proof (intro allI impI)
  fix i e assume a: "\<forall>i e. m0 i = Some e \<longrightarrow> (\<exists>b. m1 i = Some (e\<lparr>te_body := b\<rparr>) \<and> (is_note e \<or> is_escalation e \<longrightarrow> b = te_body e))"
    "\<forall>i e. m1 i = Some e \<longrightarrow> (\<exists>b. m2 i = Some (e\<lparr>te_body := b\<rparr>) \<and> (is_note e \<or> is_escalation e \<longrightarrow> b = te_body e))" "m0 i = Some e"
  then obtain b where b: "m1 i = Some (e\<lparr>te_body := b\<rparr>)" "is_note e \<or> is_escalation e \<longrightarrow> b = te_body e" by blast
  with a(2) obtain b' where b': "m2 i = Some (e\<lparr>te_body := b\<rparr>\<lparr>te_body := b'\<rparr>)"
    "is_note (e\<lparr>te_body := b\<rparr>) \<or> is_escalation (e\<lparr>te_body := b\<rparr>) \<longrightarrow> b' = te_body (e\<lparr>te_body := b\<rparr>)" by blast
  show "\<exists>b. m2 i = Some (e\<lparr>te_body := b\<rparr>) \<and> (is_note e \<or> is_escalation e \<longrightarrow> b = te_body e)"
    using b b' by (intro exI [of _ b']) auto
qed

lemma responder_step: "body_step w s cw e b \<Longrightarrow> \<not> is_note e \<and> \<not> is_escalation e"
  by (erule body_step.cases) (auto simp: is_note_def is_escalation_def)

inductive sweep_step :: "world \<Rightarrow> world \<Rightarrow> bool" where
  project: "project_step w w' \<Longrightarrow> sweep_step w w'"
| sweep: "sweep_blocking_entries en na ea now w = (r, w') \<Longrightarrow> sweep_step w w'"

lemma after_step_persists: "after_step w i f w' \<Longrightarrow> persists (tmap w) (tmap w')"
proof -
  assume "after_step w i f w'"
  then consider "tmap w' = tmap w" | e h where "tmap w i = Some e" "te_body e = Handoff h" "tmap w' = (tmap w)(i \<mapsto> e\<lparr>te_body := Handoff (f h)\<rparr>)"
    by (auto simp: after_step_def handoff_step_def)
  then show ?thesis
  proof cases
    case 1
    then show ?thesis by (simp add: persists_le map_le_refl)
  next
    case 2
    have "\<exists>b. tmap w' j = Some (x\<lparr>te_body := b\<rparr>) \<and> (is_note x \<or> is_escalation x \<longrightarrow> b = te_body x)" if x: "tmap w j = Some x" for j x
    proof (cases "j = i")
      case True
      with 2 x show ?thesis by (intro exI [of _ "Handoff (f h)"]) (simp add: is_note_def is_escalation_def)
    next
      case False
      with 2 x show ?thesis by (intro exI [of _ "te_body x"]) simp
    qed
    then show ?thesis by (simp add: persists_def)
  qed
qed

lemma agent_persists: "world_inv w \<Longrightarrow> agent_step w w' \<Longrightarrow> persists (tmap w) (tmap w')"
proof (elim agent_stepE)
  fix t en c args r assume inv: "world_inv w" and c: "thread_tool_call t en c args w = (r, w')"
  show ?thesis
    unfolding persists_def using call_keeps [OF inv c] responder_step by metis
qed

lemma project_persists: "project_step w w' \<Longrightarrow> world_inv w \<Longrightarrow> persists (tmap w) (tmap w')"
proof (induction rule: project_step.induct)
  case (agent w w')
  then show ?case by (simp add: agent_persists)
next
  case (gate en cat results t p names post w r w')
  from tripleD [OF gate_grown at_start [OF gate.prems] gate.hyps] have "grown w (tmap w) w'" by (cases r) simp_all
  then show ?case by (simp add: grown_def persists_le adds_le)
next
  case (bounce en i v w r w')
  then show ?case using bounce_effect after_step_persists by blast
next
  case (auto_accept en i cps w r w')
  then show ?case using auto_accept_effect after_step_persists by blast
qed

lemma sweep_step_keeps: "sweep_step w w' \<Longrightarrow> world_inv w \<Longrightarrow> world_inv w' \<and> persists (tmap w) (tmap w')"
proof (induction rule: sweep_step.induct)
  case (project w w')
  then show ?case using project_persists project_step_keeps by (auto simp: keeps_closed_def)
next
  case (sweep en na ea now w r w')
  then show ?case using sweep_effect [OF sweep.prems, of en na ea now] by (auto simp: swept_def grows_def persists_le)
qed

lemma sweep_run_keeps: "sweep_step\<^sup>*\<^sup>* w w' \<Longrightarrow> world_inv w \<Longrightarrow> world_inv w' \<and> persists (tmap w) (tmap w')"
proof (induction rule: rtranclp_induct)
  case (step w1 w2)
  then show ?case using sweep_step_keeps persists_trans by blast
qed (simp add: persists_le map_le_refl)

lemma told_once:
  assumes "told cls m0 m1 x" "persists m0 m1" "persists m1 m2" "\<And>e. cls e \<Longrightarrow> is_note e \<or> is_escalation e"
  shows "\<not> told cls m2 m3 x"
proof
  assume "told cls m2 m3 x"
  then obtain e2 where e2: "m2 x = Some e2" "\<not> responded cls (te_ticket_id e2) x m2" by (auto simp: told_def)
  from assms(1) obtain e i f where e: "m0 x = Some e" and f: "m1 i = Some f" "te_ticket_id f = te_ticket_id e" "cls f"
    "responds_to f = Some x" by (auto simp: told_def responded_def)
  from persists_trans [OF assms(2,3)] e obtain b where "m2 x = Some (e\<lparr>te_body := b\<rparr>)" unfolding persists_def by blast
  with e2(1) have "te_ticket_id e2 = te_ticket_id e" by auto
  moreover from assms(3,4) f have "m2 i = Some f" unfolding persists_def by (metis te_body_same)
  ultimately show False using e2(2) f by (auto simp: responded_def)
qed

text \<open>
  C13: The sweep acts once: it never raises, it only adds responders, every entry it reports
  had no such responder on its ticket and has one afterwards; and whatever agents, gates and
  other sweeps do in between, no later sweep reports the same escalation or nudge again.
\<close>

theorem sweep_acts_once:
  assumes "world_inv w" "sweep_blocking_entries en na ea now w = (r, w1)"
    and "sweep_step\<^sup>*\<^sup>* w1 w2" "sweep_blocking_entries en' na' ea' now' w2 = (r', w3)"
  shows "\<exists>res res'. r = Inr res \<and> r' = Inr res' \<and> world_inv w3 \<and> swept (tmap w) res (tmap w1) \<and>
    set (sw_escalated res) \<inter> set (sw_escalated res') = {} \<and> set (sw_nudged res) \<inter> set (sw_nudged res') = {}"
proof -
  from sweep_effect [OF assms(1), of en na ea now] assms(2) obtain res where
    res: "r = Inr res" "world_inv w1" "swept (tmap w) res (tmap w1)" by auto
  from sweep_run_keeps [OF assms(3) res(2)] have w2: "world_inv w2" "persists (tmap w1) (tmap w2)" by auto
  from sweep_effect [OF w2(1), of en' na' ea' now'] assms(4) obtain res' where
    res': "r' = Inr res'" "world_inv w3" "swept (tmap w2) res' (tmap w3)" by auto
  have p: "persists (tmap w) (tmap w1)" using res(3) by (simp add: swept_def grows_def persists_le)
  from res(3) res'(3) told_once [OF _ p w2(2), of is_escalation] told_once [OF _ p w2(2), of is_note]
  have "set (sw_escalated res) \<inter> set (sw_escalated res') = {}" "set (sw_nudged res) \<inter> set (sw_nudged res') = {}"
    unfolding swept_def by blast+
  with res res' show ?thesis by blast
qed

section \<open>Witness\<close>

theorem sweep_acts_once_witness:
  "\<exists>w res res'. tmap w = [''q'' \<mapsto> demo_question] \<and>
     fst (sweep_blocking_entries demo_env 1 1 (Some 5000000) w) = Inr res \<and>
     fst (sweep_blocking_entries demo_env 1 1 (Some 6000000) (snd (sweep_blocking_entries demo_env 1 1 (Some 5000000) w))) = Inr res' \<and>
     set (sw_nudged res) \<inter> set (sw_nudged res') = {}"
proof -
  obtain w where w: "world_inv w" "tmap w = [''q'' \<mapsto> demo_question]"
    using demo_world_exists [OF demo_entries_ok(1,2)] by (auto simp: demo_question_def)
  let ?s1 = "sweep_blocking_entries demo_env 1 1 (Some 5000000) w"
  let ?s2 = "sweep_blocking_entries demo_env 1 1 (Some 6000000) (snd ?s1)"
  from sweep_acts_once [OF w(1), of demo_env 1 1 "Some 5000000" "fst ?s1" "snd ?s1" "snd ?s1" demo_env 1 1 "Some 6000000" "fst ?s2" "snd ?s2"]
  obtain res res' where "fst ?s1 = Inr res" "fst ?s2 = Inr res'" "set (sw_nudged res) \<inter> set (sw_nudged res') = {}" by auto
  with w(2) show ?thesis by blast
qed

end
