(* ===== verification/TicketHandlers.thy ===== *)
theory TicketHandlers
  imports ThreadHandlers Deadlock
begin

text \<open>
  The ticket tools of \<open>jig/ticket_mcp.py\<close> and the events of \<open>jig/ticket_events.py\<close>.  The
  configuration is what \<open>load_config\<close> gives for the project, when there is one.  The
  specification file that a capability ticket gets as a best effort is not part of the
  world; its code swallows every exception.
\<close>

section \<open>Workflow resolution\<close>

record type_workflows =
  tw_default_by_size :: "(string \<times> string) list"
  tw_available :: "string list"

record workflows_section =
  ws_available :: "string list"
  ws_default_by_size :: "(string \<times> string) list"
  ws_by_type :: "(string \<times> type_workflows) list"

definition resolve_workflow :: "workflows_section \<Rightarrow> string \<Rightarrow> string \<Rightarrow> string option \<Rightarrow> string result" where
  "resolve_workflow c work_type size_name explicit =
    (let allowed = (\<lambda>name. ws_available c = [] \<or> name \<in> set (ws_available c));
         named = (\<lambda>m. case map_of m size_name of None \<Rightarrow> None | Some n \<Rightarrow> if n \<noteq> [] \<and> allowed n then Some n else None);
         general = (case named (ws_default_by_size c) of Some n \<Rightarrow> n | None \<Rightarrow> ''default'')
     in if the_default [] explicit \<noteq> [] then
          (if allowed (the explicit) then Inr (the explicit) else Inl (ValueError ''workflow not available''))
        else Inr (case map_of (ws_by_type c) work_type of
          None \<Rightarrow> general
        | Some t \<Rightarrow> (case named (tw_default_by_size t) of
            Some n \<Rightarrow> n
          | None \<Rightarrow> if length (tw_available t) = 1 \<and> allowed (hd (tw_available t)) then hd (tw_available t) else general)))"

type_synonym project = "workflows_section result option"

definition load_workflows :: "project \<Rightarrow> workflows_section option act" where
  \<comment> \<open>\<open>project_path\<close> may be \<open>None\<close>; a missing file is no configuration\<close>
  "load_workflows p = (case p of
     None \<Rightarrow> ret None
   | Some (Inl (FileNotFoundError _)) \<Rightarrow> ret None
   | Some (Inl e) \<Rightarrow> raise e
   | Some (Inr c) \<Rightarrow> ret (Some c))"

definition choose_workflow :: "project \<Rightarrow> string option \<Rightarrow> ticket \<Rightarrow> ticket act" where
  "choose_workflow p explicit t =
    (if explicit = None \<and> tk_workflow t = ''default'' then
       bind_act (load_workflows p) (\<lambda>cfg. case cfg of
         None \<Rightarrow> ret t
       | Some c \<Rightarrow> bind_act (lift_res (resolve_workflow c (show_work_type (tk_work_type t)) (show_size (tk_size t)) None))
           (\<lambda>w. ret (t\<lparr>tk_workflow := w\<rparr>)))
     else if explicit \<noteq> None then
       bind_act (load_workflows p) (\<lambda>cfg. case cfg of
         None \<Rightarrow> ret t
       | Some c \<Rightarrow> bind_act (lift_res (resolve_workflow c (show_work_type (tk_work_type t)) (show_size (tk_size t)) explicit))
           (\<lambda>_. ret t))
     else ret t)"

section \<open>Events\<close>

definition ticket_payload :: "ticket \<Rightarrow> string list \<Rightarrow> doc" where
  "ticket_payload t depends_on = [(''kind'', JStr ''ticket_created''), (''ticket_id'', JStr (tk_id t)),
     (''title'', JStr (tk_title t)), (''description'', JStr (tk_description t)),
     (''work_type'', JStr (show_work_type (tk_work_type t))), (''type'', JStr (show_work_type (tk_work_type t))),
     (''size'', JStr (show_size (tk_size t))), (''assignee'', jopt (tk_assignee t)), (''parent_id'', jopt (tk_parent_id t)),
     (''depends_on'', jstrs (if depends_on \<noteq> [] then depends_on else tk_blocked_by t)),
     (''workflow'', JStr (tk_workflow t)), (''status'', JStr (show_status (tk_status t)))]"

definition or_else :: "string option \<Rightarrow> string \<Rightarrow> string" where
  \<comment> \<open>\<open>x or d\<close>\<close>
  "or_else x d = (if the_default [] x = [] then d else the x)"

definition publish_ticket_created :: "env \<Rightarrow> nat \<Rightarrow> ticket \<Rightarrow> string \<Rightarrow> string list \<Rightarrow> bool \<Rightarrow> unit act" where
  "publish_ticket_created en n t sender depends_on for_dispatch =
    bind_act (if for_dispatch then publish_msg en n sender (or_else (tk_assignee t) ''orchestrator'') MContextUpdate
        (ticket_payload t depends_on) ''orchestrator'' else ret JNull) (\<lambda>_.
    bind_act (publish_msg en (n + 1) sender ''broadcast'' MContextUpdate (ticket_payload t depends_on) (topic (tk_id t))) (\<lambda>_.
    ret ()))"

section \<open>Creation\<close>

definition arg_strs :: "string \<Rightarrow> doc \<Rightarrow> (string list \<Rightarrow> 'a act) \<Rightarrow> 'a act" where
  \<comment> \<open>\<open>args.get(k, [])\<close>, a list of strings\<close>
  "arg_strs k args f = (case map_of args k of
     None \<Rightarrow> f []
   | Some (JList xs) \<Rightarrow> (case map_opt as_str xs of Some ys \<Rightarrow> f ys | None \<Rightarrow> raise (TypeError k))
   | Some _ \<Rightarrow> raise (TypeError k))"

fun require_tickets :: "env \<Rightarrow> string list \<Rightarrow> 'a act \<Rightarrow> 'a act" where
  "require_tickets en [] k = k"
| "require_tickets en (i # is) k = require_ticket en i (\<lambda>_. require_tickets en is k)"

definition raw_size :: "doc \<Rightarrow> size result" where
  "raw_size args = (case dict_get (JStr ''m'') ''size'' args of
     JStr s \<Rightarrow> (case read_size s of Some x \<Rightarrow> Inr x | None \<Rightarrow> Inl (ValueError ''unknown size''))
   | _ \<Rightarrow> Inl (ValueError ''unknown size''))"

definition work_type_kwargs :: "doc \<Rightarrow> doc result" where
  \<comment> \<open>\<open>work_type\<close>, or the legacy \<open>type\<close>, which the model migrates\<close>
  "work_type_kwargs args = (case map_of args ''work_type'' of
     Some (JStr s) \<Rightarrow> (case read_work_type s of
         Some _ \<Rightarrow> Inr [(''work_type'', JStr s)] | None \<Rightarrow> Inl (ValueError ''unknown work_type''))
   | Some _ \<Rightarrow> Inl (ValueError ''unknown work_type'')
   | None \<Rightarrow> (case map_of args ''type'' of
       None \<Rightarrow> Inl (KeyError ''work_type'')
     | Some (JStr s) \<Rightarrow> (case read_work_type (the_default s (map_of legacy_type_migration s)) of
           Some _ \<Rightarrow> Inr [(''type'', JStr s)] | None \<Rightarrow> Inl (ValueError ''unknown work_type''))
     | Some j \<Rightarrow> if hashable j then Inl (ValueError ''unknown work_type'') else Inl (TypeError ''unhashable'')))"

definition ticket_kwargs :: "string \<Rightarrow> size \<Rightarrow> json \<Rightarrow> doc \<Rightarrow> doc" where
  "ticket_kwargs sender sz title args =
     [(''title'', title), (''description'', dict_get (JStr []) ''description'' args),
      (''assignee'', dict_get JNull ''assignee'' args), (''parent_id'', dict_get JNull ''parent_id'' args),
      (''blocked_by'', dict_get (JList []) ''depends_on'' args), (''labels'', dict_get (JList []) ''labels'' args),
      (''created_by'', JStr sender), (''size'', JStr (show_size sz)), (''derived_from'', dict_get JNull ''derived_from'' args)] @
     (case map_of args ''workflow'' of None \<Rightarrow> [] | Some j \<Rightarrow> [(''workflow'', j)])"

definition new_ticket_of :: "env \<Rightarrow> string \<Rightarrow> doc \<Rightarrow> ticket result" where
  \<comment> \<open>everything between the dependency check and the workflow; draw 0 is the ticket\<close>
  "new_ticket_of en sender args = (case raw_size args of
     Inl e \<Rightarrow> Inl e
   | Inr sz \<Rightarrow> (case map_of args ''title'' of
       None \<Rightarrow> Inl (KeyError ''title'')
     | Some title \<Rightarrow> (case work_type_kwargs args of
         Inl e \<Rightarrow> Inl e
       | Inr wt \<Rightarrow> (case validate_ticket \<lparr>cx_now = en_now en 0, cx_uuid = (\<lambda>_. en_uuid en 0)\<rparr> (ticket_kwargs sender sz title args @ wt) of
           None \<Rightarrow> Inl (ValidationError ''ticket'') | Some t \<Rightarrow> Inr t))))"

definition store_ticket :: "ticket \<Rightarrow> string act" where
  "store_ticket t w = (case ticket_create [] t False (w_tickets w) of
     (Inl e, st) \<Rightarrow> (Inl e, w\<lparr>w_tickets := st\<rparr>) | (Inr _, st) \<Rightarrow> (Inr (tk_id t), w\<lparr>w_tickets := st\<rparr>))"

definition change_ticket :: "env \<Rightarrow> nat \<Rightarrow> string \<Rightarrow> doc \<Rightarrow> ticket act" where
  \<comment> \<open>\<open>tickets.update(i, **flds)\<close>\<close>
  "change_ticket en n i flds w = (case ticket_update (en_draws en) (en_now en n) i flds (w_tickets w) of
     (r, st) \<Rightarrow> (r, w\<lparr>w_tickets := st\<rparr>))"

fun link_deps :: "env \<Rightarrow> nat \<Rightarrow> string \<Rightarrow> string list \<Rightarrow> unit act" where
  \<comment> \<open>the reverse side: each dependency blocks the new ticket\<close>
  "link_deps en n tid [] = ret ()"
| "link_deps en n tid (d # ds) = bind_act (get_ticket en d) (\<lambda>dep.
     bind_act (case dep of
         None \<Rightarrow> ret ()
       | Some x \<Rightarrow> if tid \<notin> set (tk_blocks x)
           then bind_act (change_ticket en n d [(''blocks'', jstrs (tk_blocks x @ [tid]))]) (\<lambda>_. ret ()) else ret ()) (\<lambda>_.
     link_deps en (n + 1) tid ds))"

definition handle_create_ticket :: "env \<Rightarrow> string \<Rightarrow> project \<Rightarrow> doc \<Rightarrow> string act" where
  "handle_create_ticket en sender project args =
    arg_strs ''depends_on'' args (\<lambda>depends_on.
    require_tickets en depends_on (
    bind_act (lift_res (new_ticket_of en sender args)) (\<lambda>t0.
    arg_opt ''workflow'' args (\<lambda>explicit.
    bind_act (choose_workflow project explicit t0) (\<lambda>t.
    bind_act (store_ticket t) (\<lambda>tid.
    bind_act (link_deps en 3 tid depends_on) (\<lambda>_.
    bind_act (publish_ticket_created en 1 t sender depends_on True) (\<lambda>_.
    ret tid))))))))"

section \<open>Reading\<close>

definition handle_read_ticket :: "env \<Rightarrow> string \<Rightarrow> ticket act" where
  "handle_read_ticket en i = require_ticket en i ret"

definition filter_work_type :: "doc \<Rightarrow> work_type option result" where
  "filter_work_type args =
    (case (case map_of args ''work_type'' of Some j \<Rightarrow> j | None \<Rightarrow> dict_get JNull ''type'' args) of
       JNull \<Rightarrow> Inr None
     | JStr s \<Rightarrow> (case read_work_type (the_default s (map_of legacy_type_migration s)) of
         Some x \<Rightarrow> Inr (Some x) | None \<Rightarrow> Inl (ValueError ''work_type''))
     | j \<Rightarrow> if hashable j then Inl (ValueError ''work_type'') else Inl (TypeError ''unhashable''))"

definition filter_status :: "doc \<Rightarrow> ticket_status option result" where
  "filter_status args = (case map_of args ''status'' of
     None \<Rightarrow> Inr None
   | Some (JStr s) \<Rightarrow> (case read_status s of Some x \<Rightarrow> Inr (Some x) | None \<Rightarrow> Inl (ValueError ''status''))
   | Some _ \<Rightarrow> Inl (ValueError ''status''))"

definition of_tickets :: "(ticket_store \<Rightarrow> 'a result) \<Rightarrow> 'a act" where
  "of_tickets f w = (f (w_tickets w), w)"

definition handle_list_tickets :: "env \<Rightarrow> doc \<Rightarrow> ticket list act" where
  "handle_list_tickets en args =
    bind_act (lift_res (filter_work_type args)) (\<lambda>wt.
    bind_act (lift_res (filter_status args)) (\<lambda>status.
    arg_opt ''assignee'' args (\<lambda>assignee.
    arg_opt ''parent_id'' args (\<lambda>parent_id.
    bind_act (case assignee of
        Some a \<Rightarrow> of_tickets (find_by_assignee (en_draws en) a)
      | None \<Rightarrow> (case parent_id of
          Some p \<Rightarrow> of_tickets (find_by_parent (en_draws en) p)
        | None \<Rightarrow> of_tickets (list_all_tickets (en_draws en)))) (\<lambda>pool.
    ret (filter (\<lambda>t. (wt = None \<or> wt = Some (tk_work_type t)) \<and> (status = None \<or> status = Some (tk_status t))) pool))))))"

definition handle_read_comments :: "env \<Rightarrow> string \<Rightarrow> string option \<Rightarrow> thread_entry list act" where
  "handle_read_comments en ticket_id kind = bind_act (ticket_entries en ticket_id) (\<lambda>es.
     ret (case kind of None \<Rightarrow> es | Some k \<Rightarrow> filter (\<lambda>e. te_kind e = k) es))"

section \<open>Comments\<close>

definition writable_kinds :: "string list" where
  "writable_kinds = [''comment'', ''decision'', ''question'', ''answer'']"

definition latest_open_question_id :: "env \<Rightarrow> string \<Rightarrow> string option act" where
  "latest_open_question_id en ticket_id w =
    (case find_by_kind (en_draws en) ticket_id ''question'' (w_threads w) of
       Inl e \<Rightarrow> (Inl e, w)
     | Inr questions \<Rightarrow> (let open_qs = filter (\<lambda>q. \<not> is_resolved q) questions
         in (Inr (if open_qs = [] then None else Some (te_id (last open_qs))), w)))"

definition comment_body :: "env \<Rightarrow> string \<Rightarrow> string \<Rightarrow> string \<Rightarrow> doc \<Rightarrow> body act" where
  "comment_body en kind ticket_id content args =
    (if kind = ''comment'' then ret (Note \<lparr>n_text = content, n_responds_to = None, n_payload = []\<rparr>)
     else if kind = ''decision'' then ret (Decision \<lparr>d_decision = content, d_rationale = []\<rparr>)
     else if kind = ''question'' then arg_or ''target'' ''any_human'' args (\<lambda>target.
       ret (Question \<lparr>q_target = target, q_question = content,
         q_blocking = truthy (dict_get (JBool False) ''blocking'' args), q_resolved_by = None, q_accepted_answer_id = None\<rparr>))
     else arg_opt ''question_id'' args (\<lambda>given.
       bind_act (if the_default [] given \<noteq> [] then ret given else latest_open_question_id en ticket_id) (\<lambda>qid.
       if the_default [] qid = [] then raise (ValueError ''answer kind requires question_id'')
       else ret (Answer \<lparr>a_question_id = the qid, a_text = content\<rparr>))))"

definition handle_comment_on_ticket :: "env \<Rightarrow> string \<Rightarrow> doc \<Rightarrow> string act" where
  "handle_comment_on_ticket en sender args =
    arg_or ''kind'' ''comment'' args (\<lambda>kind.
    require (kind \<in> set writable_kinds) (ValueError ''kind is reserved'') (
    arg ''ticket_id'' args (\<lambda>ticket_id.
    require_ticket en ticket_id (\<lambda>_.
    arg ''content'' args (\<lambda>content.
    bind_act (comment_body en kind ticket_id content args) (\<lambda>b.
    bind_act (post_entry en 0 ticket_id sender b) (\<lambda>cid.
    bind_act (publish_msg en 1 sender ''broadcast'' MContextUpdate [(''kind'', JStr ''comment_posted''),
      (''ticket_id'', JStr ticket_id), (''comment_id'', JStr cid), (''author'', JStr sender),
      (''content'', JStr content), (''comment_kind'', JStr kind)] (topic ticket_id)) (\<lambda>_.
    ret cid))))))))"

section \<open>Updates\<close>

definition update_fields :: "doc \<Rightarrow> doc result" where
  \<comment> \<open>\<open>TicketStatus(value)\<close> on the status, the other arguments as they are\<close>
  "update_fields args = (let rest = AList.delete ''ticket_id'' args in
     case map_of rest ''status'' of
       None \<Rightarrow> Inr rest
     | Some (JStr s) \<Rightarrow> (case read_status s of None \<Rightarrow> Inl (ValueError ''status'') | Some _ \<Rightarrow> Inr rest)
     | Some _ \<Rightarrow> Inl (ValueError ''status''))"

definition new_status :: "doc \<Rightarrow> ticket_status option" where
  "new_status flds = (case map_of flds ''status'' of Some (JStr s) \<Rightarrow> read_status s | _ \<Rightarrow> None)"

definition status_event :: "ticket_status \<Rightarrow> ticket_status \<Rightarrow> body" where
  "status_event old new = SystemEvent \<lparr>se_event_type = ''status_change'',
     se_content = ''status '' @ show_status old @ '' -> '' @ show_status new, se_commit_sha = None,
     se_phase_result = None, se_phase_branch = None, se_check_name = None, se_check_severity = None,
     se_check_verdict = None, se_excerpt = [], se_waived = False, se_payload = []\<rparr>"

definition is_internal :: "string \<Rightarrow> ticket_status option \<Rightarrow> bool" where
  "is_internal sender s = (sender \<notin> {''orchestrator'', ''user''} \<and> s \<in> {Some StResolved, Some StFailed})"

definition handle_update_ticket :: "env \<Rightarrow> string \<Rightarrow> doc \<Rightarrow> ticket act" where
  "handle_update_ticket en sender args =
    arg ''ticket_id'' args (\<lambda>ticket_id.
    require_ticket en ticket_id (\<lambda>before.
    bind_act (lift_res (update_fields args)) (\<lambda>flds.
    bind_act (change_ticket en 0 ticket_id flds) (\<lambda>updated.
    bind_act (if new_status flds \<noteq> None \<and> new_status flds \<noteq> Some (tk_status before)
        then post_entry en 1 ticket_id sender (status_event (tk_status before) (tk_status updated)) else ret []) (\<lambda>_.
    let payload = [(''kind'', JStr ''ticket_updated''), (''ticket_id'', JStr ticket_id),
          (''status'', JStr (show_status (tk_status updated)))] @
          (if is_internal sender (new_status flds) then [(''_internal'', JBool True)] else []) in
    bind_act (publish_msg en 2 sender ''broadcast'' MContextUpdate payload (topic ticket_id)) (\<lambda>_.
    bind_act (publish_msg en 3 sender ''orchestrator'' MContextUpdate payload ''orchestrator'') (\<lambda>_.
    ret updated)))))))"

end
