(* ===== verification/TicketToolProps.thy ===== *)
theory TicketToolProps
  imports TicketProps TicketHandlers
begin

text \<open>
  What the ticket tools do to the tickets: the rules of a triple over assertions that
  follow the map of tickets, and the effect of creating a ticket with dependencies.
\<close>

section \<open>Assertions on the tickets\<close>

declare bind_ret [simp] bind_bind [simp]

definition tickets_at :: "world \<Rightarrow> (string \<Rightarrow> ticket option) \<Rightarrow> world \<Rightarrow> bool" where
  "tickets_at w0 k w \<longleftrightarrow> ticket_inv (ts_coll (w_tickets w)) \<and> kmap w = k \<and>
     w_threads w = w_threads w0 \<and> w_checkpoints w = w_checkpoints w0"

definition tickets_ok :: "world \<Rightarrow> world \<Rightarrow> bool" where
  \<comment> \<open>what holds when an exception leaves\<close>
  "tickets_ok w0 w \<longleftrightarrow> ticket_inv (ts_coll (w_tickets w)) \<and> w_threads w = w_threads w0 \<and> w_checkpoints w = w_checkpoints w0"

lemma tickets_at_ok: "tickets_at w0 k w \<Longrightarrow> tickets_ok w0 w"
  by (simp add: tickets_at_def tickets_ok_def)

lemma tickets_at_start: "ticket_inv (ts_coll (w_tickets w)) \<Longrightarrow> tickets_at w (kmap w) w"
  by (simp add: tickets_at_def)

lemma tickets_at_with:
  "tickets_at w0 k w \<Longrightarrow> ticket_inv (ts_coll st) \<Longrightarrow> tickets_at w0 (ticket_map st) (w\<lparr>w_tickets := st\<rparr>)"
  by (simp add: tickets_at_def)

lemma ticket_map_seq [simp]: "ticket_map (st\<lparr>ts_seq := n\<rparr>) = ticket_map st"
  by (simp add: ticket_map_def)

abbreviation on_tickets :: "world \<Rightarrow> (string \<Rightarrow> ticket option) \<Rightarrow> 'a act \<Rightarrow> ('a \<Rightarrow> world \<Rightarrow> bool) \<Rightarrow> bool" where
  "on_tickets w0 k m Q \<equiv> triple (tickets_at w0 k) m Q (tickets_ok w0)"

lemma tt_get_ticket:
  assumes "\<And>x. k i = x \<Longrightarrow> on_tickets w0 k (f x) Q"
  shows "on_tickets w0 k (bind_act (get_ticket en i) f) Q"
proof (rule triple_step [where R = "\<lambda>x. k i = x"])
  fix w assume w: "tickets_at w0 k w"
  then have "ticket_inv (ts_coll (w_tickets w))" "kmap w = k" by (simp_all add: tickets_at_def)
  with w show "case get_ticket en i w of (Inl _, w') \<Rightarrow> tickets_ok w0 w' | (Inr x, w') \<Rightarrow> k i = x \<and> tickets_at w0 k w'"
    by (simp add: get_ticket_def ticket_get_refines)
qed (rule assms)

lemma tt_require_ticket:
  assumes "\<And>x. k i = Some x \<Longrightarrow> on_tickets w0 k (f x) Q"
  shows "on_tickets w0 k (require_ticket en i f) Q"
  unfolding require_ticket_def
  by (rule tt_get_ticket) (auto split: option.split intro: assms triple_raise tickets_at_ok)

lemma tt_lift:
  assumes "\<And>x. r = Inr x \<Longrightarrow> on_tickets w0 k (f x) Q"
  shows "on_tickets w0 k (bind_act (lift_res r) f) Q"
proof (rule triple_step [where R = "\<lambda>x. r = Inr x"])
  show "tickets_at w0 k w \<Longrightarrow> case lift_res r w of (Inl _, w') \<Rightarrow> tickets_ok w0 w' | (Inr x, w') \<Rightarrow> r = Inr x \<and> tickets_at w0 k w'" for w
    by (auto simp: lift_res_def tickets_at_ok split: sum.split)
qed (rule assms)

lemma tt_store_ticket:
  assumes "ticket_valid t"
    and "\<And>key. k (tk_id t) = None \<Longrightarrow> on_tickets w0 (k(tk_id t \<mapsto> t\<lparr>tk_key := key\<rparr>)) (f (tk_id t)) Q"
  shows "on_tickets w0 k (bind_act (store_ticket t) f) Q"
proof (rule triple_bind [where R = "\<lambda>x w. x = tk_id t \<and> k (tk_id t) = None \<and> (\<exists>key. tickets_at w0 (k(tk_id t \<mapsto> t\<lparr>tk_key := key\<rparr>)) w)"])
  show "on_tickets w0 k (store_ticket t) (\<lambda>x w. x = tk_id t \<and> k (tk_id t) = None \<and> (\<exists>key. tickets_at w0 (k(tk_id t \<mapsto> t\<lparr>tk_key := key\<rparr>)) w))"
    unfolding triple_def
  proof (intro allI impI)
    fix w assume w: "tickets_at w0 k w"
    then have inv: "ticket_inv (ts_coll (w_tickets w))" and k: "kmap w = k" by (simp_all add: tickets_at_def)
    show "case store_ticket t w of (Inl _, w') \<Rightarrow> tickets_ok w0 w' | (Inr x, w') \<Rightarrow> x = tk_id t \<and> k (tk_id t) = None \<and>
        (\<exists>key. tickets_at w0 (k(tk_id t \<mapsto> t\<lparr>tk_key := key\<rparr>)) w')"
    proof (cases rule: create_refines [OF inv assms(1), of "[]" False, case_names refused stored])
      case (refused e)
      obtain n where "ticket_create [] t False (w_tickets w) = (Inl e, (w_tickets w)\<lparr>ts_seq := n\<rparr>)" using refused by blast
      then show ?thesis using w by (simp add: store_ticket_def tickets_ok_def tickets_at_def)
    next
      case (stored st t')
      have "\<exists>key. t' = t\<lparr>tk_key := key\<rparr>"
      proof (cases "tk_key t = []")
        case False
        with stored(3) have "t' = t\<lparr>tk_key := tk_key t\<rparr>" by simp
        then show ?thesis ..
      qed (use stored(3) in auto)
      with stored(1,2,4,5) tickets_at_with [OF w stored(2)] k show ?thesis
        by (auto simp: store_ticket_def)
    qed
  qed
  fix x
  show "triple (\<lambda>w. x = tk_id t \<and> k (tk_id t) = None \<and> (\<exists>key. tickets_at w0 (k(tk_id t \<mapsto> t\<lparr>tk_key := key\<rparr>)) w)) (f x) Q (tickets_ok w0)"
    unfolding triple_def
  proof (intro allI impI, elim conjE exE)
    fix w key assume x: "x = tk_id t" "k (tk_id t) = None" and w: "tickets_at w0 (k(tk_id t \<mapsto> t\<lparr>tk_key := key\<rparr>)) w"
    have "on_tickets w0 (k(tk_id t \<mapsto> t\<lparr>tk_key := key\<rparr>)) (f x) Q"
      unfolding x(1) by (rule assms(2) [OF x(2)])
    then show "case f x w of (Inl _, w') \<Rightarrow> tickets_ok w0 w' | (Inr x, w') \<Rightarrow> Q x w'"
      using w by (rule triple_run)
  qed
qed

lemma tt_publish:
  assumes "\<And>x. on_tickets w0 k (f x) Q"
  shows "on_tickets w0 k (bind_act (publish_msg en n s r ty p tp) f) Q"
proof (rule triple_step [where R = "\<lambda>_. True"])
  fix w assume "tickets_at w0 k w"
  then show "case publish_msg en n s r ty p tp w of (Inl _, w') \<Rightarrow> tickets_ok w0 w' | (Inr x, w') \<Rightarrow> True \<and> tickets_at w0 k w'"
    by (simp add: publish_msg_def split_beta tickets_at_def tickets_ok_def split: sum.split)
qed (use assms in blast)

section \<open>Dependencies\<close>

definition backlinked :: "string \<Rightarrow> ticket \<Rightarrow> ticket \<Rightarrow> bool" where
  \<comment> \<open>\<open>y\<close> is \<open>x\<close>, with the new ticket among those it blocks\<close>
  "backlinked tid x y \<longleftrightarrow> (if tid \<in> set (tk_blocks x) then y = x
     else \<exists>now. y = x\<lparr>tk_blocks := tk_blocks x @ [tid], tk_updated_at := now\<rparr>)"

definition linked :: "string \<Rightarrow> string list \<Rightarrow> (string \<Rightarrow> ticket option) \<Rightarrow> (string \<Rightarrow> ticket option) \<Rightarrow> bool" where
  "linked tid ds k k' \<longleftrightarrow> (\<forall>j. if j \<in> set ds then rel_option (backlinked tid) (k j) (k' j) else k' j = k j)"

lemma backlinked_again: "backlinked tid x y \<Longrightarrow> backlinked tid y z \<Longrightarrow> backlinked tid x z"
proof -
  assume y: "backlinked tid x y" and z: "backlinked tid y z"
  show "backlinked tid x z"
  proof (cases "tid \<in> set (tk_blocks x)")
    case True
    with y have "y = x" by (simp add: backlinked_def)
    with z show ?thesis by simp
  next
    case False
    with y obtain now where "y = x\<lparr>tk_blocks := tk_blocks x @ [tid], tk_updated_at := now\<rparr>" by (auto simp: backlinked_def)
    then have "tid \<in> set (tk_blocks y)" by simp
    with z have "z = y" by (simp add: backlinked_def)
    with y show ?thesis by simp
  qed
qed

lemma linked_Nil: "linked tid [] k k"
  by (simp add: linked_def)

lemma linked_Cons:
  assumes "rel_option (backlinked tid) (k d) v" "linked tid ds (k(d := v)) k'"
  shows "linked tid (d # ds) k k'"
  unfolding linked_def
proof
  fix j
  from assms(2) have j: "if j \<in> set ds then rel_option (backlinked tid) ((k(d := v)) j) (k' j) else k' j = (k(d := v)) j"
    unfolding linked_def by (rule spec)
  show "if j \<in> set (d # ds) then rel_option (backlinked tid) (k j) (k' j) else k' j = k j"
  proof (cases "j = d")
    case True
    with j assms(1) show ?thesis
      by (cases "k d"; cases v; cases "k' d") (auto intro: backlinked_again split: if_splits)
  next
    case False
    with j show ?thesis by (cases "j \<in> set ds") simp_all
  qed
qed

lemma blocks_merged:
  "dict_update (dump_ticket p) (setdefault ''updated_at'' (JTime now) [(''blocks'', jstrs bs)]) =
     dump_ticket (p\<lparr>tk_blocks := bs, tk_updated_at := now\<rparr>)"
  by (simp add: setdefault_def dump_ticket_def)

lemma blocks_valid: "ticket_valid p \<Longrightarrow> ticket_valid (p\<lparr>tk_blocks := bs, tk_updated_at := now\<rparr>)"
  by (simp add: ticket_valid_def ticket_ok_def has_required_ac_def)

lemma update_blocks:
  assumes inv: "ticket_inv (ts_coll st)" and p: "ticket_map st i = Some p"
  shows "(\<exists>e. ticket_update cx now i [(''blocks'', jstrs bs)] st = (Inl e, st)) \<or>
    (\<exists>st'. ticket_update cx now i [(''blocks'', jstrs bs)] st = (Inr (p\<lparr>tk_blocks := bs, tk_updated_at := now\<rparr>), st') \<and>
       ticket_inv (ts_coll st') \<and> ticket_map st' = (ticket_map st)(i \<mapsto> p\<lparr>tk_blocks := bs, tk_updated_at := now\<rparr>))"
proof -
  have upd: "ticket_update cx now i [(''blocks'', jstrs bs)] st = write_update cx now i [(''blocks'', jstrs bs)] st"
    by (simp add: ticket_update_def ticket_get_refines [OF inv] p)
  have ch: "distinct (keys [(''blocks'', jstrs bs)])" "''_id'' \<notin> set (keys [(''blocks'', jstrs bs)])" by simp_all
  show ?thesis
  proof (cases rule: write_update_cases [OF inv ch, where cx = cx and now = now and i = i and cx' = "no_draws []", case_names fails writes])
    case (writes p' m st')
    then have "p' = p" using p by simp
    moreover have "validate_ticket (no_draws []) (dump_ticket (p\<lparr>tk_blocks := bs, tk_updated_at := now\<rparr>)) =
        Some (p\<lparr>tk_blocks := bs, tk_updated_at := now\<rparr>)"
      by (intro ticket_roundtrip blocks_valid ticket_map_Some(2) [OF inv p])
    ultimately show ?thesis using writes upd by (simp add: blocks_merged)
  qed (simp add: upd)
qed

lemma tt_change_blocks:
  assumes "k d = Some x" "\<And>now y. on_tickets w0 (k(d \<mapsto> x\<lparr>tk_blocks := bs, tk_updated_at := now\<rparr>)) (f y) Q"
  shows "on_tickets w0 k (bind_act (change_ticket en n d [(''blocks'', jstrs bs)]) f) Q"
proof (rule triple_step [where R = "\<lambda>_. True"])
  fix w assume w: "tickets_at w0 k w"
  then have inv: "ticket_inv (ts_coll (w_tickets w))" and k: "kmap w = k" by (simp_all add: tickets_at_def)
  from update_blocks [OF inv, of d x "en_draws en" "en_now en n" bs] assms(1) k
  show "case change_ticket en n d [(''blocks'', jstrs bs)] w of (Inl _, w') \<Rightarrow> tickets_ok w0 w' |
      (Inr y, w') \<Rightarrow> True \<and> tickets_at w0 (k(d \<mapsto> x\<lparr>tk_blocks := bs, tk_updated_at := en_now en n\<rparr>)) w'"
    using w by (auto simp: change_ticket_def tickets_at_def tickets_ok_def)
qed (rule assms(2))

lemma link_deps_effect: "on_tickets w0 k (link_deps en n tid ds) (\<lambda>_ w. \<exists>k'. linked tid ds k k' \<and> tickets_at w0 k' w)"
proof (induction ds arbitrary: n k)
  case Nil
  show ?case by (simp, rule triple_ret) (use linked_Nil in blast)
next
  case (Cons d ds)
  have rest: "on_tickets w0 (k(d := v)) (link_deps en (n + 1) tid ds) (\<lambda>_ w. \<exists>k'. linked tid (d # ds) k k' \<and> tickets_at w0 k' w)"
    if "rel_option (backlinked tid) (k d) v" for v
    by (rule triple_weaken [OF Cons.IH [where k = "k(d := v)"]]) (assumption, use linked_Cons [where k = k and d = d and v = v, OF that] in blast, assumption)
  have same: "on_tickets w0 k (link_deps en (n + 1) tid ds) (\<lambda>_ w. \<exists>k'. linked tid (d # ds) k k' \<and> tickets_at w0 k' w)"
    if "rel_option (backlinked tid) (k d) (k d)" using rest [OF that] by simp
  show ?case unfolding link_deps.simps
  proof (rule tt_get_ticket)
    fix dep assume d: "k d = dep"
    show "on_tickets w0 k (bind_act (case dep of None \<Rightarrow> ret () | Some x \<Rightarrow> if tid \<notin> set (tk_blocks x)
           then bind_act (change_ticket en n d [(''blocks'', jstrs (tk_blocks x @ [tid]))]) (\<lambda>_. ret ()) else ret ())
        (\<lambda>_. link_deps en (n + 1) tid ds)) (\<lambda>_ w. \<exists>k'. linked tid (d # ds) k k' \<and> tickets_at w0 k' w)"
    proof (cases "\<exists>x. dep = Some x \<and> tid \<notin> set (tk_blocks x)")
      case True
      then obtain x where x: "dep = Some x" "tid \<notin> set (tk_blocks x)" by blast
      have "on_tickets w0 k (bind_act (change_ticket en n d [(''blocks'', jstrs (tk_blocks x @ [tid]))]) (\<lambda>_. link_deps en (n + 1) tid ds))
          (\<lambda>_ w. \<exists>k'. linked tid (d # ds) k k' \<and> tickets_at w0 k' w)"
      proof (rule tt_change_blocks)
        show kd: "k d = Some x" using d x(1) by simp
        show "on_tickets w0 (k(d \<mapsto> x\<lparr>tk_blocks := tk_blocks x @ [tid], tk_updated_at := now\<rparr>))
            (link_deps en (n + 1) tid ds) (\<lambda>_ w. \<exists>k'. linked tid (d # ds) k k' \<and> tickets_at w0 k' w)" for now
          by (rule rest) (use x(2) in \<open>auto simp: kd backlinked_def\<close>)
      qed
      with x show ?thesis by simp
    next
      case False
      then have "rel_option (backlinked tid) (k d) (k d)" by (cases dep) (auto simp: d backlinked_def)
      from same [OF this] False show ?thesis
        by (cases dep) auto
    qed
  qed
qed

lemma require_tickets_effect:
  assumes "set ds \<subseteq> dom k \<Longrightarrow> on_tickets w0 k m Q"
  shows "on_tickets w0 k (require_tickets en ds m) Q"
  using assms
proof (induction ds)
  case (Cons d ds)
  show ?case unfolding require_tickets.simps
    by (rule tt_require_ticket, rule Cons.IH, rule Cons.prems) auto
qed simp

section \<open>Creation\<close>

lemma migrate_other:
  assumes "migrate_legacy_fields d0 = Some d" "k \<notin> {''type'', ''work_type'', ''workflow''}"
  shows "map_of d k = map_of d0 k"
  using assms by (auto simp: migrate_legacy_fields_def Let_def update_conv' delete_conv' split: if_splits option.splits)

lemma validate_ticketE:
  assumes "validate_ticket cx d0 = Some t"
  obtains d where "migrate_legacy_fields d0 = Some d" "read_ticket cx d = Some t" "ticket_valid t"
  using assms validate_ticket_valid [OF assms] by (auto simp: validate_ticket_def split: Option.bind_splits)

lemma kwargs_lookup:
  assumes "work_type_kwargs args = Inr wt"
  shows "map_of (ticket_kwargs sender sz title args @ wt) ''_id'' = None"
    "map_of (ticket_kwargs sender sz title args @ wt) ''id'' = None"
    "map_of (ticket_kwargs sender sz title args @ wt) ''status'' = None"
    "map_of (ticket_kwargs sender sz title args @ wt) ''key'' = None"
    "map_of (ticket_kwargs sender sz title args @ wt) ''blocks'' = None"
    "map_of (ticket_kwargs sender sz title args @ wt) ''created_by'' = Some (JStr sender)"
    "map_of (ticket_kwargs sender sz title args @ wt) ''description'' = Some (dict_get (JStr []) ''description'' args)"
    "map_of (ticket_kwargs sender sz title args @ wt) ''parent_id'' = Some (dict_get JNull ''parent_id'' args)"
    "map_of (ticket_kwargs sender sz title args @ wt) ''blocked_by'' = Some (dict_get (JList []) ''depends_on'' args)"
    "map_of (ticket_kwargs sender sz title args @ wt) ''title'' = Some title"
    "map_of (ticket_kwargs sender sz title args @ wt) ''assignee'' = Some (dict_get JNull ''assignee'' args)"
    "map_of (ticket_kwargs sender sz title args @ wt) ''labels'' = Some (dict_get (JList []) ''labels'' args)"
    "map_of (ticket_kwargs sender sz title args @ wt) ''derived_from'' = Some (dict_get JNull ''derived_from'' args)"
    "map_of (ticket_kwargs sender sz title args @ wt) ''size'' = Some (JStr (show_size sz))"
  using assms by (auto simp: ticket_kwargs_def work_type_kwargs_def map_add_def split: option.splits json.splits if_splits)

lemma strs_of_json: "map_opt as_str xs = Some ys \<Longrightarrow> JList xs = jstrs ys"
proof (induction xs arbitrary: ys)
  case (Cons x xs)
  then show ?case by (cases x) (auto simp: jstrs_def split: Option.bind_splits option.splits)
qed (simp add: jstrs_def)

definition asked_fields :: "string \<Rightarrow> doc \<Rightarrow> string list \<Rightarrow> ticket \<Rightarrow> bool" where
  \<comment> \<open>the fields that the call gives, or their defaults; a title loses its backticks\<close>
  "asked_fields sender args deps t \<longleftrightarrow> tk_created_by t = sender \<and> tk_status t = StOpen \<and> tk_blocked_by t = deps \<and>
     tk_blocks t = [] \<and> dict_get (JStr []) ''description'' args = JStr (tk_description t) \<and>
     dict_get JNull ''parent_id'' args = jopt (tk_parent_id t) \<and>
     (\<exists>x. map_of args ''title'' = Some (JStr x) \<and> tk_title t = strip_title_backticks x) \<and>
     dict_get JNull ''assignee'' args = jopt (tk_assignee t) \<and> dict_get JNull ''derived_from'' args = jopt (tk_derived_from t) \<and>
     dict_get (JList []) ''labels'' args = jstrs (tk_labels t) \<and> dict_get (JStr ''m'') ''size'' args = JStr (show_size (tk_size t))"

definition work_type_asked :: "doc \<Rightarrow> work_type \<Rightarrow> bool" where
  \<comment> \<open>the given one, or the one that a type of old stands for\<close>
  "work_type_asked args x \<longleftrightarrow> (case map_of args ''work_type'' of
     Some j \<Rightarrow> j = JStr (show_work_type x)
   | None \<Rightarrow> \<exists>s. map_of args ''type'' = Some (JStr s) \<and> show_work_type x = the_default s (map_of legacy_type_migration s))"

definition thread_asked :: "doc \<Rightarrow> bool" where
  "thread_asked args \<longleftrightarrow> map_of args ''work_type'' = None \<and> map_of args ''type'' \<in> {Some (JStr ''task''), Some (JStr ''question'')}"

definition configured :: "project \<Rightarrow> ticket \<Rightarrow> string \<Rightarrow> bool" where
  "configured p t x \<longleftrightarrow> (case p of
     Some (Inr c) \<Rightarrow> resolve_workflow c (show_work_type (tk_work_type t)) (show_size (tk_size t)) None = Inr x | _ \<Rightarrow> x = ''default'')"

definition workflow_asked :: "project \<Rightarrow> doc \<Rightarrow> ticket \<Rightarrow> bool" where
  \<comment> \<open>the given one, the one of threads for a task or question of old, or what the configuration says\<close>
  "workflow_asked p args t \<longleftrightarrow> (case map_of args ''workflow'' of
     Some j \<Rightarrow> j = JStr (tk_workflow t)
   | None \<Rightarrow> if thread_asked args then tk_workflow t = ''thread'' else configured p t (tk_workflow t))"

definition asked_for :: "project \<Rightarrow> string \<Rightarrow> doc \<Rightarrow> string list \<Rightarrow> ticket \<Rightarrow> bool" where
  \<comment> \<open>the new ticket has what the call asked for\<close>
  "asked_for p sender args deps t \<longleftrightarrow> asked_fields sender args deps t \<and> work_type_asked args (tk_work_type t) \<and> workflow_asked p args t"

lemma kwargs_types:
  "map_of (ticket_kwargs sender sz title args) ''work_type'' = None" "map_of (ticket_kwargs sender sz title args) ''type'' = None"
  "map_of (ticket_kwargs sender sz title args) ''workflow'' = map_of args ''workflow''"
  by (simp_all add: ticket_kwargs_def split: option.split)

lemma read_size_of: "read_size s = Some x \<longleftrightarrow> s = show_size x"
proof
  assume "read_size s = Some x"
  then show "s = show_size x" by (auto simp: read_size_def dest: find_Some_in)
qed (cases x; simp add: read_size_def all_size_def)

lemma migrated_kwargs:
  assumes "work_type_kwargs args = Inr wt" "migrate_legacy_fields (ticket_kwargs sender sz title args @ wt) = Some d"
  shows "fld_work_type d = Some x \<Longrightarrow> work_type_asked args x"
    "map_of d ''workflow'' = (case map_of args ''workflow'' of
       Some j \<Rightarrow> Some j | None \<Rightarrow> if thread_asked args then Some (JStr ''thread'') else None)"
proof -
  let ?d = "ticket_kwargs sender sz title args @ wt"
  have both: "(fld_work_type d = Some x \<longrightarrow> work_type_asked args x) \<and> map_of d ''workflow'' = (case map_of args ''workflow'' of
       Some j \<Rightarrow> Some j | None \<Rightarrow> if thread_asked args then Some (JStr ''thread'') else None)"
  proof (cases "map_of args ''work_type''")
    case (Some j)
    then obtain s where s: "j = JStr s" "wt = [(''work_type'', JStr s)]"
      using assms(1) by (auto simp: work_type_kwargs_def split: json.splits option.splits)
    then have "d = ?d" using assms(2) by (simp add: migrate_legacy_fields_def map_add_def kwargs_types)
    then show ?thesis
      using s Some by (auto simp: fld_work_type_def fld_str_def read_work_type_of work_type_asked_def thread_asked_def kwargs_types map_add_def
          split: option.split)
  next
    case None
    then obtain s where s: "map_of args ''type'' = Some (JStr s)" "wt = [(''type'', JStr s)]"
      using assms(1) by (auto simp: work_type_kwargs_def split: json.splits option.splits if_splits)
    let ?d1 = "AList.update ''work_type'' (migrate_type (JStr s)) (AList.delete ''type'' ?d)"
    have w: "map_of ?d1 ''workflow'' = map_of args ''workflow''" "map_of ?d1 ''work_type'' = Some (migrate_type (JStr s))"
      using s(2) by (simp_all add: update_conv' delete_conv' kwargs_types map_add_def split: option.split)
    have "d = (if s \<in> {''task'', ''question''} \<and> map_of args ''workflow'' = None then AList.update ''workflow'' (JStr ''thread'') ?d1 else ?d1)"
      using assms(2) s(2) w(1) by (auto simp: migrate_legacy_fields_def kwargs_types map_add_def Let_def split: if_splits)
    with w s(1) None show ?thesis
      by (auto simp: fld_work_type_def fld_str_def read_work_type_of work_type_asked_def thread_asked_def migrate_type_def update_conv'
          split: option.split)
  qed
  then show "fld_work_type d = Some x \<Longrightarrow> work_type_asked args x"
    "map_of d ''workflow'' = (case map_of args ''workflow'' of
       Some j \<Rightarrow> Some j | None \<Rightarrow> if thread_asked args then Some (JStr ''thread'') else None)" by blast+
qed

lemma opt_field: "fld_opt k d = Some x \<Longrightarrow> map_of d k = Some j \<Longrightarrow> j = jopt x"
  by (cases x) (auto simp: fld_opt_def jopt_def split: json.splits)

lemma new_ticket_fields:
  assumes "new_ticket_of en sender args = Inr t" "dict_get (JList []) ''depends_on'' args = jstrs deps"
  shows "ticket_valid t" "tk_id t = en_uuid en 0" "asked_fields sender args deps t" "work_type_asked args (tk_work_type t)"
    "case map_of args ''workflow'' of Some j \<Rightarrow> j = JStr (tk_workflow t)
     | None \<Rightarrow> tk_workflow t = (if thread_asked args then ''thread'' else ''default'')"
proof -
  let ?cx = "\<lparr>cx_now = en_now en 0, cx_uuid = (\<lambda>_. en_uuid en 0)\<rparr>"
  obtain sz title wt where wt: "work_type_kwargs args = Inr wt" "raw_size args = Inr sz" "map_of args ''title'' = Some title"
    and v: "validate_ticket ?cx (ticket_kwargs sender sz title args @ wt) = Some t"
    using assms(1) by (auto simp: new_ticket_of_def split: sum.splits option.splits)
  obtain d where d: "migrate_legacy_fields (ticket_kwargs sender sz title args @ wt) = Some d"
    "read_ticket ?cx d = Some t" "ticket_valid t" by (rule validate_ticketE [OF v])
  note look = kwargs_lookup [OF wt(1), of sender sz title]
  have other: "k \<notin> {''type'', ''work_type'', ''workflow''} \<Longrightarrow>
      map_of d k = map_of (ticket_kwargs sender sz title args @ wt) k" for k
    by (rule migrate_other [OF d(1)])
  have m: "map_of d ''_id'' = None" "map_of d ''id'' = None" "map_of d ''status'' = None" "map_of d ''blocks'' = None"
    "map_of d ''created_by'' = Some (JStr sender)"
    "map_of d ''description'' = Some (dict_get (JStr []) ''description'' args)"
    "map_of d ''parent_id'' = Some (dict_get JNull ''parent_id'' args)"
    "map_of d ''blocked_by'' = Some (jstrs deps)" "map_of d ''title'' = Some title"
    "map_of d ''assignee'' = Some (dict_get JNull ''assignee'' args)" "map_of d ''labels'' = Some (dict_get (JList []) ''labels'' args)"
    "map_of d ''derived_from'' = Some (dict_get JNull ''derived_from'' args)" "map_of d ''size'' = Some (JStr (show_size sz))"
    using look assms(2) by (simp_all add: other)
  have r: "fld_id ?cx d = Some (tk_id t)" "fld_status d = Some (tk_status t)" "fld_strs ''blocks'' d = Some (tk_blocks t)"
    "fld_strs ''blocked_by'' d = Some (tk_blocked_by t)" "fld_str ''created_by'' d = Some (tk_created_by t)"
    "fld_str_or ''description'' [] d = Some (tk_description t)" "fld_opt ''parent_id'' d = Some (tk_parent_id t)"
    "fld_title d = Some (tk_title t)" "fld_opt ''assignee'' d = Some (tk_assignee t)" "fld_strs ''labels'' d = Some (tk_labels t)"
    "fld_opt ''derived_from'' d = Some (tk_derived_from t)" "fld_size d = Some (tk_size t)" "fld_work_type d = Some (tk_work_type t)"
    "fld_str_or ''workflow'' ''default'' d = Some (tk_workflow t)"
    using d(2) by (simp_all add: read_ticket_iff)
  show "ticket_valid t" by (rule d(3))
  show "tk_id t = en_uuid en 0" using r(1) m(1,2) by (simp add: fld_id_def fld_str_or_def)
  have "show_status StOpen = show_status (tk_status t)" using r(2) m(3) by (simp add: fld_status_def fld_str_or_def read_status_of)
  then have "tk_status t = StOpen" by (simp only: show_status_inj)
  moreover have "tk_blocks t = []" using r(3) m(4) by (simp add: fld_strs_def)
  moreover have "tk_blocked_by t = deps" using r(4) fld_strs_dump [OF m(8)] by simp
  moreover have "tk_created_by t = sender" using r(5) m(5) by (simp add: fld_str_def)
  moreover have "dict_get (JStr []) ''description'' args = JStr (tk_description t)"
    using r(6) m(6) by (auto simp: fld_str_or_def split: json.splits)
  moreover have "dict_get JNull ''parent_id'' args = jopt (tk_parent_id t)"
    by (rule opt_field [OF r(7) m(7)])
  moreover have "\<exists>x. map_of args ''title'' = Some (JStr x) \<and> tk_title t = strip_title_backticks x"
    using r(8) m(9) wt(3) by (auto simp: fld_title_def fld_str_def split: json.splits)
  moreover have "dict_get JNull ''assignee'' args = jopt (tk_assignee t)" by (rule opt_field [OF r(9) m(10)])
  moreover have "dict_get JNull ''derived_from'' args = jopt (tk_derived_from t)" by (rule opt_field [OF r(11) m(12)])
  moreover have "dict_get (JList []) ''labels'' args = jstrs (tk_labels t)"
    using r(10) m(11) strs_of_json by (auto simp: fld_strs_def split: json.splits)
  moreover have "dict_get (JStr ''m'') ''size'' args = JStr (show_size (tk_size t))"
    using r(12) m(13) wt(2) by (auto simp: raw_size_def fld_size_def fld_str_or_def read_size_of split: json.splits option.splits)
  ultimately show "asked_fields sender args deps t" by (simp add: asked_fields_def)
  show "work_type_asked args (tk_work_type t)" by (rule migrated_kwargs(1) [OF wt(1) d(1) r(13)])
  show "case map_of args ''workflow'' of Some j \<Rightarrow> j = JStr (tk_workflow t)
     | None \<Rightarrow> tk_workflow t = (if thread_asked args then ''thread'' else ''default'')"
    using r(14) migrated_kwargs(2) [OF wt(1) d(1)] by (auto simp: fld_str_or_def split: option.splits json.splits if_splits)
qed

lemma workflow_valid [simp]: "ticket_valid (t\<lparr>tk_workflow := x\<rparr>) = ticket_valid t"
  by (simp add: ticket_valid_def ticket_ok_def has_required_ac_def)

lemma asked_irrelevant [simp]: "asked_fields sender args deps (t\<lparr>tk_workflow := x\<rparr>) = asked_fields sender args deps t"
  "asked_fields sender args deps (t\<lparr>tk_key := y\<rparr>) = asked_fields sender args deps t"
  "asked_for p sender args deps (t\<lparr>tk_key := y\<rparr>) = asked_for p sender args deps t"
  "configured p (t\<lparr>tk_workflow := x\<rparr>) = configured p t"
  by (auto simp: asked_fields_def asked_for_def workflow_asked_def configured_def split: option.splits sum.splits)

definition config_of :: "project \<Rightarrow> workflows_section option" where
  "config_of p = (case p of Some (Inr c) \<Rightarrow> Some c | _ \<Rightarrow> None)"

lemma tt_load_workflows:
  assumes "on_tickets w0 k (f (config_of p)) Q"
  shows "on_tickets w0 k (bind_act (load_workflows p) f) Q"
proof -
  have "load_workflows p = lift_res (fst (load_workflows p undefined))"
    by (rule ext) (auto simp: load_workflows_def lift_res_def ret_def raise_def split: option.split sum.split exc.split)
  moreover have "fst (load_workflows p undefined) = Inr c \<Longrightarrow> c = config_of p" for c
    by (auto simp: load_workflows_def config_of_def ret_def raise_def split: option.splits sum.splits exc.splits)
  ultimately show ?thesis using tt_lift [of "fst (load_workflows p undefined)"] assms by metis
qed

definition chosen :: "project \<Rightarrow> string option \<Rightarrow> ticket \<Rightarrow> string \<Rightarrow> bool" where
  "chosen p e t x \<longleftrightarrow> (if e = None \<and> tk_workflow t = ''default'' then configured p t x else x = tk_workflow t)"

lemma tt_choose_workflow:
  assumes "\<And>x. chosen p e t x \<Longrightarrow> on_tickets w0 k (f (t\<lparr>tk_workflow := x\<rparr>)) Q"
  shows "on_tickets w0 k (bind_act (choose_workflow p e t) f) Q"
proof (cases "e = None \<and> tk_workflow t = ''default''")
  case True
  have "t\<lparr>tk_workflow := ''default''\<rparr> = t" using True by (cases t) simp
  with assms [of "''default''"] True have "config_of p = None \<Longrightarrow> on_tickets w0 k (f t) Q"
    by (auto simp: chosen_def configured_def config_of_def split: option.splits sum.splits)
  moreover have "config_of p = Some c \<Longrightarrow> resolve_workflow c (show_work_type (tk_work_type t)) (show_size (tk_size t)) None = Inr x \<Longrightarrow>
      on_tickets w0 k (f (t\<lparr>tk_workflow := x\<rparr>)) Q" for c x
    using assms [of x] True by (auto simp: chosen_def configured_def config_of_def split: option.splits sum.splits)
  ultimately show ?thesis
    using True by (auto simp: choose_workflow_def intro!: tt_load_workflows tt_lift split: option.split)
next
  case False
  then have "on_tickets w0 k (f t) Q" using assms [of "tk_workflow t"] by (auto simp: chosen_def)
  with False show ?thesis by (auto simp: choose_workflow_def intro!: tt_load_workflows tt_lift split: option.split)
qed


lemma tt_arg_strs:
  assumes "\<And>xs. dict_get (JList []) key args = jstrs xs \<Longrightarrow> on_tickets w0 k (f xs) Q"
  shows "on_tickets w0 k (arg_strs key args f) Q"
  unfolding arg_strs_def
  by (auto simp: dict_get_def jstrs_def dest!: strs_of_json split: option.split json.split
      intro!: assms triple_raise intro: tickets_at_ok)

lemma tt_arg_opt:
  assumes "\<And>x. dict_get JNull key args = jopt x \<Longrightarrow> on_tickets w0 k (f x) Q"
  shows "on_tickets w0 k (arg_opt key args f) Q"
  unfolding arg_opt_def
  by (auto simp: dict_get_def jopt_def split: option.split json.split intro!: assms triple_raise intro: tickets_at_ok)

lemma workflow_chosen:
  assumes "chosen p e t x" "dict_get JNull ''workflow'' args = jopt e"
    "case map_of args ''workflow'' of Some j \<Rightarrow> j = JStr (tk_workflow t)
     | None \<Rightarrow> tk_workflow t = (if thread_asked args then ''thread'' else ''default'')"
  shows "workflow_asked p args (t\<lparr>tk_workflow := x\<rparr>)"
  using assms by (cases e) (auto simp: chosen_def workflow_asked_def dict_get_def jopt_def split: option.splits if_splits)

lemma create_effect:
  "on_tickets w0 k (handle_create_ticket en sender p args) (\<lambda>tid w. \<exists>t deps k'.
     dict_get (JList []) ''depends_on'' args = jstrs deps \<and> k tid = None \<and> set deps \<subseteq> dom k \<and>
     tk_id t = tid \<and> asked_for p sender args deps t \<and> linked tid deps (k(tid \<mapsto> t)) k' \<and> tickets_at w0 k' w)"
  (is "on_tickets w0 k _ ?Q")
  unfolding handle_create_ticket_def
proof (rule tt_arg_strs, rule require_tickets_effect, rule tt_lift, rule tt_arg_opt, rule tt_choose_workflow, rule tt_store_ticket)
  fix deps t e x key
  assume e: "dict_get JNull ''workflow'' args = jopt e" "chosen p e t x"
  assume deps: "dict_get (JList []) ''depends_on'' args = jstrs deps" "set deps \<subseteq> dom k"
    and t: "new_ticket_of en sender args = Inr t"
  note new = new_ticket_fields [OF t deps(1)]
  show "ticket_valid (t\<lparr>tk_workflow := x\<rparr>)" using new(1) by simp
  have asked: "asked_for p sender args deps (t\<lparr>tk_workflow := x\<rparr>)"
    using new(3,4) workflow_chosen [OF e(2,1) new(5)] by (simp add: asked_for_def)
  let ?t = "t\<lparr>tk_workflow := x\<rparr>\<lparr>tk_key := key\<rparr>" and ?i = "tk_id (t\<lparr>tk_workflow := x\<rparr>)"
  assume fresh: "k ?i = None"
  have fin: "?Q ?i w" if "linked ?i deps (k(?i \<mapsto> ?t)) k'" "tickets_at w0 k' w" for k' w
    using that deps fresh asked by (intro exI [of _ ?t] exI [of _ deps] exI [of _ k']) simp
  show "on_tickets w0 (k(?i \<mapsto> ?t)) (bind_act (link_deps en 3 ?i deps)
      (\<lambda>_. bind_act (publish_ticket_created en 1 (t\<lparr>tk_workflow := x\<rparr>) sender deps True) (\<lambda>_. ret ?i))) ?Q"
  proof (rule triple_bind [OF link_deps_effect])
    show "triple (\<lambda>w. \<exists>k'. linked ?i deps (k(?i \<mapsto> ?t)) k' \<and> tickets_at w0 k' w)
        (bind_act (publish_ticket_created en 1 (t\<lparr>tk_workflow := x\<rparr>) sender deps True) (\<lambda>_. ret ?i)) ?Q (tickets_ok w0)"
    proof (rule triple_some)
      fix k' assume "linked ?i deps (k(?i \<mapsto> ?t)) k'"
      then show "on_tickets w0 k' (bind_act (publish_ticket_created en 1 (t\<lparr>tk_workflow := x\<rparr>) sender deps True) (\<lambda>_. ret ?i)) ?Q"
        unfolding publish_ticket_created_def
        by (simp only: bind_bind bind_ret if_True) (intro tt_publish triple_ret fin)
    qed
  qed
qed

definition depends_on :: "doc \<Rightarrow> string list \<Rightarrow> bool" where
  "depends_on args deps \<longleftrightarrow> dict_get (JList []) ''depends_on'' args = jstrs deps"

text \<open>
  C12: When creating a ticket succeeds, every dependency existed, the new ticket is stored
  under a fresh id as an open ticket of the caller, with the title (without backticks), description, parent, assignee,
  labels, size, work type and origin that were asked for, or their defaults, and the workflow that was
  asked for or that the configuration says, blocked by exactly the given dependencies; each of these blocks the new ticket now and is otherwise the old ticket,
  and every other ticket is untouched.  When it fails, every stored ticket still reads.
\<close>

theorem create_links_dependencies:
  assumes "ticket_inv (ts_coll (w_tickets w))" "handle_create_ticket en sender p args w = (r, w')"
  shows "ticket_inv (ts_coll (w_tickets w')) \<and> (case r of Inl _ \<Rightarrow> True | Inr tid \<Rightarrow> \<exists>t deps.
     depends_on args deps \<and> kmap w tid = None \<and> kmap w' tid = Some t \<and> asked_for p sender args deps t \<and>
     (\<forall>j. if j \<in> set deps then \<exists>x y. kmap w j = Some x \<and> kmap w' j = Some y \<and> backlinked tid x y
          else j = tid \<or> kmap w' j = kmap w j))"
proof (cases r)
  case (Inl e)
  then show ?thesis
    using tripleD [OF create_effect tickets_at_start [OF assms(1)] assms(2)] by (simp add: tickets_ok_def)
next
  case (Inr tid)
  then obtain t deps k' where e: "depends_on args deps" "kmap w tid = None" "set deps \<subseteq> dom (kmap w)"
    "asked_for p sender args deps t" "linked tid deps ((kmap w)(tid \<mapsto> t)) k'" "tickets_at w k' w'"
    using tripleD [OF create_effect tickets_at_start [OF assms(1)] assms(2)] by (auto simp: depends_on_def)
  have k': "kmap w' = k'" "ticket_inv (ts_coll (w_tickets w'))" using e(6) by (simp_all add: tickets_at_def)
  have tid: "tid \<notin> set deps" using e(2,3) by auto
  have l: "if j \<in> set deps then rel_option (backlinked tid) (((kmap w)(tid \<mapsto> t)) j) (k' j) else k' j = ((kmap w)(tid \<mapsto> t)) j" for j
    using e(5) unfolding linked_def by (rule spec)
  have "\<exists>x y. kmap w j = Some x \<and> kmap w' j = Some y \<and> backlinked tid x y" if d: "j \<in> set deps" for j
  proof -
    obtain x where x: "kmap w j = Some x" using d e(3) by blast
    have "j \<noteq> tid" using d tid by blast
    with l [of j] d x have "rel_option (backlinked tid) (Some x) (kmap w' j)" by (simp add: k'(1))
    then show ?thesis unfolding option_rel_Some1 using x by blast
  qed
  moreover have "kmap w' j = kmap w j" if "j \<notin> set deps" "j \<noteq> tid" for j
    using l [of j] that k'(1) by simp
  moreover have "kmap w' tid = Some t" using l [of tid] tid k'(1) by simp
  ultimately show ?thesis using e(1,2,4) k'(2) Inr by auto
qed

section \<open>Witness\<close>

definition small_store :: "string list \<Rightarrow> jsonl_store" where
  "small_store fs = new_store (\<lambda>xs. xs) [] fs 1000"

definition small_world :: world where
  "small_world = \<lparr>w_tickets = \<lparr>ts_coll = small_store ticket_index, ts_seq = None, ts_on_create = False,
     ts_on_status = False, ts_events = []\<rparr>, w_threads = small_store thread_index,
     w_checkpoints = small_store checkpoint_index,
     w_bus = \<lparr>bus_coll = small_store message_index, bus_subscribers = [], bus_listeners = [], bus_agents = [],
       bus_queues = (\<lambda>_. []), bus_next = 0, bus_calls = []\<rparr>,
     w_workflows = (\<lambda>_. Inl (FileNotFoundError [])), w_decisions = None\<rparr>"

definition named_env :: "char \<Rightarrow> env" where
  "named_env c = \<lparr>en_now = \<lambda>_. 0, en_uuid = \<lambda>n. replicate (Suc n) c, en_draws = no_draws\<rparr>"

definition docs_args :: "string list \<Rightarrow> doc" where
  "docs_args deps = [(''title'', JStr ''x''), (''work_type'', JStr ''docs''), (''depends_on'', jstrs deps)]"

definition one_ticket_world :: world where
  "one_ticket_world = snd (handle_create_ticket (named_env CHR ''u'') ''pm'' None (docs_args []) small_world)"

lemma small_tickets_inv: "ticket_inv (ts_coll (w_tickets small_world))"
  by (simp add: small_world_def small_store_def ticket_inv_def coll_inv_empty) (simp add: new_store_def)

lemma one_ticket_inv: "ticket_inv (ts_coll (w_tickets one_ticket_world))"
proof -
  obtain r where r: "handle_create_ticket (named_env CHR ''u'') ''pm'' None (docs_args []) small_world = (r, one_ticket_world)"
    by (metis one_ticket_world_def surjective_pairing)
  from tripleD [OF create_effect tickets_at_start [OF small_tickets_inv] r] show ?thesis
    by (cases r) (auto simp: tickets_ok_def tickets_at_def)
qed

lemma second_ticket_created:
  "case handle_create_ticket (named_env CHR ''v'') ''pm'' None (docs_args [''u'']) one_ticket_world of
     (Inl _, _) \<Rightarrow> False | (Inr i, _) \<Rightarrow> i = ''v''"
  unfolding one_ticket_world_def by code_simp

theorem create_links_dependencies_witness:
  "\<exists>w' x y. handle_create_ticket (named_env CHR ''v'') ''pm'' None (docs_args [''u'']) one_ticket_world = (Inr ''v'', w') \<and>
     kmap one_ticket_world ''u'' = Some x \<and> kmap w' ''u'' = Some y \<and> backlinked ''v'' x y"
proof -
  obtain w' where r: "handle_create_ticket (named_env CHR ''v'') ''pm'' None (docs_args [''u'']) one_ticket_world = (Inr ''v'', w')"
    using second_ticket_created by (auto split: prod.splits sum.splits)
  have deps: "deps = [''u'']" if "depends_on (docs_args [''u'']) deps" for deps
    using that by (cases deps) (auto simp: depends_on_def docs_args_def dict_get_def jstrs_def)
  from create_links_dependencies [OF one_ticket_inv r] obtain ds where "depends_on (docs_args [''u'']) ds"
    and all: "\<forall>j. if j \<in> set ds then \<exists>x y. kmap one_ticket_world j = Some x \<and> kmap w' j = Some y \<and> backlinked ''v'' x y
          else j = ''v'' \<or> kmap w' j = kmap one_ticket_world j"
    by (simp only: sum.case) (elim conjE exE, rule that)
  then have "ds = [''u'']" by (intro deps)
  with spec [OF all, of "''u''"] obtain x y where "kmap one_ticket_world ''u'' = Some x" "kmap w' ''u'' = Some y" "backlinked ''v'' x y"
    by auto
  with r show ?thesis by blast
qed

end
