(* ===== verification/Specs.thy ===== *)
theory Specs
  imports World PyText
begin

text \<open>
  Ownership (\<open>jig/ownership.py\<close>), work-type schemas (\<open>jig/work_types.py\<close>), ticket specs
  (\<open>jig/specs.py\<close>) and section locks (\<open>jig/section_locks.py\<close>).  The configuration and the
  schemas are what their files load to.  The directory of spec files gives for each name
  the spec it loads to, or the exception: writing YAML and reading it back is the identity.
\<close>

section \<open>Ownership\<close>

datatype assignment = HumanStaffed | HumanWithHelper | AgentStaffed | Unstaffed

fun show_assignment :: "assignment \<Rightarrow> string" where
  "show_assignment HumanStaffed = ''human''"
| "show_assignment HumanWithHelper = ''human_with_helper''"
| "show_assignment AgentStaffed = ''agent''"
| "show_assignment Unstaffed = ''unstaffed''"

record owner_routing =
  or_role :: string
  or_assignee :: "string option"
  or_helper_template :: "string option"
  or_assignment :: assignment

datatype self_approval = SelfWarn | SelfBlocked

text \<open>
  The sections of the configuration as \<open>model_dump\<close> gives them; the owners of spec fields
  are strings, which is what the declared ones are.
\<close>

record config =
  cf_spec_owners :: "(string \<times> string) list"
  cf_ownership :: doc
  cf_roles :: doc
  cf_self_approval :: self_approval

record role_assignment =
  ra_assignment :: string
  ra_human :: string
  ra_helper_template :: string

definition role_assignment_kinds :: "string list" where
  "role_assignment_kinds = ['''', ''human'', ''human_with_helper'', ''agent'']"

definition parse_role_assignment :: "doc \<Rightarrow> role_assignment option" where
  "parse_role_assignment d = do {
     a \<leftarrow> fld_str_or ''assignment'' [] d; guard (a \<in> set role_assignment_kinds);
     h \<leftarrow> fld_str_or ''human'' [] d; t \<leftarrow> fld_str_or ''helper_template'' [] d;
     Some \<lparr>ra_assignment = a, ra_human = h, ra_helper_template = t\<rparr> }"

definition nonempty :: "string \<Rightarrow> string option" where
  \<comment> \<open>\<open>s or None\<close>\<close>
  "nonempty s = (if s = [] then None else Some s)"

record work_schema =
  sc_required :: "string list"
  sc_optional :: "string list"
  sc_required_by_size :: "(size \<times> string list) list"
  sc_ownership :: "(string \<times> string) list"
  sc_section_locks :: "(string \<times> (string \<times> string) list) list"

definition allowed_fields :: "work_schema \<Rightarrow> string set" where
  "allowed_fields s = set (sc_required s) \<union> set (sc_optional s)"

definition required_fields_for_size :: "work_schema \<Rightarrow> size \<Rightarrow> string list" where
  "required_fields_for_size s sz = (case map_of (sc_required_by_size s) sz of Some fs \<Rightarrow> fs | None \<Rightarrow> sc_required s)"

definition spec_field_owner :: "config \<Rightarrow> work_schema option \<Rightarrow> string \<Rightarrow> string option" where
  "spec_field_owner c schema field =
    (let declared = the_default [] (map_of (cf_spec_owners c) field)
     in if declared \<noteq> [] then Some declared
        else (case schema of None \<Rightarrow> None | Some s \<Rightarrow> map_of (sc_ownership s) field))"

definition project_owner :: "config \<Rightarrow> string \<Rightarrow> string option" where
  "project_owner c key = (case map_of (cf_ownership c) key of Some (JStr v) \<Rightarrow> nonempty v | _ \<Rightarrow> None)"

definition route_for_role :: "config \<Rightarrow> string \<Rightarrow> owner_routing result" where
  "route_for_role c role = (case map_of (cf_roles c) role of
     Some (JObj raw) \<Rightarrow> (case parse_role_assignment raw of
         None \<Rightarrow> Inl (ValidationError ''role assignment'')
       | Some s \<Rightarrow> Inr (
           if ra_assignment s = ''human'' then
             \<lparr>or_role = role, or_assignee = nonempty (ra_human s), or_helper_template = None, or_assignment = HumanStaffed\<rparr>
           else if ra_assignment s = ''human_with_helper'' then
             \<lparr>or_role = role, or_assignee = nonempty (ra_human s), or_helper_template = nonempty (ra_helper_template s),
              or_assignment = HumanWithHelper\<rparr>
           else if ra_assignment s = ''agent'' then
             \<lparr>or_role = role, or_assignee = None, or_helper_template = nonempty (ra_helper_template s),
              or_assignment = AgentStaffed\<rparr>
           else \<lparr>or_role = role, or_assignee = nonempty (ra_human s), or_helper_template = nonempty (ra_helper_template s),
              or_assignment = Unstaffed\<rparr>))
   | _ \<Rightarrow> Inr \<lparr>or_role = role, or_assignee = None, or_helper_template = None, or_assignment = Unstaffed\<rparr>)"

fun partition_at :: "string \<Rightarrow> string \<Rightarrow> string \<Rightarrow> (string \<times> string) option" where
  \<comment> \<open>what is before and after the first occurrence of the separator\<close>
  "partition_at sep acc [] = (if sep = [] then Some (rev acc, []) else None)"
| "partition_at sep acc (c # cs) =
    (if starts_with (c # cs) sep then Some (rev acc, drop (length sep) (c # cs)) else partition_at sep (c # acc) cs)"

definition resolve_owner :: "config \<Rightarrow> string \<Rightarrow> work_schema option \<Rightarrow> string \<Rightarrow> owner_routing result" where
  "resolve_owner c target schema whole_spec_owner_default = (case partition_at ''://'' [] target of
     None \<Rightarrow> Inl (OwnershipError ''missing scheme'')
   | Some (scheme, body) \<Rightarrow>
       if scheme = ''ticket'' then
         (if body = ''spec'' then route_for_role c whole_spec_owner_default
          else if starts_with body ''spec.'' then (case spec_field_owner c schema (drop 5 body) of
              None \<Rightarrow> Inl (OwnershipError ''no owner declared'') | Some r \<Rightarrow> route_for_role c r)
          else Inl (OwnershipError ''unsupported ticket target''))
       else if scheme = ''project'' then (case project_owner c body of
           None \<Rightarrow> Inl (OwnershipError ''no owner declared'') | Some r \<Rightarrow> route_for_role c r)
       else Inl (OwnershipError ''unknown scheme''))"

section \<open>Ticket specs\<close>

record ticket_spec =
  sp_ticket_id :: string
  sp_work_type :: work_type
  sp_size :: size
  sp_fields :: doc
  sp_version :: int
  sp_created_at :: int
  sp_updated_at :: int

type_synonym spec_files = "(string \<times> ticket_spec result) list"
type_synonym schemas = "string \<Rightarrow> work_schema result"

definition present :: "json \<Rightarrow> bool" where
  "present v = (v \<notin> {JNull, JStr [], JList [], JObj []})"

definition validate_against_schema :: "ticket_spec \<Rightarrow> work_schema \<Rightarrow> bool \<Rightarrow> unit result" where
  "validate_against_schema spec schema enforce =
    (let unknown = filter (\<lambda>n. n \<notin> allowed_fields schema) (keys (sp_fields spec));
         missing = (if enforce then filter (\<lambda>n. \<not> present (dict_get JNull n (sp_fields spec)))
           (required_fields_for_size schema (sp_size spec)) else [])
     in if missing \<noteq> [] \<or> unknown \<noteq> [] then Inl (ValueError ''spec does not match its schema'') else Inr ())"

definition load_ticket_spec :: "string \<Rightarrow> spec_files \<Rightarrow> ticket_spec option result" where
  "load_ticket_spec i files = (case map_of files i of
     None \<Rightarrow> Inr None | Some (Inl e) \<Rightarrow> Inl e | Some (Inr s) \<Rightarrow> Inr (Some s))"

definition save_ticket_spec :: "schemas \<Rightarrow> int \<Rightarrow> ticket_spec \<Rightarrow> bool \<Rightarrow> bool \<Rightarrow> spec_files \<Rightarrow> ticket_spec result \<times> spec_files" where
  "save_ticket_spec schemas now spec bump enforce files = (case schemas (show_work_type (sp_work_type spec)) of
     Inl e \<Rightarrow> (Inl e, files)
   | Inr schema \<Rightarrow> (case validate_against_schema spec schema enforce of
       Inl e \<Rightarrow> (Inl e, files)
     | Inr _ \<Rightarrow> (case (if bump then (case load_ticket_spec (sp_ticket_id spec) files of
             Inl e \<Rightarrow> Inl e
           | Inr None \<Rightarrow> Inr spec
           | Inr (Some existing) \<Rightarrow> Inr (spec\<lparr>sp_version := sp_version existing + 1\<rparr>)) else Inr spec) of
         Inl e \<Rightarrow> (Inl e, files)
       | Inr spec1 \<Rightarrow> (let saved = spec1\<lparr>sp_updated_at := now\<rparr>
           in (Inr saved, AList.update (sp_ticket_id spec) (Inr saved) files)))))"

definition delete_ticket_spec :: "string \<Rightarrow> spec_files \<Rightarrow> bool \<times> spec_files" where
  "delete_ticket_spec i files = (if map_of files i = None then (False, files) else (True, AList.delete i files))"

section \<open>Section locks\<close>

definition locked_section_fields :: "work_schema \<Rightarrow> (string \<times> string) list" where
  "locked_section_fields s = List.map_filter (\<lambda>(f, sp). map_option (Pair f) (map_of sp ''locked_after_phase'')) (sc_section_locks s)"

definition accepted_handoff_phases :: "env \<Rightarrow> string \<Rightarrow> string list act" where
  "accepted_handoff_phases en ticket_id w = (case find_by_kind (en_draws en) ticket_id ''handoff'' (w_threads w) of
     Inl e \<Rightarrow> (Inl e, w)
   | Inr es \<Rightarrow> (Inr (List.map_filter (\<lambda>e. case te_body e of
        Handoff h \<Rightarrow> if h_acceptance_state h = Accepted then Some (h_phase h) else None | _ \<Rightarrow> None) es), w))"

definition locked_sections_for_ticket :: "env \<Rightarrow> schemas \<Rightarrow> string \<Rightarrow> work_type \<Rightarrow> (string \<times> string) list act" where
  "locked_sections_for_ticket en schemas ticket_id wt w = (case schemas (show_work_type wt) of
     Inl e \<Rightarrow> (Inl e, w)
   | Inr schema \<Rightarrow> (let locks = locked_section_fields schema in
       if locks = [] then (Inr [], w)
       else bind_act (accepted_handoff_phases en ticket_id)
         (\<lambda>accepted. ret (filter (\<lambda>(f, p). p \<in> set accepted) locks)) w))"

end
