(* ===== verification/Proposals.thy ===== *)
theory Proposals
  imports ThreadHandlers Specs
begin

text \<open>
  The proposal tools of \<open>jig/proposal_mcp.py\<close>.  Resolving a proposal also writes spec files,
  so its state is the world and these files; the YAML parser is the parameter \<open>yaml\<close> (a
  payload that is read twice is parsed twice), and the helper agent that may be spawned for
  a new proposal is the parameter \<open>spawn\<close>.
\<close>

section \<open>Proposing\<close>

definition proposal_body :: "string \<Rightarrow> string option \<Rightarrow> string option \<Rightarrow> string \<Rightarrow> proposal_state \<Rightarrow> string list \<Rightarrow> string option \<Rightarrow> int option \<Rightarrow> body" where
  "proposal_body target sect change rationale state owners parent version =
     Proposal \<lparr>p_target = target, p_section = sect, p_change = change, p_rationale = rationale, p_state = state,
       p_owners = owners, p_parent_id = parent, p_spec_version = version\<rparr>"

definition routing_to_dict :: "owner_routing \<Rightarrow> doc" where
  "routing_to_dict r = [(''role'', JStr (or_role r)), (''assignee'', jopt (or_assignee r)),
     (''helper_template'', jopt (or_helper_template r)), (''assignment'', JStr (show_assignment (or_assignment r)))]"

definition route_target :: "config \<Rightarrow> schemas \<Rightarrow> string \<Rightarrow> ticket \<Rightarrow> owner_routing result" where
  "route_target cfg schemas target t =
    (if starts_with target ''ticket://spec'' then (case schemas (show_work_type (tk_work_type t)) of
       Inl e \<Rightarrow> Inl e | Inr s \<Rightarrow> resolve_owner cfg target (Some s) ''po'')
     else resolve_owner cfg target None ''po'')"

definition handle_propose_change ::
  "env \<Rightarrow> (thread_entry \<Rightarrow> owner_routing \<Rightarrow> string option act) \<Rightarrow> config result \<Rightarrow> schemas \<Rightarrow> string \<Rightarrow> doc \<Rightarrow> doc act" where
  "handle_propose_change en spawn cfg schemas sender args =
    arg ''ticket_id'' args (\<lambda>ticket_id.
    arg ''target'' args (\<lambda>target.
    arg ''change'' args (\<lambda>change.
    arg_opt ''section'' args (\<lambda>sect.
    arg_opt ''content'' args (\<lambda>content.
    let rationale = (if the_default [] content \<noteq> [] then the content else ''Proposed change to '' @ target) in
    require_ticket en ticket_id (\<lambda>t.
    bind_act (lift_res cfg) (\<lambda>c.
    bind_act (lift_res (route_target c schemas target t)) (\<lambda>routing.
    bind_act (post_entry en 0 ticket_id sender
      (proposal_body target sect (Some change) rationale PPending [or_role routing] None None)) (\<lambda>pid.
    bind_act (if or_assignment routing = HumanWithHelper \<and> or_helper_template routing \<noteq> None
      then bind_act (get_entry en pid) (\<lambda>stored. case stored of
          None \<Rightarrow> ret None
        | Some e \<Rightarrow> (case te_body e of Proposal _ \<Rightarrow> spawn e routing | _ \<Rightarrow> ret None))
      else ret None) (\<lambda>note_id.
    ret [(''comment_id'', JStr pid), (''routing'', JObj (routing_to_dict routing)), (''state'', JStr ''pending''),
      (''helper_note_id'', jopt note_id)]))))))))))"

section \<open>Resolving\<close>

record project_state =
  pj_world :: world
  pj_specs :: spec_files

type_synonym 'a pact = "(project_state, 'a) action"

definition on_world :: "'a act \<Rightarrow> 'a pact" where
  "on_world = zoom pj_world (\<lambda>w s. s\<lparr>pj_world := w\<rparr>)"

definition on_specs :: "(spec_files, 'a) action \<Rightarrow> 'a pact" where
  "on_specs = zoom pj_specs (\<lambda>fs s. s\<lparr>pj_specs := fs\<rparr>)"

definition find_proposal :: "env \<Rightarrow> string \<Rightarrow> (thread_entry \<Rightarrow> proposal \<Rightarrow> 'a act) \<Rightarrow> 'a act" where
  "find_proposal en i k = bind_act (get_entry en i) (\<lambda>x. case x of
     None \<Rightarrow> raise (KeyError ''proposal'')
   | Some e \<Rightarrow> (case te_body e of Proposal p \<Rightarrow> k e p | _ \<Rightarrow> raise (KeyError ''proposal'')))"

definition verdict_state :: "string \<Rightarrow> proposal_state option" where
  "verdict_state v = (if v = ''accept'' then Some PAccepted else if v = ''reject'' then Some PRejected
     else if v = ''refine'' then Some PRefining else None)"

definition payload_of :: "string option \<Rightarrow> proposal \<Rightarrow> string" where
  \<comment> \<open>\<open>applied_change or proposal.change or ""\<close>\<close>
  "payload_of applied p = (if the_default [] applied \<noteq> [] then the applied else the_default [] (p_change p))"

definition whole_spec :: string where
  "whole_spec = ''ticket://spec''"

definition is_spec_target :: "string \<Rightarrow> bool" where
  "is_spec_target t = (t = whole_spec \<or> starts_with t (whole_spec @ ''.''))"

definition spec_field :: "string \<Rightarrow> string" where
  "spec_field t = drop (length whole_spec + 1) t"

definition affected_fields :: "(string \<Rightarrow> json result) \<Rightarrow> string \<Rightarrow> string \<Rightarrow> string list option result" where
  \<comment> \<open>\<open>None\<close> when the payload is not a mapping, whose error is left to the application\<close>
  "affected_fields yaml target payload =
    (if target = whole_spec then
       (if blank payload then Inr (Some [])
        else (case yaml payload of Inl e \<Rightarrow> Inl e | Inr (JObj d) \<Rightarrow> Inr (Some (keys d)) | Inr _ \<Rightarrow> Inr None))
     else Inr (Some [spec_field target]))"

definition enforce_section_locks ::
  "env \<Rightarrow> schemas \<Rightarrow> (string \<Rightarrow> json result) \<Rightarrow> string \<Rightarrow> proposal \<Rightarrow> string option \<Rightarrow> unit act" where
  "enforce_section_locks en schemas yaml ticket_id p applied =
    bind_act (get_ticket en ticket_id) (\<lambda>x. case x of
      None \<Rightarrow> ret ()
    | Some t \<Rightarrow> bind_act (locked_sections_for_ticket en schemas (tk_id t) (tk_work_type t)) (\<lambda>locked.
        if locked = [] then ret ()
        else bind_act (lift_res (affected_fields yaml (p_target p) (payload_of applied p))) (\<lambda>affected. case affected of
          None \<Rightarrow> ret ()
        | Some fs \<Rightarrow> require (\<not> list_ex (\<lambda>f. f \<in> set (keys locked)) fs) (ProposalError ''section locked'') (ret ()))))"

definition new_spec_fields :: "(string \<Rightarrow> json result) \<Rightarrow> string \<Rightarrow> string \<Rightarrow> doc \<Rightarrow> doc result" where
  "new_spec_fields yaml target payload flds =
    (if blank payload then Inl (ProposalError ''no change payload'')
     else (case yaml payload of
       Inl e \<Rightarrow> Inl e
     | Inr parsed \<Rightarrow>
         if target = whole_spec then (case parsed of
             JObj d \<Rightarrow> Inr (dict_update flds d)
           | _ \<Rightarrow> Inl (ProposalError ''whole-spec change must be a YAML mapping''))
         else Inr (AList.update (spec_field target) parsed flds)))"

definition apply_spec_change ::
  "env \<Rightarrow> nat \<Rightarrow> schemas \<Rightarrow> (string \<Rightarrow> json result) \<Rightarrow> string \<Rightarrow> proposal \<Rightarrow> string option \<Rightarrow> int pact" where
  "apply_spec_change en n schemas yaml ticket_id p applied = on_specs (\<lambda>files.
    case load_ticket_spec ticket_id files of
      Inl e \<Rightarrow> (Inl e, files)
    | Inr None \<Rightarrow> (Inl (ProposalError ''ticket has no spec yet''), files)
    | Inr (Some spec) \<Rightarrow> (case new_spec_fields yaml (p_target p) (payload_of applied p) (sp_fields spec) of
        Inl e \<Rightarrow> (Inl e, files)
      | Inr flds \<Rightarrow> (case save_ticket_spec schemas (en_now en n)
            (spec\<lparr>sp_fields := flds, sp_version := sp_version spec + 1\<rparr>) False True files of
          (Inl e, fs) \<Rightarrow> (Inl e, fs) | (Inr saved, fs) \<Rightarrow> (Inr (sp_version saved), fs))))"

definition self_approval_note :: "string \<Rightarrow> string \<Rightarrow> body" where
  "self_approval_note pid cid = SystemEvent \<lparr>se_event_type = ''status_change'',
     se_content = ''self_approval_with_justification: true (proposal='' @ pid @ '', resolver='' @ cid @ '')'',
     se_commit_sha = None, se_phase_result = None, se_phase_branch = None, se_check_name = None,
     se_check_severity = None, se_check_verdict = None, se_excerpt = [], se_waived = False, se_payload = []\<rparr>"

definition check_resolution ::
  "env \<Rightarrow> config result \<Rightarrow> string \<Rightarrow> doc \<Rightarrow> (string \<times> proposal_state \<times> thread_entry \<times> proposal \<times> config \<times> string) act" where
  \<comment> \<open>everything before the section locks: verdict, state, entry, proposal, configuration, reasoning\<close>
  "check_resolution en cfg sender args =
    arg ''verdict'' args (\<lambda>verdict. case verdict_state verdict of
      None \<Rightarrow> raise (ValueError ''verdict'')
    | Some state \<Rightarrow>
        arg ''proposal_id'' args (\<lambda>pid.
        find_proposal en pid (\<lambda>e p.
        require (p_state p = PPending) (ProposalError ''not pending'') (
        bind_act (lift_res cfg) (\<lambda>c.
        let self_approving = (te_author e = sender) in
        require (\<not> (self_approving \<and> cf_self_approval c = SelfBlocked)) (ProposalError ''self-approval blocked'') (
        arg_opt ''reasoning'' args (\<lambda>r.
        let reasoning = the_default [] r in
        require (\<not> (self_approving \<and> cf_self_approval c = SelfWarn \<and> blank reasoning))
          (ProposalError ''self-approval requires reasoning'') (
        ret (verdict, state, e, p, c, reasoning)))))))))"

definition record_resolution ::
  "env \<Rightarrow> string \<Rightarrow> string \<Rightarrow> proposal_state \<Rightarrow> thread_entry \<Rightarrow> proposal \<Rightarrow> config \<Rightarrow> string \<Rightarrow> string option \<Rightarrow> int option \<Rightarrow> doc act" where
  "record_resolution en sender verdict state e p c reasoning applied version =
    bind_act (post_entry en 1 (te_ticket_id e) sender (proposal_body (p_target p) (p_section p) applied
      (if reasoning \<noteq> [] then reasoning else verdict @ ''ed proposal '' @ te_id e) state (p_owners p) (Some (te_id e)) version)) (\<lambda>cid.
    bind_act (update_entry (te_id e) [(''state'', JStr (show_proposal_state state))]) (\<lambda>_.
    bind_act (if te_author e = sender \<and> cf_self_approval c = SelfWarn
      then post_entry en 2 (te_ticket_id e) sender (self_approval_note (te_id e) cid) else ret []) (\<lambda>_.
    ret [(''comment_id'', JStr cid), (''state'', JStr (show_proposal_state state)),
      (''self_approved'', JBool (te_author e = sender)), (''spec_version'', jint_opt version)])))"

definition spec_part :: "env \<Rightarrow> schemas \<Rightarrow> (string \<Rightarrow> json result) \<Rightarrow> thread_entry \<Rightarrow> proposal \<Rightarrow> proposal_state \<Rightarrow> string option \<Rightarrow> int option pact" where
  "spec_part en schemas yaml e p state applied =
     (if state = PAccepted \<and> is_spec_target (p_target p)
      then bind_act (on_world (enforce_section_locks en schemas yaml (te_ticket_id e) p applied)) (\<lambda>_.
           bind_act (apply_spec_change en 0 schemas yaml (te_ticket_id e) p applied) (\<lambda>v. ret (Some v)))
      else ret None)"

definition handle_resolve_proposal ::
  "env \<Rightarrow> config result \<Rightarrow> schemas \<Rightarrow> (string \<Rightarrow> json result) \<Rightarrow> string \<Rightarrow> doc \<Rightarrow> doc pact" where
  "handle_resolve_proposal en cfg schemas yaml sender args =
    bind_act (on_world (check_resolution en cfg sender args)) (\<lambda>(verdict, state, e, p, c, reasoning).
    bind_act (on_world (arg_opt ''applied_change'' args ret)) (\<lambda>applied.
    bind_act (spec_part en schemas yaml e p state applied) (\<lambda>version.
    on_world (record_resolution en sender verdict state e p c reasoning applied version))))"

section \<open>Listing\<close>

definition truthy_arg :: "string \<Rightarrow> doc \<Rightarrow> (string option \<Rightarrow> 'a act) \<Rightarrow> 'a act" where
  "truthy_arg k args f = arg_opt k args (\<lambda>x. f (if the_default [] x = [] then None else x))"

definition proposal_to_dict :: "thread_entry \<Rightarrow> proposal \<Rightarrow> doc" where
  "proposal_to_dict e p = [(''id'', JStr (te_id e)), (''ticket_id'', JStr (te_ticket_id e)), (''author'', JStr (te_author e)),
     (''content'', JStr (p_rationale p)), (''target'', JStr (p_target p)), (''section'', jopt (p_section p)),
     (''change'', jopt (p_change p)), (''state'', JStr (show_proposal_state (p_state p))), (''owners'', jstrs (p_owners p)),
     (''parent_id'', jopt (p_parent_id p)), (''spec_version'', jint_opt (p_spec_version p)), (''created_at'', JTime (te_created_at e))]"

definition listed :: "string option \<Rightarrow> string option \<Rightarrow> thread_entry \<Rightarrow> doc option" where
  "listed state target e = (case te_body e of
     Proposal p \<Rightarrow> if p_parent_id p = None \<and> (state = None \<or> state = Some (show_proposal_state (p_state p))) \<and>
         (target = None \<or> target = Some (p_target p)) then Some (proposal_to_dict e p) else None
   | _ \<Rightarrow> None)"

definition of_threads :: "(jsonl_store \<Rightarrow> 'a result) \<Rightarrow> 'a act" where
  "of_threads f w = (f (w_threads w), w)"

definition handle_list_proposals :: "env \<Rightarrow> doc \<Rightarrow> doc list act" where
  "handle_list_proposals en args =
    truthy_arg ''ticket_id'' args (\<lambda>ticket_id.
    truthy_arg ''state'' args (\<lambda>state.
    truthy_arg ''target'' args (\<lambda>target.
    bind_act (of_threads (case ticket_id of
        Some t \<Rightarrow> find_by_kind (en_draws en) t ''proposal'' | None \<Rightarrow> all_by_kind (en_draws en) ''proposal'')) (\<lambda>found.
    ret (List.map_filter (listed state target) found)))))"

end
