(* ===== verification/ProposalProps.thy ===== *)
theory ProposalProps
  imports CheckGateProps TicketToolProps Proposals
begin

text \<open>
  What resolving a proposal does: what it only reads, what it changes of the spec of a
  ticket, whose locked sections it keeps, and what it leaves in the threads, where a
  proposal that was resolved once stays as it is.
\<close>

section \<open>What is only read\<close>

lemma reads_lookups [intro]: "reads (get_entry en i)" "reads (get_ticket en i)"
  by (simp_all add: reads_def get_entry_def get_ticket_def)

lemma reads_find_proposal [intro]: "(\<And>e p. reads (k e p)) \<Longrightarrow> reads (find_proposal en i k)"
  unfolding find_proposal_def by (intro reads_bind reads_case reads_basic reads_lookups) (auto split: body.split)

lemma reads_check_resolution: "reads (check_resolution en cfg sender args)"
  unfolding check_resolution_def Let_def
  by (intro reads_arg reads_case reads_find_proposal reads_guard reads_bind reads_basic reads_lookups)

lemma reads_locked_sections: "reads (locked_sections_for_ticket en schemas i wt)"
proof -
  have "reads (accepted_handoff_phases en i)" by (simp add: reads_def accepted_handoff_phases_def split: sum.split)
  then have "reads (bind_act (accepted_handoff_phases en i) (\<lambda>a. ret (g a)))" for g :: "string list \<Rightarrow> (string \<times> string) list" by blast
  then show ?thesis by (simp add: reads_def locked_sections_for_ticket_def Let_def split: sum.split)
qed

lemma reads_enforce: "reads (enforce_section_locks en schemas yaml i p applied)"
  unfolding enforce_section_locks_def
  by (intro reads_bind reads_case reads_guard reads_basic reads_lookups reads_locked_sections)

section \<open>The guards\<close>

lemma triple_find_proposal:
  assumes "\<And>e p. m i = Some e \<Longrightarrow> te_body e = Proposal p \<Longrightarrow> triple (at w0 m) (k e p) Q E" "\<And>w. at w0 m w \<Longrightarrow> E w"
  shows "triple (at w0 m) (find_proposal en i k) Q E"
  unfolding find_proposal_def
proof (rule triple_get_entry)
  fix x assume "m i = x"
  then show "triple (at w0 m) (case x of None \<Rightarrow> raise (KeyError ''proposal'')
     | Some e \<Rightarrow> (case te_body e of Proposal p \<Rightarrow> k e p | _ \<Rightarrow> raise (KeyError ''proposal''))) Q E"
    using assms by (cases x) (auto intro: triple_raise split: body.split)
qed

definition may_resolve :: "config result \<Rightarrow> string \<Rightarrow> thread_entry \<Rightarrow> config \<Rightarrow> string \<Rightarrow> bool" where
  \<comment> \<open>an author resolves only where the configuration lets it pass with a warning, and says why\<close>
  "may_resolve cfg s e c reasoning \<longleftrightarrow> cfg = Inr c \<and>
     (te_author e = s \<longrightarrow> cf_self_approval c = SelfWarn \<and> \<not> blank reasoning)"

definition resolution_checked ::
  "(string \<Rightarrow> thread_entry option) \<Rightarrow> config result \<Rightarrow> string \<Rightarrow> doc \<Rightarrow> string \<times> proposal_state \<times> thread_entry \<times> proposal \<times> config \<times> string \<Rightarrow> bool" where
  "resolution_checked m cfg s args x \<longleftrightarrow> (case x of (verdict, state, e, p, c, reasoning) \<Rightarrow>
     map_of args ''proposal_id'' = Some (JStr (te_id e)) \<and> map_of args ''verdict'' = Some (JStr verdict) \<and>
     m (te_id e) = Some e \<and> te_body e = Proposal p \<and> p_state p = PPending \<and> verdict_state verdict = Some state \<and>
     may_resolve cfg s e c reasoning)"

lemma check_resolution_ok:
  "triple (at w0 m) (check_resolution en cfg s args) (\<lambda>x _. resolution_checked m cfg s args x) (\<lambda>_. True)"
  unfolding check_resolution_def Let_def
  apply (intro triple_arg triple_option triple_find_proposal triple_require triple_res triple_arg_opt triple_raise TrueI triple_ret)
  subgoal for verdict st i e p c r w
    using at_entry [of w0 m w i e]
    by (cases "cf_self_approval c") (auto simp: resolution_checked_def may_resolve_def)
  done

section \<open>Locked sections\<close>

lemma map_of_dict_update_notin: "k \<notin> set (keys e) \<Longrightarrow> map_of (dict_update d e) k = map_of d k"
  by (induction e arbitrary: d) (auto simp: update_conv')

definition locked_field :: "schemas \<Rightarrow> world \<Rightarrow> string \<Rightarrow> string \<Rightarrow> bool" where
  \<comment> \<open>the ticket's schema locks the field after a phase of which a handoff was accepted\<close>
  "locked_field schemas w i f \<longleftrightarrow> (\<exists>t sc ph j e h. kmap w i = Some t \<and> schemas (show_work_type (tk_work_type t)) = Inr sc \<and>
     (f, ph) \<in> set (locked_section_fields sc) \<and> tmap w j = Some e \<and> te_ticket_id e = i \<and> te_body e = Handoff h \<and>
     h_acceptance_state h = Accepted \<and> h_phase h = ph)"

lemma accepted_phases_run:
  assumes "world_inv w"
  obtains ps where "accepted_handoff_phases en i w = (Inr ps, w)"
    "set ps = {h_phase h | h e. (\<exists>j. tmap w j = Some e) \<and> te_ticket_id e = i \<and> te_body e = Handoff h \<and> h_acceptance_state h = Accepted}"
proof -
  obtain es where es: "for_ticket (en_draws en) i (w_threads w) = Inr es" "set es = {e. \<exists>j. tmap w j = Some e \<and> te_ticket_id e = i}"
    by (rule for_ticket_refines [where st = "w_threads w" and cx = "en_draws en" and t = i,
          OF assms [unfolded world_inv_def, THEN conjunct2, THEN conjunct1]]) (rule that, assumption+)
  let ?g = "\<lambda>e. case te_body e of Handoff h \<Rightarrow> if h_acceptance_state h = Accepted then Some (h_phase h) else None | _ \<Rightarrow> None"
  have g: "?g e = Some ph \<longleftrightarrow> (\<exists>h. te_body e = Handoff h \<and> h_acceptance_state h = Accepted \<and> h_phase h = ph)" for e ph
    by (auto split: body.split)
  let ?ps = "List.map_filter ?g (filter (\<lambda>e. te_kind e = ''handoff'') es)"
  have kind: "te_kind e = ''handoff'' \<longleftrightarrow> (\<exists>h. te_body e = Handoff h)" for e by (cases "te_body e") simp_all
  have "set ?ps = {ph. \<exists>e \<in> set es. te_kind e = ''handoff'' \<and> ?g e = Some ph}"
    unfolding List.map_filter_def by force
  also have "\<dots> = {h_phase h | h e. (\<exists>j. tmap w j = Some e) \<and> te_ticket_id e = i \<and> te_body e = Handoff h \<and> h_acceptance_state h = Accepted}"
    unfolding g es(2) kind by blast
  finally show thesis
    by (intro that [of ?ps]) (simp_all only: accepted_handoff_phases_def find_by_kind_def es(1) sum.case)
qed

lemma locked_sections_run:
  assumes "world_inv w" "kmap w i = Some t" "locked_sections_for_ticket en schemas i (tk_work_type t) w = (Inr locked, w')"
    "locked_field schemas w i f"
  shows "f \<in> set (keys locked)"
proof -
  obtain sc ph where sc: "schemas (show_work_type (tk_work_type t)) = Inr sc" "(f, ph) \<in> set (locked_section_fields sc)"
    and ph: "\<exists>j e h. tmap w j = Some e \<and> te_ticket_id e = i \<and> te_body e = Handoff h \<and> h_acceptance_state h = Accepted \<and> h_phase h = ph"
    using assms(4) unfolding locked_field_def assms(2) by blast
  obtain ps where ps: "accepted_handoff_phases en i w = (Inr ps, w)" "ph \<in> set ps"
    using accepted_phases_run [OF assms(1), of en i] ph by (smt (verit) mem_Collect_eq)
  have "(f, ph) \<in> set locked"
    using assms(3) sc ps by (auto simp: locked_sections_for_ticket_def Let_def bind_act_def ret_def split: if_splits)
  then show ?thesis by force
qed

lemma enforce_ok:
  assumes w: "world_inv w" and run: "enforce_section_locks en schemas yaml i p applied w = (Inr u, w')"
    and new: "new_spec_fields yaml (p_target p) (payload_of applied p) flds = Inr flds'" and f: "locked_field schemas w i f"
  shows "map_of flds' f = map_of flds f"
proof -
  have inv: "ticket_inv (ts_coll (w_tickets w))" using w by (simp add: world_inv_def)
  obtain t where t: "kmap w i = Some t" using f by (auto simp: locked_field_def)
  have id: "tk_id t = i" by (rule ticket_map_Some(1) [OF inv t])
  have get: "get_ticket en i w = (Inr (Some t), w)" by (simp add: get_ticket_def ticket_get_refines [OF inv] t)
  obtain r w1 where l: "locked_sections_for_ticket en schemas i (tk_work_type t) w = (r, w1)" by (metis surj_pair)
  with run get id obtain locked where r: "r = Inr locked"
    by (cases r) (simp_all add: enforce_section_locks_def bind_act_def)
  have w1: "w1 = w" by (rule readsD [OF reads_locked_sections l])
  have fl: "f \<in> set (keys locked)" using locked_sections_run [OF w t _ f] l r by blast
  then have "locked \<noteq> []" by auto
  with run get id l r w1 obtain affected where a: "affected_fields yaml (p_target p) (payload_of applied p) = Inr affected"
    "case affected of None \<Rightarrow> True | Some fs \<Rightarrow> \<not> list_ex (\<lambda>f. f \<in> set (keys locked)) fs"
    by (auto simp: enforce_section_locks_def bind_act_def lift_res_def require_def split: sum.splits option.splits if_splits)
  show ?thesis
  proof (cases "p_target p = whole_spec")
    case True
    with new obtain d where d: "yaml (payload_of applied p) = Inr (JObj d)" "flds' = dict_update flds d" "\<not> blank (payload_of applied p)"
      by (auto simp: new_spec_fields_def split: if_splits sum.splits json.splits)
    with a True have "affected = Some (keys d)" by (simp add: affected_fields_def)
    with a(2) fl have "f \<notin> set (keys d)" by (auto simp only: list_ex_iff option.case)
    then show ?thesis by (simp add: d(2) map_of_dict_update_notin)
  next
    case False
    with new obtain v where v: "flds' = AList.update (spec_field (p_target p)) v flds"
      by (auto simp: new_spec_fields_def split: if_splits sum.splits)
    with a(1) False have "affected = Some [spec_field (p_target p)]" by (simp add: affected_fields_def)
    with a(2) have "spec_field (p_target p) \<notin> set (keys locked)" by (simp only: option.case list_ex_iff) simp
    with fl have "f \<noteq> spec_field (p_target p)" by blast
    then show ?thesis by (simp add: v update_conv')
  qed
qed

section \<open>What happens to the specs\<close>

definition specs_ok :: "spec_files \<Rightarrow> bool" where
  \<comment> \<open>a file that loads is that of its ticket\<close>
  "specs_ok files \<longleftrightarrow> (\<forall>i sp. map_of files i = Some (Inr sp) \<longrightarrow> sp_ticket_id sp = i)"

definition revised :: "schemas \<Rightarrow> (string \<Rightarrow> bool) \<Rightarrow> ticket_spec \<Rightarrow> ticket_spec \<Rightarrow> bool" where
  \<comment> \<open>the next version, which satisfies its schema and has the old fields where \<open>locked\<close> says so\<close>
  "revised schemas locked sp sp' \<longleftrightarrow> (\<exists>fs now. sp' = sp\<lparr>sp_fields := fs, sp_version := sp_version sp + 1, sp_updated_at := now\<rparr> \<and>
     (\<forall>f. locked f \<longrightarrow> map_of fs f = map_of (sp_fields sp) f)) \<and>
     (\<exists>sc. schemas (show_work_type (sp_work_type sp')) = Inr sc \<and> validate_against_schema sp' sc True = Inr ())"

definition specs_step :: "schemas \<Rightarrow> world \<Rightarrow> spec_files \<Rightarrow> spec_files \<Rightarrow> bool" where
  "specs_step schemas w fs fs' \<longleftrightarrow> (\<forall>i. map_of fs' i = map_of fs i \<or>
     (\<exists>sp sp'. map_of fs i = Some (Inr sp) \<and> map_of fs' i = Some (Inr sp') \<and> revised schemas (locked_field schemas w i) sp sp'))"

lemma validate_updated [simp]: "validate_against_schema (sp\<lparr>sp_updated_at := n\<rparr>) sc b = validate_against_schema sp sc b"
  by (simp add: validate_against_schema_def)

lemma apply_spec_change_effect:
  assumes "specs_ok (pj_specs s)" "apply_spec_change en n schemas yaml i p applied s = (r, s')"
    and keep: "\<And>flds flds' f. new_spec_fields yaml (p_target p) (payload_of applied p) flds = Inr flds' \<Longrightarrow> locked f \<Longrightarrow>
      map_of flds' f = map_of flds f"
  shows "(\<not> is_ok r \<and> s' = s) \<or> (\<exists>sp sp'. r = Inr (sp_version sp') \<and> map_of (pj_specs s) i = Some (Inr sp) \<and>
    revised schemas locked sp sp' \<and> s' = s\<lparr>pj_specs := AList.update i (Inr sp') (pj_specs s)\<rparr>)"
proof (cases r)
  case (Inl e)
  with assms(2) have "s' = s"
    by (auto simp: apply_spec_change_def on_specs_def zoom_def save_ticket_spec_def Let_def split: sum.splits option.splits)
  with Inl show ?thesis by simp
next
  case (Inr v)
  with assms(2) obtain sp flds sc where sp: "load_ticket_spec i (pj_specs s) = Inr (Some sp)"
    and flds: "new_spec_fields yaml (p_target p) (payload_of applied p) (sp_fields sp) = Inr flds"
    and sc: "schemas (show_work_type (sp_work_type sp)) = Inr sc"
      "validate_against_schema (sp\<lparr>sp_fields := flds, sp_version := sp_version sp + 1\<rparr>) sc True = Inr ()"
    and v: "v = sp_version sp + 1"
      "s' = s\<lparr>pj_specs := AList.update (sp_ticket_id sp) (Inr (sp\<lparr>sp_fields := flds, sp_version := sp_version sp + 1, sp_updated_at := en_now en n\<rparr>)) (pj_specs s)\<rparr>"
    by (auto simp: apply_spec_change_def on_specs_def zoom_def save_ticket_spec_def Let_def split: sum.splits option.splits)
  let ?sp' = "sp\<lparr>sp_fields := flds, sp_version := sp_version sp + 1, sp_updated_at := en_now en n\<rparr>"
  have found: "map_of (pj_specs s) i = Some (Inr sp)" using sp by (auto simp: load_ticket_spec_def split: option.splits sum.splits)
  with assms(1) have id: "sp_ticket_id sp = i" by (simp add: specs_ok_def)
  have "revised schemas locked sp ?sp'"
    unfolding revised_def using keep [OF flds] sc by (intro conjI exI) (rule refl, simp_all)
  moreover have "s' = s\<lparr>pj_specs := AList.update i (Inr ?sp') (pj_specs s)\<rparr>" using v(2) by (simp add: id)
  moreover have "r = Inr (sp_version ?sp')" using Inr v(1) by simp
  ultimately show ?thesis using found by blast
qed

section \<open>What happens to the threads\<close>

lemma patch_proposal:
  "te_body e = Proposal p \<Longrightarrow> changed_doc (dump_entry e) [(''state'', JStr (show_proposal_state st))] =
     dump_entry (e\<lparr>te_body := Proposal (p\<lparr>p_state := st\<rparr>)\<rparr>)"
  by (simp add: patch_defs)

definition settle :: "proposal_state \<Rightarrow> thread_entry \<Rightarrow> thread_entry" where
  "settle st e = (case te_body e of Proposal p \<Rightarrow> e\<lparr>te_body := Proposal (p\<lparr>p_state := st\<rparr>)\<rparr> | _ \<Rightarrow> e)"

definition only_settles :: "thread_entry \<Rightarrow> proposal_state \<Rightarrow> (string \<Rightarrow> thread_entry option) \<Rightarrow> (string \<Rightarrow> thread_entry option) \<Rightarrow> bool" where
  \<comment> \<open>open entries may be added, and of the old ones only \<open>e\<close> may have changed, to its new state\<close>
  "only_settles e st m m' \<longleftrightarrow> (\<forall>j x. m j = Some x \<longrightarrow> m' j = Some x \<or> (j = te_id e \<and> x = e \<and> m' j = Some (settle st e))) \<and>
     (\<forall>j x. m j = None \<longrightarrow> m' j = Some x \<longrightarrow> born_open (te_body x))"

definition audited :: "string \<Rightarrow> thread_entry \<Rightarrow> (string \<Rightarrow> thread_entry option) \<Rightarrow> bool" where
  \<comment> \<open>an event of the sender on the ticket says that a proposal was approved by its author\<close>
  "audited s e m \<longleftrightarrow> (\<exists>j x cid. m j = Some x \<and> te_author x = s \<and> te_ticket_id x = te_ticket_id e \<and>
     te_body x = self_approval_note (te_id e) cid)"

definition resolution_entry :: "string \<Rightarrow> proposal_state \<Rightarrow> thread_entry \<Rightarrow> proposal \<Rightarrow> string option \<Rightarrow> int option \<Rightarrow> thread_entry \<Rightarrow> bool" where
  \<comment> \<open>the decision record: by the sender, on the same ticket and target, naming the proposal\<close>
  "resolution_entry s st e p applied version x \<longleftrightarrow> te_author x = s \<and> te_ticket_id x = te_ticket_id e \<and>
     (\<exists>why. te_body x = proposal_body (p_target p) (p_section p) applied why st (p_owners p) (Some (te_id e)) version)"

definition recorded :: "string \<Rightarrow> proposal_state \<Rightarrow> thread_entry \<Rightarrow> proposal \<Rightarrow> string option \<Rightarrow> int option \<Rightarrow>
    (string \<Rightarrow> thread_entry option) \<Rightarrow> (string \<Rightarrow> thread_entry option) \<Rightarrow> bool" where
  "recorded s st e p applied version m m' \<longleftrightarrow> only_settles e st m m' \<and> m' (te_id e) = Some (settle st e) \<and>
     (\<exists>cid x. m cid = None \<and> m' cid = Some x \<and> resolution_entry s st e p applied version x) \<and>
     (te_author e = s \<longrightarrow> audited s e m')"

lemma only_settles_post: "only_settles e st m m' \<Longrightarrow> m i = None \<Longrightarrow> born_open (te_body x) \<Longrightarrow> only_settles e st m (m'(i \<mapsto> x))"
  by (auto simp: only_settles_def)

lemma only_settles_refl: "only_settles e st m m"
  by (simp add: only_settles_def)

lemma only_settles_self: "only_settles e st m m' \<Longrightarrow> m (te_id e) = Some e \<Longrightarrow> only_settles e st m (m'(te_id e \<mapsto> settle st e))"
  by (auto simp: only_settles_def)

lemma record_effect:
  assumes e: "m (te_id e) = Some e" "te_body e = Proposal p" and self: "te_author e = s \<Longrightarrow> cf_self_approval c = SelfWarn"
  shows "triple (at w0 m) (record_resolution en s verdict st e p c reasoning applied version)
     (\<lambda>_ w. \<exists>m'. at w0 m' w \<and> recorded s st e p applied version m m') (\<lambda>w. \<exists>m'. at w0 m' w \<and> only_settles e st m m')"
    (is "triple _ _ ?Q ?E")
proof -
  define e' where "e' = settle st e"
  have se: "e\<lparr>te_body := Proposal (p\<lparr>p_state := st\<rparr>)\<rparr> = e'" using e(2) by (simp add: settle_def e'_def)
  define b where "b = proposal_body (p_target p) (p_section p) applied
      (if reasoning \<noteq> [] then reasoning else verdict @ ''ed proposal '' @ te_id e) st (p_owners p) (Some (te_id e)) version"
  define x where "x = new_entry en 1 (te_ticket_id e) s b"
  have res: "resolution_entry s st e p applied version x" by (auto simp: resolution_entry_def x_def b_def)
  have x: "born_open (te_body x)" by (simp add: x_def b_def proposal_body_def)
  let ?k = "\<lambda>_ :: string. ret [(''comment_id'', JStr (en_uuid en 1)), (''state'', JStr (show_proposal_state st)),
      (''self_approved'', JBool (te_author e = s)), (''spec_version'', jint_opt version)]"
  show ?thesis
    unfolding record_resolution_def b_def [symmetric]
  proof (rule triple_post_entry, unfold x_def [symmetric])
    show "at w0 m w \<Longrightarrow> ?E w" for w using only_settles_refl by blast
    assume c: "m (en_uuid en 1) = None"
    let ?m1 = "m(en_uuid en 1 \<mapsto> x)"
    have m1: "only_settles e st m ?m1" by (rule only_settles_post, rule only_settles_refl, rule c, rule x)
    have i: "te_id e \<noteq> en_uuid en 1" using c e(1) by auto
    show "triple (at w0 ?m1) (bind_act (update_entry (te_id e) [(''state'', JStr (show_proposal_state st))]) (\<lambda>_.
        bind_act (if te_author e = s \<and> cf_self_approval c = SelfWarn
          then post_entry en 2 (te_ticket_id e) s (self_approval_note (te_id e) (en_uuid en 1)) else ret []) ?k)) ?Q ?E"
    proof (rule triple_update_body [where e = e and b = "Proposal (p\<lparr>p_state := st\<rparr>)"], unfold se)
      show "at w0 ?m1 w \<Longrightarrow> ?E w" for w using m1 by blast
      let ?m2 = "?m1(te_id e \<mapsto> e')"
      have m2: "only_settles e st m ?m2" unfolding e'_def by (rule only_settles_self [OF m1 e(1)])
      show "triple (at w0 ?m2) (bind_act (if te_author e = s \<and> cf_self_approval c = SelfWarn
          then post_entry en 2 (te_ticket_id e) s (self_approval_note (te_id e) (en_uuid en 1)) else ret []) ?k) ?Q ?E"
      proof (cases "te_author e = s")
        case True
        define y where "y = new_entry en 2 (te_ticket_id e) s (self_approval_note (te_id e) (en_uuid en 1))"
        have "triple (at w0 ?m2) (bind_act (post_entry en 2 (te_ticket_id e) s (self_approval_note (te_id e) (en_uuid en 1))) ?k) ?Q ?E"
        proof (rule triple_post_entry, unfold y_def [symmetric])
          show "at w0 ?m2 w \<Longrightarrow> ?E w" for w using m2 by blast
          assume "?m2 (en_uuid en 2) = None"
          then have ids: "en_uuid en 2 \<noteq> te_id e" "en_uuid en 2 \<noteq> en_uuid en 1" "m (en_uuid en 2) = None" by (auto split: if_splits)
          have "audited s e (?m2(en_uuid en 2 \<mapsto> y))"
            unfolding audited_def
            by (intro exI [of _ "en_uuid en 2"] exI [of _ y] exI [of _ "en_uuid en 1"]) (simp add: y_def)
          moreover have "born_open (te_body y)" by (simp add: y_def self_approval_note_def)
          ultimately have "recorded s st e p applied version m (?m2(en_uuid en 2 \<mapsto> y))"
            unfolding recorded_def using ids i c res only_settles_post [OF m2 ids(3)]
            by (intro conjI exI [of _ "en_uuid en 1"] exI [of _ x] impI) (simp_all add: e'_def)
          then show "triple (at w0 (?m2(en_uuid en 2 \<mapsto> y))) (?k (en_uuid en 2)) ?Q ?E"
            by (intro triple_ret exI [of _ "?m2(en_uuid en 2 \<mapsto> y)"] conjI)
        qed
        with self True show ?thesis by simp
      next
        case False
        have "recorded s st e p applied version m ?m2"
          unfolding recorded_def using m2 i c res False
          by (intro conjI exI [of _ "en_uuid en 1"] exI [of _ x] impI) (simp_all add: e'_def)
        then have "triple (at w0 ?m2) (bind_act (ret []) ?k) ?Q ?E"
          by (intro triple_pure triple_ret exI [of _ ?m2] conjI)
        with False show ?thesis by simp
      qed
    qed (use e i in \<open>simp_all add: patch_proposal thread_keys se [symmetric]\<close>)
  qed
qed

section \<open>Resolving as a whole\<close>

lemma on_world_reads: "reads m \<Longrightarrow> on_world m s = (fst (m (pj_world s)), s)"
  by (cases s, cases "m (pj_world s)") (auto simp: on_world_def zoom_def dest: readsD)

definition change_applied :: "proposal_state \<Rightarrow> proposal \<Rightarrow> schemas \<Rightarrow> world \<Rightarrow> string \<Rightarrow> int option \<Rightarrow> spec_files \<Rightarrow> spec_files \<Rightarrow> bool" where
  \<comment> \<open>the spec is revised exactly when a change of it is accepted, and its version is reported\<close>
  "change_applied st p schemas w i version fs fs' \<longleftrightarrow>
     (if st = PAccepted \<and> is_spec_target (p_target p)
      then \<exists>sp sp'. map_of fs i = Some (Inr sp) \<and> revised schemas (locked_field schemas w i) sp sp' \<and>
        version = Some (sp_version sp') \<and> fs' = AList.update i (Inr sp') fs
      else version = None \<and> fs' = fs)"

lemma spec_part_effect:
  assumes "world_inv (pj_world s)" "specs_ok (pj_specs s)" "spec_part en schemas yaml e p st applied s = (r, s')"
  shows "pj_world s' = pj_world s \<and> (case r of Inl _ \<Rightarrow> s' = s
    | Inr version \<Rightarrow> change_applied st p schemas (pj_world s) (te_ticket_id e) version (pj_specs s) (pj_specs s'))"
proof (cases "st = PAccepted \<and> is_spec_target (p_target p)")
  case True
  let ?enf = "enforce_section_locks en schemas yaml (te_ticket_id e) p applied"
  from assms(3) True consider x where "fst (?enf (pj_world s)) = Inl x" "s' = s" "r = Inl x"
    | u v where "fst (?enf (pj_world s)) = Inr u" "apply_spec_change en 0 schemas yaml (te_ticket_id e) p applied s = (v, s')"
      "r = (case v of Inl x \<Rightarrow> Inl x | Inr n \<Rightarrow> Inr (Some n))"
    by (auto simp: spec_part_def bind_act_def ret_def on_world_reads [OF reads_enforce] split: prod.splits sum.splits)
  then show ?thesis
  proof cases
    case (2 u v)
    then obtain w' where "?enf (pj_world s) = (Inr u, w')" by (metis prod.collapse)
    note enf = enforce_ok [OF assms(1) this]
    from apply_spec_change_effect [where locked = "locked_field schemas (pj_world s) (te_ticket_id e)", OF assms(2) 2(2) enf] show ?thesis
      using 2(3) True by (auto simp: change_applied_def split: sum.splits)
  qed simp
qed (use assms in \<open>auto simp: spec_part_def change_applied_def ret_def\<close>)

lemma resolve_effect:
  assumes "world_inv (pj_world s)" "specs_ok (pj_specs s)" "handle_resolve_proposal en cfg schemas yaml sender args s = (r, s')"
  obtains "\<not> is_ok r" "s' = s"
  | st e p version applied where "\<exists>verdict c why. resolution_checked (tmap (pj_world s)) cfg sender args (verdict, st, e, p, c, why)"
      "change_applied st p schemas (pj_world s) (te_ticket_id e) version (pj_specs s) (pj_specs s')"
      "world_inv (pj_world s')" "only_settles e st (tmap (pj_world s)) (tmap (pj_world s'))"
      "is_ok r \<Longrightarrow> recorded sender st e p applied version (tmap (pj_world s)) (tmap (pj_world s'))"
proof -
  let ?w = "pj_world s" and ?check = "check_resolution en cfg sender args"
  let ?arg = "arg_opt ''applied_change'' args ret :: string option act"
  have at: "at ?w (tmap ?w) ?w" by (rule at_start [OF assms(1)])
  have ra: "reads ?arg" by blast
  show thesis
  proof (cases "fst (?check ?w)")
    case (Inl x)
    with assms(3) show thesis
      by (intro that(1)) (auto simp: handle_resolve_proposal_def bind_act_def on_world_reads [OF reads_check_resolution])
  next
    case (Inr y)
    obtain verdict st e p c why where y: "y = (verdict, st, e, p, c, why)" by (metis surj_pair)
    have "?check ?w = (Inr y, snd (?check ?w))" by (metis Inr prod.collapse)
    from tripleD [OF check_resolution_ok at this] have ok: "resolution_checked (tmap ?w) cfg sender args (verdict, st, e, p, c, why)"
      by (simp add: y)
    then have e: "tmap ?w (te_id e) = Some e" "te_body e = Proposal p" "te_author e = sender \<Longrightarrow> cf_self_approval c = SelfWarn"
      by (auto simp: resolution_checked_def may_resolve_def)
    show thesis
    proof (cases "fst (?arg ?w)")
      case (Inl x)
      with assms(3) Inr show thesis
        by (intro that(1)) (auto simp: handle_resolve_proposal_def bind_act_def on_world_reads [OF reads_check_resolution] on_world_reads [OF ra] y)
    next
      case a: (Inr applied)
      obtain v s1 where s1: "spec_part en schemas yaml e p st applied s = (v, s1)" by (metis surj_pair)
      have run: "(case v of Inl x \<Rightarrow> (Inl x, s1)
          | Inr version \<Rightarrow> on_world (record_resolution en sender verdict st e p c why applied version) s1) = (r, s')"
        using assms(3) Inr a s1 unfolding handle_resolve_proposal_def
        by (simp add: bind_act_def [of "on_world ?check"] on_world_reads [OF reads_check_resolution] y
            bind_act_def [of "on_world ?arg"] on_world_reads [OF ra]) (simp add: bind_act_def)
      note sp = spec_part_effect [OF assms(1,2) s1]
      show thesis
      proof (cases v)
        case (Inl x)
        with sp run show thesis by (intro that(1)) auto
      next
        case v: (Inr version)
        let ?rec = "record_resolution en sender verdict st e p c why applied version"
        obtain w' where w': "?rec ?w = (r, w')" "s' = s1\<lparr>pj_world := w'\<rparr>"
          using run v sp by (auto simp: on_world_def zoom_def split: prod.splits)
        have "triple (at ?w (tmap ?w)) ?rec (\<lambda>_ w. \<exists>m'. at ?w m' w \<and> recorded sender st e p applied version (tmap ?w) m')
            (\<lambda>w. \<exists>m'. at ?w m' w \<and> only_settles e st (tmap ?w) m')" by (rule record_effect) (fact e)+
        from tripleD [OF this at w'(1)] have "(\<exists>m'. at ?w m' w' \<and> only_settles e st (tmap ?w) m') \<and>
            (is_ok r \<longrightarrow> (\<exists>m'. at ?w m' w' \<and> recorded sender st e p applied version (tmap ?w) m'))"
          by (cases r) (auto simp: recorded_def)
        then show thesis
          using sp v w'(2) ok by (intro that(2) [of st e p version applied]) (auto simp: at_def)
      qed
    qed
  qed
qed

lemma locked_sections:
  assumes "world_inv (pj_world s)" "specs_ok (pj_specs s)" "handle_resolve_proposal en cfg schemas yaml sender args s = (r, s')"
  shows "specs_ok (pj_specs s') \<and> specs_step schemas (pj_world s) (pj_specs s) (pj_specs s')"
proof (rule resolve_effect [OF assms])
  assume "s' = s"
  with assms(2) show ?thesis by (simp add: specs_step_def)
next
  fix st e p version
  assume c: "change_applied st p schemas (pj_world s) (te_ticket_id e) version (pj_specs s) (pj_specs s')"
  show ?thesis
  proof (cases "st = PAccepted \<and> is_spec_target (p_target p)")
    case True
    with c obtain sp sp' where sp: "map_of (pj_specs s) (te_ticket_id e) = Some (Inr sp)"
      "revised schemas (locked_field schemas (pj_world s) (te_ticket_id e)) sp sp'"
      "pj_specs s' = AList.update (te_ticket_id e) (Inr sp') (pj_specs s)"
      by (auto simp: change_applied_def)
    then have "sp_ticket_id sp' = te_ticket_id e" using assms(2) by (auto simp: revised_def specs_ok_def)
    with assms(2) sp show ?thesis by (auto simp: specs_ok_def specs_step_def update_conv')
  next
    case False
    with c assms(2) show ?thesis by (auto simp: change_applied_def specs_step_def)
  qed
qed

text \<open>
  C14: A locked section of a ticket's spec cannot be edited: whatever a resolve call does and
  however it ends, every spec file keeps its contents, or it is that of the ticket and holds
  the next version, which satisfies the work type's schema and has the old value in every
  field that the schema locks after a phase of which a handoff on the ticket was accepted.
\<close>

theorem locked_sections_kept:
  assumes "world_inv (pj_world s)" "specs_ok (pj_specs s)" "handle_resolve_proposal en cfg schemas yaml sender args s = (r, s')"
  shows "specs_ok (pj_specs s') \<and> specs_step schemas (pj_world s) (pj_specs s) (pj_specs s')"
  by (rule locked_sections [OF assms])

text \<open>
  C16: What a resolution is: it succeeds only on a pending proposal, and for its author only
  where the configuration warns and a reason is given, which is then on record; it sets the
  proposal to the state of the verdict, adds a decision record of the sender that names it,
  and changes no other entry; the spec is revised exactly when a change of it is accepted.
\<close>

theorem resolution_recorded:
  assumes "world_inv (pj_world s)" "specs_ok (pj_specs s)"
    and "handle_resolve_proposal en cfg schemas yaml sender args s = (Inr reply, s')"
  shows "\<exists>verdict st e p c why version applied.
    resolution_checked (tmap (pj_world s)) cfg sender args (verdict, st, e, p, c, why) \<and>
    recorded sender st e p applied version (tmap (pj_world s)) (tmap (pj_world s')) \<and>
    change_applied st p schemas (pj_world s) (te_ticket_id e) version (pj_specs s) (pj_specs s') \<and> world_inv (pj_world s')"
proof (rule resolve_effect [OF assms])
  fix st e p version applied
  assume c: "\<exists>verdict c why. resolution_checked (tmap (pj_world s)) cfg sender args (verdict, st, e, p, c, why)"
    and rest: "change_applied st p schemas (pj_world s) (te_ticket_id e) version (pj_specs s) (pj_specs s')" "world_inv (pj_world s')"
      "is_ok (Inr reply :: doc result) \<Longrightarrow> recorded sender st e p applied version (tmap (pj_world s)) (tmap (pj_world s'))"
  from c obtain verdict c why where "resolution_checked (tmap (pj_world s)) cfg sender args (verdict, st, e, p, c, why)" by blast
  with rest show ?thesis
    by (intro exI [of _ verdict] exI [of _ st] exI [of _ e] exI [of _ p] exI [of _ c] exI [of _ why] exI [of _ version] exI [of _ applied])
      simp
qed simp

section \<open>Runs\<close>

text \<open>
  What happens to a project with proposals: everything that happens to its threads, the
  proposal tools with any configuration, schemas and parser, where a helper that is spawned
  may only add entries, and any other write of spec files.
\<close>

inductive desk_step :: "project_state \<Rightarrow> project_state \<Rightarrow> bool" where
  threads: "project_step (pj_world s) w' \<Longrightarrow> desk_step s (s\<lparr>pj_world := w'\<rparr>)"
| propose: "(\<And>e ro w. world_inv w \<Longrightarrow> grown w (tmap w) (snd (spawn e ro w))) \<Longrightarrow>
    handle_propose_change en spawn cfg schemas sender args (pj_world s) = (r, w') \<Longrightarrow> desk_step s (s\<lparr>pj_world := w'\<rparr>)"
| resolve: "handle_resolve_proposal en cfg schemas yaml sender args s = (r', s') \<Longrightarrow> desk_step s s'"
| specs: "specs_ok fs \<Longrightarrow> desk_step s (s\<lparr>pj_specs := fs\<rparr>)"

abbreviation desk_run :: "project_state \<Rightarrow> project_state \<Rightarrow> bool" where
  "desk_run \<equiv> desk_step\<^sup>*\<^sup>*"

definition settled :: "thread_entry \<Rightarrow> bool" where
  "settled e \<longleftrightarrow> (\<exists>p. te_body e = Proposal p \<and> p_state p \<noteq> PPending)"

definition desk_keeps :: "project_state \<Rightarrow> project_state \<Rightarrow> bool" where
  "desk_keeps s s' \<longleftrightarrow> world_inv (pj_world s') \<and> specs_ok (pj_specs s') \<and>
     (\<forall>i e. tmap (pj_world s) i = Some e \<longrightarrow> settled e \<longrightarrow> tmap (pj_world s') i = Some e)"

lemma proposal_step: "te_body e = Proposal p \<Longrightarrow> \<not> body_step w s cw e b"
  by (auto elim: body_stepE)

lemma project_keeps_proposals:
  "project_step w w' \<Longrightarrow> world_inv w \<Longrightarrow> tmap w i = Some e \<Longrightarrow> te_body e = Proposal p \<Longrightarrow> tmap w' i = Some e"
proof (induction rule: project_step.induct)
  case (agent w w')
  then show ?case by (elim agent_stepE) (metis call_keeps proposal_step te_body_same)
next
  case (gate en cat results t p names post w r w')
  from tripleD [OF gate_grown at_start [OF gate.prems(1)] gate.hyps] have "grown w (tmap w) w'" by (cases r) simp_all
  then show ?case using gate.prems(2) by (auto simp: grown_def adds_def map_le_def dom_def)
next
  case (bounce en i v w r w')
  then have "after_step w i (rejected (compose_bounce_reason v)) w'" using bounce_effect by blast
  then show ?case using bounce.prems by (auto simp: after_step_def handoff_step_def)
next
  case (auto_accept en i cps w r w')
  then have "after_step w i (accepted harness_author) w'" using auto_accept_effect by blast
  then show ?case using auto_accept.prems by (auto simp: after_step_def handoff_step_def)
qed

lemma propose_grown:
  assumes spawn: "\<And>e ro w. world_inv w \<Longrightarrow> grown w (tmap w) (snd (spawn e ro w))"
  shows "triple (at w0 (tmap w0)) (handle_propose_change en spawn cfg schemas sender args)
    (\<lambda>_. grown w0 (tmap w0)) (grown w0 (tmap w0))"
proof -
  have g: "at w0 m w \<Longrightarrow> grown w0 (tmap w0) w" if "adds (tmap w0) m" for m w using that by (simp add: grown_at)
  have sp: "triple (at w0 m) (bind_act (spawn e ro) (\<lambda>n. ret (f n))) (\<lambda>_. grown w0 (tmap w0)) (grown w0 (tmap w0))"
    if m: "adds (tmap w0) m" for m e ro and f :: "string option \<Rightarrow> doc"
  proof (rule triple_bind [where R = "\<lambda>_. grown w0 (tmap w0)"])
    have "grown w0 (tmap w0) (snd (spawn e ro w))" if "at w0 m w" for w
      using spawn [of w e ro] that m by (auto simp: at_def grown_def intro: adds_trans)
    then show "triple (at w0 m) (spawn e ro) (\<lambda>_. grown w0 (tmap w0)) (grown w0 (tmap w0))"
      by (intro tripleI) (metis snd_conv)+
  qed (simp add: triple_ret)
  have helper: "triple (at w0 m) (bind_act (if b then bind_act (get_entry en pid) (\<lambda>stored. case stored of
        None \<Rightarrow> ret None | Some e \<Rightarrow> (case te_body e of Proposal _ \<Rightarrow> spawn e ro | _ \<Rightarrow> ret None)) else ret None) (\<lambda>n. ret (f n)))
      (\<lambda>_. grown w0 (tmap w0)) (grown w0 (tmap w0))"
    if m: "adds (tmap w0) m" for m b pid ro and f :: "string option \<Rightarrow> doc"
  proof (cases b)
    case True
    have stop: "triple (at w0 m) (bind_act (ret None) (\<lambda>n. ret (f n))) (\<lambda>_. grown w0 (tmap w0)) (grown w0 (tmap w0))"
      by (intro triple_pure triple_ret g [OF m])
    have "triple (at w0 m) (bind_act (case stored of None \<Rightarrow> ret None
        | Some e \<Rightarrow> (case te_body e of Proposal _ \<Rightarrow> spawn e ro | _ \<Rightarrow> ret None)) (\<lambda>n. ret (f n)))
        (\<lambda>_. grown w0 (tmap w0)) (grown w0 (tmap w0))" for stored
      by (cases stored; (cases "te_body (the stored)")?) (simp_all only: option.case option.sel body.case stop sp [OF m])
    with True show ?thesis by (simp only: if_True bind_bind) (rule triple_get_entry)
  qed (simp only: if_False, intro triple_pure triple_ret g [OF m])
  show ?thesis
    unfolding handle_propose_change_def Let_def
    by (intro triple_arg triple_arg_opt triple_require_ticket triple_res triple_post_entry helper g adds_post adds_refl)
      (assumption | rule adds_refl | simp add: proposal_body_def)+
qed

lemma desk_step_keeps:
  "desk_step s s' \<Longrightarrow> world_inv (pj_world s) \<Longrightarrow> specs_ok (pj_specs s) \<Longrightarrow> desk_keeps s s'"
proof (induction rule: desk_step.induct)
  case (threads s w')
  then show ?case
    using project_step_keeps project_keeps_proposals by (auto simp: desk_keeps_def keeps_closed_def settled_def)
next
  case (propose spawn en cfg schemas sender args s r w')
  from tripleD [OF propose_grown at_start [OF propose.prems(1)] propose.hyps(2)] propose.hyps(1)
  have "grown (pj_world s) (tmap (pj_world s)) w'" by (cases r) simp_all
  with propose.prems(2) show ?case by (auto simp: desk_keeps_def grown_def adds_def map_le_def dom_def)
next
  case (resolve en cfg schemas yaml sender args s r' s')
  show ?case
  proof (rule resolve_effect [OF resolve.prems resolve.hyps])
    assume "s' = s"
    with resolve.prems show ?thesis by (simp add: desk_keeps_def)
  next
    fix st e p
    assume x: "\<exists>verdict c why. resolution_checked (tmap (pj_world s)) cfg sender args (verdict, st, e, p, c, why)"
      "world_inv (pj_world s')" "only_settles e st (tmap (pj_world s)) (tmap (pj_world s'))"
    have "\<not> settled e" using x(1) by (auto simp: resolution_checked_def settled_def)
    with x(2,3) locked_sections [OF resolve.prems resolve.hyps] show ?thesis
      by (auto simp: desk_keeps_def only_settles_def)
  qed
next
  case (specs fs s)
  then show ?case by (simp add: desk_keeps_def)
qed

text \<open>
  Settled for good, where each call runs to its end before the next starts: what left the state pending
  keeps every field, and no later call resolves it.  That a proposal sent back for refinement counts as
  settled is what the code does, and not what the comment of its class says.
\<close>

lemma settled_for_good:
  assumes "desk_run s s1" "world_inv (pj_world s)" "specs_ok (pj_specs s)" "tmap (pj_world s) i = Some e" "settled e"
    and "map_of args ''proposal_id'' = Some (JStr i)" "handle_resolve_proposal en cfg schemas yaml sender args s1 = (r, s2)"
  shows "tmap (pj_world s1) i = Some e \<and> \<not> is_ok r \<and> s2 = s1"
proof -
  have run: "world_inv (pj_world s1) \<and> specs_ok (pj_specs s1) \<and> tmap (pj_world s1) i = Some e"
    using assms(1)
  proof (induction rule: rtranclp_induct)
    case (step a b)
    with desk_step_keeps [of a b] assms(5) show ?case by (auto simp: desk_keeps_def)
  qed (use assms in simp)
  then have inv: "world_inv (pj_world s1)" "specs_ok (pj_specs s1)" by simp_all
  show ?thesis
  proof (rule resolve_effect [OF inv assms(7)])
    fix st e' p
    assume "\<exists>verdict c why. resolution_checked (tmap (pj_world s1)) cfg sender args (verdict, st, e', p, c, why)"
    then have False using assms(5,6) run by (auto simp: resolution_checked_def settled_def)
    then show ?thesis ..
  qed (use run in simp)
qed

definition proposal_resolved :: "thread_entry \<Rightarrow> bool" where
  "proposal_resolved e \<longleftrightarrow> (\<exists>p. te_body e = Proposal p) \<and> is_resolved e"

text \<open>
  C15: A proposal is resolved once: an accepted or rejected proposal keeps every field over any sequence of
  thread tool calls, gates, proposals and resolutions by anyone under any configuration, each of which runs
  to its end before the next starts, and every later attempt to resolve it raises and changes neither
  threads nor specs.
\<close>

theorem proposal_resolved_once:
  assumes "desk_run s s1" "world_inv (pj_world s)" "specs_ok (pj_specs s)" "tmap (pj_world s) i = Some e" "proposal_resolved e"
    and "map_of args ''proposal_id'' = Some (JStr i)" "handle_resolve_proposal en cfg schemas yaml sender args s1 = (r, s2)"
  shows "tmap (pj_world s1) i = Some e \<and> \<not> is_ok r \<and> s2 = s1"
proof -
  have "settled e" using assms(5) by (auto simp: proposal_resolved_def settled_def is_resolved_def)
  from settled_for_good [OF assms(1-4) this assms(6,7)] show ?thesis .
qed

section \<open>Witnesses\<close>

text \<open>
  A ticket with a spec, whose schema locks the acceptance criteria after the phase \<open>spec\<close>,
  and a proposal of the sa that the po may decide on.
\<close>

definition demo_proposal :: thread_entry where
  "demo_proposal = \<lparr>te_id = ''p'', te_ticket_id = ''u'', te_author = ''sa'', te_created_at = 0,
     te_body = proposal_body ''ticket://spec.summary'' None (Some ''y'') ''z'' PPending [''po''] None None\<rparr>"

definition demo_schema :: work_schema where
  "demo_schema = \<lparr>sc_required = [''summary''], sc_optional = [''acceptance_criteria''], sc_required_by_size = [], sc_ownership = [],
     sc_section_locks = [(''acceptance_criteria'', [(''locked_after_phase'', ''spec'')])]\<rparr>"

definition demo_config :: config where
  "demo_config = \<lparr>cf_spec_owners = [(''summary'', ''po'')], cf_ownership = [], cf_roles = [], cf_self_approval = SelfWarn\<rparr>"

definition demo_spec :: ticket_spec where
  "demo_spec = \<lparr>sp_ticket_id = ''u'', sp_work_type = WFeature, sp_size = SM, sp_fields = [(''summary'', JStr ''x'')],
     sp_version = 1, sp_created_at = 0, sp_updated_at = 0\<rparr>"

definition demo_project :: project_state where
  "demo_project = \<lparr>pj_world = small_world\<lparr>w_tickets := w_tickets one_ticket_world,
     w_threads := snd (thread_post [] demo_proposal (small_store thread_index))\<rparr>, pj_specs = [(''u'', Inr demo_spec)]\<rparr>"

definition demo_resolve :: "string \<Rightarrow> project_state \<Rightarrow> doc result \<times> project_state" where
  "demo_resolve verdict = handle_resolve_proposal (named_env CHR ''v'') (Inr demo_config) (\<lambda>_. Inr demo_schema) (\<lambda>s. Inr (JStr s)) ''po''
     [(''verdict'', JStr verdict), (''proposal_id'', JStr ''p'')]"

lemma demo_project_inv: "world_inv (pj_world demo_project)" "specs_ok (pj_specs demo_project)"
proof -
  have "thread_inv (small_store thread_index)" by (simp add: small_store_def model_inv_empty)
  then have "thread_inv (snd (thread_post [] demo_proposal (small_store thread_index)))"
    using thread_post_refines [of "small_store thread_index" demo_proposal "[]"]
    by (auto simp: demo_proposal_def entry_valid_def proposal_body_def)
  moreover have "bus_inv (w_bus small_world)"
    by (simp add: small_world_def small_store_def bus_inv_def subs_of_def model_inv_empty)
  ultimately show "world_inv (pj_world demo_project)" using one_ticket_inv by (simp add: demo_project_def world_inv_def)
qed (simp add: demo_project_def demo_spec_def specs_ok_def)

lemma demo_accepted_run:
  "case demo_resolve ''accept'' demo_project of (Inl _, _) \<Rightarrow> False
   | (Inr _, s) \<Rightarrow> (case map_of (pj_specs s) ''u'' of Some (Inr sp) \<Rightarrow> sp_version sp = 2 | _ \<Rightarrow> False)"
  by code_simp

lemma demo_accepted_change:
  "is_ok (fst (demo_resolve ''accept'' demo_project)) \<and>
     (\<exists>sp. map_of (pj_specs (snd (demo_resolve ''accept'' demo_project))) ''u'' = Some (Inr sp) \<and> sp_version sp = 2)"
  using demo_accepted_run
  by (cases "map_of (pj_specs (snd (demo_resolve ''accept'' demo_project))) ''u''") (auto simp: is_ok_iff split: prod.splits sum.splits)

theorem locked_sections_kept_witness:
  "specs_step (\<lambda>_. Inr demo_schema) (pj_world demo_project) (pj_specs demo_project) (pj_specs (snd (demo_resolve ''accept'' demo_project))) \<and>
     (\<exists>sp. map_of (pj_specs (snd (demo_resolve ''accept'' demo_project))) ''u'' = Some (Inr sp) \<and> sp_version sp = 2)"
  using demo_accepted_change locked_sections_kept [OF demo_project_inv surjective_pairing [of "demo_resolve ''accept'' demo_project", unfolded demo_resolve_def]]
  by (simp add: demo_resolve_def)

theorem resolution_recorded_witness:
  "\<exists>e p version applied. te_id e = ''p'' \<and> recorded ''po'' PAccepted e p applied version (tmap (pj_world demo_project))
     (tmap (pj_world (snd (demo_resolve ''accept'' demo_project))))"
proof -
  obtain reply s' where r: "demo_resolve ''accept'' demo_project = (Inr reply, s')"
    using demo_accepted_change by (metis is_ok_iff prod.collapse)
  from resolution_recorded [OF demo_project_inv r [unfolded demo_resolve_def]]
  obtain verdict st e p c why version applied where x: "resolution_checked (tmap (pj_world demo_project)) (Inr demo_config) ''po''
      [(''verdict'', JStr ''accept''), (''proposal_id'', JStr ''p'')] (verdict, st, e, p, c, why)"
    "recorded ''po'' st e p applied version (tmap (pj_world demo_project)) (tmap (pj_world s'))" by blast
  from x(1) have "te_id e = ''p''" "st = PAccepted" by (auto simp: resolution_checked_def verdict_state_def)
  with x(2) r show ?thesis by auto
qed

theorem proposal_resolved_once_witness:
  "\<exists>e. tmap (pj_world (snd (demo_resolve ''reject'' (snd (demo_resolve ''accept'' demo_project))))) ''p'' = Some e \<and> proposal_resolved e \<and>
     \<not> is_ok (fst (demo_resolve ''reject'' (snd (demo_resolve ''accept'' demo_project))))"
proof -
  obtain reply s1 where r: "demo_resolve ''accept'' demo_project = (Inr reply, s1)"
    using demo_accepted_change by (metis is_ok_iff prod.collapse)
  have ok: "world_inv (pj_world s1) \<and> specs_ok (pj_specs s1) \<and> (\<exists>e. tmap (pj_world s1) ''p'' = Some e \<and> proposal_resolved e)"
  proof (rule resolve_effect [OF demo_project_inv r [unfolded demo_resolve_def]])
    fix st e p version applied
    assume x: "\<exists>verdict c why. resolution_checked (tmap (pj_world demo_project)) (Inr demo_config) ''po''
        [(''verdict'', JStr ''accept''), (''proposal_id'', JStr ''p'')] (verdict, st, e, p, c, why)"
      "world_inv (pj_world s1)"
      "is_ok (Inr reply :: doc result) \<Longrightarrow> recorded ''po'' st e p applied version (tmap (pj_world demo_project)) (tmap (pj_world s1))"
    then have e: "te_id e = ''p''" "te_body e = Proposal p" "st = PAccepted" "tmap (pj_world s1) ''p'' = Some (settle st e)"
      by (auto simp: resolution_checked_def verdict_state_def recorded_def)
    with x(2) locked_sections [OF demo_project_inv r [unfolded demo_resolve_def]] show ?thesis
      by (simp add: proposal_resolved_def is_resolved_def settle_def demo_resolve_def)
  qed simp
  then obtain e where e: "tmap (pj_world s1) ''p'' = Some e" "proposal_resolved e" by blast
  obtain r' s2 where r': "demo_resolve ''reject'' s1 = (r', s2)" by (metis surj_pair)
  have "tmap (pj_world s1) ''p'' = Some e \<and> \<not> is_ok r' \<and> s2 = s1"
    by (rule proposal_resolved_once [OF rtranclp.rtrancl_refl _ _ e _ r' [unfolded demo_resolve_def]]) (use ok in simp_all)
  with e(2) show ?thesis by (simp add: r r')
qed

end
