(* ===== verification/ConsoleRuns.thy ===== *)
theory ConsoleRuns
  imports DeadlockProps ProposalProps
begin

text \<open>
  The last writer of thread entries, the orchestrator that asks the operator for an answer
  (\<open>_prompt_for_needs_info\<close> of \<open>jig/orchestrator.py\<close>), and the runs of all writers together: agents, gates,
  proposals, sweeps, the operator, and whoever else posts.  A call runs to its end before the next
  starts, but an answer is awaited while others work.
\<close>

section \<open>The prompt\<close>

definition is_question :: "thread_entry \<Rightarrow> bool" where
  "is_question e = (case te_body e of Question _ \<Rightarrow> True | _ \<Rightarrow> False)"

definition prompted_question :: "env \<Rightarrow> string \<Rightarrow> thread_entry option act" where
  \<comment> \<open>the question that the operator is asked; the event that shows it is left out\<close>
  "prompted_question en i w = (case has_unresolved_blocking (en_draws en) i (w_threads w) of
     Inl x \<Rightarrow> (Inl x, w)
   | Inr es \<Rightarrow> (let qs = filter is_question es in (Inr (if qs = [] then None else Some (last qs)), w)))"

definition answer_prompt :: "env \<Rightarrow> string \<Rightarrow> thread_entry \<Rightarrow> string \<Rightarrow> unit act" where
  \<comment> \<open>what follows the reply; the question is not read again\<close>
  "answer_prompt en i e reply =
    bind_act (post_entry en 0 i ''operator'' (Answer \<lparr>a_question_id = te_id e, a_text = reply\<rparr>)) (\<lambda>_.
    bind_act (update_entry (te_id e) [(''resolved_by'', JStr ''operator'')]) (\<lambda>_.
    bind_act (set_ticket_status en 1 i StInProgress) (\<lambda>_.
    bind_act (publish_msg en 2 ''orchestrator'' ''broadcast'' MContextUpdate
      [(''kind'', JStr ''ticket_updated''), (''ticket_id'', JStr i), (''status'', JStr (show_status StInProgress))] (topic i)) (\<lambda>_.
    ret ()))))"

section \<open>Runs\<close>

text \<open>The prompts that were made: a ticket, and the question as it was read.\<close>

record console =
  co_desk :: project_state
  co_prompts :: "(string \<times> thread_entry) list"

abbreviation co_map :: "console \<Rightarrow> string \<Rightarrow> thread_entry option" where
  "co_map c \<equiv> tmap (pj_world (co_desk c))"

definition in_world :: "console \<Rightarrow> world \<Rightarrow> console" where
  "in_world c w = c\<lparr>co_desk := (co_desk c)\<lparr>pj_world := w\<rparr>\<rparr>"

inductive console_step :: "console \<Rightarrow> console \<Rightarrow> bool" where
  desk: "desk_step (co_desk c) d \<Longrightarrow> console_step c (c\<lparr>co_desk := d\<rparr>)"
| sweep: "sweep_blocking_entries en na ea now (pj_world (co_desk c)) = (r, w) \<Longrightarrow> console_step c (in_world c w)"
| posted: "born_open b \<Longrightarrow> post_entry en n i a b (pj_world (co_desk c)) = (r', w) \<Longrightarrow> console_step c (in_world c w)"
| prompt: "prompted_question en i (pj_world (co_desk c)) = (Inr (Some e), w) \<Longrightarrow>
    console_step c (c\<lparr>co_prompts := (i, e) # co_prompts c\<rparr>)"
| reply: "(i, e) \<in> set (co_prompts c) \<Longrightarrow> answer_prompt en i e a (pj_world (co_desk c)) = (r'', w) \<Longrightarrow> console_step c (in_world c w)"

abbreviation console_run :: "console \<Rightarrow> console \<Rightarrow> bool" where
  "console_run \<equiv> console_step\<^sup>*\<^sup>*"

definition prompted :: "(string \<times> thread_entry) list \<Rightarrow> string set" where
  "prompted ps = te_id ` snd ` set ps"

definition entitled :: "string set \<Rightarrow> thread_entry \<Rightarrow> bool" where
  \<comment> \<open>whoever closed the entry was entitled to\<close>
  "entitled ps e \<longleftrightarrow> (case te_body e of
     Question q \<Rightarrow> q_resolved_by q \<in> {None, Some (te_author e)} \<or> q_resolved_by q = Some ''operator'' \<and> te_id e \<in> ps
   | Objection x \<Rightarrow> o_resolved_by x \<in> {None, Some (te_author e)} \<and> (o_resolved_by x = None \<or> o_waived_by x = None)
   | Handoff h \<Rightarrow> h_accepted_by h = Some harness_author \<or> h_accepted_by h \<noteq> Some (te_author e)
   | _ \<Rightarrow> True)"

definition taken_over :: "string set \<Rightarrow> thread_entry \<Rightarrow> thread_entry \<Rightarrow> bool" where
  \<comment> \<open>a question that a prompt showed is recorded as resolved by the operator, and nothing else changes\<close>
  "taken_over ps e e' \<longleftrightarrow> te_id e \<in> ps \<and>
     (\<exists>q. te_body e = Question q \<and> e' = e\<lparr>te_body := Question (q\<lparr>q_resolved_by := Some ''operator''\<rparr>)\<rparr>)"

section \<open>What one step does to the entries\<close>

definition moved :: "string set \<Rightarrow> thread_entry \<Rightarrow> thread_entry \<Rightarrow> bool" where
  "moved ps e e' \<longleftrightarrow> e' = e \<or> taken_over ps e e' \<or>
     \<not> closed_entry e \<and> (\<exists>b. e' = e\<lparr>te_body := b\<rparr> \<and> body_kind b = te_kind e) \<and> entitled ps e'"

definition moves :: "string set \<Rightarrow> (string \<Rightarrow> thread_entry option) \<Rightarrow> (string \<Rightarrow> thread_entry option) \<Rightarrow> bool" where
  "moves ps m m' \<longleftrightarrow> (\<forall>i e. m i = Some e \<longrightarrow> (\<exists>e'. m' i = Some e' \<and> moved ps e e')) \<and>
     (\<forall>i e. m i = None \<longrightarrow> m' i = Some e \<longrightarrow> entitled ps e)"

lemma entitled_open: "born_open (te_body e) \<Longrightarrow> entitled ps e"
  by (cases "te_body e") (auto simp: entitled_def)

lemma entitled_authorised: "authorised e \<Longrightarrow> entitled ps e"
  by (auto simp: authorised_def entitled_def split: body.splits)

lemma entitled_taken: "taken_over ps e e' \<Longrightarrow> entitled ps e'"
  by (auto simp: taken_over_def entitled_def)

lemma entitled_mono: "entitled ps e \<Longrightarrow> ps \<subseteq> qs \<Longrightarrow> entitled qs e"
  by (auto simp: entitled_def split: body.splits)

lemma moves_refl: "moves ps m m"
  by (simp add: moves_def moved_def)

lemma moves_adds: "adds m m' \<Longrightarrow> moves ps m m'"
  unfolding moves_def adds_def map_le_def dom_def by (auto simp: moved_def entitled_open)

lemma moves_post: "m i = None \<Longrightarrow> born_open (te_body e) \<Longrightarrow> moves ps m (m(i \<mapsto> e))"
  by (auto simp: moves_def moved_def entitled_open)

lemma moves_one:
  assumes "moves ps m m1" "m i = Some e" "moved ps e e'"
  shows "moves ps m (m1(i \<mapsto> e'))"
  using assms unfolding moves_def by (auto simp: moved_def)

lemma agent_moves:
  assumes "world_inv w" "agent_step w w'"
  shows "moves ps (tmap w) (tmap w')"
  using assms(2)
proof (rule agent_stepE)
  fix t en c args r assume c: "thread_tool_call t en c args w = (r, w')"
  note inv' = tool_call_evolves(1) [OF assms(1) c]
  have "moved ps e e'" if "tmap w i = Some e" "tmap w' i = Some e'" for i e e'
  proof -
    from call_keeps [OF assms(1) c that(1)] that(2) obtain b where b: "e' = e\<lparr>te_body := b\<rparr>"
      "b = te_body e \<or> body_step w (ac_role c) (ac_can_waive c) e b" by (metis option.inject)
    from b(2) show ?thesis
    proof
      assume s: "body_step w (ac_role c) (ac_can_waive c) e b"
      have "authorised e'"
        unfolding b(1) using s world_entry_valid [OF assms(1) that(1)]
        by (cases rule: body_step.cases) (auto simp: authorised_def may_close_def handoff_ok_def)
      with closed_step [OF s] kind_step [OF s] b(1) show ?thesis unfolding moved_def using entitled_authorised by blast
    qed (simp add: b(1) moved_def)
  qed
  moreover have "entitled ps e" if "tmap w i = None" "tmap w' i = Some e" for i e
    using call_adds [OF assms(1) c that] world_entry_valid [OF inv' that(2)] authorised_fresh entitled_authorised by blast
  moreover have "\<exists>e'. tmap w' i = Some e'" if "tmap w i = Some e" for i e using call_keeps [OF assms(1) c that] by blast
  ultimately show ?thesis unfolding moves_def by blast
qed

lemma handoff_moves:
  assumes "after_step w i f w'"
    and "\<And>h. h_accepted_by (f h) = h_accepted_by h \<or> h_accepted_by (f h) = Some harness_author" "world_inv w"
  shows "moves ps (tmap w) (tmap w')"
proof -
  from assms(1) consider "tmap w' = tmap w" | e h where "tmap w i = Some e" "te_body e = Handoff h" "h_acceptance_state h = Pending"
      "tmap w' = (tmap w)(i \<mapsto> e\<lparr>te_body := Handoff (f h)\<rparr>)"
    by (auto simp: after_step_def handoff_step_def)
  then show ?thesis
  proof cases
    case (2 e h)
    have "h_accepted_by h = None" using world_entry_valid [OF assms(3) 2(1)] 2(2,3) by (simp add: handoff_ok_def)
    with 2(2,3) assms(2) [of h] have "moved ps e (e\<lparr>te_body := Handoff (f h)\<rparr>)"
      by (auto simp: moved_def entitled_def closed_entry_def is_resolved_def)
    with moves_one [where m = "tmap w", OF moves_refl 2(1)] show ?thesis unfolding 2(4) by blast
  qed (simp add: moves_refl)
qed

lemma project_moves: "project_step w w' \<Longrightarrow> world_inv w \<Longrightarrow> moves ps (tmap w) (tmap w')"
proof (induction rule: project_step.induct)
  case (agent w w')
  then show ?case by (simp add: agent_moves)
next
  case (gate en cat results t p names post w r w')
  from tripleD [OF gate_grown at_start [OF gate.prems] gate.hyps] have "grown w (tmap w) w'" by (cases r) simp_all
  then show ?case by (simp add: grown_def moves_adds)
next
  case (bounce en i v w r w')
  show ?case by (rule handoff_moves [OF conjunct1 [OF bounce_effect [OF bounce.prems bounce.hyps]] _ bounce.prems]) simp
next
  case (auto_accept en i cps w r w')
  show ?case by (rule handoff_moves [OF auto_accept_effect [OF auto_accept.prems auto_accept.hyps] _ auto_accept.prems]) simp
qed

lemma desk_moves:
  "desk_step s s' \<Longrightarrow> world_inv (pj_world s) \<Longrightarrow> specs_ok (pj_specs s) \<Longrightarrow> moves ps (tmap (pj_world s)) (tmap (pj_world s'))"
proof (induction rule: desk_step.induct)
  case (threads s w')
  then show ?case by (simp add: project_moves)
next
  case (propose spawn en cfg schemas sender args s r w')
  from tripleD [OF propose_grown at_start [OF propose.prems(1)] propose.hyps(2)] propose.hyps(1)
  have "grown (pj_world s) (tmap (pj_world s)) w'" by (cases r) simp_all
  then show ?case by (simp add: grown_def moves_adds)
next
  case (resolve en cfg schemas yaml sender args s r' s')
  show ?case
  proof (rule resolve_effect [OF resolve.prems resolve.hyps])
    fix st e p
    assume x: "\<exists>verdict c why. resolution_checked (tmap (pj_world s)) cfg sender args (verdict, st, e, p, c, why)"
      "only_settles e st (tmap (pj_world s)) (tmap (pj_world s'))"
    then have "te_body e = Proposal p" "p_state p = PPending" by (auto simp: resolution_checked_def)
    then have "moved ps e (settle st e)"
      by (auto simp: moved_def settle_def closed_entry_def is_resolved_def entitled_def)
    then have "\<exists>e'. tmap (pj_world s') i = Some e' \<and> moved ps x' e'" if "tmap (pj_world s) i = Some x'" for i x'
      using x(2) that unfolding only_settles_def moved_def [of ps x' x'] by (metis moved_def)
    with x(2) show ?thesis unfolding moves_def only_settles_def using entitled_open by blast
  qed (simp add: moves_refl)
next
  case (specs fs s)
  then show ?case by (simp add: moves_refl)
qed

lemma sweep_moves:
  assumes "world_inv w" "sweep_blocking_entries en na ea now w = (r, w')"
  shows "world_inv w' \<and> moves ps (tmap w) (tmap w')"
proof -
  have "world_inv w' \<and> grows (tmap w) (tmap w')" using sweep_effect [OF assms(1), of en na ea now] assms(2) by (auto simp: swept_def)
  moreover have "born_open (te_body e)" if "responds_to e \<noteq> None" for e
    using that by (cases "te_body e") (auto simp: responds_to_def)
  ultimately show ?thesis using moves_adds by (auto simp: grows_def adds_def)
qed

lemma post_moves:
  assumes "world_inv w" "born_open b" "post_entry en n i a b w = (r, w')"
  shows "world_inv w' \<and> moves ps (tmap w) (tmap w')"
proof -
  let ?E = "\<lambda>v. \<exists>m. th_at m v \<and> moves ps (tmap w) m"
  have "triple (at w (tmap w)) (bind_act (post_entry en n i a b) ret) (\<lambda>_. ?E) ?E"
  proof (rule triple_post_entry)
    assume "tmap w (en_uuid en n) = None"
    then have "moves ps (tmap w) ((tmap w)(en_uuid en n \<mapsto> new_entry en n i a b))"
      using assms(2) by (intro moves_post) simp_all
    then show "triple (at w ((tmap w)(en_uuid en n \<mapsto> new_entry en n i a b))) (ret (en_uuid en n)) (\<lambda>_. ?E) ?E"
      by (intro triple_ret) (blast dest: at_th)
  qed (blast dest: at_th intro: moves_refl)
  moreover have "bind_act (post_entry en n i a b) ret w = (r, w')" using assms(3) by (simp add: bind_act_def ret_def split: sum.split)
  ultimately have "case r of Inl x \<Rightarrow> ?E w' | Inr x \<Rightarrow> ?E w'" by (rule tripleD [where w = w and P = "at w (tmap w)", OF _ at_start [OF assms(1)]])
  then have "?E w'" by (cases r) simp_all
  then show ?thesis by (auto simp: th_at_def)
qed

lemma answer_moves:
  assumes w: "world_inv w" and x: "tmap w (te_id e) = Some x" "te_body x = Question q" and ps: "te_id e \<in> ps"
    and run: "answer_prompt en i e reply w = (r, w')"
  shows "world_inv w' \<and> moves ps (tmap w) (tmap w')"
proof -
  let ?E = "\<lambda>v. \<exists>m. th_at m v \<and> moves ps (tmap w) m"
  let ?b = "Question (q\<lparr>q_resolved_by := Some ''operator''\<rparr>)"
  have y: "moved ps x (x\<lparr>te_body := ?b\<rparr>)"
    using world_entry_valid [OF w x(1)] x(2) ps by (auto simp: moved_def taken_over_def)
  have "triple (at w (tmap w)) (answer_prompt en i e reply) (\<lambda>_. ?E) ?E"
    unfolding answer_prompt_def
  proof (rule triple_post_entry)
    assume new: "tmap w (en_uuid en 0) = None"
    let ?m1 = "(tmap w)(en_uuid en 0 \<mapsto> new_entry en 0 i ''operator'' (Answer \<lparr>a_question_id = te_id e, a_text = reply\<rparr>))"
    let ?m2 = "?m1(te_id e \<mapsto> x\<lparr>te_body := ?b\<rparr>)"
    have m1: "moves ps (tmap w) ?m1" by (rule moves_post [where m = "tmap w", OF new]) simp
    have m2: "moves ps (tmap w) ?m2" by (rule moves_one [OF m1 x(1) y])
    show "triple (at w ?m1) (bind_act (update_entry (te_id e) [(''resolved_by'', JStr ''operator'')]) (\<lambda>_.
        bind_act (set_ticket_status en 1 i StInProgress) (\<lambda>_.
        bind_act (publish_msg en 2 ''orchestrator'' ''broadcast'' MContextUpdate
          [(''kind'', JStr ''ticket_updated''), (''ticket_id'', JStr i), (''status'', JStr (show_status StInProgress))] (topic i)) (\<lambda>_.
        ret ())))) (\<lambda>_. ?E) ?E"
    proof (rule triple_update_body [where e = x and b = ?b])
      show "?m1 (te_id e) = Some x" using new x(1) by auto
      show "at w ?m1 v \<Longrightarrow> ?E v" for v using m1 by (blast dest: at_th)
      show "triple (at w ?m2) (bind_act (set_ticket_status en 1 i StInProgress) (\<lambda>_.
          bind_act (publish_msg en 2 ''orchestrator'' ''broadcast'' MContextUpdate
            [(''kind'', JStr ''ticket_updated''), (''ticket_id'', JStr i), (''status'', JStr (show_status StInProgress))] (topic i)) (\<lambda>_.
          ret ()))) (\<lambda>_. ?E) ?E"
        by (intro triple_set_status triple_publish triple_ret) (use m2 in \<open>blast dest: at_th\<close>)+
    qed (use x(2) in \<open>simp_all add: patch_question thread_keys\<close>)
  qed (blast dest: at_th intro: moves_refl)
  from tripleD [OF this at_start [OF w] run] have "?E w'" by (cases r) simp_all
  then show ?thesis by (auto simp: th_at_def)
qed

section \<open>Runs keep\<close>

definition prompts_ok :: "console \<Rightarrow> bool" where
  "prompts_ok c \<longleftrightarrow> (\<forall>i \<in> prompted (co_prompts c). \<exists>x q. co_map c i = Some x \<and> te_body x = Question q)"

definition console_inv :: "console \<Rightarrow> bool" where
  "console_inv c \<longleftrightarrow> world_inv (pj_world (co_desk c)) \<and> specs_ok (pj_specs (co_desk c)) \<and> prompts_ok c"

lemma body_kind_question: "body_kind b = ''question'' \<longleftrightarrow> (\<exists>q. b = Question q)"
  by (cases b) simp_all

lemma moved_question: "moved ps x x' \<Longrightarrow> te_body x = Question q \<Longrightarrow> \<exists>q'. te_body x' = Question q'"
  by (auto simp: moved_def taken_over_def) (metis body_kind_question)

lemma moves_prompts:
  assumes "moves qs (co_map c) m" "\<forall>i \<in> ps. \<exists>x q. co_map c i = Some x \<and> te_body x = Question q" "i \<in> ps"
  shows "\<exists>x q. m i = Some x \<and> te_body x = Question q"
proof -
  obtain x q where x: "co_map c i = Some x" "te_body x = Question q" using assms(2,3) by blast
  with assms(1) obtain x' where "m i = Some x'" "moved qs x x'" unfolding moves_def by blast
  with moved_question [OF _ x(2)] show ?thesis by blast
qed

lemma in_world_simps [simp]:
  "co_map (in_world c w) = tmap w" "pj_world (co_desk (in_world c w)) = w" "pj_specs (co_desk (in_world c w)) = pj_specs (co_desk c)"
  "co_prompts (in_world c w) = co_prompts c"
  by (simp_all add: in_world_def)

lemma prompted_is_question:
  assumes "world_inv w" "prompted_question en i w = (Inr (Some e), w')"
  shows "\<exists>q. tmap w (te_id e) = Some e \<and> te_body e = Question q"
proof -
  have inv: "thread_inv (w_threads w)" using assms(1) by (simp add: world_inv_def)
  obtain es where es: "has_unresolved_blocking (en_draws en) i (w_threads w) = Inr es" "sorted (map te_created_at es)" "distinct (map te_id es)"
    "set es = {e. \<exists>j. tmap w j = Some e \<and> te_ticket_id e = i \<and> is_blocking e}"
    by (rule has_unresolved_blocking_refines [OF inv])
  have q: "filter is_question es \<noteq> [] \<and> e = last (filter is_question es)"
    using assms(2) unfolding prompted_question_def es(1) by (cases "filter is_question es = []") (simp_all add: Let_def)
  have "e \<in> set (filter is_question es)" using q last_in_set by metis
  then have "e \<in> set es" "is_question e" by simp_all
  with es(4) obtain j where j: "tmap w j = Some e" by blast
  obtain q where "te_body e = Question q" using \<open>is_question e\<close> by (cases "te_body e") (simp_all add: is_question_def)
  with j world_entry_valid [OF assms(1) j] show ?thesis by blast
qed

lemma console_step_keeps:
  assumes "console_step c c'" "console_inv c"
  shows "console_inv c' \<and> prompted (co_prompts c) \<subseteq> prompted (co_prompts c') \<and> moves (prompted (co_prompts c')) (co_map c) (co_map c')"
proof -
  have inv: "world_inv (pj_world (co_desk c))" "specs_ok (pj_specs (co_desk c))" "prompts_ok c"
    using assms(2) by (simp_all add: console_inv_def)
  have whole: ?thesis if "world_inv w" "moves (prompted (co_prompts c)) (co_map c) (tmap w)" "c' = in_world c w" for w
    using that inv moves_prompts [OF that(2)] by (simp add: console_inv_def prompts_ok_def)
  from assms(1) show ?thesis
  proof cases
    case (desk d)
    have "moves (prompted (co_prompts c)) (co_map c) (tmap (pj_world d))" by (rule desk_moves [OF desk(2) inv(1,2)])
    with desk desk_step_keeps [OF desk(2) inv(1,2)] inv(3) moves_prompts show ?thesis
      by (simp add: console_inv_def prompts_ok_def desk_keeps_def)
  next
    case (sweep en na ea now r w)
    with sweep_moves [OF inv(1) sweep(2)] whole show ?thesis by blast
  next
    case (posted b en n i a r' w)
    with post_moves [OF inv(1) posted(2,3)] whole show ?thesis by blast
  next
    case (prompt en i e w)
    with prompted_is_question [OF inv(1) prompt(2)] inv show ?thesis
      by (auto simp: console_inv_def prompts_ok_def prompted_def moves_refl)
  next
    case (reply i e en a r'' w)
    then have p: "te_id e \<in> prompted (co_prompts c)" by (force simp: prompted_def)
    with inv(3) obtain x q where "co_map c (te_id e) = Some x" "te_body x = Question q" unfolding prompts_ok_def by blast
    with answer_moves [OF inv(1) this p reply(3)] whole reply(1) show ?thesis by blast
  qed
qed

lemma taken_closed: "taken_over ps e e' \<Longrightarrow> closed_entry e'"
  by (auto simp: taken_over_def closed_entry_def is_resolved_def)

lemma taken_mono: "taken_over ps e e' \<Longrightarrow> ps \<subseteq> qs \<Longrightarrow> taken_over qs e e'"
  by (auto simp: taken_over_def)

lemma taken_twice: "taken_over ps e e1 \<Longrightarrow> taken_over qs e1 e2 \<Longrightarrow> e2 = e1"
  by (auto simp: taken_over_def)

text \<open>
  C6: Closed entries are final: over any sequence of thread tool calls, gate scorings, bounces, automatic
  accepts, proposals and their resolutions, sweeps, posts, and prompts of the operator with their replies, where a
  call runs to its end before the next starts, a resolved question, a resolved or waived objection, a closed
  handoff, a waived check and every entry of the other kinds keeps every field, except that a question for which the
  operator was prompted may end as resolved by the operator; and the stores stay well formed.
\<close>
theorem closed_entries_final:
  assumes "console_run c c'" "console_inv c" "co_map c i = Some e" "closed_entry e"
  shows "console_inv c' \<and> (\<exists>e'. co_map c' i = Some e' \<and> (e' = e \<or> taken_over (prompted (co_prompts c')) e e'))"
  using assms(1)
proof (induction rule: rtranclp_induct)
  case (step c1 c2)
  from step.IH obtain e1 where inv: "console_inv c1" and e1: "co_map c1 i = Some e1"
    "e1 = e \<or> taken_over (prompted (co_prompts c1)) e e1" by blast
  note k = console_step_keeps [OF step.hyps(2) inv]
  then obtain e2 where e2: "co_map c2 i = Some e2" "moved (prompted (co_prompts c2)) e1 e2"
    using e1(1) unfolding moves_def by blast
  have "closed_entry e1" using e1(2) assms(4) taken_closed by blast
  with e2(2) have "e2 = e1 \<or> taken_over (prompted (co_prompts c2)) e1 e2" by (auto simp: moved_def)
  then have "e2 = e \<or> taken_over (prompted (co_prompts c2)) e e2"
    using e1(2) k taken_mono taken_twice by metis
  with k e2(1) show ?case by blast
qed (use assms in simp)

text \<open>
  C2: Resolution asymmetry: if every question was closed by its asker, or by the operator who was prompted for it,
  every objection accepted by the objector (and not also waived), and no handoff accepted by its author, the
  harness apart, then this is so after any sequence of calls of all who write to the threads.
\<close>
theorem resolution_asymmetry:
  assumes "console_run c c'" "console_inv c" "\<forall>i e. co_map c i = Some e \<longrightarrow> entitled (prompted (co_prompts c)) e"
  shows "\<forall>i e. co_map c' i = Some e \<longrightarrow> entitled (prompted (co_prompts c')) e"
proof -
  have "console_inv c' \<and> (\<forall>i e. co_map c' i = Some e \<longrightarrow> entitled (prompted (co_prompts c')) e)"
    using assms(1)
  proof (induction rule: rtranclp_induct)
    case (step c1 c2)
    note k = console_step_keeps [OF step.hyps(2) conjunct1 [OF step.IH]]
    have "entitled (prompted (co_prompts c2)) e2" if e2: "co_map c2 i = Some e2" for i e2
    proof (cases "co_map c1 i")
      case None
      with k e2 show ?thesis unfolding moves_def by blast
    next
      case (Some e1)
      with k e2 have "moved (prompted (co_prompts c2)) e1 e2" unfolding moves_def by (metis option.inject)
      moreover have "entitled (prompted (co_prompts c2)) e1" using step.IH Some k entitled_mono by blast
      ultimately show ?thesis unfolding moved_def using entitled_taken by blast
    qed
    with k show ?case by blast
  qed (use assms in simp)
  then show ?thesis by blast
qed

section \<open>Witnesses\<close>

definition demo_console :: "world \<Rightarrow> console" where
  "demo_console w = \<lparr>co_desk = \<lparr>pj_world = w, pj_specs = []\<rparr>, co_prompts = []\<rparr>"

lemma console_call: "console_run c (in_world c (snd (thread_tool_call t en a args (pj_world (co_desk c)))))"
  unfolding in_world_def
  by (rule r_into_rtranclp, rule console_step.desk, rule desk_step.threads, rule project_step.agent, rule agent_step.call, rule surjective_pairing)

lemma demo_console_inv: "world_inv w \<Longrightarrow> console_inv (demo_console w)"
  by (simp add: console_inv_def demo_console_def prompts_ok_def prompted_def specs_ok_def)

theorem closed_entries_final_witness:
  "\<exists>w. tmap w = [''q'' \<mapsto> demo_closed] \<and>
     (\<forall>t en c args. tmap (snd (thread_tool_call t en c args w)) ''q'' = Some demo_closed)"
proof -
  obtain w where w: "world_inv w" "tmap w = [''q'' \<mapsto> demo_closed]"
    using demo_world_exists [OF demo_entries_ok(3,4)] by (auto simp: demo_question_def demo_closed_def)
  have c: "closed_entry demo_closed" by (simp add: closed_entry_def demo_closed_def is_resolved_def)
  have q: "co_map (demo_console w) ''q'' = Some demo_closed" using w(2) by (simp add: demo_console_def)
  have "tmap (snd (thread_tool_call t en a args w)) ''q'' = Some demo_closed" for t en a args
    using closed_entries_final [OF console_call demo_console_inv [OF w(1)] q c, of t en a args]
    by (simp add: taken_over_def prompted_def demo_console_def)
  with w(2) show ?thesis by blast
qed

theorem resolution_asymmetry_witness:
  "\<exists>w. tmap w = [''q'' \<mapsto> demo_question] \<and> (\<forall>t en c args.
     list_all (entitled {}) (case tmap (snd (thread_tool_call t en c args w)) ''q'' of None \<Rightarrow> [] | Some e \<Rightarrow> [e]))"
proof -
  obtain w where w: "world_inv w" "tmap w = [''q'' \<mapsto> demo_question]"
    using demo_world_exists [OF demo_entries_ok(1,2)] by (auto simp: demo_question_def)
  have "\<forall>i e. co_map (demo_console w) i = Some e \<longrightarrow> entitled (prompted (co_prompts (demo_console w))) e"
    by (simp add: w(2) demo_console_def entitled_def demo_question_def)
  from resolution_asymmetry [OF console_call demo_console_inv [OF w(1)] this] w(2) show ?thesis
    by (intro exI [of _ w]) (auto simp: demo_console_def prompted_def split: option.split)
qed

end
