(* ===== verification/CommitText.thy ===== *)
theory CommitText
  imports TicketText PyText
begin

text \<open>
  The commit messages of \<open>jig/ticket_mcp.py\<close> (\<open>handle_commit_progress\<close>) and the check
  that the \<open>commit-msg\<close> hook of \<open>jig/hooks/__init__.py\<close> makes of them: the regular
  expression is a predicate on strings, and \<open>s[:i]\<close> takes a negative \<open>i\<close> from the end.
\<close>

section \<open>The hook\<close>

definition conventional_types :: "string list" where
  "conventional_types = [''feat'', ''fix'', ''chore'', ''docs'', ''test'', ''refactor'', ''perf'', ''build'',
     ''ci'', ''style'', ''revert'']"

definition subject_part :: "string \<Rightarrow> bool" where
  \<comment> \<open>\<open>!?: .+\<close>\<close>
  "subject_part r = (let r = (if starts_with r ''!'' then tl r else r)
     in starts_with r '': '' \<and> drop 2 r \<noteq> [] \<and> hd (drop 2 r) \<noteq> CHR 0x0A)"

definition after_type :: "string \<Rightarrow> bool" where
  \<comment> \<open>\<open>(\([^)]+\))?\<close> and the subject\<close>
  "after_type r = (subject_part r \<or>
     (r \<noteq> [] \<and> hd r = CHR ''('' \<and>
      (let inner = takeWhile ((\<noteq>) (CHR '')'')) (tl r); rest = drop (length inner) (tl r)
       in inner \<noteq> [] \<and> rest \<noteq> [] \<and> subject_part (tl rest))))"

definition conventional :: "string \<Rightarrow> bool" where
  "conventional s = list_ex (\<lambda>t. starts_with s t \<and> after_type (drop (length t) s)) conventional_types"

definition autobypass_prefixes :: "string list" where
  "autobypass_prefixes = [''Merge '', ''Revert '', ''fixup! '', ''squash! '']"

definition validate_commit_msg :: "string \<Rightarrow> bool" where
  "validate_commit_msg msg = (msg \<noteq> [] \<and>
     (let first_line = hd (splitlines msg)
      in list_ex (starts_with first_line) autobypass_prefixes \<or> conventional first_line))"

section \<open>The message\<close>

definition py_take :: "int \<Rightarrow> string \<Rightarrow> string" where
  "py_take i s = (if i < 0 then take (length s - nat (- i)) s else take (nat i) s)"

definition max_line :: nat where
  "max_line = 72"

definition commit_subject :: "string \<Rightarrow> string \<Rightarrow> string \<Rightarrow> string" where
  \<comment> \<open>the title of the ticket when the agent gave nothing, or only the id\<close>
  "commit_subject ticket_id title message =
    (let s = strip message in if s = [] \<or> s = ticket_id then title else s)"

definition attributed :: "string \<Rightarrow> string \<Rightarrow> string" where
  \<comment> \<open>a conventional subject keeps its prefix and gets the role at its end\<close>
  "attributed sender subject =
    (let suffix = '' ['' @ sender @ '']'';
         max_subject = int max_line - int (length suffix)
     in (if int (length subject) > max_subject then py_take (max_subject - 3) subject @ ''...'' else subject) @ suffix)"

definition scope_char :: "char \<Rightarrow> bool" where
  "scope_char c = (let n = of_char c :: nat in 65 \<le> n \<and> n \<le> 90 \<or> 97 \<le> n \<and> n \<le> 122 \<or> 48 \<le> n \<and> n \<le> 57 \<or>
     c \<in> set ''_./-'')"

definition prefix_overhead :: nat where
  "prefix_overhead = length ''feat(): ''"

definition min_subject :: nat where
  "min_subject = 10"

definition feat_prefix :: "string \<Rightarrow> string" where
  "feat_prefix sender =
    (let safe_scope = take (max_line - prefix_overhead - min_subject) (filter scope_char sender)
     in if safe_scope \<noteq> [] then ''feat('' @ safe_scope @ ''): '' else ''feat: '')"

definition one_line :: "string \<Rightarrow> string" where
  "one_line s = map (\<lambda>c. if c = CHR 0x0A \<or> c = CHR 0x0D then CHR '' '' else c) s"

definition wrapped :: "string \<Rightarrow> string \<Rightarrow> string" where
  "wrapped sender subject =
    (let prefix = feat_prefix sender; s = one_line subject; budget = max_line - length prefix
     in prefix @ (if length s > budget then (if budget \<ge> 3 then take (budget - 3) s @ ''...'' else take budget s) else s))"

definition commit_message :: "string \<Rightarrow> string \<Rightarrow> string \<Rightarrow> string \<Rightarrow> string" where
  "commit_message sender ticket_id title message =
    (let subject = commit_subject ticket_id title message
     in if conventional subject then attributed sender subject else wrapped sender subject)"

section \<open>What the hook makes of them\<close>

lemma line_break_space: "line_break c \<Longrightarrow> py_isspace c"
  by (auto simp: line_break_def py_isspace_def Let_def)

lemma hd_splitlines_from:
  "acc \<noteq> [] \<or> s \<noteq> [] \<Longrightarrow> hd (splitlines_from acc s) = rev acc @ takeWhile (\<lambda>c. \<not> line_break c) s"
proof (induction acc s rule: splitlines_from.induct)
  case (2 acc c cs)
  have "line_break (CHR 0x0D)" by (simp add: line_break_def Let_def)
  with 2 show ?case by auto
qed auto

lemma first_line: "s \<noteq> [] \<Longrightarrow> hd (splitlines s) = takeWhile (\<lambda>c. \<not> line_break c) s"
  by (simp add: splitlines_def hd_splitlines_from)

lemma hd_strip: "strip s \<noteq> [] \<Longrightarrow> \<not> py_isspace (hd (strip s))"
proof -
  assume ne: "strip s \<noteq> []"
  define d where "d = dropWhile py_isspace s"
  have "strip s = rstrip d" by (simp add: strip_def rstrip_def d_def)
  then obtain r where r: "d = strip s @ r" using takeWhile_dropWhile_id [of py_isspace "rev d"]
    by (metis rev_append rev_rev_ident rstrip_def)
  then have "d \<noteq> []" "hd d = hd (strip s)" using ne by auto
  then show ?thesis using hd_dropWhile [of py_isspace s] by (metis d_def dropWhile_eq_Nil_conv)
qed

lemma commit_subject_starts:
  assumes "title \<noteq> []" "\<not> py_isspace (hd title)"
  shows "commit_subject i title m \<noteq> [] \<and> \<not> py_isspace (hd (commit_subject i title m))"
  using assms hd_strip [of m] by (simp add: commit_subject_def Let_def)

definition feat_scope :: "string \<Rightarrow> string" where
  "feat_scope sender = take (max_line - prefix_overhead - min_subject) (filter scope_char sender)"

lemma feat_scope_chars: "set (feat_scope sender) \<subseteq> {c. scope_char c}"
  by (auto simp: feat_scope_def dest: in_set_takeD)

lemma feat_prefix_alt:
  "feat_prefix sender = (if feat_scope sender \<noteq> [] then ''feat('' @ feat_scope sender @ ''): '' else ''feat: '')"
  by (simp add: feat_prefix_def feat_scope_def Let_def)

lemma feat_scope_length: "length (feat_scope sender) \<le> 54"
  by (simp add: feat_scope_def max_line_def prefix_overhead_def min_subject_def)

lemma feat_prefix_length: "length (feat_prefix sender) \<le> 62"
  using feat_scope_length [of sender] by (simp add: feat_prefix_alt)

lemma wrapped_length: "length (wrapped sender s) \<le> 72"
  using feat_prefix_length [of sender] by (auto simp: wrapped_def Let_def max_line_def)

lemma scope_char_plain: "scope_char c \<Longrightarrow> c \<noteq> CHR '')'' \<and> \<not> line_break c"
  by (auto simp: scope_char_def line_break_def Let_def)

lemma feat_prefix_one_line: "c \<in> set (feat_prefix sender) \<Longrightarrow> \<not> line_break c"
  using feat_scope_chars [of sender] scope_char_plain
  by (auto simp: feat_prefix_alt line_break_def Let_def split: if_splits)

lemma feat_prefix_conventional:
  assumes "c \<noteq> CHR 0x0A"
  shows "conventional (feat_prefix sender @ c # cs)"
proof (cases "feat_scope sender = []")
  case True
  then show ?thesis
    using assms by (simp add: feat_prefix_alt conventional_def conventional_types_def after_type_def subject_part_def Let_def starts_with_def)
next
  case False
  have "\<forall>x \<in> set (feat_scope sender). x \<noteq> CHR '')''" using feat_scope_chars scope_char_plain by blast
  then have tw: "takeWhile ((\<noteq>) (CHR '')'')) (feat_scope sender @ CHR '')'' # r) = feat_scope sender" for r
    by (subst takeWhile_append2) auto
  have "after_type (''('' @ feat_scope sender @ ''): '' @ c # cs)"
    using False assms tw [of "'': '' @ c # cs"] by (simp add: after_type_def subject_part_def Let_def starts_with_def)
  then show ?thesis
    using False by (simp add: feat_prefix_alt conventional_def conventional_types_def starts_with_def)
qed

lemma wrapped_shape:
  assumes "s \<noteq> []" "\<not> py_isspace (hd s)"
  shows "\<exists>cs. wrapped sender s = feat_prefix sender @ hd s # cs"
proof -
  obtain a r where s: "s = a # r" using assms by (cases s) auto
  have "a \<noteq> CHR 0x0A" "a \<noteq> CHR 0x0D" using assms s by (auto simp: py_isspace_def Let_def)
  then have o: "one_line (a # r) = a # one_line r" by (simp add: one_line_def)
  obtain b where b: "max_line - length (feat_prefix sender) = Suc (Suc (Suc (Suc b)))"
    using feat_prefix_length [of sender] by (auto simp: max_line_def dest!: intro: that [of "68 - length (feat_prefix sender)"])
  show ?thesis by (auto simp: wrapped_def Let_def o b s)
qed

lemma wrapped_accepted:
  assumes "s \<noteq> []" "\<not> py_isspace (hd s)"
  shows "validate_commit_msg (wrapped sender s)"
proof -
  obtain cs where w: "wrapped sender s = feat_prefix sender @ hd s # cs" using wrapped_shape assms by blast
  have nb: "\<not> line_break (hd s)" using assms line_break_space by blast
  then have "hd (splitlines (wrapped sender s)) = feat_prefix sender @ hd s # takeWhile (\<lambda>c. \<not> line_break c) cs"
    using feat_prefix_one_line by (simp add: w first_line takeWhile_append2)
  moreover have "hd s \<noteq> CHR 0x0A" using nb by (auto simp: line_break_def Let_def)
  ultimately show ?thesis using w by (simp add: validate_commit_msg_def feat_prefix_conventional)
qed

definition long_scope_subject :: string where
  "long_scope_subject = ''feat('' @ replicate 70 (CHR ''a'') @ ''): add the widget''"

lemma long_scope_refused:
  assumes "i \<noteq> long_scope_subject"
  shows "\<not> validate_commit_msg (commit_message ''dev'' i title long_scope_subject)"
proof -
  have "strip long_scope_subject = long_scope_subject" "long_scope_subject \<noteq> []" "conventional long_scope_subject"
    "\<not> validate_commit_msg (attributed ''dev'' long_scope_subject)" by code_simp+
  then show ?thesis using assms by (simp add: commit_message_def commit_subject_def Let_def)
qed

text \<open>
  A commit message built from a plain subject is at most 72 characters long and is
  accepted by the commit-msg hook, for every role name, message and ticket title that
  starts with a printing character.  The other path does not have this property: a
  subject that is already conventional but has a long scope is accepted by the hook as
  it is, and cut inside its scope to a message that the hook refuses.
\<close>

theorem commit_message_accepted:
  assumes "title \<noteq> []" "\<not> py_isspace (hd title)" "i \<noteq> long_scope_subject"
  shows "(conventional (commit_subject i title m) \<or>
      length (commit_message sender i title m) \<le> 72 \<and> validate_commit_msg (commit_message sender i title m)) \<and>
    validate_commit_msg long_scope_subject \<and>
    \<not> validate_commit_msg (commit_message ''dev'' i title long_scope_subject)"
proof (intro conjI)
  show "conventional (commit_subject i title m) \<or>
      length (commit_message sender i title m) \<le> 72 \<and> validate_commit_msg (commit_message sender i title m)"
    using commit_subject_starts [OF assms(1,2), of i m] wrapped_accepted wrapped_length
    by (simp add: commit_message_def Let_def)
  show "validate_commit_msg long_scope_subject" by code_simp
  show "\<not> validate_commit_msg (commit_message ''dev'' i title long_scope_subject)"
    by (rule long_scope_refused [OF assms(3)])
qed

theorem commit_message_accepted_witness:
  "length (commit_message ''dev'' ''T-1'' ''Add the widget'' ''T-1'') \<le> 72 \<and>
    validate_commit_msg (commit_message ''dev'' ''T-1'' ''Add the widget'' ''T-1'')"
proof -
  have i: "''T-1'' \<noteq> long_scope_subject" by (simp add: long_scope_subject_def)
  have "\<not> conventional (commit_subject ''T-1'' ''Add the widget'' ''T-1'')" by code_simp
  then show ?thesis
    using commit_message_accepted [of "''Add the widget''" "''T-1''" "''T-1''" "''dev''"] i
    by (simp add: py_isspace_def)
qed

end
