(* ===== verification/CheckpointHandlers.thy ===== *)
theory CheckpointHandlers
  imports TicketHandlers CommitText
begin

text \<open>
  The checkpoint tools and hooks of \<open>jig/checkpoint_mcp.py\<close>, and the commit tool of
  \<open>jig/ticket_mcp.py\<close> that calls two of the hooks.  The checkpoints an agent writes are
  validated as the model class validates its keyword arguments; those of the hooks have
  fields of the right types by construction.
\<close>

section \<open>Coercions\<close>

fun coerce_ruled_out :: "json list \<Rightarrow> ruled_out list result" where
  "coerce_ruled_out [] = Inr []"
| "coerce_ruled_out (j # js) = (case j of
     JStr s \<Rightarrow> map_sum id (Cons \<lparr>ro_approach = s, ro_reason = []\<rparr>) (coerce_ruled_out js)
   | JObj d \<Rightarrow> (case parse_ruled_out (JObj d) of
       None \<Rightarrow> Inl (ValidationError ''ruled_out'')
     | Some r \<Rightarrow> map_sum id (Cons r) (coerce_ruled_out js))
   | _ \<Rightarrow> Inl (CheckpointError ''ruled_out entry must be RuledOut, dict, or str''))"

definition iter_or_empty :: "string \<Rightarrow> doc \<Rightarrow> json list result" where
  \<comment> \<open>\<open>list(args.get(k) or [])\<close>\<close>
  "iter_or_empty k args = (let v = dict_get JNull k args in if truthy v then iter_json v else Inr [])"

fun split_ws :: "string \<Rightarrow> string \<Rightarrow> string list" where
  \<comment> \<open>\<open>str.split()\<close>, the word read so far reversed\<close>
  "split_ws acc [] = (if acc = [] then [] else [rev acc])"
| "split_ws acc (c # cs) =
    (if py_isspace c then (if acc = [] then split_ws [] cs else rev acc # split_ws [] cs)
     else split_ws (c # acc) cs)"

definition ac_bullet :: "string \<Rightarrow> string" where
  "ac_bullet fallback = (let b = strip (join_with '' '' (split_ws [] fallback))
     in if b = [] then ''Resolved as planned'' else b)"

definition ac_block :: "string \<Rightarrow> string" where
  "ac_block fallback = ''## Acceptance criteria'' @ nl @ ''- '' @ ac_bullet fallback @ nl"

definition ensure_ac_section :: "string \<Rightarrow> string \<Rightarrow> string" where
  "ensure_ac_section description fallback_bullet =
    (let body = rstrip description
     in if has_acceptance_criteria_section body then body
        else if body = [] then ac_block fallback_bullet
        else body @ nl @ nl @ ac_block fallback_bullet)"

definition require_cp_ticket :: "env \<Rightarrow> string \<Rightarrow> (ticket \<Rightarrow> 'a act) \<Rightarrow> 'a act" where
  "require_cp_ticket en i k = bind_act (get_ticket en i) (\<lambda>t. case t of
     None \<Rightarrow> raise (CheckpointError ''ticket not found'') | Some x \<Rightarrow> k x)"

definition phase_or_unknown :: "string \<Rightarrow> string" where
  "phase_or_unknown p = (if p = [] then ''<unknown>'' else p)"

definition build_checkpoint :: "env \<Rightarrow> nat \<Rightarrow> doc \<Rightarrow> checkpoint result" where
  \<comment> \<open>\<open>Checkpoint(**kwargs)\<close>\<close>
  "build_checkpoint en n kwargs =
    (case parse_checkpoint \<lparr>cx_now = en_now en n, cx_uuid = (\<lambda>_. en_uuid en n)\<rparr> kwargs of
       None \<Rightarrow> Inl (ValidationError ''checkpoint'') | Some c \<Rightarrow> Inr c)"

definition build_deferred :: "env \<Rightarrow> nat \<Rightarrow> json \<Rightarrow> json \<Rightarrow> deferred_item result" where
  "build_deferred en n item reason =
    (case parse_deferred \<lparr>cx_now = en_now en n, cx_uuid = en_uuid en\<rparr> n (JObj [(''item'', item), (''reason'', reason)]) of
       None \<Rightarrow> Inl (ValidationError ''deferred item'') | Some d \<Rightarrow> Inr d)"

section \<open>Tools\<close>

definition milestone_kwargs :: "string \<Rightarrow> string \<Rightarrow> string \<Rightarrow> doc \<Rightarrow> doc result" where
  "milestone_kwargs ticket_id phase sender args =
    (case iter_or_empty ''completed'' args of Inl e \<Rightarrow> Inl e | Inr completed \<Rightarrow>
    (case (let v = dict_get JNull ''ruled_out'' args in
           if truthy v then (case iter_json v of Inl e \<Rightarrow> Inl e | Inr js \<Rightarrow> coerce_ruled_out js) else Inr []) of
       Inl e \<Rightarrow> Inl e | Inr ruled \<Rightarrow>
    (case iter_or_empty ''open_questions'' args of Inl e \<Rightarrow> Inl e | Inr questions \<Rightarrow>
     Inr [(''ticket_id'', JStr ticket_id), (''phase'', JStr (phase_or_unknown phase)), (''author'', JStr sender),
       (''description'', dict_get (JStr []) ''description'' args), (''position'', dict_get (JStr []) ''position'' args),
       (''plan'', dict_get (JStr []) ''plan'' args), (''completed'', JList completed),
       (''ruled_out'', JList (map dump_ruled_out ruled)), (''open_questions'', JList questions),
       (''trigger'', JStr ''agent_milestone'')])))"

definition handle_checkpoint_milestone :: "env \<Rightarrow> string \<Rightarrow> string \<Rightarrow> doc \<Rightarrow> doc act" where
  "handle_checkpoint_milestone en sender phase args =
    arg ''ticket_id'' args (\<lambda>ticket_id.
    require_cp_ticket en ticket_id (\<lambda>_.
    bind_act (lift_res (milestone_kwargs ticket_id phase sender args)) (\<lambda>kw.
    bind_act (lift_res (build_checkpoint en 0 kw)) (\<lambda>c.
    bind_act (post_checkpoint c) (\<lambda>cid.
    ret [(''checkpoint_id'', JStr cid)])))))"

definition handle_checkpoint_decision :: "env \<Rightarrow> string \<Rightarrow> string \<Rightarrow> doc \<Rightarrow> doc act" where
  "handle_checkpoint_decision en sender phase args =
    arg ''decision_id'' args (\<lambda>decision_id.
    bind_act (get_entry en decision_id) (\<lambda>x. case x of
      None \<Rightarrow> raise (CheckpointError ''decision not found'')
    | Some e \<Rightarrow> (case te_body e of
        Decision d \<Rightarrow>
          require_cp_ticket en (te_ticket_id e) (\<lambda>_.
          bind_act (lift_res (build_checkpoint en 0 [(''ticket_id'', JStr (te_ticket_id e)),
            (''phase'', JStr (phase_or_unknown phase)), (''author'', JStr sender),
            (''description'', JStr (if d_decision d \<noteq> [] then ''decision: '' @ d_decision d else ''decision (no summary)'')),
            (''plan'', dict_get (JStr (d_rationale d)) ''rationale'' args), (''trigger'', JStr ''agent_decision'')])) (\<lambda>c.
          bind_act (post_checkpoint c) (\<lambda>cid.
          ret [(''checkpoint_id'', JStr cid), (''decision_id'', JStr decision_id)])))
      | _ \<Rightarrow> raise (CheckpointError ''not a decision''))))"

definition handle_checkpoint_deferred :: "env \<Rightarrow> string \<Rightarrow> string \<Rightarrow> doc \<Rightarrow> doc act" where
  \<comment> \<open>draw 0 is the checkpoint, draw 1 the item\<close>
  "handle_checkpoint_deferred en sender phase args =
    arg ''ticket_id'' args (\<lambda>ticket_id.
    require_cp_ticket en ticket_id (\<lambda>_.
    arg_or ''item'' [] args (\<lambda>raw.
    let item = strip raw in
    require (item \<noteq> []) (CheckpointError ''deferred item must be non-empty'') (
    bind_act (lift_res (build_deferred en 1 (JStr item) (dict_get (JStr []) ''reason'' args))) (\<lambda>d.
    bind_act (lift_res (build_checkpoint en 0 [(''ticket_id'', JStr ticket_id),
      (''phase'', JStr (phase_or_unknown phase)), (''author'', JStr sender),
      (''description'', JStr (''deferred: '' @ item)), (''deferred'', jdeferred [d]),
      (''trigger'', JStr ''agent_deferred'')])) (\<lambda>c.
    bind_act (post_checkpoint c) (\<lambda>cid.
    ret [(''checkpoint_id'', JStr cid), (''item'', JStr item), (''deferred_item_id'', JStr (di_id d))])))))))"

definition passed_through :: "doc \<Rightarrow> doc" where
  \<comment> \<open>the optional arguments that are given and not \<open>None\<close>\<close>
  "passed_through args = concat (map (\<lambda>k. case map_of args k of
     None \<Rightarrow> [] | Some JNull \<Rightarrow> [] | Some v \<Rightarrow> [(k, v)]) [''size'', ''assignee'', ''labels''])"

definition or_json :: "json \<Rightarrow> json \<Rightarrow> json" where
  "or_json a b = (if truthy a then a else b)"

definition promotion_args :: "string \<Rightarrow> deferred_item \<Rightarrow> doc \<Rightarrow> doc result" where
  "promotion_args ticket_id item args =
    (case or_json (dict_get JNull ''description'' args) (JStr (di_reason item)) of
       JStr raw \<Rightarrow> Inr ([(''title'', or_json (dict_get JNull ''title'' args) (JStr (di_item item))),
         (''work_type'', dict_get (JStr ''feature'') ''work_type'' args), (''parent_id'', JStr ticket_id),
         (''description'', JStr (ensure_ac_section raw (di_item item)))] @ passed_through args)
     | _ \<Rightarrow> Inl (TypeError ''description''))"

definition promotion_reply :: "string \<Rightarrow> string \<Rightarrow> bool \<Rightarrow> doc" where
  "promotion_reply child i created =
    [(''ticket_id'', JStr child), (''deferred_item_id'', JStr i), (''created'', JBool created)]"

definition handle_checkpoint_promote_deferred :: "env \<Rightarrow> string \<Rightarrow> project \<Rightarrow> doc \<Rightarrow> doc act" where
  "handle_checkpoint_promote_deferred en sender project args =
    arg ''ticket_id'' args (\<lambda>ticket_id.
    require_cp_ticket en ticket_id (\<lambda>_.
    arg_opt ''deferred_item_id'' args (\<lambda>raw.
    let i = strip (the_default [] raw) in
    require (i \<noteq> []) (CheckpointError ''deferred_item_id is required'') (
    bind_act (on_checkpoints (find_deferred_item (en_draws en) ticket_id i)) (\<lambda>located. case located of
      None \<Rightarrow> raise (CheckpointError ''deferred item not found'')
    | Some (owning_cp_id, item) \<Rightarrow> (case di_promoted_ticket_id item of
        Some child \<Rightarrow> ret (promotion_reply child i False)
      | None \<Rightarrow>
          bind_act (lift_res (promotion_args ticket_id item args)) (\<lambda>create_args.
          bind_act (handle_create_ticket en sender project create_args) (\<lambda>child.
          bind_act (on_checkpoints (update_deferred_item owning_cp_id i (Some ''promoted'') (Some child))) (\<lambda>updated.
          require updated (CheckpointError ''failed to persist promotion'') (
          ret (promotion_reply child i True)))))))))))"

section \<open>Hooks\<close>

definition harness_checkpoint :: "env \<Rightarrow> nat \<Rightarrow> string \<Rightarrow> string \<Rightarrow> string \<Rightarrow> string \<Rightarrow> string \<Rightarrow> string \<Rightarrow> string list \<Rightarrow> string list \<Rightarrow> checkpoint" where
  "harness_checkpoint en n ticket_id phase author trigger description position completed questions =
     \<lparr>cp_id = en_uuid en n, cp_ticket_id = ticket_id, cp_phase = phase_or_unknown phase, cp_author = author,
      cp_created_at = en_now en n, cp_description = description, cp_completed = completed, cp_position = position,
      cp_plan = [], cp_ruled_out = [], cp_deferred = [], cp_open_questions = questions, cp_trigger = trigger,
      cp_historical = False\<rparr>"

definition record_auto_commit_checkpoint :: "env \<Rightarrow> nat \<Rightarrow> string \<Rightarrow> string \<Rightarrow> string \<Rightarrow> string \<Rightarrow> string \<Rightarrow> string act" where
  "record_auto_commit_checkpoint en n ticket_id phase author sha message =
     post_checkpoint (harness_checkpoint en n ticket_id phase author ''auto_commit''
       (''commit '' @ take 7 sha @ '': '' @ message) (''committed '' @ take 7 sha) [message] [])"

definition record_auto_test_checkpoint :: "env \<Rightarrow> nat \<Rightarrow> string \<Rightarrow> string \<Rightarrow> string \<Rightarrow> bool \<Rightarrow> string \<Rightarrow> string list \<Rightarrow> string act" where
  "record_auto_test_checkpoint en n ticket_id phase author passed summary questions =
     post_checkpoint (harness_checkpoint en n ticket_id phase author ''auto_test''
       ((if passed then ''test pass'' else ''test fail'') @ '': '' @ summary)
       (if passed then ''tests green'' else ''tests red'') [] questions)"

section \<open>Commits\<close>

text \<open>
  \<open>commit_worktree\<close> runs git and the linters in the worktree: its outcome for the message
  it is given is a parameter of the tool.
\<close>

datatype commit_outcome =
    Committed "string option" "string list"
  | LintErrors "string list"
  | BoundaryViolations "string list"
  | CommitRaises exc

definition when_checkpoints :: "bool \<Rightarrow> string act \<Rightarrow> string act" where
  "when_checkpoints cps m = (if cps then m else ret [])"

definition refusal :: "string \<Rightarrow> string \<Rightarrow> string list \<Rightarrow> doc" where
  "refusal err msg errors = [(''success'', JBool False), (''error'', JStr err), (''message'', JStr msg), (''errors'', jstrs errors)]"

definition commit_reply :: "string option \<Rightarrow> string option \<Rightarrow> string list \<Rightarrow> doc" where
  "commit_reply sha cid warnings = [(''sha'', jopt sha), (''comment_id'', jopt cid)] @
     (if warnings \<noteq> [] then [(''warnings'', jstrs warnings)] else [])"

definition commit_event :: "string \<Rightarrow> string \<Rightarrow> body" where
  "commit_event msg sha = SystemEvent \<lparr>se_event_type = ''commit'', se_content = msg, se_commit_sha = Some sha,
     se_phase_result = None, se_phase_branch = None, se_check_name = None, se_check_severity = None,
     se_check_verdict = None, se_excerpt = [], se_waived = False, se_payload = []\<rparr>"

definition lint_summary :: "string list \<Rightarrow> string" where
  "lint_summary warnings = (if warnings \<noteq> [] then ''ruff clean; '' @ join_with ''; '' warnings else ''ruff clean'')"

definition handle_commit_progress ::
  "env \<Rightarrow> string \<Rightarrow> bool \<Rightarrow> string \<Rightarrow> (string \<Rightarrow> commit_outcome) \<Rightarrow> doc \<Rightarrow> doc act" where
  "handle_commit_progress en sender cps phase commit_worktree args =
    arg ''ticket_id'' args (\<lambda>ticket_id.
    arg ''message'' args (\<lambda>agent_message.
    require_ticket en ticket_id (\<lambda>t.
    let msg = commit_message sender ticket_id (tk_title t) agent_message in
    case commit_worktree msg of
      CommitRaises e \<Rightarrow> raise e
    | LintErrors errors \<Rightarrow>
        bind_act (when_checkpoints cps (record_auto_test_checkpoint en 0 ticket_id phase sender False
          (show_nat (length errors) @ '' unfixable lint errors'') errors)) (\<lambda>_.
        ret (refusal ''lint_errors'' ''Fix these lint errors before committing:'' errors))
    | BoundaryViolations violations \<Rightarrow>
        bind_act (when_checkpoints cps (record_auto_test_checkpoint en 0 ticket_id phase sender False
          (show_nat (length violations) @ '' module-boundary violation(s)'') violations)) (\<lambda>_.
        ret (refusal ''boundary_violations'' ''Fix these module-boundary violations before committing:'' violations))
    | Committed sha warnings \<Rightarrow>
        bind_act (when_checkpoints cps (record_auto_test_checkpoint en 0 ticket_id phase sender True
          (lint_summary warnings) warnings)) (\<lambda>_.
        case sha of
          None \<Rightarrow> ret (commit_reply None None warnings)
        | Some s \<Rightarrow>
            bind_act (post_entry en 1 ticket_id sender (commit_event msg s)) (\<lambda>cid.
            bind_act (when_checkpoints cps (record_auto_commit_checkpoint en 2 ticket_id phase sender s msg)) (\<lambda>_.
            bind_act (publish_msg en 3 sender ''broadcast'' MContextUpdate [(''kind'', JStr ''commit_recorded''),
              (''ticket_id'', JStr ticket_id), (''sha'', JStr s), (''message'', JStr msg)] (topic ticket_id)) (\<lambda>_.
            ret (commit_reply (Some s) (Some cid) warnings))))))))"

end
