(* ===== verification/CheckpointToolProps.thy ===== *)
theory CheckpointToolProps
  imports CheckpointHandlers TicketToolProps
begin

text \<open>
  What the checkpoint tools guarantee: a promoted item has a description that the ticket
  model accepts, its ticket is a child of the one it was deferred on, and promoting it
  again changes nothing.
\<close>

section \<open>Acceptance sections\<close>

lemma splitlines_append_LF:
  "splitlines_from acc (p @ CHR 0x0A # q) = splitlines_from acc (p @ [CHR 0x0A]) @ splitlines_from [] q"
proof (induction acc p rule: splitlines_from.induct)
  case (1 acc)
  show ?case by (simp add: line_break_def Let_def)
next
  case (2 acc c cs)
  have cr: "line_break (CHR 0x0D)" by (simp add: line_break_def Let_def)
  show ?case
  proof (cases "c = CHR 0x0D \<and> cs \<noteq> [] \<and> hd cs = CHR 0x0A")
    case True
    then show ?thesis using "2.IH"(1) by (cases cs) auto
  next
    case False
    then show ?thesis using "2.IH"(2,3) cr by (cases cs) auto
  qed
qed

lemma splitlines_line:
  "list_all (\<lambda>c. \<not> line_break c) l \<Longrightarrow> splitlines_from acc (l @ [CHR 0x0A]) = [rev acc @ l]"
proof (induction l arbitrary: acc)
  case Nil
  show ?case by (simp add: line_break_def Let_def)
next
  case (Cons c l)
  have "line_break (CHR 0x0D)" by (simp add: line_break_def Let_def)
  then show ?case using Cons by auto
qed

lemma split_ws_words:
  "list_all (\<lambda>c. \<not> py_isspace c) acc \<Longrightarrow> list_all (list_all (\<lambda>c. \<not> py_isspace c)) (split_ws acc s)"
  by (induction acc s rule: split_ws.induct) simp_all

lemma in_join_with: "c \<in> set (join_with sep ws) \<Longrightarrow> c \<in> set sep \<or> (\<exists>w \<in> set ws. c \<in> set w)"
  by (induction sep ws rule: join_with.induct) auto

lemma set_strip: "set (strip s) \<subseteq> set s"
  by (auto simp: strip_def dest!: set_dropWhileD)

lemma ac_bullet_text:
  "ac_bullet f \<noteq> [] \<and> \<not> py_isspace (hd (ac_bullet f)) \<and> list_all (\<lambda>c. \<not> line_break c) (ac_bullet f)"
proof -
  let ?b = "strip (join_with '' '' (split_ws [] f))"
  have "list_all (list_all (\<lambda>c. \<not> py_isspace c)) (split_ws [] f)" using split_ws_words [of "[]" f] by simp
  then have "\<forall>c \<in> set ?b. c = CHR '' '' \<or> \<not> py_isspace c"
    using set_strip [of "join_with '' '' (split_ws [] f)"] in_join_with [of _ "'' ''" "split_ws [] f"]
    by (fastforce simp: list_all_iff)
  then have "list_all (\<lambda>c. \<not> line_break c) ?b"
    using line_break_space by (fastforce simp: list_all_iff line_break_def Let_def)
  moreover have "?b \<noteq> [] \<Longrightarrow> \<not> py_isspace (hd ?b)" by (rule hd_strip)
  moreover have "list_all (\<lambda>c. \<not> line_break c) ''Resolved as planned''" by code_simp
  ultimately show ?thesis by (simp add: ac_bullet_def Let_def py_isspace_def)
qed

lemma bullet_line:
  assumes "b \<noteq> []" "\<not> py_isspace (hd b)"
  shows "bullet (''- '' @ b)" "\<not> ac_heading (''- '' @ b)"
proof -
  have "\<not> blank_char (hd b)" using assms by (auto simp: blank_char_def py_isspace_def Let_def)
  then have "dropWhile blank_char b = b" by (cases b) auto
  then have "bullet_text ('' '' @ b)" using assms by (simp add: bullet_text_def blank_char_def Let_def)
  then show "bullet (''- '' @ b)" by (simp add: bullet_def blank_char_def Let_def)
  show "\<not> ac_heading (''- '' @ b)" by (simp add: ac_heading_def blank_char_def Let_def starts_with_def)
qed

lemma ac_block_lines:
  "splitlines_from [] (ac_block f) = [''## Acceptance criteria'', ''- '' @ ac_bullet f]"
proof -
  have n: "nl = [CHR 0x0A]" by code_simp
  have h: "list_all (\<lambda>c. \<not> line_break c) ''## Acceptance criteria''" by code_simp
  have b: "list_all (\<lambda>c. \<not> line_break c) (''- '' @ ac_bullet f)"
    using ac_bullet_text [of f] by (simp add: line_break_def Let_def)
  have "ac_block f = ''## Acceptance criteria'' @ CHR 0x0A # ((''- '' @ ac_bullet f) @ [CHR 0x0A])"
    by (simp add: ac_block_def n)
  then show ?thesis
    using splitlines_append_LF [of "[]" "''## Acceptance criteria''" "(''- '' @ ac_bullet f) @ [CHR 0x0A]"]
      splitlines_line [OF h, of "[]"] splitlines_line [OF b, of "[]"] by (metis append_Cons append_Nil rev.simps(1))
qed

lemma ac_scan_block: "ac_scan False (ls @ [''## Acceptance criteria'', ''- '' @ ac_bullet f])"
proof -
  have "ac_heading ''## Acceptance criteria''" by code_simp
  moreover have "open_bullet [''- '' @ ac_bullet f]"
    using ac_bullet_text [of f] bullet_line [of "ac_bullet f"] by (simp add: open_bullet_Cons)
  ultimately have "ac_section (ls @ [''## Acceptance criteria'', ''- '' @ ac_bullet f])"
    unfolding ac_section_def by blast
  then show ?thesis by (simp add: ac_scan_spec)
qed

lemma ensure_ac_section_ok: "has_acceptance_criteria_section (ensure_ac_section d f)"
proof -
  have n: "nl = [CHR 0x0A]" by code_simp
  have block: "has_acceptance_criteria_section (ac_block f)"
    using ac_scan_block [of "[]" f] ac_block_lines [of f]
    by (simp add: has_acceptance_criteria_section_def splitlines_def ac_block_def)
  have "splitlines_from [] (b @ nl @ nl @ ac_block f) =
      splitlines_from [] (b @ nl) @ [[]] @ [''## Acceptance criteria'', ''- '' @ ac_bullet f]" for b
    using splitlines_append_LF [of "[]" b "nl @ ac_block f"] splitlines_append_LF [of "[]" "[]" "ac_block f"]
      splitlines_line [of "[]" "[]"] by (simp add: n ac_block_lines)
  then have "has_acceptance_criteria_section (b @ nl @ nl @ ac_block f)" for b
    using ac_scan_block [of "splitlines_from [] (b @ nl) @ [[]]" f]
    by (simp add: has_acceptance_criteria_section_def splitlines_def n)
  then show ?thesis using block by (simp add: ensure_ac_section_def Let_def)
qed

section \<open>Finding an item\<close>

definition find_in :: "string \<Rightarrow> checkpoint list \<Rightarrow> (string \<times> deferred_item) option" where
  "find_in i cs = List.find (\<lambda>(_, d). di_id d = i) (concat (map (\<lambda>c. map (Pair (cp_id c)) (cp_deferred c)) cs))"

lemma find_pairs: "List.find (\<lambda>(_, d). di_id d = i) (map (Pair c) ds) = map_option (Pair c) (List.find (\<lambda>d. di_id d = i) ds)"
  by (induction ds) simp_all

lemma find_in_Nil [simp]: "find_in i [] = None"
  by (simp add: find_in_def)

lemma find_in_Cons [simp]: "find_in i (c # cs) = (case List.find (\<lambda>d. di_id d = i) (cp_deferred c) of
    None \<Rightarrow> find_in i cs | Some d \<Rightarrow> Some (cp_id c, d))"
  by (simp add: find_in_def find_append find_pairs split: option.split)

lemma find_in_owner: "find_in i cs = Some (c0, d) \<Longrightarrow> c0 \<in> cp_id ` set cs"
  by (induction cs) (auto split: option.splits)

definition promoted_to :: "string \<Rightarrow> deferred_item \<Rightarrow> deferred_item" where
  "promoted_to p d = d\<lparr>di_status := DPromoted, di_promoted_ticket_id := Some p\<rparr>"

lemma promote_find:
  "promote_first i p ds = Some ds' \<Longrightarrow> \<exists>d. List.find (\<lambda>d. di_id d = i) ds = Some d \<and>
     List.find (\<lambda>d. di_id d = i) ds' = Some (promoted_to p d)"
  by (induction ds arbitrary: ds') (auto simp: promoted_to_def split: if_splits)

definition replaced :: "string \<Rightarrow> deferred_item list \<Rightarrow> checkpoint \<Rightarrow> checkpoint" where
  "replaced c0 ds c = (if cp_id c = c0 then c\<lparr>cp_deferred := ds\<rparr> else c)"

lemma replaced_simps [simp]: "cp_id (replaced c0 ds c) = cp_id c" "cp_created_at (replaced c0 ds c) = cp_created_at c"
  "cp_ticket_id (replaced c0 ds c) = cp_ticket_id c"
  by (simp_all add: replaced_def)

lemma find_in_replaced:
  assumes "find_in i cs = Some (c0, d)" "distinct (map cp_id cs)" "c \<in> set cs" "cp_id c = c0"
    and "promote_first i p (cp_deferred c) = Some ds"
  shows "find_in i (map (replaced c0 ds) cs) = Some (c0, promoted_to p d)"
  using assms(1-4)
proof (induction cs)
  case (Cons a cs)
  show ?case
  proof (cases "List.find (\<lambda>d. di_id d = i) (cp_deferred a)")
    case None
    with Cons.prems have f: "find_in i cs = Some (c0, d)" by simp
    then have ne: "cp_id a \<noteq> c0" using find_in_owner Cons.prems(2) by fastforce
    with Cons.prems(3,4) have "c \<in> set cs" by auto
    with Cons.IH [OF f] Cons.prems(2,4) None ne show ?thesis by (simp add: replaced_def)
  next
    case (Some e)
    with Cons.prems have a: "cp_id a = c0" "e = d" by simp_all
    then have "c = a" using Cons.prems(2-4) by (auto simp: rev_image_eqI)
    with promote_find [OF assms(5)] Some a show ?thesis by (auto simp: replaced_def)
  qed
qed simp

definition ticket_checkpoints :: "string \<Rightarrow> jsonl_store \<Rightarrow> checkpoint set" where
  "ticket_checkpoints t st = {c. \<exists>i. checkpoint_map st i = Some c \<and> cp_ticket_id c = t}"

definition distinct_times :: "jsonl_store \<Rightarrow> bool" where
  \<comment> \<open>no two checkpoints of a ticket have the same time\<close>
  "distinct_times st \<longleftrightarrow> (\<forall>t. inj_on cp_created_at (ticket_checkpoints t st))"

definition in_order :: "string \<Rightarrow> jsonl_store \<Rightarrow> checkpoint list \<Rightarrow> bool" where
  "in_order t st cs \<longleftrightarrow> sorted (map cp_created_at cs) \<and> distinct (map cp_id cs) \<and> set cs = ticket_checkpoints t st"

lemma in_order_exists: "checkpoint_inv st \<Longrightarrow> \<exists>cs. cp_for_ticket cx t True st = (Inr cs, st) \<and> in_order t st cs"
proof -
  assume inv: "checkpoint_inv st"
  obtain cs where "cp_for_ticket cx t True st = (Inr cs, st)" "sorted (map cp_created_at cs)" "distinct (map cp_id cs)"
    "set cs = {c. \<exists>i. checkpoint_map st i = Some c \<and> cp_ticket_id c = t \<and> (True \<or> \<not> cp_historical c)}"
    by (rule cp_for_ticket_refines [OF inv])
  then show ?thesis by (auto simp: in_order_def ticket_checkpoints_def)
qed

lemma in_order_unique:
  assumes "distinct_times st" "in_order t st cs" "in_order t st cs'"
  shows "cs = cs'"
proof -
  have inj: "inj_on cp_created_at (ticket_checkpoints t st)" using assms(1) by (simp add: distinct_times_def)
  have d: "distinct (map cp_created_at xs)" if "in_order t st xs" for xs
    using that inj by (auto simp: in_order_def distinct_map)
  show ?thesis
    using map_sorted_distinct_set_unique [of cp_created_at cs cs'] assms(2,3) inj d [OF assms(2)] d [OF assms(3)]
    by (simp add: in_order_def)
qed

lemma find_deferred_refines:
  assumes "checkpoint_inv st" "distinct_times st" "in_order t st cs"
  shows "find_deferred_item cx t i st = (Inr (find_in i cs), st)"
proof -
  obtain cs' where "cp_for_ticket cx t True st = (Inr cs', st)" "in_order t st cs'" using in_order_exists [OF assms(1)] by blast
  with in_order_unique [OF assms(2,3)] show ?thesis by (simp add: find_deferred_item_def find_in_def)
qed

definition item_places :: "string \<Rightarrow> string \<Rightarrow> jsonl_store \<Rightarrow> (int \<times> string \<times> deferred_item) set" where
  \<comment> \<open>the checkpoints of a ticket that hold an item, with their times, and the item they hold\<close>
  "item_places i t st = {(cp_created_at c, cp_id c, d) | c d. c \<in> ticket_checkpoints t st \<and> List.find (\<lambda>d. di_id d = i) (cp_deferred c) = Some d}"

definition places_in :: "string \<Rightarrow> checkpoint list \<Rightarrow> (int \<times> string \<times> deferred_item) list" where
  "places_in i cs = List.map_filter (\<lambda>c. map_option (\<lambda>d. (cp_created_at c, cp_id c, d)) (List.find (\<lambda>d. di_id d = i) (cp_deferred c))) cs"

lemma places_simps [simp]:
  "places_in i [] = []"
  "places_in i (c # cs) = (case List.find (\<lambda>d. di_id d = i) (cp_deferred c) of
     None \<Rightarrow> places_in i cs | Some d \<Rightarrow> (cp_created_at c, cp_id c, d) # places_in i cs)"
  by (simp_all add: places_in_def map_filter_simps split: option.split)

lemma find_in_places: "find_in i cs = map_option snd (find (\<lambda>_. True) (places_in i cs))"
  by (induction cs) (auto split: option.split)

lemma places_times: "set (map fst (places_in i cs)) \<subseteq> cp_created_at ` set cs"
  by (induction cs) (auto split: option.splits)

lemma places_sorted:
  "sorted (map cp_created_at cs) \<Longrightarrow> distinct (map cp_created_at cs) \<Longrightarrow> sorted (map fst (places_in i cs)) \<and> distinct (map fst (places_in i cs))"
proof (induction cs)
  case (Cons c cs)
  with places_times [of i cs] show ?case by (auto split: option.split)
qed simp

lemma places_set: "in_order t st cs \<Longrightarrow> set (places_in i cs) = item_places i t st"
proof -
  have "set (places_in i cs) = {(cp_created_at c, cp_id c, d) | c d. c \<in> set cs \<and> List.find (\<lambda>d. di_id d = i) (cp_deferred c) = Some d}"
    by (induction cs) (auto split: option.splits)
  then show "in_order t st cs \<Longrightarrow> ?thesis" by (simp add: in_order_def item_places_def)
qed

lemma find_in_same_places:
  assumes "distinct_times st" "in_order t st cs" "distinct_times st'" "in_order t st' cs'" "item_places i t st' = item_places i t st"
  shows "find_in i cs' = find_in i cs"
proof -
  have d: "distinct (map cp_created_at cs)" "distinct (map cp_created_at cs')"
    using assms(1-4) by (auto simp: in_order_def distinct_map distinct_times_def)
  have s: "sorted (map fst (places_in i cs)) \<and> distinct (map fst (places_in i cs))"
    "sorted (map fst (places_in i cs')) \<and> distinct (map fst (places_in i cs'))"
    using assms(2,4) d by (auto intro!: places_sorted simp: in_order_def simp del: map_map)
  have e: "set (places_in i cs') = set (places_in i cs)" using places_set [OF assms(2)] places_set [OF assms(4)] assms(5) by simp
  have "inj_on fst (set (places_in i cs') \<union> set (places_in i cs))" using s(1) e by (simp add: distinct_map)
  with s e have "places_in i cs' = places_in i cs" by (intro map_sorted_distinct_set_unique [of fst]) simp_all
  then show ?thesis by (simp add: find_in_places)
qed

lemma replaced_checkpoints:
  assumes "checkpoint_inv st" "checkpoint_map st c0 = Some x"
    and m: "checkpoint_map st' = (checkpoint_map st)(c0 \<mapsto> x\<lparr>cp_deferred := ds\<rparr>)"
  shows "ticket_checkpoints t st' = replaced c0 ds ` ticket_checkpoints t st"
proof (rule set_eqI)
  have id: "checkpoint_map st i = Some c \<Longrightarrow> cp_id c = i" for i c by (rule checkpoint_map_id(1) [OF assms(1)])
  fix c
  show "c \<in> ticket_checkpoints t st' \<longleftrightarrow> c \<in> replaced c0 ds ` ticket_checkpoints t st"
  proof
    assume "c \<in> ticket_checkpoints t st'"
    then obtain i where i: "checkpoint_map st' i = Some c" "cp_ticket_id c = t" by (auto simp: ticket_checkpoints_def)
    show "c \<in> replaced c0 ds ` ticket_checkpoints t st"
    proof (cases "i = c0")
      case True
      with i m have c: "c = x\<lparr>cp_deferred := ds\<rparr>" by simp
      then have "c = replaced c0 ds x" using id [OF assms(2)] by (simp add: replaced_def)
      moreover have "x \<in> ticket_checkpoints t st" using assms(2) i(2) c by (auto simp: ticket_checkpoints_def)
      ultimately show ?thesis by blast
    next
      case False
      with i m have c: "checkpoint_map st i = Some c" by simp
      then have "c = replaced c0 ds c" using id [OF c] False by (simp add: replaced_def)
      moreover have "c \<in> ticket_checkpoints t st" using c i(2) by (auto simp: ticket_checkpoints_def)
      ultimately show ?thesis by blast
    qed
  next
    assume "c \<in> replaced c0 ds ` ticket_checkpoints t st"
    then obtain y i where y: "c = replaced c0 ds y" "checkpoint_map st i = Some y" "cp_ticket_id y = t"
      by (auto simp: ticket_checkpoints_def)
    then have "checkpoint_map st' i = Some c"
      using m assms(2) id [OF y(2)] by (auto simp: replaced_def)
    then show "c \<in> ticket_checkpoints t st'" using y by (auto simp: ticket_checkpoints_def)
  qed
qed

lemma replaced_order:
  assumes "checkpoint_inv st" "checkpoint_map st c0 = Some x"
    and "checkpoint_map st' = (checkpoint_map st)(c0 \<mapsto> x\<lparr>cp_deferred := ds\<rparr>)" "in_order t st cs"
  shows "in_order t st' (map (replaced c0 ds) cs)"
  using assms(4) replaced_checkpoints [OF assms(1-3), of t] by (simp add: in_order_def o_def)

lemma replaced_times:
  assumes "checkpoint_inv st" "checkpoint_map st c0 = Some x"
    and "checkpoint_map st' = (checkpoint_map st)(c0 \<mapsto> x\<lparr>cp_deferred := ds\<rparr>)" "distinct_times st"
  shows "distinct_times st'"
  unfolding distinct_times_def
proof
  fix t
  have "inj_on cp_created_at (ticket_checkpoints t st)" using assms(4) by (simp add: distinct_times_def)
  then show "inj_on cp_created_at (ticket_checkpoints t st')"
    unfolding replaced_checkpoints [OF assms(1-3)] by (auto simp: inj_on_def)
qed

lemma promoted_is_found:
  assumes inv: "checkpoint_inv st" "distinct_times st"
    and found: "find_deferred_item cx t i st = (Inr (Some (c0, d)), st1)"
    and upd: "update_deferred_item c0 i (Some ''promoted'') (Some p) st = (Inr True, st2)"
  shows "st1 = st" "checkpoint_inv st2" "distinct_times st2"
    "find_deferred_item cx' t i st2 = (Inr (Some (c0, promoted_to p d)), st2)"
proof -
  obtain cs where o: "in_order t st cs" using in_order_exists [OF inv(1)] by blast
  have f: "find_in i cs = Some (c0, d)" and "st1 = st"
    using found find_deferred_refines [OF inv o, of cx i] by simp_all
  then show "st1 = st" by simp
  from find_in_owner [OF f] obtain c where c: "c \<in> set cs" "cp_id c = c0" by auto
  then obtain i0 where "checkpoint_map st i0 = Some c" using o by (auto simp: in_order_def ticket_checkpoints_def)
  then have m: "checkpoint_map st c0 = Some c" using checkpoint_map_id(1) [OF inv(1)] c(2) by fastforce
  from deferred_update_effect [OF inv(1), of c0 i p] m upd obtain ds where ds: "promote_first i p (cp_deferred c) = Some ds"
    and st2: "checkpoint_inv st2" "checkpoint_map st2 = (checkpoint_map st)(c0 \<mapsto> c\<lparr>cp_deferred := ds\<rparr>)"
    by (auto split: option.splits)
  show "checkpoint_inv st2" by (rule st2(1))
  show t2: "distinct_times st2" by (rule replaced_times [OF inv(1) m st2(2) inv(2)])
  have "distinct (map cp_id cs)" using o by (simp add: in_order_def)
  from find_deferred_refines [OF st2(1) t2 replaced_order [OF inv(1) m st2(2) o]] find_in_replaced [OF f this c ds]
  show "find_deferred_item cx' t i st2 = (Inr (Some (c0, promoted_to p d)), st2)" by simp
qed

section \<open>Promotion\<close>

lemma bindD: "bind_act m f w = (Inr r, w') \<Longrightarrow> \<exists>x w1. m w = (Inr x, w1) \<and> f x w1 = (Inr r, w')"
  by (auto simp: bind_act_def split: prod.splits sum.splits)

lemma argD: "arg k args f w = (Inr r, w') \<Longrightarrow> \<exists>s. map_of args k = Some (JStr s) \<and> f s w = (Inr r, w')"
  by (auto simp: arg_def raise_def split: option.splits json.splits)

lemma arg_optD: "arg_opt k args f w = (Inr r, w') \<Longrightarrow> \<exists>x. (\<forall>g w. arg_opt k args g w = (g :: string option \<Rightarrow> 'a act) x w)"
proof (cases "map_of args k")
  case None
  moreover assume "arg_opt k args f w = (Inr r, w')"
  ultimately show ?thesis by (intro exI [of _ None]) (simp add: arg_opt_def)
next
  case (Some j)
  assume "arg_opt k args f w = (Inr r, w')"
  with Some show ?thesis
    by (cases j) (auto simp: arg_opt_def raise_def)
qed

lemma requireD: "require b e k w = (Inr r, w') \<Longrightarrow> b \<and> k w = (Inr r, w')"
  by (auto simp: require_def split: if_splits)

lemma require_cp_ticket_run:
  assumes "ticket_inv (ts_coll (w_tickets w))"
  shows "require_cp_ticket en i k w = (case kmap w i of None \<Rightarrow> (Inl (CheckpointError ''ticket not found''), w) | Some x \<Rightarrow> k x w)"
  using assms by (simp add: require_cp_ticket_def get_ticket_def bind_act_def ticket_get_refines raise_def split: option.split)

lemma keys_concat: "(\<And>k. set (keys (f k)) \<subseteq> {k}) \<Longrightarrow> set (keys (concat (map f ks))) \<subseteq> set ks"
  by (induction ks) fastforce+

lemma passed_keys: "set (keys (passed_through args)) \<subseteq> {''size'', ''assignee'', ''labels''}"
proof -
  let ?f = "\<lambda>k. case map_of args k of None \<Rightarrow> [] | Some JNull \<Rightarrow> [] | Some v \<Rightarrow> [(k, v)]"
  have "set (keys (?f k)) \<subseteq> {k}" for k
  proof (cases "map_of args k")
    case (Some j)
    then show ?thesis by (cases j) simp_all
  qed simp
  then have "set (keys (concat (map ?f ks))) \<subseteq> set ks" for ks by (rule keys_concat)
  from this [of "[''size'', ''assignee'', ''labels'']"] show ?thesis by (simp only: passed_through_def list.set)
qed

lemma promotion_args_lookup:
  assumes "promotion_args ticket_id item args = Inr c"
  shows "map_of c ''depends_on'' = None" "map_of c ''parent_id'' = Some (JStr ticket_id)"
    "\<exists>raw. map_of c ''description'' = Some (JStr (ensure_ac_section raw (di_item item)))"
proof -
  have "map_of (passed_through args) ''depends_on'' = None"
    using passed_keys [of args] by (auto simp: map_of_eq_None_iff)
  moreover obtain raw where "c = [(''title'', or_json (dict_get JNull ''title'' args) (JStr (di_item item))),
         (''work_type'', dict_get (JStr ''feature'') ''work_type'' args), (''parent_id'', JStr ticket_id),
         (''description'', JStr (ensure_ac_section raw (di_item item)))] @ passed_through args"
    using assms by (cases "or_json (dict_get JNull ''description'' args) (JStr (di_reason item))") (auto simp: promotion_args_def)
  ultimately show "map_of c ''depends_on'' = None" "map_of c ''parent_id'' = Some (JStr ticket_id)"
    "\<exists>raw. map_of c ''description'' = Some (JStr (ensure_ac_section raw (di_item item)))"
    by (simp_all, blast)
qed

definition child_of :: "string \<Rightarrow> ticket \<Rightarrow> bool" where
  "child_of parent t \<longleftrightarrow> tk_parent_id t = Some parent \<and> has_acceptance_criteria_section (tk_description t)"

lemma created_child:
  assumes inv: "ticket_inv (ts_coll (w_tickets w))" and args: "promotion_args parent item args = Inr c"
    and run: "handle_create_ticket en sender p c w = (Inr child, w1)"
  shows "ticket_inv (ts_coll (w_tickets w1))" "w_checkpoints w1 = w_checkpoints w" "kmap w child = None"
    "\<exists>t. kmap w1 = (kmap w)(child \<mapsto> t) \<and> child_of parent t"
proof -
  from tripleD [OF create_effect tickets_at_start [OF inv] run] obtain t deps k' where
    e: "dict_get (JList []) ''depends_on'' c = jstrs deps" "kmap w child = None" "asked_for p sender c deps t"
      "linked child deps ((kmap w)(child \<mapsto> t)) k'" "tickets_at w k' w1" by auto
  note look = promotion_args_lookup [OF args]
  have "deps = []" using e(1) look(1) by (simp add: dict_get_def jstrs_def)
  with e(4) have "k' = (kmap w)(child \<mapsto> t)" by (auto simp: linked_def fun_eq_iff)
  moreover have "tk_parent_id t = Some parent"
    using e(3) look(2) by (cases "tk_parent_id t") (simp_all add: asked_for_def asked_fields_def dict_get_def jopt_def)
  moreover have "\<exists>raw. tk_description t = ensure_ac_section raw (di_item item)"
  proof -
    obtain raw where "map_of c ''description'' = Some (JStr (ensure_ac_section raw (di_item item)))" using look(3) by blast
    then have "JStr (ensure_ac_section raw (di_item item)) = JStr (tk_description t)"
      using e(3) by (simp add: asked_for_def asked_fields_def dict_get_def)
    then show ?thesis by (intro exI [of _ raw]) simp
  qed
  ultimately show "\<exists>t. kmap w1 = (kmap w)(child \<mapsto> t) \<and> child_of parent t"
    using e(5) by (auto simp: child_of_def ensure_ac_section_ok tickets_at_def)
  show "ticket_inv (ts_coll (w_tickets w1))" "w_checkpoints w1 = w_checkpoints w" "kmap w child = None"
    using e by (simp_all add: tickets_at_def)
qed

text \<open>What is promoted already, or becomes so, is found promoted by the next call.\<close>

lemma promotion_again:
  assumes inv: "ticket_inv (ts_coll (w_tickets w))" and t: "map_of args ''ticket_id'' = Some (JStr parent)" "kmap w parent \<noteq> None"
    and i: "\<forall>(g :: string option \<Rightarrow> doc act) w. arg_opt ''deferred_item_id'' args g w = g raw w" "strip (the_default [] raw) \<noteq> []"
    and f: "find_deferred_item (en_draws en) parent (strip (the_default [] raw)) (w_checkpoints w) = (Inr (Some (c0, d)), w_checkpoints w)"
    and d: "di_promoted_ticket_id d = Some child"
  shows "handle_checkpoint_promote_deferred en sender p args w = (Inr (promotion_reply child (strip (the_default [] raw)) False), w)"
proof -
  obtain x where "kmap w parent = Some x" using t(2) by blast
  then show ?thesis
    using i(2) f d by (simp add: handle_checkpoint_promote_deferred_def arg_def t(1) require_cp_ticket_run [OF inv] i(1) Let_def require_def
        bind_act_def on_checkpoints_def ret_def)
qed

lemma promotion_first:
  assumes inv: "ticket_inv (ts_coll (w_tickets w))" "checkpoint_inv (w_checkpoints w)" "distinct_times (w_checkpoints w)"
    and run: "handle_checkpoint_promote_deferred en sender p args w = (Inr reply, w')"
  obtains (again) parent raw c0 d child where "map_of args ''ticket_id'' = Some (JStr parent)" "kmap w parent \<noteq> None"
      "\<forall>(g :: string option \<Rightarrow> doc act) w. arg_opt ''deferred_item_id'' args g w = g raw w"
      "strip (the_default [] raw) \<noteq> []"
      "find_deferred_item (en_draws en) parent (strip (the_default [] raw)) (w_checkpoints w) = (Inr (Some (c0, d)), w_checkpoints w)"
      "di_promoted_ticket_id d = Some child" "reply = promotion_reply child (strip (the_default [] raw)) False" "w' = w"
  | (first) parent raw c0 d child c w1 where "map_of args ''ticket_id'' = Some (JStr parent)" "kmap w parent \<noteq> None"
      "\<forall>(g :: string option \<Rightarrow> doc act) w. arg_opt ''deferred_item_id'' args g w = g raw w"
      "strip (the_default [] raw) \<noteq> []"
      "find_deferred_item (en_draws en) parent (strip (the_default [] raw)) (w_checkpoints w) = (Inr (Some (c0, d)), w_checkpoints w)"
      "promotion_args parent d args = Inr c" "handle_create_ticket en sender p c w = (Inr child, w1)"
      "on_checkpoints (update_deferred_item c0 (strip (the_default [] raw)) (Some ''promoted'') (Some child)) w1 = (Inr True, w')"
      "reply = promotion_reply child (strip (the_default [] raw)) True"
proof -
  from argD [OF run [unfolded handle_checkpoint_promote_deferred_def]] obtain parent where
    parent: "map_of args ''ticket_id'' = Some (JStr parent)" by blast
  from run [unfolded handle_checkpoint_promote_deferred_def arg_def parent option.case json.case]
  have k: "kmap w parent \<noteq> None" by (auto simp: require_cp_ticket_run [OF inv(1)] split: option.splits)
  let ?body = "\<lambda>raw. let i = strip (the_default [] raw) in
    require (i \<noteq> []) (CheckpointError ''deferred_item_id is required'') (
    bind_act (on_checkpoints (find_deferred_item (en_draws en) parent i)) (\<lambda>located. case located of
      None \<Rightarrow> raise (CheckpointError ''deferred item not found'')
    | Some (owning_cp_id, item) \<Rightarrow> (case di_promoted_ticket_id item of
        Some child \<Rightarrow> ret (promotion_reply child i False)
      | None \<Rightarrow>
          bind_act (lift_res (promotion_args parent item args)) (\<lambda>create_args.
          bind_act (handle_create_ticket en sender p create_args) (\<lambda>child.
          bind_act (on_checkpoints (update_deferred_item owning_cp_id i (Some ''promoted'') (Some child))) (\<lambda>updated.
          require updated (CheckpointError ''failed to persist promotion'') (
          ret (promotion_reply child i True))))))))"
  have r1: "arg_opt ''deferred_item_id'' args ?body w = (Inr reply, w')"
    using run [unfolded handle_checkpoint_promote_deferred_def arg_def parent option.case json.case] k
    by (auto simp: require_cp_ticket_run [OF inv(1)] split: option.splits)
  from arg_optD [OF r1] obtain raw where raw: "\<forall>(g :: string option \<Rightarrow> doc act) w. arg_opt ''deferred_item_id'' args g w = g raw w" by blast
  let ?i = "strip (the_default [] raw)"
  from r1 raw have "?body raw w = (Inr reply, w')" by metis
  from requireD [OF this [unfolded Let_def]] have i: "?i \<noteq> []" by simp
  obtain cs where o: "in_order parent (w_checkpoints w) cs" using in_order_exists [OF inv(2)] by blast
  note found = find_deferred_refines [OF inv(2,3) o, of "en_draws en" ?i]
  have w: "w\<lparr>w_checkpoints := w_checkpoints w\<rparr> = w" by simp
  from \<open>?body raw w = (Inr reply, w')\<close> i obtain c0 d where f: "find_in ?i cs = Some (c0, d)"
    by (auto simp: Let_def require_def bind_act_def on_checkpoints_def found raise_def split: option.splits)
  note found = found [unfolded f]
  show thesis
  proof (cases "di_promoted_ticket_id d")
    case (Some child)
    with \<open>?body raw w = (Inr reply, w')\<close> i have "reply = promotion_reply child ?i False" "w' = w"
      by (simp_all add: Let_def require_def bind_act_def on_checkpoints_def found ret_def)
    then show thesis by (intro again [OF parent k raw i found Some])
  next
    case None
    with \<open>?body raw w = (Inr reply, w')\<close> i have
      "bind_act (lift_res (promotion_args parent d args)) (\<lambda>create_args.
          bind_act (handle_create_ticket en sender p create_args) (\<lambda>child.
          bind_act (on_checkpoints (update_deferred_item c0 ?i (Some ''promoted'') (Some child))) (\<lambda>updated.
          require updated (CheckpointError ''failed to persist promotion'') (
          ret (promotion_reply child ?i True))))) w = (Inr reply, w')"
      by (simp add: Let_def require_def on_checkpoints_def found bind_act_def [of "on_checkpoints (find_deferred_item (en_draws en) parent ?i)"])
    then obtain c child w1 where c: "promotion_args parent d args = Inr c" "handle_create_ticket en sender p c w = (Inr child, w1)"
      "on_checkpoints (update_deferred_item c0 ?i (Some ''promoted'') (Some child)) w1 = (Inr True, w')"
      "reply = promotion_reply child ?i True"
      by (auto dest!: bindD requireD simp: lift_res_def ret_def)
    then show thesis by (intro first [OF parent k raw i found])
  qed
qed

definition same_item :: "doc \<Rightarrow> doc \<Rightarrow> bool" where
  "same_item args args' \<longleftrightarrow> map_of args' ''ticket_id'' = map_of args ''ticket_id'' \<and>
     map_of args' ''deferred_item_id'' = map_of args ''deferred_item_id''"

definition item_kept :: "doc \<Rightarrow> string \<Rightarrow> world \<Rightarrow> world \<Rightarrow> bool" where
  \<comment> \<open>well formed stores, the ticket is there, and the item is where it was\<close>
  "item_kept args parent w v \<longleftrightarrow> ticket_inv (ts_coll (w_tickets v)) \<and> checkpoint_inv (w_checkpoints v) \<and> distinct_times (w_checkpoints v) \<and>
     kmap v parent \<noteq> None \<and> (\<forall>i. map_of args ''deferred_item_id'' = Some (JStr i) \<longrightarrow>
       item_places (strip i) parent (w_checkpoints v) = item_places (strip i) parent (w_checkpoints w))"

lemma same_item_arg: "same_item args args' \<Longrightarrow> arg_opt ''deferred_item_id'' args' = arg_opt ''deferred_item_id'' args"
  by (auto simp: same_item_def arg_opt_def fun_eq_iff)

lemma arg_opt_given:
  assumes "\<forall>(g :: string option \<Rightarrow> doc act) w. arg_opt k args g w = g x w" "x = Some s"
  shows "map_of args k = Some (JStr s)"
proof (rule ccontr)
  assume n: "map_of args k \<noteq> Some (JStr s)"
  let ?g = "\<lambda>y w. (if y = Some s then Inr [] else Inl (TypeError k) :: doc result, w :: world)"
  have "fst (arg_opt k args ?g undefined) = Inl (TypeError k)"
    using n by (auto simp: arg_opt_def raise_def split: option.split json.split)
  moreover have "arg_opt k args ?g undefined = ?g x undefined" by (rule spec [OF spec [OF assms(1)]])
  ultimately show False using assms(2) by simp
qed

lemma promotion_later:
  assumes t: "map_of args ''ticket_id'' = Some (JStr parent)"
    and i: "\<forall>(g :: string option \<Rightarrow> doc act) w. arg_opt ''deferred_item_id'' args g w = g raw w" "strip (the_default [] raw) \<noteq> []"
    and st: "checkpoint_inv (w_checkpoints w)" "distinct_times (w_checkpoints w)" "in_order parent (w_checkpoints w) cs"
    and f: "find_in (strip (the_default [] raw)) cs = Some (c0, d)" "di_promoted_ticket_id d = Some child"
    and v: "same_item args args'" "item_kept args parent w v"
  shows "handle_checkpoint_promote_deferred en sender p args' v = (Inr (promotion_reply child (strip (the_default [] raw)) False), v)"
proof -
  have vi: "ticket_inv (ts_coll (w_tickets v))" "checkpoint_inv (w_checkpoints v)" "distinct_times (w_checkpoints v)" "kmap v parent \<noteq> None"
    using v(2) by (simp_all add: item_kept_def)
  obtain cs' where o: "in_order parent (w_checkpoints v) cs'" using in_order_exists [OF vi(2)] by blast
  have "map_of args ''deferred_item_id'' = Some (JStr (the raw)) \<and> raw \<noteq> None"
    using i(2) arg_opt_given [OF i(1)] by (cases raw) (auto simp: strip_def)
  then have "item_places (strip (the_default [] raw)) parent (w_checkpoints v) = item_places (strip (the_default [] raw)) parent (w_checkpoints w)"
    using v(2) by (auto simp: item_kept_def)
  from find_in_same_places [OF st(2,3) vi(3) o this] f(1)
  have "find_deferred_item (en_draws en) parent (strip (the_default [] raw)) (w_checkpoints v) = (Inr (Some (c0, d)), w_checkpoints v)"
    using find_deferred_refines [OF vi(2,3) o] by simp
  note found = this
  have t': "map_of args' ''ticket_id'' = Some (JStr parent)" using t v(1) by (simp add: same_item_def)
  have i': "\<forall>(g :: string option \<Rightarrow> doc act) w. arg_opt ''deferred_item_id'' args' g w = g raw w"
    unfolding same_item_arg [OF v(1)] by (rule i(1))
  show ?thesis by (rule promotion_again [OF vi(1) t' vi(4) i' i(2) found f(2)])
qed

text \<open>
  C11: A deferred item is promoted to one ticket only, where the checkpoints of a ticket have different times.
  A call that succeeds either finds the item promoted and changes nothing, or creates one new ticket, a child of
  the given one whose description has an acceptance section, and no other ticket is touched.  In both cases
  a call for that item which begins after this one has ended, by whoever and with whatever other arguments and clock,
  answers with that same ticket and changes nothing, whatever has happened in between, as long as the given ticket
  is still there, the checkpoint that holds the item still holds it as it is, and no other one holds an
  item under its id.
\<close>

theorem promotion_once:
  assumes "ticket_inv (ts_coll (w_tickets w))" "checkpoint_inv (w_checkpoints w)" "distinct_times (w_checkpoints w)"
    and "handle_checkpoint_promote_deferred en sender p args w = (Inr reply, w')"
  shows "\<exists>child i parent. map_of args ''ticket_id'' = Some (JStr parent) \<and>
    (reply = promotion_reply child i False \<and> w' = w \<or>
     reply = promotion_reply child i True \<and> kmap w child = None \<and>
       (\<exists>t. kmap w' = (kmap w)(child \<mapsto> t) \<and> child_of parent t)) \<and>
    item_kept args parent w' w' \<and>
    (\<forall>en' sender' p' args' v. same_item args args' \<longrightarrow> item_kept args parent w' v \<longrightarrow>
       handle_checkpoint_promote_deferred en' sender' p' args' v = (Inr (promotion_reply child i False), v))"
proof (rule promotion_first [OF assms])
  fix parent raw c0 d child
  assume a: "map_of args ''ticket_id'' = Some (JStr parent)" "kmap w parent \<noteq> None"
    "\<forall>(g :: string option \<Rightarrow> doc act) w. arg_opt ''deferred_item_id'' args g w = g raw w" "strip (the_default [] raw) \<noteq> []"
    "find_deferred_item (en_draws en) parent (strip (the_default [] raw)) (w_checkpoints w) = (Inr (Some (c0, d)), w_checkpoints w)"
    "di_promoted_ticket_id d = Some child" "reply = promotion_reply child (strip (the_default [] raw)) False" "w' = w"
  obtain cs where o: "in_order parent (w_checkpoints w) cs" using in_order_exists [OF assms(2)] by blast
  have "find_in (strip (the_default [] raw)) cs = Some (c0, d)" using a(5) find_deferred_refines [OF assms(2,3) o] by simp
  then have "handle_checkpoint_promote_deferred en' sender' p' args' v = (Inr (promotion_reply child (strip (the_default [] raw)) False), v)"
    if "same_item args args'" "item_kept args parent w' v" for en' sender' p' args' v
    using promotion_later [OF a(1,3,4) _ _ _ _ a(6) that] o assms(2,3) a(8) by blast
  moreover have "item_kept args parent w' w'" using assms(1-3) a(2,8) by (simp add: item_kept_def)
  ultimately show ?thesis using a by (intro exI [of _ child] exI [of _ "strip (the_default [] raw)"] exI [of _ parent]) simp
next
  fix parent raw c0 d child c w1
  assume a: "map_of args ''ticket_id'' = Some (JStr parent)" "kmap w parent \<noteq> None"
    "\<forall>(g :: string option \<Rightarrow> doc act) w. arg_opt ''deferred_item_id'' args g w = g raw w" "strip (the_default [] raw) \<noteq> []"
    "find_deferred_item (en_draws en) parent (strip (the_default [] raw)) (w_checkpoints w) = (Inr (Some (c0, d)), w_checkpoints w)"
    and c: "promotion_args parent d args = Inr c" "handle_create_ticket en sender p c w = (Inr child, w1)"
    "on_checkpoints (update_deferred_item c0 (strip (the_default [] raw)) (Some ''promoted'') (Some child)) w1 = (Inr True, w')"
    and reply: "reply = promotion_reply child (strip (the_default [] raw)) True"
  note new = created_child [OF assms(1) c(1,2)]
  obtain st where st: "update_deferred_item c0 (strip (the_default [] raw)) (Some ''promoted'') (Some child) (w_checkpoints w) = (Inr True, st)"
    "w' = w1\<lparr>w_checkpoints := st\<rparr>"
    using c(3) new(2) by (auto simp: on_checkpoints_def split: prod.splits)
  note upd = promoted_is_found [OF assms(2,3) a(5) st(1)]
  have k: "ticket_inv (ts_coll (w_tickets w'))" "kmap w' = kmap w1" "w_checkpoints w' = st" using new(1) st(2) by simp_all
  have parent: "kmap w' parent \<noteq> None" using new(3,4) a(2) k(2) by auto
  obtain cs where o: "in_order parent st cs" using in_order_exists [OF upd(2)] by blast
  have "find_in (strip (the_default [] raw)) cs = Some (c0, promoted_to child d)" using upd(4) find_deferred_refines [OF upd(2,3) o] by simp
  then have again: "handle_checkpoint_promote_deferred en' sender' p' args' v = (Inr (promotion_reply child (strip (the_default [] raw)) False), v)"
    if "same_item args args'" "item_kept args parent w' v" for en' sender' p' args' v
    using promotion_later [OF a(1,3,4) _ _ _ _ _ that, of cs c0 "promoted_to child d" child] o upd(2,3) k(3) by (simp add: promoted_to_def)
  have kept: "item_kept args parent w' w'" using k parent upd(2,3) by (simp add: item_kept_def)
  with again new(3,4) k(1,2) reply a(1) show ?thesis
    by (intro exI [of _ child] exI [of _ "strip (the_default [] raw)"] exI [of _ parent]) simp
qed

section \<open>Witness\<close>

definition deferred_store :: jsonl_store where
  "deferred_store = snd (cp_post [] demo_checkpoint (small_store checkpoint_index))"

definition deferred_world :: world where
  "deferred_world = (snd (handle_create_ticket (named_env CHR ''t'') ''pm'' None (docs_args []) small_world))
     \<lparr>w_checkpoints := deferred_store\<rparr>"

definition promote_args :: doc where
  "promote_args = [(''ticket_id'', JStr ''t''), (''deferred_item_id'', JStr ''d''), (''work_type'', JStr ''docs'')]"

lemma deferred_store_ok: "checkpoint_inv deferred_store" "distinct_times deferred_store"
proof -
  have inv: "checkpoint_inv (small_store checkpoint_index)" "checkpoint_map (small_store checkpoint_index) = Map.empty"
    by (simp_all add: small_store_def checkpoint_map_def model_inv_empty)
  have "case cp_post [] demo_checkpoint (small_store checkpoint_index) of (Inl _, _) \<Rightarrow> False | (Inr _, _) \<Rightarrow> True"
    by code_simp
  moreover have "checkpoint_valid demo_checkpoint" by code_simp
  ultimately have "checkpoint_inv deferred_store \<and> checkpoint_map deferred_store = [cp_id demo_checkpoint \<mapsto> demo_checkpoint]"
    using cp_post_refines [OF inv(1), of demo_checkpoint "[]"] by (auto simp: deferred_store_def inv(2))
  then show "checkpoint_inv deferred_store" "distinct_times deferred_store"
    by (auto simp: distinct_times_def ticket_checkpoints_def inj_on_def split: if_splits)
qed

lemma deferred_world_ok: "ticket_inv (ts_coll (w_tickets deferred_world))" "w_checkpoints deferred_world = deferred_store"
proof -
  obtain r w where r: "handle_create_ticket (named_env CHR ''t'') ''pm'' None (docs_args []) small_world = (r, w)" by fastforce
  from tripleD [OF create_effect tickets_at_start [OF small_tickets_inv] r] r
  show "ticket_inv (ts_coll (w_tickets deferred_world))"
    by (cases r) (auto simp: deferred_world_def tickets_ok_def tickets_at_def)
qed (simp add: deferred_world_def)

lemma item_promoted:
  "case handle_checkpoint_promote_deferred (named_env CHR ''v'') ''po'' None promote_args deferred_world of
     (Inl _, _) \<Rightarrow> False | (Inr x, _) \<Rightarrow> x = promotion_reply ''v'' ''d'' True"
  unfolding deferred_world_def deferred_store_def by code_simp

theorem promotion_once_witness:
  "\<exists>w'. handle_checkpoint_promote_deferred (named_env CHR ''v'') ''po'' None promote_args deferred_world =
       (Inr (promotion_reply ''v'' ''d'' True), w') \<and>
     handle_checkpoint_promote_deferred (named_env CHR ''x'') ''dev'' None promote_args w' =
       (Inr (promotion_reply ''v'' ''d'' False), w')"
proof -
  obtain w' where r: "handle_checkpoint_promote_deferred (named_env CHR ''v'') ''po'' None promote_args deferred_world =
      (Inr (promotion_reply ''v'' ''d'' True), w')"
    using item_promoted by (auto split: prod.splits sum.splits)
  have "same_item promote_args promote_args" by (simp add: same_item_def)
  with promotion_once [OF deferred_world_ok(1) _ _ r] deferred_store_ok deferred_world_ok(2)
  have "handle_checkpoint_promote_deferred (named_env CHR ''x'') ''dev'' None promote_args w' =
       (Inr (promotion_reply ''v'' ''d'' False), w')"
    by (auto simp: promotion_reply_def)
  with r show ?thesis by blast
qed

end
