(* ===== verification/Scheduler.thy ===== *)
theory Scheduler
  imports TicketHandlers Deadlock
begin

text \<open>
  The scheduling half of \<open>jig/orchestrator.py\<close>: which ticket is started, what happens when
  one ends, how failures spread to dependents, and when the project is reported complete or
  stuck.  A task is the id of the ticket it runs; what a task does before it ends is
  in \<open>PhaseLoop\<close>.  Loops that follow the edges of the ticket graph have fuel, one unit for each stored
  ticket and one more, and answer \<open>None\<close> when it runs out, which \<open>SchedulerProps\<close> shows it never does.
\<close>

section \<open>State\<close>

record jig_event =
  je_type :: string
  je_data :: doc

datatype analytics_event = CascadeFailed string string string | ProjectStuck "string set"

text \<open>
  The store and the bus are in the world, the results of checks in \<open>sd_results\<close>.  \<open>sd_running\<close> are the keys of \<open>_running_tickets\<close>,
  \<open>sd_live\<close> the tickets of the tasks that were started and have not ended.  \<open>sd_draws\<close> counts the
  draws from the clock and \<open>uuid4\<close>.  An emitter or analytics sink that is there keeps what it is given;
  a sorted list of distinct ids is its set.
\<close>

record scheduler =
  sd_world :: world
  sd_running :: "string list"
  sd_live :: "string list"
  sd_events :: "jig_event list"
  sd_analytics :: "analytics_event list"
  sd_analyses :: nat
  sd_terminal :: "string set"
  sd_stuck_since :: "int option"
  sd_stuck_for :: "string set option"
  sd_survival :: "((string \<times> string) \<times> (string \<times> nat) list) list"
  sd_prev_keys :: "((string \<times> string) \<times> string set) list"
  sd_results :: jsonl_store
  sd_draws :: nat

record sched_config =
  sg_emitter :: bool
  sg_analytics :: bool
  sg_max_parallel :: "int option"
  sg_per_merge :: bool
  sg_work_types :: "work_type list"

type_synonym 'a sact = "(scheduler, 'a) action"

definition on_sd_world :: "'a act \<Rightarrow> 'a sact" where
  "on_sd_world = zoom sd_world (\<lambda>w s. s\<lparr>sd_world := w\<rparr>)"

definition draw :: "nat sact" where
  "draw s = (Inr (sd_draws s), s\<lparr>sd_draws := sd_draws s + 1\<rparr>)"

definition modify :: "(scheduler \<Rightarrow> scheduler) \<Rightarrow> unit sact" where
  "modify f s = (Inr (), f s)"

definition inspect :: "(scheduler \<Rightarrow> 'a) \<Rightarrow> 'a sact" where
  "inspect f s = (Inr (f s), s)"

definition emit :: "sched_config \<Rightarrow> string \<Rightarrow> doc \<Rightarrow> unit sact" where
  "emit cf ty data = (if sg_emitter cf then modify (\<lambda>s. s\<lparr>sd_events := sd_events s @ [\<lparr>je_type = ty, je_data = data\<rparr>]\<rparr>) else ret ())"

definition analytic :: "sched_config \<Rightarrow> analytics_event \<Rightarrow> unit sact" where
  "analytic cf x = (if sg_analytics cf then modify (\<lambda>s. s\<lparr>sd_analytics := sd_analytics s @ [x]\<rparr>) else ret ())"

section \<open>Tickets\<close>

definition update_ticket_status :: "env \<Rightarrow> string \<Rightarrow> ticket_status \<Rightarrow> unit sact" where
  "update_ticket_status en i st =
    bind_act draw (\<lambda>n.
    bind_act (on_sd_world (set_ticket_status en n i st)) (\<lambda>_.
    bind_act draw (\<lambda>m.
    bind_act (on_sd_world (publish_msg en m ''orchestrator'' ''broadcast'' MContextUpdate
      [(''kind'', JStr ''ticket_updated''), (''ticket_id'', JStr i), (''status'', JStr (show_status st))] (topic i))) (\<lambda>_.
    ret ()))))"

definition dep_failed_reason :: string where
  "dep_failed_reason = ''dependency-failed''"

definition emit_ticket_failed :: "sched_config \<Rightarrow> string \<Rightarrow> string \<Rightarrow> unit sact" where
  "emit_ticket_failed cf i title =
     emit cf ''ticket_failed'' [(''kind'', JStr ''ticket_failed''), (''ticket_id'', JStr i), (''title'', JStr title)]"

definition fail_unreachable :: "sched_config \<Rightarrow> env \<Rightarrow> string \<Rightarrow> string \<Rightarrow> unit sact" where
  \<comment> \<open>the reason, the status and the event of a ticket that a failed dependency makes unreachable\<close>
  "fail_unreachable cf en i title =
    bind_act draw (\<lambda>n.
    bind_act (on_sd_world (change_ticket en n i [(''block_reason'', JStr dep_failed_reason)])) (\<lambda>_.
    bind_act (update_ticket_status en i StFailed) (\<lambda>_.
    emit_ticket_failed cf i title)))"

definition stored_tickets :: "world \<Rightarrow> nat" where
  "stored_tickets w = length (st_docs (ts_coll (w_tickets w)))"

section \<open>The failure cascade\<close>

fun first_failed :: "env \<Rightarrow> string list \<Rightarrow> string option act" where
  "first_failed en [] = ret None"
| "first_failed en (d # ds) = bind_act (get_ticket en d) (\<lambda>x. case x of
     None \<Rightarrow> first_failed en ds
   | Some t \<Rightarrow> if tk_status t = StFailed then ret (Some d) else first_failed en ds)"

fun root_failure :: "env \<Rightarrow> nat \<Rightarrow> string \<Rightarrow> string list \<Rightarrow> string option act" where
  "root_failure en 0 cur seen = ret None"
| "root_failure en (Suc f) cur seen =
    (if cur \<in> set seen then ret (Some cur)
     else bind_act (get_ticket en cur) (\<lambda>x. case x of
       None \<Rightarrow> ret (Some cur)
     | Some t \<Rightarrow> if tk_block_reason t \<noteq> Some dep_failed_reason then ret (Some cur)
         else bind_act (first_failed en (tk_blocked_by t)) (\<lambda>b. case b of
           None \<Rightarrow> ret (Some cur)
         | Some d \<Rightarrow> root_failure en f d (cur # seen))))"

definition returned :: "'a option \<Rightarrow> ('s, 'a) action" where
  "returned x = (case x of Some y \<Rightarrow> ret y | None \<Rightarrow> raise (RuntimeError ''out of fuel''))"

definition resolve_root_failure :: "env \<Rightarrow> string \<Rightarrow> string act" where
  "resolve_root_failure en d w = bind_act (root_failure en (stored_tickets w + 2) d []) returned w"

fun cascade_blocks :: "sched_config \<Rightarrow> env \<Rightarrow> string \<Rightarrow> string \<Rightarrow> string list \<Rightarrow> string list \<Rightarrow> string list \<Rightarrow> (string list \<times> string list) sact" where
  \<comment> \<open>the dependents of one ticket: what is queued, and what was seen\<close>
  "cascade_blocks cf en blame cur [] queue seen = ret (queue, seen)"
| "cascade_blocks cf en blame cur (d # ds) queue seen =
    (if d \<in> set seen then cascade_blocks cf en blame cur ds queue seen
     else bind_act (on_sd_world (get_ticket en d)) (\<lambda>x.
       bind_act (inspect sd_running) (\<lambda>running. case x of
         None \<Rightarrow> cascade_blocks cf en blame cur ds queue (d # seen)
       | Some t \<Rightarrow> if tk_status t \<noteq> StOpen \<or> d \<in> set running then cascade_blocks cf en blame cur ds queue (d # seen)
           else bind_act (fail_unreachable cf en d (tk_title t)) (\<lambda>_.
             bind_act (analytic cf (CascadeFailed d blame cur)) (\<lambda>_.
             cascade_blocks cf en blame cur ds (queue @ [d]) (d # seen))))))"

fun cascade_loop :: "sched_config \<Rightarrow> env \<Rightarrow> string \<Rightarrow> nat \<Rightarrow> string list \<Rightarrow> string list \<Rightarrow> unit option sact" where
  "cascade_loop cf en blame f [] seen = ret (Some ())"
| "cascade_loop cf en blame 0 (c # queue) seen = ret None"
| "cascade_loop cf en blame (Suc f) (c # queue) seen =
    bind_act (on_sd_world (get_ticket en c)) (\<lambda>x. case x of
      None \<Rightarrow> cascade_loop cf en blame f queue seen
    | Some t \<Rightarrow> bind_act (cascade_blocks cf en blame (tk_id t) (tk_blocks t) queue seen) (\<lambda>(queue', seen').
        cascade_loop cf en blame f queue' seen'))"

definition cascade_fail_dependents :: "sched_config \<Rightarrow> env \<Rightarrow> string \<Rightarrow> string option \<Rightarrow> unit sact" where
  "cascade_fail_dependents cf en root root_failure_id s =
     bind_act (cascade_loop cf en (if the_default [] root_failure_id \<noteq> [] then the root_failure_id else root)
       (stored_tickets (sd_world s) + 1) [root] [root]) returned s"

definition cascade_fail_unreachable_ticket :: "sched_config \<Rightarrow> env \<Rightarrow> ticket \<Rightarrow> string \<Rightarrow> unit sact" where
  "cascade_fail_unreachable_ticket cf en t failed_dep =
    bind_act (fail_unreachable cf en (tk_id t) (tk_title t)) (\<lambda>_.
    bind_act (on_sd_world (resolve_root_failure en failed_dep)) (\<lambda>root.
    bind_act (analytic cf (CascadeFailed (tk_id t) root failed_dep)) (\<lambda>_.
    cascade_fail_dependents cf en (tk_id t) (Some root))))"

section \<open>Completion\<close>

definition non_terminal :: "ticket_status list" where
  "non_terminal = [StProposed, StOpen, StInProgress, StBlocked, StNeedsInfo, StMergeConflict]"

definition counts_toward_completion :: "ticket \<Rightarrow> bool" where
  "counts_toward_completion t \<longleftrightarrow> \<not> (tk_status t = StProposed \<and> ''review-notable'' \<in> set (tk_labels t))"

definition count_status :: "ticket_status list \<Rightarrow> ticket list \<Rightarrow> int" where
  "count_status sts ts = int (length (filter (\<lambda>t. tk_status t \<in> set sts) ts))"

definition maybe_run_analyzer :: "sched_config \<Rightarrow> env \<Rightarrow> unit sact" where
  "maybe_run_analyzer cf en =
    bind_act (inspect sd_running) (\<lambda>running.
    if running \<noteq> [] then ret ()
    else bind_act (on_sd_world (list_tickets en)) (\<lambda>ts.
    if ts = [] \<or> list_ex (\<lambda>t. tk_status t \<in> set non_terminal \<and> counts_toward_completion t) ts then ret ()
    else bind_act (inspect sd_terminal) (\<lambda>last.
    let ids = set (map tk_id ts) in
    if ids = last then ret ()
    else bind_act (modify (\<lambda>s. s\<lparr>sd_terminal := ids\<rparr>)) (\<lambda>_.
    bind_act (emit cf ''project_complete'' [(''kind'', JStr ''project_complete''),
      (''tickets_resolved'', JInt (count_status [StResolved, StClosed] ts)), (''tickets_failed'', JInt (count_status [StFailed] ts)),
      (''tickets_total'', JInt (int (length ts)))]) (\<lambda>_.
    modify (\<lambda>s. s\<lparr>sd_analyses := sd_analyses s + 1\<rparr>))))))"

section \<open>The sweep of failed dependencies\<close>

fun sweep_stale :: "sched_config \<Rightarrow> env \<Rightarrow> ticket list \<Rightarrow> bool \<Rightarrow> bool sact" where
  "sweep_stale cf en [] failed_any = ret failed_any"
| "sweep_stale cf en (stale # ts) failed_any =
    bind_act (on_sd_world (get_ticket en (tk_id stale))) (\<lambda>x.
    bind_act (inspect sd_running) (\<lambda>running. case x of
      None \<Rightarrow> sweep_stale cf en ts failed_any
    | Some t \<Rightarrow> if tk_status t \<noteq> StOpen \<or> tk_id t \<in> set running then sweep_stale cf en ts failed_any
        else bind_act (on_sd_world (first_failed en (tk_blocked_by t))) (\<lambda>b. case b of
          None \<Rightarrow> sweep_stale cf en ts failed_any
        | Some d \<Rightarrow> bind_act (cascade_fail_unreachable_ticket cf en t d) (\<lambda>_. sweep_stale cf en ts True))))"

definition sweep_failed_dependencies :: "sched_config \<Rightarrow> env \<Rightarrow> unit sact" where
  "sweep_failed_dependencies cf en =
    bind_act (on_sd_world (list_tickets en)) (\<lambda>ts.
    bind_act (sweep_stale cf en ts False) (\<lambda>failed_any.
    if failed_any then maybe_run_analyzer cf en else ret ()))"

section \<open>Scheduling\<close>

datatype dependencies = Satisfied | FailedOn string | Waiting

fun check_dependencies :: "env \<Rightarrow> string list \<Rightarrow> dependencies act" where
  "check_dependencies en [] = ret Satisfied"
| "check_dependencies en (d # ds) = bind_act (get_ticket en d) (\<lambda>x. case x of
     None \<Rightarrow> ret Waiting
   | Some t \<Rightarrow> if tk_status t = StFailed then ret (FailedOn d)
       else if tk_status t \<noteq> StResolved then ret Waiting else check_dependencies en ds)"

definition start_task :: "string \<Rightarrow> unit sact" where
  "start_task i = modify (\<lambda>s. s\<lparr>sd_live := sd_live s @ [i],
     sd_running := (if i \<in> set (sd_running s) then sd_running s else sd_running s @ [i])\<rparr>)"

definition handle_schedule :: "sched_config \<Rightarrow> env \<Rightarrow> string \<Rightarrow> unit sact" where
  "handle_schedule cf en i =
    bind_act (inspect sd_running) (\<lambda>running.
    if i \<in> set running then ret ()
    else bind_act (on_sd_world (get_ticket en i)) (\<lambda>x. case x of
      None \<Rightarrow> ret ()
    | Some t \<Rightarrow> if tk_workflow t = ''thread'' then ret ()
        else bind_act (on_sd_world (check_dependencies en (tk_blocked_by t))) (\<lambda>v. case v of
          FailedOn d \<Rightarrow> bind_act (cascade_fail_unreachable_ticket cf en t d) (\<lambda>_. maybe_run_analyzer cf en)
        | Waiting \<Rightarrow> ret ()
        | Satisfied \<Rightarrow>
            bind_act (update_ticket_status en i StInProgress) (\<lambda>_.
            bind_act (emit cf ''ticket_dispatched'' [(''ticket_id'', JStr i), (''title'', JStr (tk_title t))]) (\<lambda>_.
            start_task i)))))"

definition at_capacity :: "sched_config \<Rightarrow> string list \<Rightarrow> bool" where
  "at_capacity cf running \<longleftrightarrow> (case sg_max_parallel cf of None \<Rightarrow> False | Some n \<Rightarrow> int (length running) \<ge> n)"

fun start_each :: "sched_config \<Rightarrow> env \<Rightarrow> ticket list \<Rightarrow> unit sact" where
  "start_each cf en [] = ret ()"
| "start_each cf en (t # ts) =
    bind_act (inspect sd_running) (\<lambda>running.
    if at_capacity cf running then ret ()
    else if tk_id t \<in> set running then start_each cf en ts
    else bind_act (handle_schedule cf en (tk_id t)) (\<lambda>_. start_each cf en ts))"

definition ready_tickets :: "sched_config \<Rightarrow> env \<Rightarrow> ticket list act" where
  "ready_tickets cf en w = (find_ready (en_draws en) (sg_work_types cf) (w_tickets w), w)"

definition start_ready_tickets :: "sched_config \<Rightarrow> env \<Rightarrow> unit sact" where
  "start_ready_tickets cf en = bind_act (on_sd_world (ready_tickets cf en)) (start_each cf en)"

fun unblock_dependents :: "sched_config \<Rightarrow> env \<Rightarrow> string list \<Rightarrow> unit sact" where
  \<comment> \<open>over \<open>ticket.blocks\<close>\<close>
  "unblock_dependents cf en [] = ret ()"
| "unblock_dependents cf en (b # bs) = bind_act (on_sd_world (get_ticket en b)) (\<lambda>x.
     if (case x of None \<Rightarrow> True | Some t \<Rightarrow> tk_status t \<noteq> StOpen) then unblock_dependents cf en bs
     else bind_act (handle_schedule cf en b) (\<lambda>_. unblock_dependents cf en bs))"

section \<open>The end of a ticket\<close>

definition clear_phase_persistence :: "string \<times> string \<Rightarrow> scheduler \<Rightarrow> scheduler" where
  "clear_phase_persistence key s = s\<lparr>sd_survival := AList.delete key (sd_survival s), sd_prev_keys := AList.delete key (sd_prev_keys s)\<rparr>"

definition clear_ticket_persistence :: "string \<Rightarrow> scheduler \<Rightarrow> scheduler" where
  \<comment> \<open>the loop over the keys of the ticket\<close>
  "clear_ticket_persistence i s =
     fold clear_phase_persistence (filter (\<lambda>k. fst k = i) (keys (sd_survival s) @ keys (sd_prev_keys s))) s"

definition forget_running :: "string \<Rightarrow> unit sact" where
  "forget_running i = modify (\<lambda>s. s\<lparr>sd_running := removeAll i (sd_running s)\<rparr>)"

definition on_ticket_failed :: "sched_config \<Rightarrow> env \<Rightarrow> string \<Rightarrow> ticket \<Rightarrow> unit sact" where
  "on_ticket_failed cf en i t =
    bind_act (emit_ticket_failed cf i (tk_title t)) (\<lambda>_.
    bind_act (forget_running i) (\<lambda>_.
    bind_act (modify (clear_ticket_persistence i)) (\<lambda>_.
    bind_act (cascade_fail_dependents cf en i None) (\<lambda>_.
    bind_act (start_ready_tickets cf en) (\<lambda>_.
    maybe_run_analyzer cf en)))))"

text \<open>
  What merging the branch of a ticket comes to: no project, a result, a conflict that the
  resolver agent settles or not, with the outcome of the second attempt, or another error.
\<close>

datatype merge_attempt = Merged string | Conflict string | MergeError

datatype merge_outcome = NoProject | Attempt merge_attempt | Resolved string merge_attempt | Unresolved string

datatype merge_verdict = MergeOk string | MergeConflicted string | MergeBroken

definition verdict_of_merge :: "merge_outcome \<Rightarrow> merge_verdict" where
  "verdict_of_merge m = (case m of
     NoProject \<Rightarrow> MergeOk []
   | Attempt (Merged r) \<Rightarrow> MergeOk r | Attempt (Conflict c) \<Rightarrow> MergeConflicted c | Attempt MergeError \<Rightarrow> MergeBroken
   | Unresolved c \<Rightarrow> MergeConflicted c
   | Resolved _ (Merged r) \<Rightarrow> MergeOk r | Resolved _ (Conflict c) \<Rightarrow> MergeConflicted c | Resolved _ MergeError \<Rightarrow> MergeBroken)"

definition canonicalize_ticket :: "env \<Rightarrow> nat \<Rightarrow> string \<Rightarrow> ticket option" where
  "canonicalize_ticket en n i = validate_ticket \<lparr>cx_now = en_now en n, cx_uuid = (\<lambda>_. en_uuid en n)\<rparr>
     [(''title'', JStr (''Canonicalize: post-merge '' @ i)), (''description'', JStr []), (''work_type'', JStr (show_work_type WCanonicalize)),
      (''workflow'', JStr ''canonicalize''), (''size'', JStr (show_size SS)), (''status'', JStr (show_status StOpen)),
      (''parent_id'', JStr i), (''labels'', jstrs [''per-merge'']), (''created_by'', JStr ''orchestrator'')]"

definition create_ticket :: "ticket \<Rightarrow> string act" where
  \<comment> \<open>\<open>tickets.create\<close>, which calls the callback\<close>
  "create_ticket t w = (case ticket_create [] t True (w_tickets w) of
     (Inl e, st) \<Rightarrow> (Inl e, w\<lparr>w_tickets := st\<rparr>) | (Inr _, st) \<Rightarrow> (Inr (tk_id t), w\<lparr>w_tickets := st\<rparr>))"

definition maybe_spawn_canonicalize :: "sched_config \<Rightarrow> env \<Rightarrow> string \<Rightarrow> ticket \<Rightarrow> unit sact" where
  "maybe_spawn_canonicalize cf en i t =
    (if \<not> sg_per_merge cf \<or> tk_work_type t = WCanonicalize then ret ()
     else bind_act draw (\<lambda>n. case canonicalize_ticket en n i of
       None \<Rightarrow> raise (ValidationError ''ticket'')
     | Some c \<Rightarrow> bind_act (on_sd_world (create_ticket c)) (handle_schedule cf en)))"

definition on_ticket_completed :: "sched_config \<Rightarrow> env \<Rightarrow> string \<Rightarrow> ticket \<Rightarrow> merge_outcome \<Rightarrow> unit sact" where
  "on_ticket_completed cf en i t m = (case verdict_of_merge m of
     MergeConflicted c \<Rightarrow>
       bind_act (update_ticket_status en i StMergeConflict) (\<lambda>_.
       bind_act (emit cf ''ticket_merge_conflict'' [(''kind'', JStr ''ticket_merge_conflict''), (''ticket_id'', JStr i),
         (''title'', JStr (tk_title t)), (''branch'', JStr (''jig/'' @ i)), (''merge'', JStr c)]) (\<lambda>_.
       bind_act (forget_running i) (\<lambda>_.
       start_ready_tickets cf en)))
   | MergeBroken \<Rightarrow>
       bind_act (update_ticket_status en i StFailed) (\<lambda>_. on_ticket_failed cf en i t)
   | MergeOk r \<Rightarrow>
       bind_act (update_ticket_status en i StResolved) (\<lambda>_.
       bind_act (emit cf ''ticket_completed'' [(''kind'', JStr ''ticket_completed''), (''ticket_id'', JStr i),
         (''title'', JStr (tk_title t)), (''branch'', JStr (''jig/'' @ i)), (''merge'', JStr r)]) (\<lambda>_.
       bind_act (forget_running i) (\<lambda>_.
       bind_act (maybe_spawn_canonicalize cf en i t) (\<lambda>_.
       bind_act (unblock_dependents cf en (tk_blocks t)) (\<lambda>_.
       bind_act (start_ready_tickets cf en) (\<lambda>_.
       maybe_run_analyzer cf en)))))))"

section \<open>The reconcile tick\<close>

definition reload_tickets :: "unit act" where
  "reload_tickets w = (case load (ts_coll (w_tickets w)) of (r, c) \<Rightarrow> (r, w\<lparr>w_tickets := (w_tickets w)\<lparr>ts_coll := c\<rparr>\<rparr>))"

definition stuck_watch :: "ticket_status list" where
  "stuck_watch = [StOpen, StInProgress, StBlocked, StMergeConflict]"

definition stuck_grace :: int where
  \<comment> \<open>microseconds\<close>
  "stuck_grace = 120 * 1000000"

definition stuck_detail :: "ticket list \<Rightarrow> doc" where
  "stuck_detail ts = map (\<lambda>t. (tk_id t, JObj [(''status'', JStr (show_status (tk_status t))), (''blocked_by'', jstrs (tk_blocked_by t))])) ts"

definition check_stuck :: "sched_config \<Rightarrow> env \<Rightarrow> int \<Rightarrow> unit sact" where
  \<comment> \<open>\<open>now\<close> is the reading of \<open>time.monotonic\<close>\<close>
  "check_stuck cf en now =
    bind_act (on_sd_world (list_tickets en)) (\<lambda>ts.
    let stuck = filter (\<lambda>t. tk_status t \<in> set stuck_watch) ts;
        waiting = list_ex (\<lambda>t. tk_status t = StNeedsInfo \<or> tk_status t = StProposed \<and> counts_toward_completion t) ts in
    bind_act (on_sd_world (ready_tickets cf en)) (\<lambda>ready.
    bind_act (inspect (\<lambda>s. s)) (\<lambda>s.
    if sd_running s \<noteq> [] \<or> ready \<noteq> [] \<or> waiting \<or> stuck = [] then modify (\<lambda>s. s\<lparr>sd_stuck_since := None, sd_stuck_for := None\<rparr>)
    else case sd_stuck_since s of
      None \<Rightarrow> modify (\<lambda>s. s\<lparr>sd_stuck_since := Some now\<rparr>)
    | Some since \<Rightarrow>
        if now - since < stuck_grace \<or> sd_stuck_for s = Some (set (map tk_id stuck)) then ret ()
        else bind_act (modify (\<lambda>s. s\<lparr>sd_stuck_for := Some (set (map tk_id stuck))\<rparr>)) (\<lambda>_.
          bind_act (emit cf ''project_stuck'' [(''kind'', JStr ''project_stuck''), (''stuck_tickets'', JObj (stuck_detail stuck))]) (\<lambda>_.
          analytic cf (ProjectStuck (set (map tk_id stuck))))))))"

definition reconcile_external_tickets :: "sched_config \<Rightarrow> env \<Rightarrow> int \<Rightarrow> unit sact" where
  "reconcile_external_tickets cf en now =
    bind_act (on_sd_world reload_tickets) (\<lambda>_.
    bind_act (sweep_failed_dependencies cf en) (\<lambda>_.
    bind_act (start_ready_tickets cf en) (\<lambda>_.
    check_stuck cf en now)))"

section \<open>Messages to the orchestrator and startup\<close>

definition service_message :: "sched_config \<Rightarrow> env \<Rightarrow> doc \<Rightarrow> unit sact" where
  \<comment> \<open>the body of the service loop for one message; ids and statuses are strings\<close>
  "service_message cf en payload =
    (case (map_of payload ''kind'', map_of payload ''ticket_id'') of
       (Some (JStr kind), Some (JStr i)) \<Rightarrow>
         if kind = ''ticket_created'' then (if i \<noteq> [] then handle_schedule cf en i else ret ())
         else if kind = ''ticket_updated'' then
           (if i \<noteq> [] \<and> map_of payload ''status'' = Some (JStr (show_status StOpen))
            then bind_act (forget_running i) (\<lambda>_. handle_schedule cf en i) else ret ())
         else ret ()
     | _ \<Rightarrow> ret ())"

definition in_progress_tickets :: "sched_config \<Rightarrow> env \<Rightarrow> ticket list act" where
  "in_progress_tickets cf en w = (find_in_progress_top_level (en_draws en) (sg_work_types cf) (w_tickets w), w)"

fun start_tasks :: "string list \<Rightarrow> unit sact" where
  "start_tasks [] = ret ()"
| "start_tasks (i # is) = bind_act (start_task i) (\<lambda>_. start_tasks is)"

definition resume_in_progress :: "sched_config \<Rightarrow> env \<Rightarrow> unit sact" where
  "resume_in_progress cf en = bind_act (on_sd_world (in_progress_tickets cf en)) (\<lambda>ts. start_tasks (map tk_id ts))"

definition planning_ticket :: "env \<Rightarrow> nat \<Rightarrow> string \<Rightarrow> ticket option" where
  "planning_ticket en n spec_path = validate_ticket \<lparr>cx_now = en_now en n, cx_uuid = (\<lambda>_. en_uuid en n)\<rparr>
     [(''_id'', JStr ''planning''), (''work_type'', JStr (show_work_type WPlanning)), (''title'', JStr ''Project planning''),
      (''description'', JStr (''Break down the project spec into implementation tickets.'' @ [CHR 10, CHR 10] @ ''Spec: '' @ spec_path)),
      (''workflow'', JStr ''project''), (''created_by'', JStr ''orchestrator'')]"

definition ensure_planning_ticket :: "env \<Rightarrow> bool \<Rightarrow> string \<Rightarrow> unit sact" where
  \<comment> \<open>\<open>initialized\<close>: the architecture file exists\<close>
  "ensure_planning_ticket en initialized spec_path =
    (if \<not> initialized then ret ()
     else bind_act (on_sd_world (get_ticket en ''planning'')) (\<lambda>x.
       if x \<noteq> None then ret ()
       else bind_act (on_sd_world (list_tickets en)) (\<lambda>ts.
       if list_ex (\<lambda>t. tk_work_type t \<notin> {WBrief, WArchitecture, WPlanning}) ts then ret ()
       else bind_act draw (\<lambda>n. case planning_ticket en n spec_path of
         None \<Rightarrow> raise (ValidationError ''ticket'')
       | Some t \<Rightarrow> bind_act (on_sd_world (create_ticket t)) (\<lambda>_. ret ())))))"

definition startup :: "sched_config \<Rightarrow> env \<Rightarrow> bool \<Rightarrow> string \<Rightarrow> unit sact" where
  \<comment> \<open>from the stores being loaded to the loops being started\<close>
  "startup cf en initialized spec_path =
    bind_act (resume_in_progress cf en) (\<lambda>_.
    bind_act (ensure_planning_ticket en initialized spec_path) (\<lambda>_.
    bind_act (start_ready_tickets cf en) (\<lambda>_.
    maybe_run_analyzer cf en)))"

definition shutdown :: "scheduler \<Rightarrow> scheduler" where
  \<comment> \<open>the registered tasks are cancelled\<close>
  "shutdown s = s\<lparr>sd_running := [], sd_live := fold remove1 (sd_running s) (sd_live s)\<rparr>"

end
