(* ===== verification/SchedulerRules.thy ===== *)
theory SchedulerRules
  imports TicketToolProps Scheduler
begin

text \<open>
  What the operations of the scheduler do to the tickets, followed through the map from ids to
  tickets: rules for a triple whose assertion fixes the map, the running tickets and the started
  tasks, and the effect of the failure cascade, whose search through the graph ends after at most one
  step for each stored ticket and one for its root.
\<close>

section \<open>Assertions\<close>

abbreviation smap :: "scheduler \<Rightarrow> string \<Rightarrow> ticket option" where
  "smap s \<equiv> kmap (sd_world s)"

definition sd_inv :: "scheduler \<Rightarrow> bool" where
  "sd_inv s \<longleftrightarrow> ticket_inv (ts_coll (w_tickets (sd_world s)))"

text \<open>The map of tickets, the running tickets and the started tasks.\<close>

definition sd_at :: "string list \<Rightarrow> string list \<Rightarrow> (string \<Rightarrow> ticket option) \<Rightarrow> scheduler \<Rightarrow> bool" where
  "sd_at run live k s \<longleftrightarrow> sd_inv s \<and> smap s = k \<and> sd_running s = run \<and> sd_live s = live"

definition sd_any :: "string list \<Rightarrow> string list \<Rightarrow> scheduler \<Rightarrow> bool" where
  \<comment> \<open>when an exception leaves\<close>
  "sd_any run live s \<longleftrightarrow> sd_inv s \<and> sd_running s = run \<and> sd_live s = live"

lemma sd_at_any: "sd_at run live k s \<Longrightarrow> sd_any run live s"
  by (simp add: sd_at_def sd_any_def)

lemma sd_at_start: "sd_inv s \<Longrightarrow> sd_at (sd_running s) (sd_live s) (smap s) s"
  by (simp add: sd_at_def)

abbreviation sched :: "string list \<Rightarrow> string list \<Rightarrow> (string \<Rightarrow> ticket option) \<Rightarrow> 'a sact \<Rightarrow> ('a \<Rightarrow> scheduler \<Rightarrow> bool) \<Rightarrow> bool" where
  "sched run live k m Q \<equiv> triple (sd_at run live k) m Q (sd_any run live)"

lemma st_draw: "(\<And>n. sched run live k (f n) Q) \<Longrightarrow> sched run live k (bind_act draw f) Q"
  by (rule triple_step [where R = "\<lambda>_. True" and P' = "sd_at run live k"]) (simp_all add: draw_def sd_at_def sd_inv_def)

lemma st_inspect: "(\<And>s. sd_at run live k s \<Longrightarrow> sched run live k (f (g s)) Q) \<Longrightarrow> sched run live k (bind_act (inspect g) f) Q"
  by (rule triple_step [where R = "\<lambda>x. \<exists>s. sd_at run live k s \<and> x = g s" and P' = "sd_at run live k"]) (auto simp: inspect_def)

lemma st_running: "sched run live k (f run) Q \<Longrightarrow> sched run live k (bind_act (inspect sd_running) f) Q"
  by (rule st_inspect) (simp add: sd_at_def)

lemma st_quiet:
  assumes "\<And>s. \<exists>x. m s = (Inr x, g s)" "\<And>s. sd_world (g s) = sd_world s" "\<And>s. sd_running (g s) = sd_running s" "\<And>s. sd_live (g s) = sd_live s"
    and "\<And>x. sched run live k (f x) Q"
  shows "sched run live k (bind_act m f) Q"
proof (rule triple_step [where R = "\<lambda>_. True" and P' = "sd_at run live k"])
  fix s assume "sd_at run live k s"
  then have "sd_at run live k (g s)" using assms(2-4) [of s] by (simp add: sd_at_def sd_inv_def)
  with assms(1) [of s] show "case m s of (Inl _, s') \<Rightarrow> sd_any run live s' | (Inr _, s') \<Rightarrow> True \<and> sd_at run live k s'" by auto
qed (rule assms(5))

lemma st_emit: "sched run live k (f ()) Q \<Longrightarrow> sched run live k (bind_act (emit cf ty d) f) Q"
  by (rule st_quiet [where g = "\<lambda>s. snd (emit cf ty d s)"]) (simp_all add: emit_def modify_def ret_def)

lemma st_analytic: "sched run live k (f ()) Q \<Longrightarrow> sched run live k (bind_act (analytic cf x) f) Q"
  by (rule st_quiet [where g = "\<lambda>s. snd (analytic cf x s)"]) (simp_all add: analytic_def modify_def ret_def)

lemma st_ret: "(\<And>s. sd_at run live k s \<Longrightarrow> Q x s) \<Longrightarrow> sched run live k (ret x) Q"
  by (rule triple_ret)

lemma st_world:
  \<comment> \<open>an action on the world that is known by its effect on the tickets\<close>
  assumes "\<And>w. ticket_inv (ts_coll (w_tickets w)) \<Longrightarrow> kmap w = k \<Longrightarrow>
      (case m w of (Inl _, w') \<Rightarrow> ticket_inv (ts_coll (w_tickets w')) | (Inr x, w') \<Rightarrow> R x \<and> ticket_inv (ts_coll (w_tickets w')) \<and> kmap w' = k')"
    and "\<And>x. R x \<Longrightarrow> sched run live k' (f x) Q"
  shows "sched run live k (bind_act (on_sd_world m) f) Q"
proof (rule triple_step [where R = R and P' = "sd_at run live k'"])
  fix s assume s: "sd_at run live k s"
  then show "case on_sd_world m s of (Inl _, s') \<Rightarrow> sd_any run live s' | (Inr x, s') \<Rightarrow> R x \<and> sd_at run live k' s'"
    using assms(1) [of "sd_world s"]
    by (auto simp: on_sd_world_def zoom_def sd_at_def sd_any_def sd_inv_def split: prod.splits sum.splits)
qed (rule assms(2))

lemma st_get:
  assumes "\<And>x. k i = x \<Longrightarrow> sched run live k (f x) Q"
  shows "sched run live k (bind_act (on_sd_world (get_ticket en i)) f) Q"
  by (rule st_world [where R = "\<lambda>x. k i = x" and k' = k]) (use assms in \<open>simp_all add: get_ticket_def ticket_get_refines\<close>)

lemma st_weaken:
  "sched run live k m Q \<Longrightarrow> (\<And>x s. Q x s \<Longrightarrow> Q' x s) \<Longrightarrow> sched run live k m Q'"
  by (erule triple_weaken)

section \<open>Changes of a ticket\<close>

lemma change_effect:
  assumes inv: "ticket_inv (ts_coll st)" and p: "ticket_map st i = Some p"
    and ch: "distinct (keys ch)" "''_id'' \<notin> set (keys ch)"
    and gate: "map_of ch ''status'' = Some (JStr (show_status StOpen)) \<Longrightarrow> tk_status p \<noteq> StProposed"
    and merged: "dict_update (dump_ticket p) (setdefault ''updated_at'' (JTime now) ch) = dump_ticket p'" "ticket_valid p'"
  shows "(\<exists>e. ticket_update cx now i ch st = (Inl e, st)) \<or>
    (\<exists>st'. ticket_update cx now i ch st = (Inr p', st') \<and> ticket_inv (ts_coll st') \<and> ticket_map st' = (ticket_map st)(i \<mapsto> p'))"
proof -
  have upd: "ticket_update cx now i ch st = write_update cx now i ch st"
    using gate by (auto simp: ticket_update_def ticket_get_refines [OF inv] p)
  show ?thesis
  proof (cases rule: write_update_cases [OF inv ch, where cx = cx and now = now and i = i and cx' = "no_draws []", case_names fails writes])
    case (writes q m st')
    then have "q = p" using p by simp
    with writes upd show ?thesis using ticket_roundtrip [OF merged(2)] by (simp add: merged(1))
  qed (simp add: upd)
qed

lemma with_status:
  "dict_update (dump_ticket p) (setdefault ''updated_at'' (JTime now) [(''status'', JStr (show_status s))]) =
     dump_ticket (p\<lparr>tk_status := s, tk_updated_at := now\<rparr>)"
  "dict_update (dump_ticket p) (setdefault ''updated_at'' (JTime now) [(''block_reason'', JStr r)]) =
     dump_ticket (p\<lparr>tk_block_reason := Some r, tk_updated_at := now\<rparr>)"
  by (simp_all add: setdefault_def dump_ticket_def jopt_def)

lemma still_valid:
  "ticket_valid p \<Longrightarrow> ticket_valid (p\<lparr>tk_status := s, tk_updated_at := now\<rparr>)"
  "ticket_valid p \<Longrightarrow> ticket_valid (p\<lparr>tk_block_reason := r, tk_updated_at := now\<rparr>)"
  by (simp_all add: ticket_valid_def ticket_ok_def has_required_ac_def)

lemma st_publish:
  assumes "\<And>x. sched run live k (f x) Q"
  shows "sched run live k (bind_act (on_sd_world (publish_msg en n a r ty p tp)) f) Q"
  by (rule st_world [where R = "\<lambda>_. True" and k' = k])
    (use assms in \<open>simp_all add: publish_msg_def split_beta split: sum.split\<close>)

lemma st_status:
  assumes "k i = Some x" "s = StOpen \<Longrightarrow> tk_status x \<noteq> StProposed"
    and "\<And>now. sched run live (k(i \<mapsto> x\<lparr>tk_status := s, tk_updated_at := now\<rparr>)) (f ()) Q"
  shows "sched run live k (bind_act (update_ticket_status en i s) f) Q"
proof -
  have upd: "sched run live k (bind_act (on_sd_world (set_ticket_status en n i s)) g) Q"
    if "\<And>y. sched run live (k(i \<mapsto> x\<lparr>tk_status := s, tk_updated_at := en_now en n\<rparr>)) (g y) Q" for n g
  proof (rule st_world [where R = "\<lambda>_. True"])
    fix w assume w: "ticket_inv (ts_coll (w_tickets w))" "kmap w = k"
    have "ticket_valid x" using ticket_map_Some(2) [OF w(1)] assms(1) w(2) by blast
    moreover have "map_of [(''status'', JStr (show_status s))] ''status'' = Some (JStr (show_status StOpen)) \<Longrightarrow> tk_status x \<noteq> StProposed"
      using assms(2) by (cases s) simp_all
    ultimately show "case set_ticket_status en n i s w of (Inl _, w') \<Rightarrow> ticket_inv (ts_coll (w_tickets w'))
        | (Inr y, w') \<Rightarrow> True \<and> ticket_inv (ts_coll (w_tickets w')) \<and> kmap w' = k(i \<mapsto> x\<lparr>tk_status := s, tk_updated_at := en_now en n\<rparr>)"
      using change_effect [OF w(1), of i x "[(''status'', JStr (show_status s))]" "en_now en n"
          "x\<lparr>tk_status := s, tk_updated_at := en_now en n\<rparr>" "en_draws en"] assms(1,2) w
      by (auto simp: set_ticket_status_def update_status_def with_status still_valid show_status_inj)
  qed (rule that)
  show ?thesis
    unfolding update_ticket_status_def
    by (simp only: bind_bind bind_ret) (intro st_draw upd st_publish assms(3))
qed

definition failed_as :: "ticket \<Rightarrow> ticket \<Rightarrow> bool" where
  "failed_as t t' \<longleftrightarrow> (\<exists>now. t' = t\<lparr>tk_status := StFailed, tk_block_reason := Some dep_failed_reason, tk_updated_at := now\<rparr>)"

lemma st_fail_unreachable:
  assumes "k i = Some x" "\<And>x'. failed_as x x' \<Longrightarrow> sched run live (k(i \<mapsto> x')) (f ()) Q"
  shows "sched run live k (bind_act (fail_unreachable cf en i title) f) Q"
proof -
  have reason: "sched run live k (bind_act (on_sd_world (change_ticket en n i [(''block_reason'', JStr dep_failed_reason)])) g) Q"
    if "\<And>y now. sched run live (k(i \<mapsto> x\<lparr>tk_block_reason := Some dep_failed_reason, tk_updated_at := now\<rparr>)) (g y) Q" for n g
  proof (rule st_world [where R = "\<lambda>_. True"])
    fix w assume w: "ticket_inv (ts_coll (w_tickets w))" "kmap w = k"
    have "ticket_valid x" using ticket_map_Some(2) [OF w(1)] assms(1) w(2) by blast
    then show "case change_ticket en n i [(''block_reason'', JStr dep_failed_reason)] w of (Inl _, w') \<Rightarrow> ticket_inv (ts_coll (w_tickets w'))
        | (Inr y, w') \<Rightarrow> True \<and> ticket_inv (ts_coll (w_tickets w')) \<and>
            kmap w' = k(i \<mapsto> x\<lparr>tk_block_reason := Some dep_failed_reason, tk_updated_at := en_now en n\<rparr>)"
      using change_effect [OF w(1), of i x "[(''block_reason'', JStr dep_failed_reason)]" "en_now en n"
          "x\<lparr>tk_block_reason := Some dep_failed_reason, tk_updated_at := en_now en n\<rparr>" "en_draws en"] assms(1) w
      by (auto simp: change_ticket_def with_status still_valid)
  qed (rule that)
  have failed: "failed_as x (x\<lparr>tk_block_reason := Some dep_failed_reason, tk_updated_at := n, tk_status := StFailed, tk_updated_at := m\<rparr>)" for n m
    unfolding failed_as_def by (intro exI [of _ m]) simp
  have rest: "sched run live (k(i \<mapsto> x\<lparr>tk_block_reason := Some dep_failed_reason, tk_updated_at := n\<rparr>))
      (bind_act (update_ticket_status en i StFailed) (\<lambda>_. bind_act (emit_ticket_failed cf i title) f)) Q" for n
  proof (rule st_status)
    show "sched run live (k(i \<mapsto> x\<lparr>tk_block_reason := Some dep_failed_reason, tk_updated_at := n\<rparr>,
        i \<mapsto> x\<lparr>tk_block_reason := Some dep_failed_reason, tk_updated_at := n, tk_status := StFailed, tk_updated_at := m\<rparr>))
        (bind_act (emit_ticket_failed cf i title) f) Q" for m
      unfolding emit_ticket_failed_def fun_upd_upd by (intro st_emit assms(2) failed)
  qed simp_all
  show ?thesis
    unfolding fail_unreachable_def by (simp only: bind_bind) (intro st_draw reason rest)
qed

section \<open>The stored tickets are finitely many\<close>

lemma stored_finite:
  "finite (dom (ticket_map st))" "card (dom (ticket_map st)) \<le> length (st_docs (ts_coll st))"
proof -
  let ?ids = "set (keys (st_docs (ts_coll st)))"
  have sub: "JStr ` dom (ticket_map st) \<subseteq> ?ids"
  proof
    fix j assume "j \<in> JStr ` dom (ticket_map st)"
    then obtain i t where "j = JStr i" "Option.bind (map_of (st_docs (ts_coll st)) (JStr i)) (\<lambda>d. validate_ticket (no_draws d) d) = Some t"
      by (auto simp: ticket_map_def models_def)
    then show "j \<in> ?ids" by (cases "map_of (st_docs (ts_coll st)) (JStr i)") (auto dest: map_of_SomeD simp: rev_image_eqI)
  qed
  have inj: "inj_on JStr (dom (ticket_map st))" by (simp add: inj_on_def)
  from sub have "finite (JStr ` dom (ticket_map st))" by (rule finite_subset) simp
  then show "finite (dom (ticket_map st))" using finite_imageD [OF _ inj] by blast
  have "card (dom (ticket_map st)) = card (JStr ` dom (ticket_map st))" by (rule card_image [OF inj, symmetric])
  also have "\<dots> \<le> card ?ids" by (rule card_mono [OF _ sub]) simp
  also have "\<dots> \<le> length (st_docs (ts_coll st))" using card_length [of "keys (st_docs (ts_coll st))"] by simp
  finally show "card (dom (ticket_map st)) \<le> length (st_docs (ts_coll st))" .
qed

lemma stored_card: "card (dom (kmap w)) \<le> stored_tickets w"
  unfolding stored_tickets_def by (rule stored_finite)

section \<open>The cascade\<close>

definition can_fall :: "(string \<Rightarrow> ticket option) \<Rightarrow> string list \<Rightarrow> string \<Rightarrow> bool" where
  "can_fall k run d \<longleftrightarrow> d \<notin> set run \<and> (\<exists>t. k d = Some t \<and> tk_status t = StOpen)"

text \<open>What a failure of \<open>root\<close> makes unreachable, through open tickets that do not run.\<close>

inductive falls :: "(string \<Rightarrow> ticket option) \<Rightarrow> string list \<Rightarrow> string \<Rightarrow> string \<Rightarrow> bool" for k run root where
  direct: "k root = Some t \<Longrightarrow> d \<in> set (tk_blocks t) \<Longrightarrow> d \<noteq> root \<Longrightarrow> can_fall k run d \<Longrightarrow> falls k run root d"
| further: "falls k run root c \<Longrightarrow> k c = Some t \<Longrightarrow> d \<in> set (tk_blocks t) \<Longrightarrow> d \<noteq> root \<Longrightarrow> can_fall k run d \<Longrightarrow> falls k run root d"

inductive_cases fallsE: "falls k run root d"

lemma falls_can: "falls k run root d \<Longrightarrow> can_fall k run d \<and> d \<noteq> root"
  by (erule fallsE) simp_all

lemma falls_step:
  "c \<in> insert root {c. falls k run root c} \<Longrightarrow> k c = Some t \<Longrightarrow> d \<in> set (tk_blocks t) \<Longrightarrow> d \<noteq> root \<Longrightarrow> can_fall k run d \<Longrightarrow> falls k run root d"
  by (auto intro: falls.intros)

definition cascaded :: "(string \<Rightarrow> ticket option) \<Rightarrow> string set \<Rightarrow> (string \<Rightarrow> ticket option) \<Rightarrow> bool" where
  "cascaded k F k' \<longleftrightarrow> (\<forall>i \<in> F. \<exists>t t'. k i = Some t \<and> k' i = Some t' \<and> failed_as t t') \<and> (\<forall>i. i \<notin> F \<longrightarrow> k' i = k i)"

lemma cascaded_none: "cascaded k {} k"
  by (simp add: cascaded_def)

lemma cascaded_other: "cascaded k F k' \<Longrightarrow> i \<notin> F \<Longrightarrow> k' i = k i"
  by (simp add: cascaded_def)

lemma cascaded_more: "cascaded k F k' \<Longrightarrow> i \<notin> F \<Longrightarrow> k i = Some t \<Longrightarrow> failed_as t t' \<Longrightarrow> cascaded k (insert i F) (k'(i \<mapsto> t'))"
  by (auto simp: cascaded_def)

lemma cascaded_blocks:
  assumes "cascaded k F k'" "k' c = Some t'"
  obtains t where "k c = Some t" "tk_blocks t = tk_blocks t'" "tk_blocked_by t = tk_blocked_by t'" "tk_id t = tk_id t'"
proof (cases "c \<in> F")
  case True
  then obtain t where "k c = Some t" "failed_as t t'" using assms by (auto simp: cascaded_def)
  then show thesis by (intro that [of t]) (auto simp: failed_as_def)
next
  case False
  then show thesis using assms by (intro that [of t']) (auto simp: cascaded_def)
qed

text \<open>The invariant of the search: what is failed, queued and seen, and expanded.\<close>

definition expanded :: "string \<Rightarrow> string set \<Rightarrow> string list \<Rightarrow> string set" where
  "expanded root F queue = insert root F - set queue"

definition covered :: "(string \<Rightarrow> ticket option) \<Rightarrow> string set \<Rightarrow> string list \<Rightarrow> bool" where
  "covered k X seen \<longleftrightarrow> (\<forall>c \<in> X. \<forall>t. k c = Some t \<longrightarrow> set (tk_blocks t) \<subseteq> set seen)"

lemma covered_mono: "covered k X seen \<Longrightarrow> Y \<subseteq> X \<Longrightarrow> set seen \<subseteq> set seen' \<Longrightarrow> covered k Y seen'"
  unfolding covered_def by blast

lemma covered_insert: "covered k X seen \<Longrightarrow> (\<And>t. k c = Some t \<Longrightarrow> set (tk_blocks t) \<subseteq> set seen) \<Longrightarrow> covered k (insert c X) seen"
  unfolding covered_def by blast

lemma coveredD: "covered k X seen \<Longrightarrow> c \<in> X \<Longrightarrow> k c = Some t \<Longrightarrow> d \<in> set (tk_blocks t) \<Longrightarrow> d \<in> set seen"
  unfolding covered_def by blast

definition search :: "(string \<Rightarrow> ticket option) \<Rightarrow> string list \<Rightarrow> string \<Rightarrow> string set \<Rightarrow> string list \<Rightarrow> string list \<Rightarrow> bool" where
  "search k run root F queue seen \<longleftrightarrow>
     root \<in> set seen \<and> root \<notin> F \<and> F \<subseteq> set seen \<and> distinct queue \<and> set queue \<subseteq> insert root F \<and>
     (\<forall>d \<in> F. falls k run root d) \<and> (\<forall>d \<in> set seen. d = root \<or> d \<in> F \<or> \<not> can_fall k run d) \<and>
     covered k (expanded root F queue) seen"

lemma search_start: "search k run root {} [root] [root]"
  by (simp add: search_def expanded_def covered_def)

lemma search_dom: "search k run root F queue seen \<Longrightarrow> F \<subseteq> dom k"
  by (auto simp: search_def can_fall_def dest!: bspec falls_can)

lemma search_end:
  assumes "search k run root F [] seen"
  shows "F = {d. falls k run root d}"
proof
  show "F \<subseteq> {d. falls k run root d}" using assms by (auto simp: search_def)
  have cov: "covered k (insert root F) seen" using assms by (simp add: search_def expanded_def)
  have seen: "d \<in> F" if "d \<in> set seen" "d \<noteq> root" "can_fall k run d" for d
    using assms that by (auto simp: search_def)
  show "{d. falls k run root d} \<subseteq> F"
  proof
    fix d assume "d \<in> {d. falls k run root d}"
    then have "falls k run root d" by simp
    then show "d \<in> F"
    proof (induction rule: falls.induct)
      case (direct t d)
      then show ?case by (intro seen coveredD [OF cov _ direct(1,2)]) simp_all
    next
      case (further c t d)
      then show ?case by (intro seen coveredD [OF cov _ further(2,3)]) simp_all
    qed
  qed
qed

lemma search_seen:
  assumes "search k run root F (c # queue) seen" "d \<notin> set seen" "\<not> can_fall k run d"
  shows "search k run root F (c # queue) (d # seen)"
proof -
  have "covered k (expanded root F (c # queue)) (d # seen)"
    by (rule covered_mono [where X = "expanded root F (c # queue)" and seen = seen]) (use assms(1) in \<open>auto simp: search_def\<close>)
  then show ?thesis using assms by (auto simp: search_def)
qed

lemma search_fail:
  assumes "search k run root F (c # queue) seen" "d \<notin> set seen" "can_fall k run d" "k c = Some t" "d \<in> set (tk_blocks t)"
  shows "search k run root (insert d F) (c # queue @ [d]) (d # seen)"
proof -
  have c: "c \<in> insert root {c. falls k run root c}" using assms(1) by (auto simp: search_def)
  have d: "d \<noteq> root" "d \<notin> F" "d \<notin> set (c # queue)" using assms(1,2) by (auto simp: search_def)
  have "falls k run root d" by (rule falls_step [OF c assms(4,5) d(1) assms(3)])
  moreover have "covered k (expanded root (insert d F) (c # queue @ [d])) (d # seen)"
    by (rule covered_mono [where X = "expanded root F (c # queue)" and seen = seen])
      (use assms(1) in \<open>auto simp: search_def expanded_def\<close>)
  ultimately show ?thesis using assms(1) d by (auto simp: search_def)
qed

lemma search_done:
  assumes "search k run root F (c # queue) seen" "\<And>t. k c = Some t \<Longrightarrow> set (tk_blocks t) \<subseteq> set seen"
  shows "search k run root F queue seen"
proof -
  have "covered k (insert c (expanded root F (c # queue))) seen"
    by (rule covered_insert [OF _ assms(2)]) (use assms(1) in \<open>simp_all add: search_def\<close>)
  then have "covered k (expanded root F queue) seen"
    by (rule covered_mono) (auto simp: expanded_def)
  with assms(1) show ?thesis by (simp add: search_def)
qed

lemma search_fresh: "search k run root F queue seen \<Longrightarrow> d \<notin> set seen \<Longrightarrow> d \<notin> F"
  by (auto simp: search_def)

lemma cascade_blocks_effect:
  assumes "search k run root F (c # queue) seen" "cascaded k F k'" "k c = Some t" "set ds \<subseteq> set (tk_blocks t)"
  shows "sched run live k' (cascade_blocks cf en blame cur ds queue seen) (\<lambda>(queue', seen') s. \<exists>F' k''. sd_at run live k'' s \<and> cascaded k F' k'' \<and>
     search k run root F' (c # queue') seen' \<and> set ds \<union> set seen \<subseteq> set seen' \<and> expanded root F (c # queue) \<subseteq> expanded root F' (c # queue'))"
    (is "sched run live k' _ (?Q ds F queue seen)")
  using assms
proof (induction ds arbitrary: F queue seen k')
  case Nil
  then show ?case by (auto intro!: st_ret)
next
  case (Cons d ds)
  have post: "?Q (d # ds) F queue seen x s"
    if "?Q ds F2 q2 s2 x s" "insert d (set seen) \<subseteq> set s2" "expanded root F (c # queue) \<subseteq> expanded root F2 (c # q2)" for x s F2 q2 s2
  proof -
    obtain q' seen' where x: "x = (q', seen')" by (cases x)
    from that(1) obtain F' k'' where "sd_at run live k'' s" "cascaded k F' k''" "search k run root F' (c # q') seen'"
      "set ds \<union> set s2 \<subseteq> set seen'" "expanded root F2 (c # q2) \<subseteq> expanded root F' (c # q')"
      unfolding x prod.case by (elim exE conjE) (rule that)
    then show ?thesis unfolding x prod.case using that(2,3)
      by (intro exI [of _ F'] exI [of _ k''] conjI) auto
  qed
  have skip: "sched run live k' (cascade_blocks cf en blame cur ds queue seen') (?Q (d # ds) F queue seen)"
    if "search k run root F (c # queue) seen'" "insert d (set seen) \<subseteq> set seen'" for seen'
    by (rule st_weaken [OF Cons.IH [OF that(1) Cons.prems(2,3)]], use Cons.prems(4) in simp, erule post [OF _ that(2) subset_refl])
  show ?case
  proof (cases "d \<in> set seen")
    case True
    then show ?thesis using skip [OF Cons.prems(1)] by auto
  next
    case False
    then have k'd: "k' d = k d" using cascaded_other [OF Cons.prems(2)] search_fresh [OF Cons.prems(1)] by blast
    have no: "sched run live k' (cascade_blocks cf en blame cur ds queue (d # seen)) (?Q (d # ds) F queue seen)" if "\<not> can_fall k run d"
      by (rule skip [OF search_seen [OF Cons.prems(1) False that]]) auto
    have yes: "sched run live k' (bind_act (fail_unreachable cf en d (tk_title x)) (\<lambda>_. bind_act (analytic cf (CascadeFailed d blame cur))
        (\<lambda>_. cascade_blocks cf en blame cur ds (queue @ [d]) (d # seen)))) (?Q (d # ds) F queue seen)"
      if x: "k d = Some x" "can_fall k run d" for x
    proof (rule st_fail_unreachable [where x = x])
      show "k' d = Some x" using k'd x(1) by simp
      fix x' assume x': "failed_as x x'"
      have s: "search k run root (insert d F) (c # queue @ [d]) (d # seen)"
        using search_fail [OF Cons.prems(1) False x(2) Cons.prems(3)] Cons.prems(4) by simp
      have "cascaded k (insert d F) (k'(d \<mapsto> x'))"
        using cascaded_more [OF Cons.prems(2) search_fresh [OF Cons.prems(1) False] x(1) x'] .
      note ih = Cons.IH [OF s this Cons.prems(3)]
      have e: "expanded root F (c # queue) \<subseteq> expanded root (insert d F) (c # queue @ [d])"
        using search_fresh [OF Cons.prems(1) False] Cons.prems(1) False by (auto simp: expanded_def search_def)
      show "sched run live (k'(d \<mapsto> x')) (bind_act (analytic cf (CascadeFailed d blame cur))
          (\<lambda>_. cascade_blocks cf en blame cur ds (queue @ [d]) (d # seen))) (?Q (d # ds) F queue seen)"
        by (rule st_analytic, rule st_weaken [OF ih], use Cons.prems(4) in simp, erule post [OF _ _ e]) auto
    qed
    show ?thesis
      unfolding cascade_blocks.simps if_not_P [OF False]
    proof (intro st_get st_running)
      fix x assume x: "k' d = x"
      show "sched run live k' (case x of None \<Rightarrow> cascade_blocks cf en blame cur ds queue (d # seen)
         | Some t \<Rightarrow> if tk_status t \<noteq> StOpen \<or> d \<in> set run then cascade_blocks cf en blame cur ds queue (d # seen)
           else bind_act (fail_unreachable cf en d (tk_title t)) (\<lambda>_. bind_act (analytic cf (CascadeFailed d blame cur))
             (\<lambda>_. cascade_blocks cf en blame cur ds (queue @ [d]) (d # seen)))) (?Q (d # ds) F queue seen)"
      proof (cases x)
        case None
        with x k'd have "\<not> can_fall k run d" by (simp add: can_fall_def)
        from no [OF this] None show ?thesis by simp
      next
        case (Some y)
        show ?thesis
        proof (cases "can_fall k run d")
          case True
          then have "tk_status y = StOpen" "d \<notin> set run" using Some x k'd by (auto simp: can_fall_def)
          with yes [of y] True Some x k'd show ?thesis by simp
        next
          case False
          then have "tk_status y \<noteq> StOpen \<or> d \<in> set run" using Some x k'd by (auto simp: can_fall_def)
          with no [OF False] Some show ?thesis by auto
        qed
      qed
    qed
  qed
qed

lemma cascade_loop_effect:
  assumes "search k run root F queue seen" "cascaded k F k'" "finite (dom k)" "card (dom k) + 1 \<le> f + card (expanded root F queue)"
  shows "sched run live k' (cascade_loop cf en blame f queue seen)
     (\<lambda>x s. x \<noteq> None \<and> (\<exists>k''. sd_at run live k'' s \<and> cascaded k {d. falls k run root d} k''))" (is "sched run live k' _ ?Q")
  using assms
proof (induction f arbitrary: F queue seen k')
  case 0
  have "queue = []"
  proof (rule ccontr)
    assume "queue \<noteq> []"
    then obtain c q where q: "queue = c # q" by (cases queue) auto
    have F: "F \<subseteq> dom k" using 0(1) by (rule search_dom)
    have "expanded root F queue \<subseteq> insert root F - {c}" "c \<in> insert root F" using 0(1) q by (auto simp: expanded_def search_def)
    then have "expanded root F queue \<subset> insert root F" by blast
    then have "card (expanded root F queue) < card (insert root F)"
      using F 0(3) by (intro psubset_card_mono) (auto intro: finite_subset)
    also have "\<dots> \<le> card F + 1" using F 0(3) by (simp add: card_insert_if finite_subset)
    also have "\<dots> \<le> card (dom k) + 1" using card_mono [OF 0(3) F] by simp
    finally show False using 0(4) by simp
  qed
  with 0 search_end show ?case by (auto intro!: st_ret)
next
  case (Suc f)
  show ?case
  proof (cases queue)
    case Nil
    with Suc.prems search_end show ?thesis by (auto intro!: st_ret)
  next
    case (Cons c q)
    have c: "c \<in> insert root F" "c \<notin> set q" using Suc.prems(1) Cons by (auto simp: search_def)
    have fin: "finite F" using finite_subset [OF search_dom [OF Suc.prems(1)] Suc.prems(3)] .
    have more: "card (dom k) + 1 \<le> f + card (expanded root F' q')"
      if e: "expanded root F queue \<subseteq> expanded root F' (c # q')" "c \<in> insert root F'" "c \<notin> set q'" "finite F'" for F' q'
    proof -
      have "insert c (expanded root F queue) \<subseteq> expanded root F' q'" using e by (auto simp: expanded_def)
      then have "card (insert c (expanded root F queue)) \<le> card (expanded root F' q')"
        using e(4) by (intro card_mono) (auto simp: expanded_def)
      moreover have "c \<notin> expanded root F queue" "finite (expanded root F queue)" using Cons fin by (auto simp: expanded_def)
      ultimately show ?thesis using Suc.prems(4) by simp
    qed
    show ?thesis
      unfolding Cons cascade_loop.simps
    proof (rule st_get)
      fix x assume x: "k' c = x"
      show "sched run live k' (case x of None \<Rightarrow> cascade_loop cf en blame f q seen
          | Some t \<Rightarrow> bind_act (cascade_blocks cf en blame (tk_id t) (tk_blocks t) q seen)
              (\<lambda>(queue', seen'). cascade_loop cf en blame f queue' seen')) ?Q"
      proof (cases x)
        case None
        have kc: "k c = None" using None x Suc.prems(2) by (cases "c \<in> F") (auto simp: cascaded_def)
        have "search k run root F q seen"
          by (rule search_done [OF Suc.prems(1) [unfolded Cons]]) (simp add: kc)
        moreover have "card (dom k) + 1 \<le> f + card (expanded root F q)" by (rule more) (use Cons c fin in simp_all)
        ultimately show ?thesis using Suc.IH Suc.prems(2,3) None by simp
      next
        case (Some t')
        obtain t where t: "k c = Some t" "tk_blocks t = tk_blocks t'"
          using cascaded_blocks [OF Suc.prems(2), of c t'] x Some by blast
        have "sched run live k' (bind_act (cascade_blocks cf en blame (tk_id t') (tk_blocks t') q seen)
              (\<lambda>(queue', seen'). cascade_loop cf en blame f queue' seen')) ?Q"
        proof (rule triple_bind [OF cascade_blocks_effect [OF Suc.prems(1) [unfolded Cons] Suc.prems(2) t(1)]])
          show "set (tk_blocks t') \<subseteq> set (tk_blocks t)" by (simp add: t(2))
          fix y :: "string list \<times> string list"
          obtain q' seen' where y: "y = (q', seen')" by (cases y)
          have go: "sched run live k'' (cascade_loop cf en blame f q' seen') ?Q"
            if "cascaded k F' k''" "search k run root F' (c # q') seen'" "set (tk_blocks t') \<union> set seen \<subseteq> set seen'"
              "expanded root F (c # q) \<subseteq> expanded root F' (c # q')" for F' k''
          proof (rule Suc.IH [OF _ that(1) Suc.prems(3)])
            show "search k run root F' q' seen'"
              by (rule search_done [OF that(2)]) (use t that(3) in auto)
            have "finite F'" using finite_subset [OF search_dom [OF that(2)] Suc.prems(3)] .
            then show "card (dom k) + 1 \<le> f + card (expanded root F' q')"
              by (intro more) (use that(2,4) Cons in \<open>auto simp: search_def\<close>)
          qed
          show "triple (case y of (queue', seen') \<Rightarrow> \<lambda>s. \<exists>F' k''. sd_at run live k'' s \<and> cascaded k F' k'' \<and>
              search k run root F' (c # queue') seen' \<and> set (tk_blocks t') \<union> set seen \<subseteq> set seen' \<and>
              expanded root F (c # q) \<subseteq> expanded root F' (c # queue'))
              (case y of (queue', seen') \<Rightarrow> cascade_loop cf en blame f queue' seen') ?Q (sd_any run live)"
            unfolding y prod.case
            by (unfold triple_def, intro allI impI, elim exE conjE, rule triple_run [OF go])
        qed
        with Some show ?thesis by simp
      qed
    qed
  qed
qed

lemma cascade_effect:
  "sched run live k (cascade_fail_dependents cf en root b)
     (\<lambda>_ s. \<exists>k'. sd_at run live k' s \<and> cascaded k {d. falls k run root d} k')"
proof (unfold triple_def, intro allI impI)
  fix s assume s: "sd_at run live k s"
  let ?b = "if the_default [] b \<noteq> [] then the b else root"
  let ?loop = "cascade_loop cf en ?b (stored_tickets (sd_world s) + 1) [root] [root]"
  have k: "k = smap s" using s by (simp add: sd_at_def)
  have "finite (dom k)" "card (dom k) \<le> stored_tickets (sd_world s)" unfolding k by (rule stored_finite stored_card)+
  then have t: "sched run live k ?loop (\<lambda>x s. x \<noteq> None \<and> (\<exists>k'. sd_at run live k' s \<and> cascaded k {d. falls k run root d} k'))"
    by (intro cascade_loop_effect [OF search_start cascaded_none]) simp_all
  obtain r s' where r: "?loop s = (r, s')" by fastforce
  have "cascade_fail_dependents cf en root b s = (case r of Inl e \<Rightarrow> (Inl e, s') | Inr x \<Rightarrow> returned x s')"
    by (simp only: cascade_fail_dependents_def bind_act_def r prod.case)
  with tripleD [OF t s r] show "case cascade_fail_dependents cf en root b s of (Inl _, s') \<Rightarrow> sd_any run live s'
      | (Inr _, s') \<Rightarrow> \<exists>k'. sd_at run live k' s' \<and> cascaded k {d. falls k run root d} k'"
    by (auto simp: returned_def ret_def raise_def split: sum.splits option.splits)
qed

end
