(* ===== verification/SchedulerProps.thy ===== *)
theory SchedulerProps
  imports SchedulerRules
begin

text \<open>
  The properties of the scheduler: the walks over the ticket graph end, a cascade fails exactly
  what a failed ticket makes unreachable, blame is traced to its origin, a sweep leaves no ticket
  waiting for a failed one, and a task is started for ready tickets only, with the messages that
  start a second one.
\<close>

section \<open>The blamed failure\<close>

definition next_blame :: "(string \<Rightarrow> ticket option) \<Rightarrow> string \<Rightarrow> string option" where
  "next_blame k c = (case k c of None \<Rightarrow> None
   | Some t \<Rightarrow> if tk_block_reason t \<noteq> Some dep_failed_reason then None
       else find (\<lambda>d. \<exists>e. k d = Some e \<and> tk_status e = StFailed) (tk_blocked_by t))"

definition blames :: "(string \<Rightarrow> ticket option) \<Rightarrow> (string \<times> string) set" where
  "blames k = {(c, d). next_blame k c = Some d}"

lemma get_now: "ticket_inv (ts_coll (w_tickets w)) \<Longrightarrow> get_ticket en i w = (Inr (kmap w i), w)"
  by (simp add: get_ticket_def ticket_get_refines)

lemma first_failed_is:
  assumes "ticket_inv (ts_coll (w_tickets w))"
  shows "first_failed en ds w = (Inr (find (\<lambda>d. \<exists>e. kmap w d = Some e \<and> tk_status e = StFailed) ds), w)"
  by (induction ds) (auto simp: bind_act_def ret_def get_now [OF assms] split: option.split)

lemma root_failure_step:
  assumes "ticket_inv (ts_coll (w_tickets w))"
  shows "root_failure en (Suc f) cur seen w =
    (if cur \<in> set seen then (Inr (Some cur), w)
     else case next_blame (kmap w) cur of None \<Rightarrow> (Inr (Some cur), w) | Some d \<Rightarrow> root_failure en f d (cur # seen) w)"
  by (auto simp: bind_act_def ret_def get_now [OF assms] first_failed_is [OF assms] next_blame_def split: option.split)

lemma root_failure_walk:
  assumes inv: "ticket_inv (ts_coll (w_tickets w))" and "distinct seen" "set seen \<subseteq> dom (kmap w)"
    and "card (dom (kmap w)) + 1 \<le> f + length seen" "\<forall>c \<in> set seen. (c, cur) \<in> (blames (kmap w))\<^sup>+"
  shows "\<exists>r. root_failure en f cur seen w = (Inr (Some r), w) \<and> (cur, r) \<in> (blames (kmap w))\<^sup>* \<and>
    (next_blame (kmap w) r = None \<or> (r, r) \<in> (blames (kmap w))\<^sup>+)"
  using assms(2-)
proof (induction f arbitrary: cur seen)
  case 0
  have "card (set seen) \<le> card (dom (kmap w))" by (rule card_mono [OF stored_finite(1) 0(2)])
  with 0 show ?case by (simp add: distinct_card)
next
  case (Suc f)
  consider "cur \<in> set seen" | "cur \<notin> set seen" "next_blame (kmap w) cur = None"
    | d where "cur \<notin> set seen" "next_blame (kmap w) cur = Some d" by blast
  then show ?case
  proof cases
    case (3 d)
    then have d: "(cur, d) \<in> blames (kmap w)" by (simp add: blames_def)
    have "cur \<in> dom (kmap w)" using 3(2) by (auto simp: next_blame_def split: option.splits)
    then have "\<exists>r. root_failure en f d (cur # seen) w = (Inr (Some r), w) \<and> (d, r) \<in> (blames (kmap w))\<^sup>* \<and>
        (next_blame (kmap w) r = None \<or> (r, r) \<in> (blames (kmap w))\<^sup>+)"
      using Suc.prems d 3(1) by (intro Suc.IH) (auto intro: trancl.trancl_into_trancl)
    then show ?thesis using d 3 by (auto simp: root_failure_step [OF inv] simp del: root_failure.simps intro: converse_rtrancl_into_rtrancl)
  qed (use Suc.prems(4) in \<open>auto simp: root_failure_step [OF inv] simp del: root_failure.simps\<close>)
qed

lemma root_failure_total:
  assumes "ticket_inv (ts_coll (w_tickets w))"
  obtains r where "resolve_root_failure en d w = (Inr r, w)" "(d, r) \<in> (blames (kmap w))\<^sup>*"
    "next_blame (kmap w) r = None \<or> (r, r) \<in> (blames (kmap w))\<^sup>+"
proof -
  have "card (dom (kmap w)) + 1 \<le> stored_tickets w + 2 + length ([] :: string list)"
    using stored_card [of w] by simp
  from root_failure_walk [OF assms _ _ this, of d en] obtain r where
    "root_failure en (stored_tickets w + 2) d [] w = (Inr (Some r), w)" "(d, r) \<in> (blames (kmap w))\<^sup>*"
    "next_blame (kmap w) r = None \<or> (r, r) \<in> (blames (kmap w))\<^sup>+" by auto
  then show thesis
    by (intro that [of r]) (simp_all only: resolve_root_failure_def bind_act_def returned_def ret_def prod.case sum.case option.case)
qed

lemma st_root:
  assumes "\<And>r. sched run live k (f r) Q"
  shows "sched run live k (bind_act (on_sd_world (resolve_root_failure en d)) f) Q"
proof (rule st_world [where R = "\<lambda>_. True" and k' = k])
  fix w assume w: "ticket_inv (ts_coll (w_tickets w))" "kmap w = k"
  obtain r where "resolve_root_failure en d w = (Inr r, w)" by (rule root_failure_total [OF w(1)])
  with w show "case resolve_root_failure en d w of (Inl _, w') \<Rightarrow> ticket_inv (ts_coll (w_tickets w'))
      | (Inr x, w') \<Rightarrow> True \<and> ticket_inv (ts_coll (w_tickets w')) \<and> kmap w' = k" by simp
qed (rule assms)

lemma st_first_failed:
  assumes "sched run live k (f (find (\<lambda>d. \<exists>e. k d = Some e \<and> tk_status e = StFailed) ds)) Q"
  shows "sched run live k (bind_act (on_sd_world (first_failed en ds)) f) Q"
  by (rule st_world [where R = "\<lambda>x. x = find (\<lambda>d. \<exists>e. k d = Some e \<and> tk_status e = StFailed) ds" and k' = k])
    (use assms in \<open>simp_all add: first_failed_is\<close>)

section \<open>An unreachable ticket\<close>

definition toppled :: "(string \<Rightarrow> ticket option) \<Rightarrow> string list \<Rightarrow> string \<Rightarrow> (string \<Rightarrow> ticket option) \<Rightarrow> bool" where
  \<comment> \<open>a ticket fails, and with it what it makes unreachable\<close>
  "toppled k run i k' \<longleftrightarrow> (\<exists>t t'. k i = Some t \<and> failed_as t t' \<and> cascaded (k(i \<mapsto> t')) {d. falls (k(i \<mapsto> t')) run i d} k')"

lemma unreachable_effect:
  assumes "k (tk_id t) = Some t"
  shows "sched run live k (cascade_fail_unreachable_ticket cf en t d) (\<lambda>_ s. \<exists>k'. sd_at run live k' s \<and> toppled k run (tk_id t) k')"
  unfolding cascade_fail_unreachable_ticket_def
proof (rule st_fail_unreachable [where i = "tk_id t" and k = k, OF assms])
  fix t' assume t': "failed_as t t'"
  show "sched run live (k(tk_id t \<mapsto> t')) (bind_act (on_sd_world (resolve_root_failure en d)) (\<lambda>root.
      bind_act (analytic cf (CascadeFailed (tk_id t) root d)) (\<lambda>_. cascade_fail_dependents cf en (tk_id t) (Some root))))
      (\<lambda>_ s. \<exists>k'. sd_at run live k' s \<and> toppled k run (tk_id t) k')"
  proof (intro st_root st_analytic)
    show "sched run live (k(tk_id t \<mapsto> t')) (cascade_fail_dependents cf en (tk_id t) (Some r))
        (\<lambda>_ s. \<exists>k'. sd_at run live k' s \<and> toppled k run (tk_id t) k')" for r
      by (rule st_weaken [OF cascade_effect]) (use assms t' in \<open>auto simp: toppled_def\<close>)
  qed
qed

text \<open>Edges are recorded on both ends.\<close>

definition both_ends :: "(string \<Rightarrow> ticket option) \<Rightarrow> bool" where
  "both_ends k \<longleftrightarrow> (\<forall>i t d e. k i = Some t \<longrightarrow> d \<in> set (tk_blocked_by t) \<longrightarrow> k d = Some e \<longrightarrow> i \<in> set (tk_blocks e))"

definition same_edges :: "(string \<Rightarrow> ticket option) \<Rightarrow> (string \<Rightarrow> ticket option) \<Rightarrow> bool" where
  "same_edges k k' \<longleftrightarrow> (\<forall>i t'. k' i = Some t' \<longrightarrow> (\<exists>t. k i = Some t \<and> tk_blocks t = tk_blocks t' \<and> tk_blocked_by t = tk_blocked_by t'))"

definition stranded :: "(string \<Rightarrow> ticket option) \<Rightarrow> string list \<Rightarrow> string \<Rightarrow> bool" where
  \<comment> \<open>open, not running, and waiting for a failed ticket\<close>
  "stranded k run i \<longleftrightarrow> i \<notin> set run \<and> (\<exists>t. k i = Some t \<and> tk_status t = StOpen \<and>
     (\<exists>d e. d \<in> set (tk_blocked_by t) \<and> k d = Some e \<and> tk_status e = StFailed))"

definition edge_failed :: "(string \<Rightarrow> ticket option) \<Rightarrow> string \<Rightarrow> bool" where
  "edge_failed k d \<longleftrightarrow> (\<exists>e. k d = Some e \<and> tk_status e = StFailed)"

definition tied :: "(string \<Rightarrow> ticket option) \<Rightarrow> string list \<Rightarrow> string \<Rightarrow> bool" where
  \<comment> \<open>stranded by a failed ticket that records the edge too\<close>
  "tied k run i \<longleftrightarrow> i \<notin> set run \<and> (\<exists>t. k i = Some t \<and> tk_status t = StOpen \<and>
     (\<exists>d e. d \<in> set (tk_blocked_by t) \<and> k d = Some e \<and> tk_status e = StFailed \<and> i \<in> set (tk_blocks e)))"

lemma tied_stranded: "tied k run i \<Longrightarrow> stranded k run i"
  unfolding tied_def stranded_def by blast

lemma stranded_tied: "both_ends k \<Longrightarrow> stranded k run i \<Longrightarrow> tied k run i"
  unfolding tied_def stranded_def both_ends_def by blast

lemma both_ends_same: "both_ends k \<Longrightarrow> same_edges k k' \<Longrightarrow> both_ends k'"
  unfolding both_ends_def same_edges_def by metis

lemma failed_asD: "failed_as t t' \<Longrightarrow> tk_blocks t' = tk_blocks t \<and> tk_blocked_by t' = tk_blocked_by t \<and> tk_status t' = StFailed \<and> tk_id t' = tk_id t"
  by (auto simp: failed_as_def)

lemma toppled_edges:
  assumes "toppled k run i k'"
  shows "same_edges k k'"
proof -
  obtain t t' where t: "k i = Some t" "failed_as t t'" "cascaded (k(i \<mapsto> t')) {d. falls (k(i \<mapsto> t')) run i d} k'"
    using assms by (auto simp: toppled_def)
  show ?thesis
    unfolding same_edges_def
  proof (intro allI impI)
    fix j x assume "k' j = Some x"
    then obtain y where "(k(i \<mapsto> t')) j = Some y" "tk_blocks y = tk_blocks x" "tk_blocked_by y = tk_blocked_by x"
      by (rule cascaded_blocks [OF t(3)])
    then show "\<exists>t. k j = Some t \<and> tk_blocks t = tk_blocks x \<and> tk_blocked_by t = tk_blocked_by x"
      using t(1) failed_asD [OF t(2)] by (cases "j = i") auto
  qed
qed

lemma toppled_tied:
  \<comment> \<open>no other ticket is tied to a failure by it\<close>
  assumes top: "toppled k run i k'" and j: "tied k' run j"
  shows "tied k run j \<and> j \<noteq> i"
proof -
  obtain t t' where t: "k i = Some t" "failed_as t t'" "cascaded (k(i \<mapsto> t')) {d. falls (k(i \<mapsto> t')) run i d} k'"
    using top by (auto simp: toppled_def)
  let ?k = "k(i \<mapsto> t')" and ?F = "{d. falls (k(i \<mapsto> t')) run i d}"
  obtain x d e where x: "j \<notin> set run" "k' j = Some x" "tk_status x = StOpen" "d \<in> set (tk_blocked_by x)" "k' d = Some e" "tk_status e = StFailed"
    "j \<in> set (tk_blocks e)"
    using j by (auto simp: tied_def)
  have jF: "j \<notin> ?F"
  proof
    assume "j \<in> ?F"
    then obtain y y' where "k' j = Some y'" "failed_as y y'" using t(3) unfolding cascaded_def by blast
    then show False using failed_asD [of y y'] x(2,3) by simp
  qed
  then have kj: "?k j = Some x" using cascaded_other [OF t(3)] x(2) by metis
  then have ji: "j \<noteq> i" "k j = Some x" using x(3) failed_asD [OF t(2)] by (auto split: if_splits)
  obtain y where y: "?k d = Some y" "tk_blocks y = tk_blocks e" by (rule cascaded_blocks [OF t(3) x(5)])
  have blk: "j \<in> set (tk_blocks y)" using x(7) y(2) by simp
  have can: "can_fall ?k run j" using x(1,3) kj by (auto simp: can_fall_def)
  have "d \<notin> insert i ?F"
  proof
    assume "d \<in> insert i ?F"
    then have "falls ?k run i j" by (rule falls_step [OF _ y(1) blk ji(1) can])
    with jF show False by simp
  qed
  then have "k d = Some e" using cascaded_other [OF t(3), of d] x(5) by auto
  then show ?thesis using x ji by (auto simp: tied_def)
qed

lemma toppled_failed:
  assumes "toppled k run i k'"
  shows "edge_failed k' i" "edge_failed k j \<Longrightarrow> edge_failed k' j" "k' j = k j \<or> edge_failed k' j"
proof -
  obtain t t' where t: "k i = Some t" "failed_as t t'" "cascaded (k(i \<mapsto> t')) {d. falls (k(i \<mapsto> t')) run i d} k'"
    using assms by (auto simp: toppled_def)
  have fell: "edge_failed k' j" if "falls (k(i \<mapsto> t')) run i j" for j
    using t(3) that failed_asD unfolding cascaded_def edge_failed_def by blast
  have same: "k' j = (k(i \<mapsto> t')) j" if "\<not> falls (k(i \<mapsto> t')) run i j" for j using cascaded_other [OF t(3)] that by blast
  show i: "edge_failed k' i"
    using fell [of i] same [of i] failed_asD [OF t(2)] by (cases "falls (k(i \<mapsto> t')) run i i") (simp_all add: edge_failed_def)
  show j: "k' j = k j \<or> edge_failed k' j" for j
    using fell [of j] same [of j] i by (cases "j = i"; cases "falls (k(i \<mapsto> t')) run i j") simp_all
  show "edge_failed k' j" if "edge_failed k j" using that j [of j] by (auto simp: edge_failed_def)
qed

lemma toppled_stranded:
  assumes top: "toppled k run i k'" and j: "stranded k run j"
  shows "edge_failed k' j \<or> stranded k' run j"
proof -
  obtain x d where x: "j \<notin> set run" "k j = Some x" "tk_status x = StOpen" "d \<in> set (tk_blocked_by x)" "edge_failed k d"
    using j by (auto simp: stranded_def edge_failed_def)
  from toppled_failed(2) [OF top x(5)] obtain e where "k' d = Some e" "tk_status e = StFailed" by (auto simp: edge_failed_def)
  with toppled_failed(3) [OF top, of j] x show ?thesis by (auto simp: stranded_def)
qed

section \<open>Rules for the rest of the scheduler\<close>

lemma sched_pre: "(\<And>s. sd_at run live k s \<Longrightarrow> sched run live k m Q) \<Longrightarrow> sched run live k m Q"
  unfolding triple_def by auto

lemma sched_ids: "sd_at run live k s \<Longrightarrow> k i = Some t \<Longrightarrow> tk_id t = i"
  using ticket_map_Some(1) by (auto simp: sd_at_def sd_inv_def)

lemma bind_ret_right: "bind_act m ret = m"
  by (rule ext) (simp add: bind_act_def ret_def split: prod.split sum.split)

lemma st_last: "sched run live k (bind_act m ret) Q \<Longrightarrow> sched run live k m Q"
  by (simp add: bind_ret_right)

lemma st_modify:
  assumes "\<And>s. sd_world (g s) = sd_world s" "\<And>s. sd_running (g s) = sd_running s" "\<And>s. sd_live (g s) = sd_live s"
    and "sched run live k (f ()) Q"
  shows "sched run live k (bind_act (modify g) f) Q"
  by (rule st_quiet [where g = g]) (use assms in \<open>simp_all add: modify_def\<close>)

lemma listed_tickets:
  assumes "ticket_inv (ts_coll (w_tickets w))"
  obtains ts where "list_tickets en w = (Inr ts, w)" "set ts = ran (kmap w)"
proof -
  obtain ts where ts: "to_models (\<lambda>d. validate_ticket (en_draws en d) d) (find_docs None (ts_coll (w_tickets w))) = Inr ts"
    "set ts = {m. \<exists>i d. map_of (st_docs (ts_coll (w_tickets w))) i = Some d \<and> validate_ticket (en_draws en d) d = Some m}"
    by (rule coll_find [OF ticket_inv_coll [OF assms]])
  have "set ts = ran (kmap w)"
  proof
    show "set ts \<subseteq> ran (kmap w)"
    proof
      fix m assume "m \<in> set ts"
      then obtain i d where d: "map_of (st_docs (ts_coll (w_tickets w))) i = Some d" "validate_ticket (en_draws en d) d = Some m"
        unfolding ts(2) by blast
      obtain j where "i = JStr j" using coll_invD(3) [OF ticket_inv_coll [OF assms] d(1)] by blast
      with d have "kmap w j = Some m" unfolding ticket_map_doc [OF assms, of j m "en_draws en d"] by blast
      then show "m \<in> ran (kmap w)" by (rule ranI)
    qed
    show "ran (kmap w) \<subseteq> set ts"
    proof
      fix m assume "m \<in> ran (kmap w)"
      then obtain j where j: "kmap w j = Some m" by (auto simp: ran_def)
      then obtain d where d: "map_of (st_docs (ts_coll (w_tickets w))) (JStr j) = Some d"
        unfolding ticket_map_doc [OF assms, of j m "no_draws []"] by blast
      then obtain t' where "\<forall>cx. validate_ticket cx d = Some t'" using ticket_doc [OF assms d] by blast
      moreover have "m = t'" using calculation j d by (simp add: ticket_map_def models_def)
      ultimately show "m \<in> set ts" unfolding ts(2) using d by blast
    qed
  qed
  with ts(1) show thesis by (intro that [of ts]) (simp_all add: list_tickets_def list_all_tickets_def tc_find_def)
qed

lemma st_list:
  assumes "\<And>ts. set ts = ran k \<Longrightarrow> sched run live k (f ts) Q"
  shows "sched run live k (bind_act (on_sd_world (list_tickets en)) f) Q"
proof (rule st_world [where R = "\<lambda>ts. set ts = ran k" and k' = k])
  fix w assume w: "ticket_inv (ts_coll (w_tickets w))" "kmap w = k"
  obtain ts where "list_tickets en w = (Inr ts, w)" "set ts = ran (kmap w)" by (rule listed_tickets [OF w(1)])
  with w show "case list_tickets en w of (Inl _, w') \<Rightarrow> ticket_inv (ts_coll (w_tickets w'))
      | (Inr x, w') \<Rightarrow> set x = ran k \<and> ticket_inv (ts_coll (w_tickets w')) \<and> kmap w' = k" by simp
qed (rule assms)

lemma analyzer_effect: "sched run live k (maybe_run_analyzer cf en) (\<lambda>_. sd_at run live k)"
proof -
  have last: "sched run live k (modify (\<lambda>s. s\<lparr>sd_analyses := sd_analyses s + 1\<rparr>)) (\<lambda>_. sd_at run live k)"
    by (intro st_last [OF st_modify] st_ret) simp_all
  have go: "sched run live k (bind_act (inspect sd_terminal) (\<lambda>last.
      if X = last then ret () else bind_act (modify (\<lambda>s. s\<lparr>sd_terminal := X\<rparr>)) (\<lambda>_.
      bind_act (emit cf ty e) (\<lambda>_. modify (\<lambda>s. s\<lparr>sd_analyses := sd_analyses s + 1\<rparr>))))) (\<lambda>_. sd_at run live k)" for X ty e
    by (intro st_inspect triple_if st_modify st_emit st_ret last) simp_all
  show ?thesis unfolding maybe_run_analyzer_def Let_def
    by (intro st_running triple_if st_ret st_list go) simp_all
qed

section \<open>The sweep\<close>

definition pending :: "(string \<Rightarrow> ticket option) \<Rightarrow> string list \<Rightarrow> string set \<Rightarrow> (string \<Rightarrow> ticket option) \<Rightarrow> bool" where
  \<comment> \<open>of the sweep that began with \<open>k0\<close>, with these tickets to go: no other one is tied to a failure, and each one that was stranded
     at the start has failed or is still to come\<close>
  "pending k0 run X k \<longleftrightarrow> same_edges k0 k \<and> (\<forall>i. tied k run i \<longrightarrow> i \<in> X) \<and>
     (\<forall>i. stranded k0 run i \<longrightarrow> edge_failed k i \<or> stranded k run i \<and> i \<in> X)"

lemma pending_skip: "pending k0 run (insert i X) k \<Longrightarrow> \<not> stranded k run i \<Longrightarrow> pending k0 run X k"
  using tied_stranded [of k run i] unfolding pending_def by blast

lemma pending_topple:
  assumes "pending k0 run (insert i X) k" "toppled k run i k'"
  shows "pending k0 run X k'"
proof -
  from assms(1) have p: "same_edges k0 k" "\<And>j. tied k run j \<Longrightarrow> j \<in> insert i X"
    "\<And>j. stranded k0 run j \<Longrightarrow> edge_failed k j \<or> stranded k run j \<and> j \<in> insert i X" unfolding pending_def by blast+
  have "same_edges k0 k'" using p(1) toppled_edges [OF assms(2)] unfolding same_edges_def by metis
  moreover have "tied k' run j \<Longrightarrow> j \<in> X" for j using toppled_tied [OF assms(2)] p(2) by blast
  moreover have "edge_failed k' j \<or> stranded k' run j \<and> j \<in> X" if "stranded k0 run j" for j
    using p(3) [OF that] toppled_failed(1,2) [OF assms(2)] toppled_stranded [OF assms(2)] by blast
  ultimately show ?thesis unfolding pending_def by blast
qed

lemma sweep_stale_effect:
  assumes "pending k0 run (tk_id ` set ts) k"
  shows "sched run live k (sweep_stale cf en ts b) (\<lambda>_ s. \<exists>k'. sd_at run live k' s \<and> pending k0 run {} k')"
    (is "sched run live k _ ?Q")
  using assms
proof (induction ts arbitrary: k b)
  case Nil
  then show ?case by (auto intro!: st_ret)
next
  case (Cons stale ts)
  have p: "pending k0 run (insert (tk_id stale) (tk_id ` set ts)) k" using Cons.prems by simp
  have skip: "sched run live k (sweep_stale cf en ts b) ?Q" if "\<not> stranded k run (tk_id stale)"
    by (rule Cons.IH [OF pending_skip [OF p that]])
  show ?case
  proof (rule sched_pre)
    fix s0 assume s0: "sd_at run live k s0"
    have id: "tk_id t = tk_id stale" if "k (tk_id stale) = Some t" for t by (rule sched_ids [OF s0 that])
    have none: "sched run live k (sweep_stale cf en ts b) ?Q" if "k (tk_id stale) = None"
      by (rule skip) (simp add: stranded_def that)
    have busy: "sched run live k (sweep_stale cf en ts b) ?Q"
      if "k (tk_id stale) = Some t" "tk_status t \<noteq> StOpen \<or> tk_id t \<in> set run" for t
      using that id [OF that(1)] by (intro skip) (auto simp: stranded_def)
    have free: "sched run live k (sweep_stale cf en ts b) ?Q"
      if "k (tk_id stale) = Some t" "find (\<lambda>d. \<exists>e. k d = Some e \<and> tk_status e = StFailed) (tk_blocked_by t) = None" for t
      using that by (intro skip) (auto simp: stranded_def find_None_iff)
    have fail: "sched run live k (bind_act (cascade_fail_unreachable_ticket cf en t d) (\<lambda>_. sweep_stale cf en ts True)) ?Q"
      if t: "k (tk_id stale) = Some t" for t d
    proof (rule triple_bind [OF unreachable_effect])
      show "k (tk_id t) = Some t" using t id [OF t] by simp
      show "triple (\<lambda>s. \<exists>k'. sd_at run live k' s \<and> toppled k run (tk_id t) k') (sweep_stale cf en ts True) ?Q (sd_any run live)"
      proof (rule triple_weaken [OF triple_some [where R = "toppled k run (tk_id t)" and P = "sd_at run live"]])
        fix k' assume top: "toppled k run (tk_id t) k'"
        show "sched run live k' (sweep_stale cf en ts True) ?Q"
          by (rule Cons.IH [OF pending_topple [OF p top [unfolded id [OF t]]]])
      qed auto
    qed
    show "sched run live k (sweep_stale cf en (stale # ts) b) ?Q"
      unfolding sweep_stale.simps
      by (intro st_get st_running triple_option triple_if st_first_failed) (simp_all add: none busy free fail)
  qed
qed

lemma sweep_effect_tickets:
  "sched run live k (sweep_failed_dependencies cf en) (\<lambda>_ s. \<exists>k'. sd_at run live k' s \<and> pending k run {} k')"
proof (rule sched_pre)
  fix s0 assume s0: "sd_at run live k s0"
  show "sched run live k (sweep_failed_dependencies cf en) (\<lambda>_ s. \<exists>k'. sd_at run live k' s \<and> pending k run {} k')"
    unfolding sweep_failed_dependencies_def
  proof (rule st_list)
    fix ts assume ts: "set ts = ran k"
    have all: "i \<in> tk_id ` set ts" if i: "stranded k run i" for i
    proof -
      obtain t where t: "k i = Some t" using i by (auto simp: stranded_def)
      with sched_ids [OF s0 t] show ?thesis unfolding ts by (auto intro!: rev_image_eqI ranI)
    qed
    then have start: "pending k run (tk_id ` set ts) k" using tied_stranded unfolding pending_def same_edges_def by blast
    show "sched run live k (bind_act (sweep_stale cf en ts False) (\<lambda>b. if b then maybe_run_analyzer cf en else ret ()))
        (\<lambda>_ s. \<exists>k'. sd_at run live k' s \<and> pending k run {} k')"
    proof (rule triple_bind [OF sweep_stale_effect [OF start]])
      fix b
      show "triple (\<lambda>s. \<exists>k'. sd_at run live k' s \<and> pending k run {} k') (if b then maybe_run_analyzer cf en else ret ())
          (\<lambda>_ s. \<exists>k'. sd_at run live k' s \<and> pending k run {} k') (sd_any run live)"
      proof (rule triple_weaken [OF triple_some [where R = "pending k run {}" and P = "sd_at run live"]])
        fix k' assume k': "pending k run {} k'"
        show "sched run live k' (if b then maybe_run_analyzer cf en else ret ())
            (\<lambda>_ s. \<exists>k'. sd_at run live k' s \<and> pending k run {} k')"
          by (intro triple_if st_weaken [OF analyzer_effect] st_ret) (use k' in auto)
      qed auto
    qed
  qed
qed

section \<open>Scheduling one ticket\<close>

definition edge_resolved :: "(string \<Rightarrow> ticket option) \<Rightarrow> string \<Rightarrow> bool" where
  "edge_resolved k d \<longleftrightarrow> (\<exists>e. k d = Some e \<and> tk_status e = StResolved)"

definition edge_verdict :: "(string \<Rightarrow> ticket option) \<Rightarrow> string list \<Rightarrow> dependencies" where
  "edge_verdict k ds = (case find (\<lambda>d. \<not> edge_resolved k d) ds of None \<Rightarrow> Satisfied
   | Some d \<Rightarrow> if edge_failed k d then FailedOn d else Waiting)"

lemma satisfied_iff: "edge_verdict k ds = Satisfied \<longleftrightarrow> (\<forall>d \<in> set ds. edge_resolved k d)"
  by (induction ds) (simp_all add: edge_verdict_def)

lemma check_is:
  assumes "ticket_inv (ts_coll (w_tickets w))"
  shows "check_dependencies en ds w = (Inr (edge_verdict (kmap w) ds), w)"
  by (induction ds) (auto simp: edge_verdict_def edge_resolved_def edge_failed_def bind_act_def ret_def get_now [OF assms] split: option.split)

lemma st_check:
  assumes "sched run live k (f (edge_verdict k ds)) Q"
  shows "sched run live k (bind_act (on_sd_world (check_dependencies en ds)) f) Q"
  by (rule st_world [where R = "\<lambda>x. x = edge_verdict k ds" and k' = k]) (use assms in \<open>simp_all add: check_is\<close>)

text \<open>What \<open>_handle_schedule\<close> comes to, from the tickets and the running ones alone.\<close>

datatype schedule_choice = Start ticket | Topple | Leave

definition decide :: "(string \<Rightarrow> ticket option) \<Rightarrow> string list \<Rightarrow> string \<Rightarrow> schedule_choice" where
  "decide k run i = (case k i of None \<Rightarrow> Leave
   | Some t \<Rightarrow> if i \<in> set run \<or> tk_workflow t = ''thread'' then Leave
       else case edge_verdict k (tk_blocked_by t) of Satisfied \<Rightarrow> Start t | FailedOn d \<Rightarrow> Topple | Waiting \<Rightarrow> Leave)"

lemma decide_start:
  "decide k run i = Start t \<longleftrightarrow> i \<notin> set run \<and> k i = Some t \<and> tk_workflow t \<noteq> ''thread'' \<and> (\<forall>d \<in> set (tk_blocked_by t). edge_resolved k d)"
  unfolding satisfied_iff [symmetric] decide_def by (auto split: option.splits dependencies.splits)

definition scheduled :: "string list \<Rightarrow> string list \<Rightarrow> (string \<Rightarrow> ticket option) \<Rightarrow> string \<Rightarrow> scheduler \<Rightarrow> bool" where
  "scheduled run live k i s \<longleftrightarrow> (case decide k run i of
     Start t \<Rightarrow> \<exists>now. sd_at (run @ [i]) (live @ [i]) (k(i \<mapsto> t\<lparr>tk_status := StInProgress, tk_updated_at := now\<rparr>)) s
   | Topple \<Rightarrow> \<exists>k'. sd_at run live k' s \<and> toppled k run i k'
   | Leave \<Rightarrow> sd_at run live k s)"

lemma schedule_effect: "sched run live k (handle_schedule cf en i) (\<lambda>_. scheduled run live k i)"
proof (rule sched_pre)
  fix s0 assume s0: "sd_at run live k s0"
  have leave: "sched run live k (ret ()) (\<lambda>_. scheduled run live k i)" if "decide k run i = Leave"
    by (rule st_ret) (simp add: scheduled_def that)
  have start: "sched run live k (bind_act (update_ticket_status en i StInProgress) (\<lambda>_. bind_act (emit cf ty d) (\<lambda>_. start_task i)))
      (\<lambda>_. scheduled run live k i)" if "decide k run i = Start t" "k i = Some t" "i \<notin> set run" for t ty d
  proof (rule st_status [where x = t])
    show "k i = Some t" by (rule that(2))
    fix now
    show "sched run live (k(i \<mapsto> t\<lparr>tk_status := StInProgress, tk_updated_at := now\<rparr>)) (bind_act (emit cf ty d) (\<lambda>_. start_task i))
        (\<lambda>_. scheduled run live k i)"
      by (rule st_emit) (use that in \<open>auto simp: triple_def start_task_def modify_def scheduled_def sd_at_def sd_inv_def\<close>)
  qed simp
  have topple: "sched run live k (bind_act (cascade_fail_unreachable_ticket cf en t d) (\<lambda>_. maybe_run_analyzer cf en))
      (\<lambda>_. scheduled run live k i)" if "decide k run i = Topple" "k i = Some t" for t d
  proof (rule triple_bind [OF unreachable_effect])
    have id: "tk_id t = i" by (rule sched_ids [OF s0 that(2)])
    then show "k (tk_id t) = Some t" using that(2) by simp
    show "triple (\<lambda>s. \<exists>k'. sd_at run live k' s \<and> toppled k run (tk_id t) k') (maybe_run_analyzer cf en) (\<lambda>_. scheduled run live k i) (sd_any run live)"
    proof (rule triple_weaken [OF triple_some [where R = "toppled k run (tk_id t)" and P = "sd_at run live"]])
      fix k' assume "toppled k run (tk_id t) k'"
      then show "sched run live k' (maybe_run_analyzer cf en) (\<lambda>_. scheduled run live k i)"
        by (intro st_weaken [OF analyzer_effect]) (auto simp: scheduled_def that(1) id)
    qed auto
  qed
  have deps: "sched run live k (case edge_verdict k (tk_blocked_by t) of
        Satisfied \<Rightarrow> bind_act (update_ticket_status en i StInProgress) (\<lambda>_. bind_act (emit cf ty (e t)) (\<lambda>_. start_task i))
      | FailedOn d \<Rightarrow> bind_act (cascade_fail_unreachable_ticket cf en t d) (\<lambda>_. maybe_run_analyzer cf en)
      | Waiting \<Rightarrow> ret ()) (\<lambda>_. scheduled run live k i)"
    if "k i = Some t" "i \<notin> set run" "tk_workflow t \<noteq> ''thread''" for t ty e
    using that leave start [OF _ that(1,2)] topple [OF _ that(1)]
    by (cases "edge_verdict k (tk_blocked_by t)") (simp_all add: decide_def)
  show "sched run live k (handle_schedule cf en i) (\<lambda>_. scheduled run live k i)"
    unfolding handle_schedule_def
    by (intro st_running triple_if st_get triple_option st_check leave deps) (auto simp: decide_def split: option.split)
qed

section \<open>The capacity\<close>

definition paired :: "scheduler \<Rightarrow> bool" where
  \<comment> \<open>one task for each running ticket\<close>
  "paired s \<longleftrightarrow> sd_inv s \<and> distinct (sd_running s) \<and> sd_live s = sd_running s"

lemma schedule_paired:
  assumes "paired s" "length (sd_running s) < n"
  shows "case handle_schedule cf en i s of (Inl _, s') \<Rightarrow> sd_running s' = sd_running s \<and> sd_live s' = sd_live s \<and> sd_inv s'
    | (Inr _, s') \<Rightarrow> paired s' \<and> length (sd_running s') \<le> n"
proof -
  obtain r s' where r: "handle_schedule cf en i s = (r, s')" by fastforce
  from tripleD [OF schedule_effect sd_at_start r] assms show ?thesis
    by (auto simp: r paired_def scheduled_def sd_at_def sd_any_def decide_def split: sum.splits schedule_choice.splits option.splits if_splits dependencies.splits)
qed

lemma start_each_paired:
  assumes "sg_max_parallel cf = Some n" "int (length (sd_running s)) \<le> max n c" "paired s"
  shows "case start_each cf en ts s of (_, s') \<Rightarrow> paired s' \<and> int (length (sd_running s')) \<le> max n c"
  using assms(2,3)
proof (induction ts arbitrary: s)
  case Nil
  then show ?case by (simp add: ret_def)
next
  case (Cons t ts)
  consider "at_capacity cf (sd_running s)" | "\<not> at_capacity cf (sd_running s)" "tk_id t \<in> set (sd_running s)"
    | "\<not> at_capacity cf (sd_running s)" "tk_id t \<notin> set (sd_running s)" by blast
  then show ?case
  proof cases
    case 3
    obtain r s' where r: "handle_schedule cf en (tk_id t) s = (r, s')" by fastforce
    have "int (length (sd_running s)) < n" using 3(1) assms(1) by (simp add: at_capacity_def)
    then have "length (sd_running s) < nat n" by linarith
    from schedule_paired [OF Cons.prems(2) this, of cf en "tk_id t"] r
    show ?thesis using 3 Cons.prems Cons.IH [of s'] \<open>int (length (sd_running s)) < n\<close>
      by (cases r) (auto simp: bind_act_def inspect_def paired_def)
  qed (use Cons in \<open>simp_all add: bind_act_def inspect_def ret_def\<close>)
qed

lemma ready_paired:
  assumes "sg_max_parallel cf = Some n" "paired s"
  shows "case start_ready_tickets cf en s of (_, s') \<Rightarrow> paired s' \<and> int (length (sd_running s')) \<le> max n (int (length (sd_running s)))"
proof -
  obtain r where r: "on_sd_world (ready_tickets cf en) s = (r, s)"
    by (simp add: on_sd_world_def zoom_def ready_tickets_def)
  show ?thesis
  proof (cases r)
    case (Inr ts)
    with start_each_paired [OF assms(1) _ assms(2), of "int (length (sd_running s))" en ts] r show ?thesis
      by (simp add: start_ready_tickets_def bind_act_def)
  qed (use r assms(2) in \<open>simp add: start_ready_tickets_def bind_act_def\<close>)
qed

section \<open>The state of the reviews of a ticket\<close>

lemma delete_clears: "map_of (sd_survival (clear_phase_persistence key s)) k = (if k = key then None else map_of (sd_survival s) k)"
  "map_of (sd_prev_keys (clear_phase_persistence key s)) k = (if k = key then None else map_of (sd_prev_keys s) k)"
  by (simp_all add: clear_phase_persistence_def AList.delete_conv)

lemma fold_clears:
  "map_of (sd_survival (fold clear_phase_persistence ks s)) k = (if k \<in> set ks then None else map_of (sd_survival s) k)"
  "map_of (sd_prev_keys (fold clear_phase_persistence ks s)) k = (if k \<in> set ks then None else map_of (sd_prev_keys s) k)"
  by (induction ks arbitrary: s) (simp_all add: delete_clears)

text \<open>
  What is remembered of the reviews of a failed ticket is forgotten, for all of its phases, and
  what is remembered of any other ticket is kept, so that a retry in the same process does not count
  findings of the run before.
\<close>
theorem retry_starts_fresh:
  "map_of (sd_survival (clear_ticket_persistence i s)) (j, ph) = (if j = i then None else map_of (sd_survival s) (j, ph)) \<and>
   map_of (sd_prev_keys (clear_ticket_persistence i s)) (j, ph) = (if j = i then None else map_of (sd_prev_keys s) (j, ph))"
proof -
  have "map_of (sd_survival s) (j, ph) = None" if "(j, ph) \<notin> set (keys (sd_survival s))" using that by (simp add: map_of_eq_None_iff)
  moreover have "map_of (sd_prev_keys s) (j, ph) = None" if "(j, ph) \<notin> set (keys (sd_prev_keys s))" using that by (simp add: map_of_eq_None_iff)
  ultimately show ?thesis unfolding clear_ticket_persistence_def fold_clears by auto
qed

section \<open>Properties\<close>

text \<open>
  C18: The failure cascade ends, whatever cycles the edges between tickets make: the search queues each
  stored ticket at most once, so one unit of fuel for each of them and one for the root is enough.
\<close>
theorem cascade_terminates:
  assumes "sd_inv s" "stored_tickets (sd_world s) < f"
  shows "fst (cascade_loop cf en blame f [root] [root] s) \<noteq> Inr None"
proof -
  have fin: "finite (dom (smap s))" "card (dom (smap s)) + 1 \<le> f + card (expanded root {} [root])"
    using assms(2) stored_card [of "sd_world s"] stored_finite(1) by (simp_all add: expanded_def)
  obtain r s' where r: "cascade_loop cf en blame f [root] [root] s = (r, s')" by fastforce
  from tripleD [OF cascade_loop_effect [OF search_start cascaded_none fin] sd_at_start [OF assms(1)] r] r
  show ?thesis by (cases r) auto
qed

text \<open>
  C17: When a ticket fails, the tickets that the cascade fails, each with its reason, are exactly the
  open ones that do not run and are reached from it over the recorded edges through such tickets; no
  other ticket changes.
\<close>
theorem cascade_exact:
  assumes "sd_inv s" "cascade_fail_dependents cf en root b s = (Inr (), s')"
  shows "sd_inv s' \<and> sd_running s' = sd_running s \<and>
    (\<forall>i. if falls (smap s) (sd_running s) root i
         then \<exists>t t'. smap s i = Some t \<and> smap s' i = Some t' \<and> failed_as t t'
         else smap s' i = smap s i)"
  using tripleD [OF cascade_effect sd_at_start [OF assms(1)] assms(2)] by (auto simp: sd_at_def cascaded_def)

text \<open>
  Blame always finds an origin: the walk from a failed dependency ends and follows, at each
  ticket that a dependency failed, its first failed dependency, up to a ticket with no such cause, or
  one that is its own cause.
\<close>
theorem root_failure_found:
  assumes "ticket_inv (ts_coll (w_tickets w))"
  shows "\<exists>r. resolve_root_failure en d w = (Inr r, w) \<and> (d, r) \<in> (blames (kmap w))\<^sup>* \<and>
    (next_blame (kmap w) r = None \<or> (r, r) \<in> (blames (kmap w))\<^sup>+)"
  by (rule root_failure_total [OF assms]) blast

text \<open>
  C19: A sweep that succeeds leaves no ticket behind.  Every open ticket that does not run and waits for a failed one when it
  begins has failed when it ends, whatever the order in which it met the tickets and the cascades it started.  What still waits
  for a failed ticket then, fell behind during the sweep, over edges that the failed ticket does not record among
  those it blocks; where all edges are recorded on both ends, nothing does.
\<close>
theorem sweep_complete:
  assumes "sd_inv s" "sweep_failed_dependencies cf en s = (Inr (), s')"
  shows "sd_running s' = sd_running s \<and>
    (\<forall>i. stranded (smap s) (sd_running s) i \<longrightarrow> edge_failed (smap s') i) \<and>
    (\<forall>i. \<not> tied (smap s') (sd_running s') i) \<and>
    (both_ends (smap s) \<longrightarrow> (\<forall>i. \<not> stranded (smap s') (sd_running s') i))"
proof -
  have p: "sd_running s' = sd_running s" "pending (smap s) (sd_running s) {} (smap s')"
    using tripleD [OF sweep_effect_tickets sd_at_start [OF assms(1)] assms(2)] by (auto simp: sd_at_def)
  from p(2) have "both_ends (smap s) \<Longrightarrow> both_ends (smap s')" using both_ends_same by (auto simp: pending_def)
  with p stranded_tied [of "smap s'" "sd_running s'"] show ?thesis unfolding pending_def by auto
qed

lemma schedule_starts:
  assumes "sd_inv s" "handle_schedule cf en i s = (Inr (), s')"
  shows "if i \<notin> set (sd_running s) \<and> (\<exists>t. smap s i = Some t \<and> tk_workflow t \<noteq> ''thread'' \<and> (\<forall>d \<in> set (tk_blocked_by t). edge_resolved (smap s) d))
    then sd_live s' = sd_live s @ [i] \<and> sd_running s' = sd_running s @ [i] \<and>
      (\<exists>t t'. smap s i = Some t \<and> smap s' = (smap s)(i \<mapsto> t') \<and> tk_status t' = StInProgress \<and> tk_blocked_by t' = tk_blocked_by t)
    else sd_live s' = sd_live s \<and> sd_running s' = sd_running s"
proof -
  have "scheduled (sd_running s) (sd_live s) (smap s) i s'"
    using tripleD [OF schedule_effect sd_at_start [OF assms(1)] assms(2)] by simp
  then show ?thesis
  proof (cases "decide (smap s) (sd_running s) i")
    case (Start t)
    with \<open>scheduled _ _ _ i s'\<close> obtain now where
      "sd_at (sd_running s @ [i]) (sd_live s @ [i]) ((smap s)(i \<mapsto> t\<lparr>tk_status := StInProgress, tk_updated_at := now\<rparr>)) s'"
      by (auto simp: scheduled_def)
    with Start [unfolded decide_start] show ?thesis
      by (simp add: sd_at_def) (intro exI [of _ "t\<lparr>tk_status := StInProgress, tk_updated_at := now\<rparr>"], simp)
  qed (use decide_start [of "smap s" "sd_running s" i] in \<open>auto simp: scheduled_def sd_at_def\<close>)
qed

text \<open>
  C20: Scheduling a ticket that is open, or not stored, starts one task for it exactly when it is stored, does not run, is not a
  thread and all its dependencies are stored and resolved, and then it is in progress; otherwise no task starts.
\<close>
theorem started_iff_ready:
  assumes "sd_inv s" "handle_schedule cf en i s = (Inr (), s')"
    and "smap s i = None \<or> (\<exists>t. smap s i = Some t \<and> tk_status t = StOpen)"
  shows "if i \<notin> set (sd_running s) \<and> (\<exists>t. smap s i = Some t \<and> tk_workflow t \<noteq> ''thread'' \<and> (\<forall>d \<in> set (tk_blocked_by t). edge_resolved (smap s) d))
    then sd_live s' = sd_live s @ [i] \<and> sd_running s' = sd_running s @ [i] \<and>
      (\<exists>t t'. smap s i = Some t \<and> smap s' = (smap s)(i \<mapsto> t') \<and> tk_status t' = StInProgress \<and> tk_blocked_by t' = tk_blocked_by t)
    else sd_live s' = sd_live s \<and> sd_running s' = sd_running s"
  by (rule schedule_starts [OF assms(1,2)])

text \<open>
  A scan of the ready tickets respects \<open>max_parallel\<close>: with one task for each running ticket
  before it, there is one for each after it, and the running tickets are at most the limit, or as many as before.
\<close>
theorem ready_scan_bounded:
  assumes "sg_max_parallel cf = Some n" "paired s" "start_ready_tickets cf en s = (r, s')"
  shows "paired s' \<and> int (length (sd_running s')) \<le> max n (int (length (sd_running s)))"
  using ready_paired [OF assms(1,2), of en] assms(3) by simp

lemma count_once: "distinct xs \<Longrightarrow> x \<in> set xs \<Longrightarrow> count_list xs x = 1"
  by (induction xs) (auto simp: count_list_0_iff)

text \<open>
  A message that a running ticket is open again forgets its task and starts another, so the
  ticket, when its dependencies are resolved, has two.
\<close>
theorem reopened_runs_twice:
  assumes "paired s" "i \<in> set (sd_running s)" "smap s i = Some t" "tk_workflow t \<noteq> ''thread''"
    and "\<forall>d \<in> set (tk_blocked_by t). edge_resolved (smap s) d" "i \<noteq> []"
    and "service_message cf en [(''kind'', JStr ''ticket_updated''), (''ticket_id'', JStr i), (''status'', JStr ''open'')] s = (Inr (), s')"
  shows "count_list (sd_live s') i = 2"
proof -
  let ?s = "s\<lparr>sd_running := removeAll i (sd_running s)\<rparr>"
  have h: "handle_schedule cf en i ?s = (Inr (), s')"
    using assms(6,7) by (simp add: service_message_def bind_act_def forget_running_def modify_def)
  have inv: "sd_inv ?s" using assms(1) by (simp add: paired_def sd_inv_def)
  have "decide (smap ?s) (sd_running ?s) i = Start t" using assms(3-5) by (simp add: decide_start)
  with tripleD [OF schedule_effect sd_at_start [OF inv] h] have "sd_live s' = sd_live s @ [i]"
    by (auto simp: scheduled_def sd_at_def)
  moreover have "count_list (sd_live s) i = 1"
    using assms(1,2) by (simp add: paired_def count_once)
  ultimately show ?thesis by simp
qed

lemma same_world: "sd_world x = w \<Longrightarrow> x\<lparr>sd_world := w\<rparr> = x"
  by (cases x) simp

text \<open>
  C37: The project is reported complete only when no ticket runs and every stored ticket that
  counts has ended, and only once for the same tickets.
\<close>
theorem completion_sound:
  assumes "sd_inv s" "maybe_run_analyzer cf en s = (Inr (), s')" "sd_analyses s' \<noteq> sd_analyses s"
  shows "sd_running s = [] \<and> (\<forall>i t. smap s i = Some t \<longrightarrow> tk_status t \<in> {StResolved, StClosed, StFailed} \<or> \<not> counts_toward_completion t) \<and>
    sd_terminal s' = dom (smap s) \<and> maybe_run_analyzer cf en s' = (Inr (), s')"
proof -
  have w: "ticket_inv (ts_coll (w_tickets (sd_world s)))" using assms(1) by (simp add: sd_inv_def)
  obtain ts where ts: "list_tickets en (sd_world s) = (Inr ts, sd_world s)" "set ts = ran (smap s)" by (rule listed_tickets [OF w])
  have ids: "tk_id ` set ts = dom (smap s)"
    using ticket_map_Some(1) [OF w] by (force simp: ts(2) ran_def dom_def image_def)
  let ?open = "list_ex (\<lambda>t. tk_status t \<in> set non_terminal \<and> counts_toward_completion t) ts"
  let ?quiet = "\<lambda>x. sd_running x \<noteq> [] \<or> ts = [] \<or> ?open \<or> dom (smap s) = sd_terminal x"
  have quiet: "maybe_run_analyzer cf en x = (Inr (), x)" if "sd_world x = sd_world s" "?quiet x" for x
    using that ts(1) same_world [OF that(1)]
    by (auto simp: maybe_run_analyzer_def bind_act_def inspect_def on_sd_world_def zoom_def ret_def ids [symmetric])
  have fires: "\<exists>g. maybe_run_analyzer cf en s = (Inr (), g) \<and>
      sd_terminal g = dom (smap s) \<and> sd_running g = sd_running s \<and> sd_world g = sd_world s" if "\<not> ?quiet s"
    using that ts(1) same_world [of s, OF refl]
    by (auto simp: maybe_run_analyzer_def bind_act_def inspect_def on_sd_world_def zoom_def modify_def ret_def emit_def ids [symmetric])
  have nq: "\<not> ?quiet s" using quiet [of s] assms(2,3) by auto
  with fires assms(2) have c: "sd_running s = []" "\<not> ?open" "sd_terminal s' = dom (smap s)" "sd_world s' = sd_world s" by auto
  have again: "maybe_run_analyzer cf en s' = (Inr (), s')" by (rule quiet) (simp_all add: c)
  have "tk_status t \<in> {StResolved, StClosed, StFailed} \<or> \<not> counts_toward_completion t" if "smap s i = Some t" for i t
    using c(2) ranI [of "smap s" i t] that by (cases "tk_status t") (auto simp: list_ex_iff ts(2) non_terminal_def)
  with c again show ?thesis by auto
qed

text \<open>
  The limit is one of the ready scan only: an open dependent of a completed ticket whose
  dependencies are resolved is started, however many tickets run.
\<close>
theorem unblock_ignores_limit:
  assumes "sd_inv s" "at_capacity cf (sd_running s)" "smap s b = Some t" "tk_status t = StOpen" "tk_workflow t \<noteq> ''thread''"
    and "b \<notin> set (sd_running s) \<and> (\<forall>d \<in> set (tk_blocked_by t). edge_resolved (smap s) d)"
    and "unblock_dependents cf en [b] s = (Inr (), s')"
  shows "sd_running s' = sd_running s @ [b]"
proof -
  have get: "on_sd_world (get_ticket en b) s = (Inr (Some t), s)"
    using get_now [of "sd_world s" en b] assms(1,3) same_world [of s, OF refl] by (simp add: on_sd_world_def zoom_def sd_inv_def)
  obtain r x where h: "handle_schedule cf en b s = (r, x)" by fastforce
  have "r = Inr () \<and> x = s'"
    using assms(4,7) by (cases r) (simp_all add: bind_act_def get h ret_def)
  with h have h: "handle_schedule cf en b s = (Inr (), s')" by simp
  have "decide (smap s) (sd_running s) b = Start t" using assms(3,5,6) by (simp add: decide_start)
  with tripleD [OF schedule_effect sd_at_start [OF assms(1)] h] show ?thesis by (auto simp: scheduled_def sd_at_def)
qed

section \<open>Witnesses\<close>

text \<open>A store with a ticket \<open>u\<close> that blocks the ticket \<open>v\<close>.\<close>

definition demo_job :: "string \<Rightarrow> ticket_status \<Rightarrow> string list \<Rightarrow> string list \<Rightarrow> ticket" where
  "demo_job i status bs ds = demo_ticket\<lparr>tk_id := i, tk_status := status, tk_key := ''k'', tk_blocks := bs, tk_blocked_by := ds\<rparr>"

definition demo_docs :: "ticket_status \<Rightarrow> ticket_status \<Rightarrow> (json \<times> doc) list" where
  "demo_docs su st = [(JStr ''u'', dump_ticket (demo_job ''u'' su [''v''] [])), (JStr ''v'', dump_ticket (demo_job ''v'' st [] [''u'']))]"

definition demo_jobs :: "ticket_status \<Rightarrow> ticket_status \<Rightarrow> jsonl_store" where
  "demo_jobs su st = (small_store ticket_index)\<lparr>st_docs := demo_docs su st,
     st_file := map (\<lambda>(_, d). JsonLine (JObj (insert_record [] d))) (demo_docs su st),
     st_indexes := fold (\<lambda>(_, d) ix. snd (index_insert ticket_index d ix)) (demo_docs su st) (empty_indexes ticket_index)\<rparr>"

definition demo_scheduler :: "ticket_status \<Rightarrow> ticket_status \<Rightarrow> string list \<Rightarrow> scheduler" where
  "demo_scheduler su st run = \<lparr>sd_world = small_world\<lparr>w_tickets := (w_tickets small_world)\<lparr>ts_coll := demo_jobs su st\<rparr>\<rparr>,
     sd_running = run, sd_live = run, sd_events = [], sd_analytics = [], sd_analyses = 0,
     sd_terminal = {}, sd_stuck_since = None, sd_stuck_for = None, sd_survival = [], sd_prev_keys = [], sd_results = small_store [], sd_draws = 0\<rparr>"

definition demo_limits :: sched_config where
  "demo_limits = \<lparr>sg_emitter = True, sg_analytics = True, sg_max_parallel = Some 1, sg_per_merge = False, sg_work_types = [WDocs]\<rparr>"

lemma demo_job_valid: "ticket_valid (demo_job ''u'' st bs ds)" "ticket_valid (demo_job ''v'' st bs ds)"
proof -
  have "is_safe_path_segment ''u''" "is_safe_path_segment ''v''" by code_simp+
  then show "ticket_valid (demo_job ''u'' st bs ds)" "ticket_valid (demo_job ''v'' st bs ds)"
    using demo_ticket_valid(2) by (simp_all add: demo_job_def ticket_valid_def ticket_ok_def has_required_ac_def)
qed

lemma demo_jobs_inv: "ticket_inv (demo_jobs su st)"
proof -
  have ok: "doc_ok ticket_index (JStr (tk_id t)) (dump_ticket t)" for t
    using tk.insertable_dump [of "small_store ticket_index" t]
    by (simp add: doc_ok_def insertable_def small_store_def new_store_def tk.dump_id)
  have "load_record (insert_record [] (dump_ticket t)) ds live = (None, AList.update (JStr (tk_id t)) (dump_ticket t) ds, set_add (JStr (tk_id t)) live)" for t ds live
    unfolding insert_record_def tk.stored_dump
    by (rule load_insert_record) (use ok [of t] in \<open>simp_all add: doc_ok_def\<close>)
  then have "load_lines (st_file (demo_jobs su st)) [] [] = (None, demo_docs su st, keys (demo_docs su st))"
    by (simp add: demo_jobs_def demo_docs_def set_add_def demo_job_def)
  moreover have "index_ok ticket_index (map_of (demo_docs su st)) (st_indexes (demo_jobs su st))"
  proof -
    let ?u = "demo_job ''u'' su [''v''] []" and ?v = "demo_job ''v'' st [] [''u'']"
    have id: "tk_id ?u = ''u''" "tk_id ?v = ''v''" by (simp_all add: demo_job_def)
    obtain xs where xs: "index_insert ticket_index (dump_ticket ?u) (empty_indexes ticket_index) = (None, xs)"
      "index_ok ticket_index [JStr (tk_id ?u) \<mapsto> dump_ticket ?u] xs"
      by (rule index_insert_ok [OF index_ok_empty _ doc_ok_id [OF ok [of ?u]] doc_ok_hashable [OF ok [of ?u]]]) simp
    obtain ys where ys: "index_insert ticket_index (dump_ticket ?v) xs = (None, ys)"
      "index_ok ticket_index ([JStr (tk_id ?u) \<mapsto> dump_ticket ?u, JStr (tk_id ?v) \<mapsto> dump_ticket ?v]) ys"
      by (rule index_insert_ok [OF xs(2) _ doc_ok_id [OF ok [of ?v]] doc_ok_hashable [OF ok [of ?v]]]) (simp_all add: id)
    then have "ys = st_indexes (demo_jobs su st)" using xs(1) by (simp add: demo_jobs_def demo_docs_def)
    moreover have "map_of (demo_docs su st) = [JStr (tk_id ?u) \<mapsto> dump_ticket ?u, JStr (tk_id ?v) \<mapsto> dump_ticket ?v]"
      by (auto simp: demo_docs_def demo_job_def fun_eq_iff)
    ultimately show ?thesis using ys(2) by simp
  qed
  ultimately have "store_inv (demo_jobs su st)"
    using ok [of "demo_job ''u'' su [''v''] []"] ok [of "demo_job ''v'' st [] [''u'']"]
    by (simp add: store_inv_def demo_jobs_def small_store_def new_store_def) (simp add: demo_docs_def demo_job_def)
  then show ?thesis
    using ticket_roundtrip [OF demo_job_valid(1)] ticket_roundtrip [OF demo_job_valid(2)] current_shape_dump
    by (auto simp: ticket_inv_def coll_inv_def demo_jobs_def demo_docs_def small_store_def new_store_def demo_job_def split: if_splits)
qed

lemma demo_map: "smap (demo_scheduler su st run) = [''v'' \<mapsto> demo_job ''v'' st [] [''u''], ''u'' \<mapsto> demo_job ''u'' su [''v''] []]"
  using ticket_roundtrip [OF demo_job_valid(1)] ticket_roundtrip [OF demo_job_valid(2)]
  by (auto simp: demo_scheduler_def demo_jobs_def ticket_map_def models_def demo_docs_def fun_eq_iff)

lemma demo_inv: "sd_inv (demo_scheduler su st run)"
  using demo_jobs_inv by (simp add: sd_inv_def demo_scheduler_def)

lemma demo_linked: "both_ends (smap (demo_scheduler su st run))"
  unfolding demo_map both_ends_def by (auto simp: demo_job_def demo_ticket_def split: if_splits)

lemma demo_runs: "sd_running (demo_scheduler su st run) = run" "sd_live (demo_scheduler su st run) = run"
  by (simp_all add: demo_scheduler_def)

definition returns :: "'a result \<times> 's \<Rightarrow> bool" where
  "returns x = (case fst x of Inl _ \<Rightarrow> False | Inr _ \<Rightarrow> True)"

lemma returnsD: "returns (x :: unit result \<times> scheduler) \<Longrightarrow> \<exists>s'. x = (Inr (), s')"
  by (cases x) (auto simp: returns_def split: sum.splits)

lemma demo_cascade: "returns (cascade_fail_dependents demo_limits (named_env CHR ''w'') ''u'' None (demo_scheduler StFailed StOpen []))"
  by code_simp

lemma demo_sweep: "returns (sweep_failed_dependencies demo_limits (named_env CHR ''w'') (demo_scheduler StFailed StOpen []))"
  by code_simp

lemma demo_schedule: "returns (handle_schedule demo_limits (named_env CHR ''w'') ''u'' (demo_scheduler StOpen StOpen []))"
  by code_simp

lemma demo_reopen:
  "returns (service_message demo_limits (named_env CHR ''w'')
     [(''kind'', JStr ''ticket_updated''), (''ticket_id'', JStr ''u''), (''status'', JStr ''open'')] (demo_scheduler StFailed StOpen [''u'']))"
  by code_simp

lemma demo_unblock: "returns (unblock_dependents demo_limits (named_env CHR ''w'') [''v''] (demo_scheduler StResolved StOpen [''x'']))"
  by code_simp

lemma demo_complete:
  "case maybe_run_analyzer demo_limits (named_env CHR ''w'') (demo_scheduler StResolved StResolved []) of
     (Inl _, _) \<Rightarrow> False | (Inr _, s') \<Rightarrow> sd_analyses s' = 1"
  by code_simp

theorem cascade_terminates_witness:
  "fst (cascade_loop demo_limits (named_env CHR ''w'') ''u'' 3 [''u''] [''u''] (demo_scheduler StFailed StOpen [])) \<noteq> Inr None"
  by (rule cascade_terminates [OF demo_inv]) (simp add: stored_tickets_def demo_scheduler_def demo_jobs_def demo_docs_def)

theorem cascade_exact_witness:
  "\<exists>s' t'. cascade_fail_dependents demo_limits (named_env CHR ''w'') ''u'' None (demo_scheduler StFailed StOpen []) = (Inr (), s') \<and>
     smap s' ''v'' = Some t' \<and> failed_as (demo_job ''v'' StOpen [] [''u'']) t'"
proof -
  let ?s = "demo_scheduler StFailed StOpen []"
  obtain s' where r: "cascade_fail_dependents demo_limits (named_env CHR ''w'') ''u'' None ?s = (Inr (), s')"
    using returnsD [OF demo_cascade] by blast
  have "falls (smap ?s) (sd_running ?s) ''u'' ''v''"
    by (rule falls.direct [where t = "demo_job ''u'' StFailed [''v''] []"])
      (simp_all add: demo_map demo_runs can_fall_def, simp_all add: demo_job_def)
  with cascade_exact [OF demo_inv r] have "\<exists>t t'. smap ?s ''v'' = Some t \<and> smap s' ''v'' = Some t' \<and> failed_as t t'" by metis
  with r show ?thesis by (auto simp: demo_map)
qed

theorem root_failure_found_witness:
  "\<exists>r. resolve_root_failure (named_env CHR ''w'') ''u'' (sd_world (demo_scheduler StFailed StOpen [])) = (Inr r, sd_world (demo_scheduler StFailed StOpen []))"
  using root_failure_found [OF demo_inv [unfolded sd_inv_def]] by blast

theorem sweep_complete_witness:
  "\<exists>s'. sweep_failed_dependencies demo_limits (named_env CHR ''w'') (demo_scheduler StFailed StOpen []) = (Inr (), s') \<and>
     stranded (smap (demo_scheduler StFailed StOpen [])) [] ''v'' \<and> \<not> stranded (smap s') [] ''v''"
proof -
  obtain s' where r: "sweep_failed_dependencies demo_limits (named_env CHR ''w'') (demo_scheduler StFailed StOpen []) = (Inr (), s')"
    using returnsD [OF demo_sweep] by blast
  have "stranded (smap (demo_scheduler StFailed StOpen [])) [] ''v''"
    unfolding stranded_def demo_map
    by (intro conjI exI [of _ "demo_job ''v'' StOpen [] [''u'']"] exI [of _ "''u''"] exI [of _ "demo_job ''u'' StFailed [''v''] []"])
      (simp_all add: demo_job_def)
  moreover have "\<not> stranded (smap s') [] ''v''" using sweep_complete [OF demo_inv r] demo_linked demo_runs(1) by metis
  ultimately show ?thesis using r by blast
qed

theorem started_iff_ready_witness:
  "\<exists>s'. handle_schedule demo_limits (named_env CHR ''w'') ''u'' (demo_scheduler StOpen StOpen []) = (Inr (), s') \<and> sd_live s' = [''u'']"
proof -
  obtain s' where r: "handle_schedule demo_limits (named_env CHR ''w'') ''u'' (demo_scheduler StOpen StOpen []) = (Inr (), s')"
    using returnsD [OF demo_schedule] by blast
  have "sd_live s' = [''u'']"
    using started_iff_ready [OF demo_inv r] unfolding demo_map demo_runs by (simp add: demo_job_def demo_ticket_def)
  with r show ?thesis by blast
qed

theorem ready_scan_bounded_witness:
  "\<exists>r s'. start_ready_tickets demo_limits (named_env CHR ''w'') (demo_scheduler StFailed StOpen []) = (r, s') \<and> length (sd_running s') \<le> 1"
proof -
  obtain r s' where r: "start_ready_tickets demo_limits (named_env CHR ''w'') (demo_scheduler StFailed StOpen []) = (r, s')" by fastforce
  have "paired (demo_scheduler StFailed StOpen [])" by (simp add: paired_def demo_inv demo_runs)
  from ready_scan_bounded [OF _ this r, of 1] r show ?thesis by (simp add: demo_limits_def demo_runs)
qed

theorem reopened_runs_twice_witness:
  "\<exists>s'. service_message demo_limits (named_env CHR ''w'')
       [(''kind'', JStr ''ticket_updated''), (''ticket_id'', JStr ''u''), (''status'', JStr ''open'')] (demo_scheduler StFailed StOpen [''u'']) = (Inr (), s') \<and>
     count_list (sd_live s') ''u'' = 2"
proof -
  obtain s' where r: "service_message demo_limits (named_env CHR ''w'')
       [(''kind'', JStr ''ticket_updated''), (''ticket_id'', JStr ''u''), (''status'', JStr ''open'')] (demo_scheduler StFailed StOpen [''u'']) = (Inr (), s')"
    using returnsD [OF demo_reopen] by blast
  have "paired (demo_scheduler StFailed StOpen [''u''])" by (simp add: paired_def demo_inv demo_runs)
  then have "count_list (sd_live s') ''u'' = 2"
    by (rule reopened_runs_twice [where t = "demo_job ''u'' StFailed [''v''] []"])
      (use r in \<open>simp_all add: demo_runs demo_map, simp_all add: demo_job_def demo_ticket_def\<close>)
  with r show ?thesis by blast
qed

theorem completion_sound_witness:
  "\<exists>s'. maybe_run_analyzer demo_limits (named_env CHR ''w'') (demo_scheduler StResolved StResolved []) = (Inr (), s') \<and>
     maybe_run_analyzer demo_limits (named_env CHR ''w'') s' = (Inr (), s')"
proof -
  obtain s' where r: "maybe_run_analyzer demo_limits (named_env CHR ''w'') (demo_scheduler StResolved StResolved []) = (Inr (), s')" "sd_analyses s' = 1"
    using demo_complete by (auto split: prod.splits sum.splits)
  then have "sd_analyses s' \<noteq> sd_analyses (demo_scheduler StResolved StResolved [])" by (simp add: demo_scheduler_def)
  from completion_sound [OF demo_inv r(1) this] r(1) show ?thesis by blast
qed

theorem unblock_ignores_limit_witness:
  "\<exists>s'. unblock_dependents demo_limits (named_env CHR ''w'') [''v''] (demo_scheduler StResolved StOpen [''x'']) = (Inr (), s') \<and>
     sd_running s' = [''x'', ''v''] \<and> sg_max_parallel demo_limits = Some 1"
proof -
  obtain s' where r: "unblock_dependents demo_limits (named_env CHR ''w'') [''v''] (demo_scheduler StResolved StOpen [''x'']) = (Inr (), s')"
    using returnsD [OF demo_unblock] by blast
  have "sd_running s' = sd_running (demo_scheduler StResolved StOpen [''x'']) @ [''v'']"
    by (rule unblock_ignores_limit [OF demo_inv _ _ _ _ _ r, where t = "demo_job ''v'' StOpen [] [''u'']"])
      (simp_all add: demo_runs demo_map demo_limits_def at_capacity_def edge_resolved_def, simp_all add: demo_job_def demo_ticket_def)
  with r show ?thesis by (simp add: demo_runs demo_limits_def)
qed

end
