(* ===== verification/FixRoute.thy ===== *)
theory FixRoute
  imports PyText Evaluator "HOL-Library.List_Lexorder" "HOL-Library.Char_ord"
begin

text \<open>
  Where a blocked phase is sent back to: \<open>jig/reviewer_routing.py\<close> and \<open>_route_blocked_phase\<close> of
  \<open>jig/orchestrator.py\<close>, with \<open>fnmatch\<close>, and how findings are followed over the rounds of a
  review.  Two questions are parameters: whether a comment names a file outside the \<open>reads_glob\<close> of
  its reviewer (\<open>out\<close>, the role files and \<open>jig/scope.py\<close>), and the phase whose trailer is on
  the last commit of a file (\<open>touched\<close>, \<open>git log\<close>).
\<close>

section \<open>fnmatch\<close>

fun class_body :: "string \<Rightarrow> string \<Rightarrow> (string \<times> string) option" where
  \<comment> \<open>up to the closing bracket, and what follows it\<close>
  "class_body acc [] = None"
| "class_body acc (c # cs) = (if c = CHR '']'' then Some (rev acc, cs) else class_body (c # acc) cs)"

definition open_class :: "string \<Rightarrow> (bool \<times> string \<times> string) option" where
  \<comment> \<open>after the bracket: negated, the body, the rest; a closing bracket that comes first is literal\<close>
  "open_class p =
    (let (neg, q) = (case p of c # r \<Rightarrow> if c = CHR ''!'' then (True, r) else (False, p) | [] \<Rightarrow> (False, []));
         (acc, q') = (case q of c # r \<Rightarrow> if c = CHR '']'' then ([c], r) else ([], q) | [] \<Rightarrow> ([], []))
     in map_option (\<lambda>(body, rest). (neg, body, rest)) (class_body acc q'))"

lemma class_body_shorter: "class_body acc p = Some (body, rest) \<Longrightarrow> length rest < length p"
  by (induction acc p rule: class_body.induct) (auto split: if_splits)

lemma open_class_shorter: "open_class p = Some (neg, body, rest) \<Longrightarrow> length rest < length p"
  by (auto simp: open_class_def Let_def split: list.splits if_splits prod.splits dest!: class_body_shorter)

fun in_class :: "char \<Rightarrow> string \<Rightarrow> bool" where
  "in_class c (a # d # b # rest) =
    (if d = CHR ''-'' then (of_char a \<le> (of_char c :: nat) \<and> (of_char c :: nat) \<le> of_char b) \<or> in_class c rest
     else c = a \<or> in_class c (d # b # rest))"
| "in_class c [a, b] = (c = a \<or> c = b)"
| "in_class c [a] = (c = a)"
| "in_class c [] = False"

function (sequential) fnmatch :: "string \<Rightarrow> string \<Rightarrow> bool" where
  \<comment> \<open>the file, the pattern\<close>
  "fnmatch f [] = (f = [])"
| "fnmatch f (p # ps) =
    (if p = CHR ''*'' then fnmatch f ps \<or> (case f of [] \<Rightarrow> False | _ # f' \<Rightarrow> fnmatch f' (p # ps))
     else case f of [] \<Rightarrow> False
     | c # f' \<Rightarrow>
         if p = CHR ''?'' then fnmatch f' ps
         else if p = CHR ''['' then
           (case open_class ps of None \<Rightarrow> c = p \<and> fnmatch f' ps
            | Some (neg, body, rest) \<Rightarrow> in_class c body \<noteq> neg \<and> fnmatch f' rest)
         else c = p \<and> fnmatch f' ps)"
  by pat_completeness auto
termination
  by (relation "measure (\<lambda>(f, p). length f + length p)") (auto dest!: open_class_shorter)

definition matches_any :: "string \<Rightarrow> string list \<Rightarrow> bool" where
  "matches_any f globs = list_ex (fnmatch f) globs"

section \<open>Findings\<close>

datatype finding_severity = Critical | Important | Notable

text \<open>The fields of \<open>ReviewerComment\<close> that routing, persistence and the names of findings read.\<close>

record review_comment =
  rc_type :: string
  rc_severity :: finding_severity
  rc_reviewer :: string
  rc_prose :: string
  rc_contract_uri :: "string option"
  rc_file :: "string option"
  rc_line :: "int option"
  rc_target_role :: "string option"
  rc_cycle :: int

definition blocks_review :: "review_comment \<Rightarrow> bool" where
  "blocks_review c \<longleftrightarrow> rc_severity c \<in> {Critical, Important}"

definition persistence_key :: "review_comment \<Rightarrow> string" where
  "persistence_key c = rc_reviewer c @ ''|'' @ rc_type c @ ''|'' @ the_default [] (rc_file c)"

definition in_scope_comments :: "(review_comment \<Rightarrow> bool) \<Rightarrow> review_comment list \<Rightarrow> review_comment list" where
  "in_scope_comments out cs = filter (\<lambda>c. rc_file c = None \<or> \<not> out c) cs"

section \<open>Routing\<close>

fun most_recent_phase_with_role :: "phase list \<Rightarrow> nat \<Rightarrow> string \<Rightarrow> nat option" where
  \<comment> \<open>the last phase with the role before the given index\<close>
  "most_recent_phase_with_role ps 0 role = None"
| "most_recent_phase_with_role ps (Suc n) role =
    (if ph_role (ps ! n) = role then Some n else most_recent_phase_with_role ps n role)"

definition owners_of :: "phase list \<Rightarrow> nat \<Rightarrow> string \<Rightarrow> nat list" where
  "owners_of ps b f = filter (\<lambda>i. matches_any f (ph_writes (ps ! i))) [0..<b]"

definition route_file :: "(string \<Rightarrow> string option) \<Rightarrow> phase list \<Rightarrow> nat \<Rightarrow> string \<Rightarrow> (nat \<times> string) option" where
  "route_file touched ps b f =
    (case owners_of ps b f of
       [] \<Rightarrow> None
     | [i] \<Rightarrow> Some (i, ''writes-glob '' @ ph_name (ps ! i))
     | is \<Rightarrow> (case touched f of
         None \<Rightarrow> Some (Min (set is), ''ambiguous-ownership'')
       | Some p \<Rightarrow> (case filter (\<lambda>i. ph_name (ps ! i) = p) is of
           [] \<Rightarrow> Some (Min (set is), ''ambiguous-ownership'')
         | i # _ \<Rightarrow> Some (i, ''last-touched '' @ p))))"

definition route_fallback :: "phase list \<Rightarrow> nat \<Rightarrow> nat option \<times> string" where
  "route_fallback ps b = (case most_recent_phase_with_role ps b ''dev'' of
     Some i \<Rightarrow> (Some i, ''unowned-finding'') | None \<Rightarrow> (None, ''no-route''))"

definition route_one :: "(review_comment \<Rightarrow> bool) \<Rightarrow> (string \<Rightarrow> string option) \<Rightarrow> phase list \<Rightarrow> nat \<Rightarrow> review_comment \<Rightarrow> nat option \<times> string" where
  "route_one out touched ps b c =
    (let file = the_default [] (rc_file c); role = the_default [] (rc_target_role c) in
     if file \<noteq> [] \<and> out c then (None, ''out-of-scope-finding'')
     else case (if role = [] then None else most_recent_phase_with_role ps b role) of
       Some i \<Rightarrow> (Some i, ''target_role='' @ role)
     | None \<Rightarrow> (case (if file = [] then None else route_file touched ps b file) of
         Some (i, reason) \<Rightarrow> (Some i, reason)
       | None \<Rightarrow> route_fallback ps b))"

definition route_blocking_comments ::
  "(review_comment \<Rightarrow> bool) \<Rightarrow> (string \<Rightarrow> string option) \<Rightarrow> phase list \<Rightarrow> nat \<Rightarrow> review_comment list \<Rightarrow> (nat \<times> string) option" where
  "route_blocking_comments out touched ps b cs =
    (let routes = filter (\<lambda>(i, _). i \<noteq> None) (map (route_one out touched ps b) cs) in
     if routes = [] then None
     else Some (Min (set (map (the \<circ> fst) routes)), join_with ''; '' (sort (remdups (map snd routes)))))"

definition latest_blocking :: "review_comment list \<Rightarrow> review_comment list" where
  \<comment> \<open>the blocking findings of the latest cycle of the ticket\<close>
  "latest_blocking cs = filter (\<lambda>c. rc_cycle c = Max (set (map rc_cycle cs)) \<and> blocks_review c) cs"

definition blocked_route ::
  "(review_comment \<Rightarrow> bool) \<Rightarrow> (string \<Rightarrow> string option) \<Rightarrow> phase list \<Rightarrow> nat \<Rightarrow> review_comment list \<Rightarrow> (nat \<times> string) option" where
  "blocked_route out touched ps b cs =
    (let blocking = in_scope_comments out (latest_blocking cs) in
     if blocking \<noteq> [] then route_blocking_comments out touched ps b blocking
     else map_option (\<lambda>i. (i, ''check-failure-fallback'')) (most_recent_phase_with_role ps b ''dev''))"

section \<open>Persistence over rounds\<close>

definition survival_threshold :: nat where
  "survival_threshold = 2"

definition count_key :: "string set \<Rightarrow> string \<Rightarrow> (string \<times> nat) list \<Rightarrow> (string \<times> nat) list" where
  \<comment> \<open>one key of the round\<close>
  "count_key prev k counts =
    (if k \<in> prev then AList.update k (the_default 0 (map_of counts k) + 1) counts
     else if map_of counts k = None then AList.update k 0 counts else counts)"

definition record_blocking :: "string set \<Rightarrow> string list \<Rightarrow> (string \<times> nat) list \<Rightarrow> (string \<times> nat) list" where
  \<comment> \<open>the previous and the current keys of a phase, and its counts\<close>
  "record_blocking prev cur counts =
    fold (count_key prev) (remdups cur) (map (\<lambda>(k, n). (k, if k \<in> set cur then n else 0)) counts)"

definition past_threshold :: "(string \<times> nat) list \<Rightarrow> string list" where
  "past_threshold counts = map fst (filter (\<lambda>(_, n). n \<ge> survival_threshold) counts)"

section \<open>Lemmas\<close>

lemma most_recent_before: "most_recent_phase_with_role ps b role = Some i \<Longrightarrow> i < b \<and> ph_role (ps ! i) = role"
  by (induction b) (auto split: if_splits simp: less_SucI)

lemma most_recent_none: "most_recent_phase_with_role ps b role = None \<longleftrightarrow> (\<forall>i < b. ph_role (ps ! i) \<noteq> role)"
  by (induction b) (auto simp: less_Suc_eq)

lemma owners_before: "i \<in> set (owners_of ps b f) \<Longrightarrow> i < b"
  by (simp add: owners_of_def)

lemma route_file_before:
  assumes "route_file touched ps b f = Some (i, reason)"
  shows "i \<in> set (owners_of ps b f)"
proof -
  have filt: "filter P xs = j # js \<Longrightarrow> j \<in> set xs" for P js and j :: nat and xs
    by (metis filter_is_subset list.set_intros(1) subsetD)
  consider "owners_of ps b f = []" | j where "owners_of ps b f = [j]" | j k js where "owners_of ps b f = j # k # js"
    by (metis list.exhaust)
  then show ?thesis
  proof cases
    case (3 j k js)
    then have Min: "Min (set (owners_of ps b f)) \<in> set (owners_of ps b f)" by (intro Min_in) simp_all
    have "i = Min (set (owners_of ps b f)) \<or> (\<exists>P is. filter P (owners_of ps b f) = i # is)"
      using assms 3 unfolding route_file_def by (auto split: option.splits list.splits simp del: filter.simps Min_insert)
    with Min filt show ?thesis by blast
  qed (use assms in \<open>simp_all add: route_file_def\<close>)
qed

lemma route_one_before:
  assumes "route_one out touched ps b c = (Some i, reason)"
  shows "i < b"
  using assms unfolding route_one_def route_fallback_def Let_def
  by (auto split: if_splits option.splits prod.splits dest!: most_recent_before route_file_before owners_before)

lemma routes_before:
  assumes "route_blocking_comments out touched ps b cs = Some (i, reason)"
  shows "i < b" "\<exists>c \<in> set cs. fst (route_one out touched ps b c) = Some i"
    "\<forall>c \<in> set cs. \<forall>j. fst (route_one out touched ps b c) = Some j \<longrightarrow> i \<le> j"
proof -
  let ?rs = "filter (\<lambda>(i, _). i \<noteq> None) (map (route_one out touched ps b) cs)"
  let ?is = "set (map (the \<circ> fst) ?rs)"
  have i: "?rs \<noteq> []" "i = Min ?is" using assms by (auto simp: route_blocking_comments_def Let_def split: if_splits)
  have mem: "j \<in> ?is \<longleftrightarrow> (\<exists>c \<in> set cs. fst (route_one out touched ps b c) = Some j)" for j
  proof
    assume "j \<in> ?is"
    then obtain x where "x \<in> set ?rs" "j = the (fst x)" by auto
    then show "\<exists>c \<in> set cs. fst (route_one out touched ps b c) = Some j" by (auto simp: case_prod_beta)
  next
    assume "\<exists>c \<in> set cs. fst (route_one out touched ps b c) = Some j"
    then obtain c where c: "c \<in> set cs" "fst (route_one out touched ps b c) = Some j" by blast
    then have "route_one out touched ps b c \<in> set ?rs" by (simp add: case_prod_beta)
    then have "(the \<circ> fst) (route_one out touched ps b c) \<in> ?is" unfolding set_map by (rule imageI)
    then show "j \<in> ?is" using c(2) by (simp only: comp_def option.sel)
  qed
  have "?is \<noteq> {}" using i(1) by (simp only: set_empty map_is_Nil_conv not_False_eq_True)
  moreover have "finite ?is" by simp
  ultimately have "i \<in> ?is" "\<forall>j \<in> ?is. i \<le> j" unfolding i(2) using Min_in Min_le by blast+
  then show "\<exists>c \<in> set cs. fst (route_one out touched ps b c) = Some i"
    "\<forall>c \<in> set cs. \<forall>j. fst (route_one out touched ps b c) = Some j \<longrightarrow> i \<le> j" using mem by blast+
  then show "i < b" using route_one_before by (metis prod.collapse)
qed

lemma blocked_route_before: "blocked_route out touched ps b cs = Some (i, reason) \<Longrightarrow> i < b"
  by (auto simp: blocked_route_def Let_def dest: routes_before(1) most_recent_before split: if_splits)

end
