(* ===== verification/CheckRunner.thy ===== *)
theory CheckRunner
  imports Scheduler CheckGate FixRoute
begin

text \<open>
  Running the checks of a phase (\<open>jig/check_runner.py\<close>, \<open>jig/check_mcp.py\<close>), the gate that runs and scores
  them (\<open>run_handoff_gate\<close> of \<open>jig/handoff_gate.py\<close>), and what the orchestrator makes of it for the
  pending handoff of a phase.  What a command or a check agent comes to is an input, by the name of the check
  and the draw at which it starts; the prompt of the agent is left out.
\<close>

section \<open>Outcomes\<close>

definition max_output_bytes :: nat where
  "max_output_bytes = 64 * 1024"

definition trim_output :: "string \<Rightarrow> string" where
  "trim_output out = (if length out \<le> max_output_bytes then out
     else take (max_output_bytes div 2) out @ nl @ ''...[trimmed]...'' @ nl @ drop (length out - max_output_bytes div 2) out)"

datatype script_end = SpawnFailed string | ScriptTimeout string | ScriptExit int string

fun script_verdict :: "script_end \<Rightarrow> verdict \<times> string" where
  "script_verdict (SpawnFailed e) = (VError, ''spawn failed: '' @ e)"
| "script_verdict (ScriptTimeout out) = (VTimeout, trim_output out)"
| "script_verdict (ScriptExit code out) = (if code = 0 then VPass else VFail, trim_output out)"

record captured =
  ca_verdict :: "string option"
  ca_reasoning :: string
  ca_calls :: nat

definition fresh_slot :: captured where
  "fresh_slot = \<lparr>ca_verdict = None, ca_reasoning = [], ca_calls = 0\<rparr>"

definition check_verdict :: "doc \<Rightarrow> (captured, unit) action" where
  \<comment> \<open>the tool; both arguments are strings\<close>
  "check_verdict args c =
    (let c1 = c\<lparr>ca_calls := ca_calls c + 1\<rparr> in
     if ca_calls c1 > 1 then (Inl (RuntimeError ''already called''), c1)
     else case map_of args ''verdict'' of
       Some (JStr v) \<Rightarrow>
         if v \<noteq> ''pass'' \<and> v \<noteq> ''fail'' then (Inl (ValueError ''verdict''), c1)
         else (Inr (), c1\<lparr>ca_verdict := Some v,
           ca_reasoning := (case map_of args ''reasoning'' of Some (JStr s) \<Rightarrow> s | _ \<Rightarrow> [])\<rparr>)
     | _ \<Rightarrow> (Inl (ValueError ''verdict''), c1))"

fun verdict_calls :: "doc list \<Rightarrow> captured \<Rightarrow> captured" where
  \<comment> \<open>an exception goes back to the agent\<close>
  "verdict_calls [] c = c"
| "verdict_calls (a # as) c = verdict_calls as (snd (check_verdict a c))"

datatype check_agent_end = CheckTimedOut | CheckCrashed string | CheckEnded

definition agent_verdict :: "doc list \<Rightarrow> check_agent_end \<Rightarrow> string option \<times> string" where
  \<comment> \<open>the calls of the agent, and how it ended\<close>
  "agent_verdict calls e = (let c = verdict_calls calls fresh_slot in case e of
     CheckTimedOut \<Rightarrow> (Some (show_verdict VTimeout), ''agent did not record a verdict before timeout'')
   | CheckCrashed msg \<Rightarrow> (Some (show_verdict VError), msg)
   | CheckEnded \<Rightarrow>
       if ca_calls c = 0 then (Some (show_verdict VError), ''agent exited without calling check_verdict'')
       else (ca_verdict c, ca_reasoning c))"

section \<open>The runners\<close>

text \<open>\<open>ci_during\<close> is what others do while the checks run.\<close>

record check_inputs =
  ci_script :: "string \<Rightarrow> nat \<Rightarrow> script_end"
  ci_agent :: "string \<Rightarrow> nat \<Rightarrow> doc list \<times> check_agent_end"
  ci_head :: "nat \<Rightarrow> string"
  ci_during :: "scheduler \<Rightarrow> scheduler"

definition attempt :: "('s, 'a) action \<Rightarrow> ('s, unit) action" where
  \<comment> \<open>\<open>try: ... except Exception: log\<close>\<close>
  "attempt m s = (case m s of (_, s') \<Rightarrow> (Inr (), s'))"

definition on_results :: "(jsonl_store, 'a) action \<Rightarrow> 'a sact" where
  "on_results = zoom sd_results (\<lambda>r s. s\<lparr>sd_results := r\<rparr>)"

definition publish_check_completed :: "env \<Rightarrow> check_result \<Rightarrow> unit sact" where
  "publish_check_completed en r = attempt (bind_act draw (\<lambda>n. on_sd_world (publish_msg en n (cr_author r) ''broadcast'' MContextUpdate
     [(''kind'', JStr ''check_completed''), (''ticket_id'', JStr (cr_ticket_id r)), (''phase'', JStr (cr_phase r)),
      (''check_name'', JStr (cr_check_name r)), (''verdict'', JStr (show_verdict (cr_verdict r))),
      (''severity'', JStr (show_severity (cr_severity r))), (''event_id'', JStr (cr_id r))] (topic (cr_ticket_id r)))))"

definition record_check :: "env \<Rightarrow> check_result \<Rightarrow> unit sact" where
  "record_check en r = bind_act (on_results (results_post [] r)) (\<lambda>_. publish_check_completed en r)"

definition check_type_of :: "check \<Rightarrow> check_type" where
  "check_type_of c = (case c of ScriptedCheck _ _ _ \<Rightarrow> TScripted | ImplementationAwareAgentCheck _ _ _ _ \<Rightarrow> TImplementationAware
   | BlackBoxAgentCheck _ _ _ _ _ \<Rightarrow> TBlackBox)"

definition check_record :: "env \<Rightarrow> check_inputs \<Rightarrow> string \<Rightarrow> string \<Rightarrow> string \<Rightarrow> string \<Rightarrow> check \<Rightarrow> nat \<Rightarrow> verdict \<Rightarrow> string \<Rightarrow> check_result" where
  \<comment> \<open>draws: the start, the end, the record\<close>
  "check_record en ci author t ph name c a v out = \<lparr>cr_id = en_uuid en (a + 2), cr_ticket_id = t, cr_phase = ph, cr_author = author,
     cr_created_at = en_now en (a + 2), cr_check_name = name, cr_check_type = check_type_of c, cr_verdict = v,
     cr_severity = check_severity c, cr_output = out, cr_started_at = en_now en a, cr_finished_at = en_now en (a + 1),
     cr_commit_sha = ci_head ci a\<rparr>"

definition draw_block :: "nat \<Rightarrow> nat sact" where
  "draw_block k s = (Inr (sd_draws s), s\<lparr>sd_draws := sd_draws s + k\<rparr>)"

definition run_script_check :: "env \<Rightarrow> check_inputs \<Rightarrow> string \<Rightarrow> string \<Rightarrow> string \<Rightarrow> check \<Rightarrow> unit sact" where
  "run_script_check en ci t ph name c = bind_act (draw_block 3) (\<lambda>a. case script_verdict (ci_script ci name a) of
     (v, out) \<Rightarrow> record_check en (check_record en ci ''harness'' t ph name c a v out))"

definition run_agent_check :: "env \<Rightarrow> check_inputs \<Rightarrow> string \<Rightarrow> string \<Rightarrow> string \<Rightarrow> check \<Rightarrow> unit sact" where
  "run_agent_check en ci t ph name c = bind_act (draw_block 3) (\<lambda>a. case ci_agent ci name a of (calls, e) \<Rightarrow>
     (case agent_verdict calls e of (v, out) \<Rightarrow> (case Option.bind v read_verdict of
        None \<Rightarrow> raise (ValidationError ''check result'')
      | Some v \<Rightarrow> record_check en (check_record en ci ''check-agent'' t ph name c a v (trim_output out)))))"

fun scripted_for_phase :: "env \<Rightarrow> catalog \<Rightarrow> check_inputs \<Rightarrow> string \<Rightarrow> string \<Rightarrow> string list \<Rightarrow> unit sact" where
  "scripted_for_phase en cat ci t ph [] = ret ()"
| "scripted_for_phase en cat ci t ph (n # ns) = (case catalog_get cat n of
     None \<Rightarrow> raise (KeyError n)
   | Some c \<Rightarrow> if check_type_of c \<noteq> TScripted then scripted_for_phase en cat ci t ph ns
       else bind_act (run_script_check en ci t ph n c) (\<lambda>_. scripted_for_phase en cat ci t ph ns))"

fun agents_for_phase :: "env \<Rightarrow> catalog \<Rightarrow> check_inputs \<Rightarrow> string \<Rightarrow> string \<Rightarrow> string list \<Rightarrow> unit sact" where
  "agents_for_phase en cat ci t ph [] = ret ()"
| "agents_for_phase en cat ci t ph (n # ns) = (case catalog_get cat n of
     None \<Rightarrow> raise (KeyError n)
   | Some c \<Rightarrow> if check_type_of c = TScripted then agents_for_phase en cat ci t ph ns
       else bind_act (run_agent_check en ci t ph n c) (\<lambda>_. agents_for_phase en cat ci t ph ns))"

definition matches_excluded :: "string \<Rightarrow> string list \<Rightarrow> bool" where
  "matches_excluded uri excluded \<longleftrightarrow> excluded \<noteq> [] \<and> take 7 uri = ''repo://'' \<and> matches_any (drop 7 uri) excluded"

definition check_context :: "check \<Rightarrow> string list" where
  \<comment> \<open>the URIs that are resolved\<close>
  "check_context c = (case c of ScriptedCheck _ _ _ \<Rightarrow> []
   | ImplementationAwareAgentCheck _ _ us _ \<Rightarrow> filter (\<lambda>u. \<not> matches_excluded u []) us
   | BlackBoxAgentCheck _ _ us ex _ \<Rightarrow> filter (\<lambda>u. \<not> matches_excluded u ex) us)"

section \<open>The gate\<close>

definition env_from :: "nat \<Rightarrow> env \<Rightarrow> env" where
  "env_from n en = en\<lparr>en_now := (\<lambda>k. en_now en (n + k)), en_uuid := (\<lambda>k. en_uuid en (n + k))\<rparr>"

definition score_checks :: "env \<Rightarrow> catalog \<Rightarrow> string \<Rightarrow> string \<Rightarrow> string list \<Rightarrow> gate_verdict sact" where
  "score_checks en cat t ph names s = bind_act (draw_block (length names)) (\<lambda>n.
     on_sd_world (evaluate_handoff_gate (env_from n en) cat (sd_results s) t ph names True)) s"

definition run_checks :: "env \<Rightarrow> catalog \<Rightarrow> check_inputs \<Rightarrow> string \<Rightarrow> string \<Rightarrow> string list \<Rightarrow> unit sact" where
  "run_checks en cat ci t ph names =
    (if names = [] then ret ()
     else bind_act (scripted_for_phase en cat ci t ph names) (\<lambda>_. agents_for_phase en cat ci t ph names))"

definition run_and_score :: "env \<Rightarrow> catalog \<Rightarrow> check_inputs \<Rightarrow> string \<Rightarrow> string \<Rightarrow> string list \<Rightarrow> gate_verdict sact" where
  "run_and_score en cat ci t ph names =
    bind_act (run_checks en cat ci t ph names) (\<lambda>_.
    bind_act (modify (ci_during ci)) (\<lambda>_.
    score_checks en cat t ph names))"

definition run_handoff_gate :: "env \<Rightarrow> catalog \<Rightarrow> workflow \<Rightarrow> check_inputs \<Rightarrow> string \<Rightarrow> gate_verdict sact" where
  "run_handoff_gate en cat flow ci hid =
    bind_act (on_sd_world (get_entry en hid)) (\<lambda>x. case x of
      None \<Rightarrow> raise (KeyError hid)
    | Some e \<Rightarrow> (case te_body e of
        Handoff h \<Rightarrow>
          if is_resolved e then raise (ThreadError ''already closed'')
          else bind_act (on_sd_world (get_ticket en (te_ticket_id e))) (\<lambda>t.
            if t = None then raise (KeyError (te_ticket_id e))
            else case List.find (\<lambda>p. ph_name p = h_phase h) (wf_phases flow) of
              None \<Rightarrow> raise (KeyError (h_phase h))
            | Some p \<Rightarrow> run_and_score en cat ci (te_ticket_id e) (h_phase h) (ph_automated_checks p))
      | _ \<Rightarrow> raise (ThreadError ''not a handoff'')))"

definition pending_handoff_of :: "string \<Rightarrow> thread_entry list \<Rightarrow> string option" where
  "pending_handoff_of name es =
    (case rev (filter (\<lambda>e. case te_body e of Handoff h \<Rightarrow> h_phase h = name \<and> h_acceptance_state h = Pending | _ \<Rightarrow> False) es) of
       [] \<Rightarrow> None | e # _ \<Rightarrow> Some (te_id e))"

definition evaluator_roles :: "resolved_evaluator \<Rightarrow> string list" where
  "evaluator_roles r = (case re_kind r of
     KRole \<Rightarrow> re_actors r
   | KMulti \<Rightarrow> concat (map re_actors (filter (\<lambda>m. re_kind m = KRole) (re_members r)))
   | _ \<Rightarrow> [])"

definition run_handoff_gate_if_pending :: "env \<Rightarrow> catalog result \<Rightarrow> workflow \<Rightarrow> phase \<Rightarrow> check_inputs \<Rightarrow> string \<Rightarrow> string list sact" where
  \<comment> \<open>the catalog as it is loaded; the answer is the roles for which an evaluator is spawned\<close>
  "run_handoff_gate_if_pending en loaded flow ph ci t =
    bind_act (on_sd_world (ticket_entries en t)) (\<lambda>es. case pending_handoff_of (ph_name ph) es of
      None \<Rightarrow> ret []
    | Some hid \<Rightarrow> (case loaded of Inl e \<Rightarrow> raise e | Inr cat \<Rightarrow>
        bind_act (run_handoff_gate en cat flow ci hid) (\<lambda>v.
        if \<not> gv_passing v then
          bind_act draw (\<lambda>n. bind_act (on_sd_world (bounce_handoff (env_from n en) hid v)) (\<lambda>_. ret []))
        else (case (if ph_evaluator ph = None then None else resolve_evaluator (ph_evaluator ph) flow (handoffs_of es)) of
          None \<Rightarrow> ret []
        | Some r \<Rightarrow>
            if re_kind r = KAutomated then
              bind_act draw (\<lambda>n. bind_act (on_sd_world (accept_handoff_automated (env_from n en) hid True)) (\<lambda>_. ret []))
            else ret (evaluator_roles r)))))"

end
