(* ===== verification/CheckRunnerProps.thy ===== *)
theory CheckRunnerProps
  imports CheckRunner CheckGateProps
begin

text \<open>
  Running the checks and scoring them together: a gate passes on runs of its own, and what becomes
  of a check agent whose first answer is not a verdict.
\<close>

section \<open>What a run records\<close>

definition verdict_at :: "check_inputs \<Rightarrow> string \<Rightarrow> check \<Rightarrow> nat \<Rightarrow> verdict option" where
  "verdict_at ci n c a = (if check_type_of c = TScripted then Some (fst (script_verdict (ci_script ci n a)))
     else Option.bind (fst (agent_verdict (fst (ci_agent ci n a)) (snd (ci_agent ci n a)))) read_verdict)"

definition run_result :: "env \<Rightarrow> catalog \<Rightarrow> check_inputs \<Rightarrow> string \<Rightarrow> string \<Rightarrow> nat \<Rightarrow> nat \<Rightarrow> check_result \<Rightarrow> bool" where
  \<comment> \<open>the result of a run of the check it names, whose draws are within \<open>d\<close> and \<open>u\<close>\<close>
  "run_result en cat ci t ph d u r \<longleftrightarrow> (\<exists>a c author out. d \<le> a \<and> a + 3 \<le> u \<and> catalog_get cat (cr_check_name r) = Some c \<and>
     verdict_at ci (cr_check_name r) c a = Some (cr_verdict r) \<and>
     r = check_record en ci author t ph (cr_check_name r) c a (cr_verdict r) out)"

lemma run_result_mono: "run_result en cat ci t ph d u r \<Longrightarrow> u \<le> u' \<Longrightarrow> run_result en cat ci t ph d u' r"
  unfolding run_result_def using le_trans by blast

lemma run_resultE:
  assumes "run_result en cat ci t ph d u r"
  obtains a where "d \<le> a" "cr_ticket_id r = t" "cr_phase r = ph" "cr_created_at r = en_now en (a + 2)"
proof -
  from assms obtain a c author out where a: "d \<le> a" and r: "r = check_record en ci author t ph (cr_check_name r) c a (cr_verdict r) out"
    unfolding run_result_def by blast
  have "cr_ticket_id r = t" "cr_phase r = ph" "cr_created_at r = en_now en (a + 2)" by (subst r, simp add: check_record_def)+
  with a show thesis by (rule that)
qed

definition checks_recorded ::
  "env \<Rightarrow> catalog \<Rightarrow> check_inputs \<Rightarrow> string \<Rightarrow> string \<Rightarrow> nat \<Rightarrow> check_result set \<Rightarrow> string list \<Rightarrow> scheduler \<Rightarrow> bool" where
  \<comment> \<open>one result for each name since draw \<open>d\<close>, besides the old ones\<close>
  "checks_recorded en cat ci t ph d old ns s \<longleftrightarrow> results_inv (sd_results s) \<and> world_inv (sd_world s) \<and> d \<le> sd_draws s \<and>
     (\<exists>rs. map cr_check_name rs = ns \<and> (\<forall>r \<in> set rs. run_result en cat ci t ph d (sd_draws s) r) \<and>
       ran (result_map (sd_results s)) = old \<union> set rs)"

lemma checks_recorded_later:
  assumes "checks_recorded en cat ci t ph d old ns s" "sd_results s' = sd_results s" "world_inv (sd_world s')" "sd_draws s \<le> sd_draws s'"
  shows "checks_recorded en cat ci t ph d old ns s'"
proof -
  from assms(1) obtain rs where rs: "map cr_check_name rs = ns" "\<forall>r \<in> set rs. run_result en cat ci t ph d (sd_draws s) r"
    "ran (result_map (sd_results s)) = old \<union> set rs" and inv: "results_inv (sd_results s)" "d \<le> sd_draws s"
    unfolding checks_recorded_def by blast
  from rs(2) have "\<forall>r \<in> set rs. run_result en cat ci t ph d (sd_draws s') r" using run_result_mono [OF _ assms(4)] by blast
  moreover have "d \<le> sd_draws s'" using inv(2) assms(4) by (rule le_trans)
  ultimately show ?thesis unfolding checks_recorded_def using rs(1,3) inv(1) assms(2,3) by auto
qed

definition drawn :: "nat \<Rightarrow> (scheduler \<Rightarrow> bool) \<Rightarrow> scheduler \<Rightarrow> bool" where
  "drawn a P s \<longleftrightarrow> P s \<and> a + 3 \<le> sd_draws s"

lemma publish_keeps: "world_inv w \<Longrightarrow> world_inv (snd (publish_msg en n a b ty p tp w)) \<and> tmap (snd (publish_msg en n a b ty p tp w)) = tmap w"
  using bus_inv_publish by (simp add: publish_msg_def world_inv_def split_beta)

lemma checks_recorded_publish:
  assumes "checks_recorded en cat ci t ph d old ns s"
  shows "checks_recorded en cat ci t ph d old ns (snd (publish_check_completed en r s))"
proof -
  have inv: "world_inv (sd_world s)" using assms by (simp add: checks_recorded_def)
  have "sd_results (snd (publish_check_completed en r s)) = sd_results s"
    "sd_draws (snd (publish_check_completed en r s)) = sd_draws s + 1"
    "world_inv (sd_world (snd (publish_check_completed en r s)))"
    using publish_keeps [OF inv]
    by (auto simp: publish_check_completed_def attempt_def bind_act_def draw_def on_sd_world_def zoom_def split: prod.split sum.split)
      (metis snd_conv)+
  then show ?thesis by (intro checks_recorded_later [OF assms]) simp_all
qed

lemma keeps_triple: "(\<And>s. P s \<Longrightarrow> P (snd (m s))) \<Longrightarrow> triple P m (\<lambda>_. P) (\<lambda>_. True)"
  unfolding triple_def by (auto split: prod.split sum.split) (metis snd_conv)

lemma ran_new: "m i = None \<Longrightarrow> ran (m(i \<mapsto> x)) = insert x (ran m)"
  by (rule ran_map_upd)

lemma record_triple:
  assumes "run_result en cat ci t ph d (a + 3) r"
  shows "triple (drawn a (checks_recorded en cat ci t ph d old ns)) (record_check en r)
     (\<lambda>_. checks_recorded en cat ci t ph d old (ns @ [cr_check_name r])) (\<lambda>_. True)"
proof -
  have posted: "case on_results (results_post [] r) s of (Inl _, _) \<Rightarrow> True
      | (Inr _, s') \<Rightarrow> checks_recorded en cat ci t ph d old (ns @ [cr_check_name r]) s'"
    if "drawn a (checks_recorded en cat ci t ph d old ns) s" for s
  proof -
    from that have s: "checks_recorded en cat ci t ph d old ns s" and a: "a + 3 \<le> sd_draws s" by (simp_all add: drawn_def)
    from s obtain rs where rs: "map cr_check_name rs = ns" "\<forall>r \<in> set rs. run_result en cat ci t ph d (sd_draws s) r"
      "ran (result_map (sd_results s)) = old \<union> set rs" and inv: "results_inv (sd_results s)"
      unfolding checks_recorded_def by blast
    from results_post_refines [OF inv, of "[]" r] show ?thesis
    proof (elim disjE exE conjE)
      fix st assume st: "results_post [] r (sd_results s) = (Inr (JStr (cr_id r)), st)" "result_map (sd_results s) (cr_id r) = None"
        "results_inv st" "result_map st = (result_map (sd_results s))(cr_id r \<mapsto> r)"
      have "ran (result_map st) = old \<union> set (rs @ [r])" unfolding st(4) ran_new [of "result_map (sd_results s)" "cr_id r", OF st(2)] rs(3) by auto
      moreover have "map cr_check_name (rs @ [r]) = ns @ [cr_check_name r]" "\<forall>x \<in> set (rs @ [r]). run_result en cat ci t ph d (sd_draws s) x"
        using rs run_result_mono [OF assms a] by auto
      ultimately have "\<exists>rs. map cr_check_name rs = ns @ [cr_check_name r] \<and> (\<forall>r \<in> set rs. run_result en cat ci t ph d (sd_draws s) r) \<and>
        ran (result_map st) = old \<union> set rs" by blast
      with s st show ?thesis by (simp add: on_results_def zoom_def checks_recorded_def)
    qed (simp add: on_results_def zoom_def)
  qed
  show ?thesis
    unfolding record_check_def
  proof (rule triple_step [where R = "\<lambda>_. True" and P' = "checks_recorded en cat ci t ph d old (ns @ [cr_check_name r])"])
    show "triple (checks_recorded en cat ci t ph d old (ns @ [cr_check_name r])) (publish_check_completed en r)
        (\<lambda>_. checks_recorded en cat ci t ph d old (ns @ [cr_check_name r])) (\<lambda>_. True)"
      by (rule keeps_triple) (rule checks_recorded_publish)
  qed (use posted in \<open>fastforce split: prod.split sum.split\<close>)
qed

lemma drawn_triple:
  assumes "\<And>a. d \<le> a \<Longrightarrow> triple (drawn a (checks_recorded en cat ci t ph d old ns)) (f a) Q (\<lambda>_. True)"
  shows "triple (checks_recorded en cat ci t ph d old ns) (bind_act (draw_block 3) f) Q (\<lambda>_. True)"
proof (rule triple_bind)
  show "triple (checks_recorded en cat ci t ph d old ns) (draw_block 3) (\<lambda>a s. d \<le> a \<and> drawn a (checks_recorded en cat ci t ph d old ns) s) (\<lambda>_. True)"
  proof (rule tripleI)
    fix s a s' assume s: "checks_recorded en cat ci t ph d old ns s" and a: "draw_block 3 s = (Inr a, s')"
    then have "s' = s\<lparr>sd_draws := sd_draws s + 3\<rparr>" "a = sd_draws s" "d \<le> sd_draws s" "world_inv (sd_world s)"
      by (auto simp: draw_block_def checks_recorded_def)
    with checks_recorded_later [OF s, of s'] show "d \<le> a \<and> drawn a (checks_recorded en cat ci t ph d old ns) s'" by (simp add: drawn_def)
  qed simp
  show "triple (\<lambda>s. d \<le> a \<and> drawn a (checks_recorded en cat ci t ph d old ns) s) (f a) Q (\<lambda>_. True)" for a
    using assms [of a] by (cases "d \<le> a") (simp_all add: triple_def)
qed

lemma run_result_intro:
  assumes "catalog_get cat n = Some c" "verdict_at ci n c a = Some v" "d \<le> a"
  shows "run_result en cat ci t ph d (a + 3) (check_record en ci author t ph n c a v out)"
proof -
  let ?r = "check_record en ci author t ph n c a v out"
  have "cr_check_name ?r = n" "cr_verdict ?r = v" by (simp_all add: check_record_def)
  then show ?thesis unfolding run_result_def using assms by (intro exI [of _ a] exI [of _ c] exI [of _ author] exI [of _ out]) simp
qed

lemma script_triple:
  assumes "catalog_get cat n = Some c" "check_type_of c = TScripted"
  shows "triple (checks_recorded en cat ci t ph d old ns) (run_script_check en ci t ph n c)
     (\<lambda>_. checks_recorded en cat ci t ph d old (ns @ [n])) (\<lambda>_. True)"
  unfolding run_script_check_def
proof (rule drawn_triple)
  fix a assume "d \<le> a"
  obtain v out where v: "script_verdict (ci_script ci n a) = (v, out)" by fastforce
  have "verdict_at ci n c a = Some v" using assms(2) v by (simp add: verdict_at_def)
  from record_triple [OF run_result_intro [OF assms(1) this \<open>d \<le> a\<close>]]
  show "triple (drawn a (checks_recorded en cat ci t ph d old ns)) (case script_verdict (ci_script ci n a) of
      (v, out) \<Rightarrow> record_check en (check_record en ci ''harness'' t ph n c a v out)) (\<lambda>_. checks_recorded en cat ci t ph d old (ns @ [n])) (\<lambda>_. True)"
    unfolding v by (simp add: check_record_def)
qed

lemma agent_triple:
  assumes "catalog_get cat n = Some c" "check_type_of c \<noteq> TScripted"
  shows "triple (checks_recorded en cat ci t ph d old ns) (run_agent_check en ci t ph n c)
     (\<lambda>_. checks_recorded en cat ci t ph d old (ns @ [n])) (\<lambda>_. True)"
  unfolding run_agent_check_def
proof (rule drawn_triple)
  fix a assume "d \<le> a"
  obtain calls e where e: "ci_agent ci n a = (calls, e)" by fastforce
  obtain x out where x: "agent_verdict calls e = (x, out)" by fastforce
  show "triple (drawn a (checks_recorded en cat ci t ph d old ns)) (case ci_agent ci n a of (calls, e) \<Rightarrow> case agent_verdict calls e of (v, out) \<Rightarrow>
      (case Option.bind v read_verdict of None \<Rightarrow> raise (ValidationError ''check result'')
       | Some v \<Rightarrow> record_check en (check_record en ci ''check-agent'' t ph n c a v (trim_output out))))
      (\<lambda>_. checks_recorded en cat ci t ph d old (ns @ [n])) (\<lambda>_. True)"
  proof (cases "Option.bind x read_verdict")
    case (Some v)
    have "verdict_at ci n c a = Some v" using assms(2) e x Some by (simp add: verdict_at_def)
    from record_triple [OF run_result_intro [OF assms(1) this \<open>d \<le> a\<close>]] show ?thesis by (simp add: e x Some check_record_def)
  qed (simp add: e x triple_raise)
qed

lemma scripted_triple:
  "triple (checks_recorded en cat ci t ph d old ns) (scripted_for_phase en cat ci t ph names)
     (\<lambda>_ s. (\<forall>n \<in> set names. catalog_get cat n \<noteq> None) \<and>
        checks_recorded en cat ci t ph d old (ns @ filter (\<lambda>n. map_option check_type_of (catalog_get cat n) = Some TScripted) names) s) (\<lambda>_. True)"
proof (induction names arbitrary: ns)
  case (Cons n names)
  show ?case
  proof (cases "catalog_get cat n")
    case (Some c)
    show ?thesis
    proof (cases "check_type_of c = TScripted")
      case True
      with Cons.IH [of "ns @ [n]"] Some show ?thesis
        by (auto intro!: triple_bind [OF script_triple] elim!: triple_weaken)
    next
      case False
      with Cons.IH [of ns] Some show ?thesis by (auto elim!: triple_weaken)
    qed
  qed (simp add: triple_raise)
qed (simp add: triple_ret)

lemma agents_triple:
  "triple (checks_recorded en cat ci t ph d old ns) (agents_for_phase en cat ci t ph names)
     (\<lambda>_. checks_recorded en cat ci t ph d old (ns @ filter (\<lambda>n. map_option check_type_of (catalog_get cat n) \<noteq> Some TScripted) names)) (\<lambda>_. True)"
proof (induction names arbitrary: ns)
  case (Cons n names)
  show ?case
  proof (cases "catalog_get cat n")
    case (Some c)
    show ?thesis
    proof (cases "check_type_of c = TScripted")
      case False
      with Cons.IH [of "ns @ [n]"] Some show ?thesis
        by (auto intro!: triple_bind [OF agent_triple])
    next
      case True
      with Cons.IH [of ns] Some show ?thesis by simp
    qed
  qed (simp add: triple_raise)
qed (simp add: triple_ret)

section \<open>A gate passes on its own runs\<close>

definition waived_at :: "world \<Rightarrow> string \<Rightarrow> string \<Rightarrow> string \<Rightarrow> bool" where
  \<comment> \<open>a failure of the check on the commit was waived on the thread of the ticket\<close>
  "waived_at w t n sha \<longleftrightarrow> sha \<noteq> [] \<and> (\<exists>i e v. tmap w i = Some e \<and> te_ticket_id e = t \<and> te_body e = SystemEvent v \<and>
     se_event_type v = ''check_failure'' \<and> se_check_name v = Some n \<and> se_waived v \<and> se_commit_sha v = Some sha)"

definition passed_now :: "env \<Rightarrow> catalog \<Rightarrow> check_inputs \<Rightarrow> nat \<Rightarrow> check_result set \<Rightarrow> scheduler \<Rightarrow> string \<Rightarrow> string \<Rightarrow> string \<Rightarrow> bool" where
  \<comment> \<open>a check that is not required, or one with a stored result which is not an old one but that of a run of this very
     check between draw \<open>d\<close> and now, and which passed or was waived for its commit\<close>
  "passed_now en cat ci d old s t ph n \<longleftrightarrow> (\<exists>c. catalog_get cat n = Some c \<and> (check_severity c = SevRequired \<longrightarrow>
     (\<exists>r. r \<in> ran (result_map (sd_results s)) \<and> r \<notin> old \<and> cr_check_name r = n \<and> run_result en cat ci t ph d (sd_draws s) r \<and>
       (cr_verdict r = VPass \<or> waived_at (sd_world s) t n (cr_commit_sha r)))))"

lemma newest_is_fresh:
  assumes "checks_recorded en cat ci t ph d (ran m0) ns s" "n \<in> set ns"
    and old: "\<forall>r \<in> ran m0. \<forall>k \<ge> d. cr_created_at r < en_now en k"
    and rs: "results_for_phase cx t ph (sd_results s) = Inr rs"
    and "last_named n rs = Some r"
  shows "r \<in> ran (result_map (sd_results s)) \<and> r \<notin> ran m0 \<and> run_result en cat ci t ph d (sd_draws s) r \<and> cr_check_name r = n"
proof -
  from assms(1) obtain new where new: "map cr_check_name new = ns" "\<forall>r \<in> set new. run_result en cat ci t ph d (sd_draws s) r"
    "ran (result_map (sd_results s)) = ran m0 \<union> set new" and inv: "results_inv (sd_results s)"
    unfolding checks_recorded_def by blast
  obtain rs' where "results_for_phase cx t ph (sd_results s) = Inr rs'" and sorted: "sorted (map cr_created_at rs')"
    and mem: "set rs' = {r. \<exists>i. result_map (sd_results s) i = Some r \<and> cr_ticket_id r = t \<and> cr_phase r = ph}"
    by (rule results_for_phase_refines [OF inv])
  then have [simp]: "rs' = rs" using rs by simp
  from assms(2) new(1) obtain x where x: "x \<in> set new" "cr_check_name x = n" by auto
  then have "run_result en cat ci t ph d (sd_draws s) x" using new(2) by blast
  then obtain a where a: "d \<le> a" "cr_ticket_id x = t" "cr_phase x = ph" "cr_created_at x = en_now en (a + 2)" by (rule run_resultE)
  have "x \<in> ran (result_map (sd_results s))" using x(1) new(3) by blast
  with a(2,3) have "x \<in> set rs" using mem by (auto simp: ran_def)
  from assms(5) obtain as bs where split: "rs = as @ r # bs" "cr_check_name r = n" "\<forall>b \<in> set bs. cr_check_name b \<noteq> n"
    unfolding last_named_def by (auto dest!: find_rev_split)
  have "cr_created_at x \<le> cr_created_at r"
    using \<open>x \<in> set rs\<close> sorted split x(2) by (auto simp: sorted_append)
  then have "r \<notin> ran m0" using a(1,4) old trans_le_add1 [of d a 2] by (metis leD)
  moreover have "r \<in> ran (result_map (sd_results s))" using split(1) mem by (auto simp: ran_def)
  ultimately show ?thesis using new(2,3) split(2) by blast
qed

lemma required_passed:
  assumes "checks_recorded en cat ci t ph d (ran m0) ns s" "n \<in> set ns"
    and "\<forall>r \<in> ran m0. \<forall>k \<ge> d. cr_created_at r < en_now en k"
    and "results_for_phase cx t ph (sd_results s) = Inr rs" "for_ticket cx' t (w_threads (sd_world s)) = Inr es"
    and "thread_inv (w_threads (sd_world s))" "required_ok cat rs es n"
  shows "passed_now en cat ci d (ran m0) s t ph n"
proof -
  from assms(7) obtain c where c: "catalog_get cat n = Some c" unfolding required_ok_def by blast
  have "\<exists>r. r \<in> ran (result_map (sd_results s)) \<and> r \<notin> ran m0 \<and> cr_check_name r = n \<and> run_result en cat ci t ph d (sd_draws s) r \<and>
       (cr_verdict r = VPass \<or> waived_at (sd_world s) t n (cr_commit_sha r))" if req: "check_severity c = SevRequired"
  proof -
    obtain r where r: "last_named n rs = Some r" and ok: "cr_verdict r = VPass \<or> cr_commit_sha r \<noteq> [] \<and>
        (\<exists>e. List.find (check_failure_of n) (rev es) = Some e \<and> waives r e)"
      using assms(7) req c unfolding required_ok_def by auto
    have "waived_at (sd_world s) t n (cr_commit_sha r)" if "cr_verdict r \<noteq> VPass"
    proof -
      from ok that obtain e where e: "cr_commit_sha r \<noteq> []" "List.find (check_failure_of n) (rev es) = Some e" "waives r e" by blast
      from find_rev_split [OF e(2)] have "e \<in> set es" "check_failure_of n e" by auto
      obtain es' where "for_ticket cx' t (w_threads (sd_world s)) = Inr es'" "set es' = {e. \<exists>i. tmap (sd_world s) i = Some e \<and> te_ticket_id e = t}"
        by (rule for_ticket_refines [OF assms(6)])
      with \<open>e \<in> set es\<close> assms(5) obtain i where "tmap (sd_world s) i = Some e" "te_ticket_id e = t" by auto
      with e(1,3) \<open>check_failure_of n e\<close> show ?thesis
        unfolding waived_at_def by (auto simp: check_failure_of_def waives_def split: body.splits)
    qed
    with newest_is_fresh [OF assms(1-4) r] show ?thesis by blast
  qed
  with c show ?thesis unfolding passed_now_def by blast
qed

lemma passed_now_later:
  assumes "passed_now en cat ci d old s t ph n" "sd_results s' = sd_results s" "sd_world s' = sd_world s" "sd_draws s \<le> sd_draws s'"
  shows "passed_now en cat ci d old s' t ph n"
  using assms(1) run_result_mono [OF _ assms(4)] unfolding passed_now_def assms(2,3) by blast

lemma run_checks_triple:
  "triple (checks_recorded en cat ci t ph d old []) (run_checks en cat ci t ph names)
     (\<lambda>_ s. \<exists>ns. set ns = set names \<and> checks_recorded en cat ci t ph d old ns s) (\<lambda>_. True)"
proof (cases "names = []")
  case False
  let ?A = "filter (\<lambda>n. map_option check_type_of (catalog_get cat n) = Some TScripted) names"
  let ?B = "filter (\<lambda>n. map_option check_type_of (catalog_get cat n) \<noteq> Some TScripted) names"
  have first: "triple (checks_recorded en cat ci t ph d old []) (scripted_for_phase en cat ci t ph names)
      (\<lambda>_. checks_recorded en cat ci t ph d old ?A) (\<lambda>_. True)"
    by (rule triple_weaken [OF scripted_triple [of _ _ _ _ _ _ _ "[]"]]) (unfold append.simps, blast+)
  have "triple (checks_recorded en cat ci t ph d old []) (bind_act (scripted_for_phase en cat ci t ph names) (\<lambda>_. agents_for_phase en cat ci t ph names))
      (\<lambda>_. checks_recorded en cat ci t ph d old (?A @ ?B)) (\<lambda>_. True)"
    by (rule triple_bind [OF first agents_triple])
  then have "triple (checks_recorded en cat ci t ph d old []) (bind_act (scripted_for_phase en cat ci t ph names) (\<lambda>_. agents_for_phase en cat ci t ph names))
      (\<lambda>_ s. \<exists>ns. set ns = set names \<and> checks_recorded en cat ci t ph d old ns s) (\<lambda>_. True)"
    by (rule triple_weaken) (auto intro!: exI [of _ "?A @ ?B"])
  with False show ?thesis by (simp add: run_checks_def)
qed (simp add: triple_ret run_checks_def)

lemma score_triple:
  assumes "\<forall>r \<in> ran m0. \<forall>k \<ge> d. cr_created_at r < en_now en k" "set ns = set names"
  shows "triple (checks_recorded en cat ci t ph d (ran m0) ns) (score_checks en cat t ph names)
     (\<lambda>v s. gv_passing v \<longrightarrow> (\<forall>n \<in> set names. passed_now en cat ci d (ran m0) s t ph n)) (\<lambda>_. True)"
proof (rule tripleI)
  fix s v s' assume s: "checks_recorded en cat ci t ph d (ran m0) ns s" and run: "score_checks en cat t ph names s = (Inr v, s')"
  then have eval: "evaluate_handoff_gate (env_from (sd_draws s) en) cat (sd_results s) t ph names True (sd_world s) = (Inr v, sd_world s')"
    by (auto simp: score_checks_def bind_act_def draw_block_def on_sd_world_def zoom_def split: prod.splits)
  have inv: "results_inv (sd_results s)" "world_inv (sd_world s)" using s by (simp_all add: checks_recorded_def)
  from gate_verdict_exact [OF inv eval] obtain rs es where g: "results_for_phase (en_draws (env_from (sd_draws s) en)) t ph (sd_results s) = Inr rs"
    "for_ticket (en_draws (env_from (sd_draws s) en)) t (w_threads (sd_world s)) = Inr es"
    "gv_passing v \<longleftrightarrow> (\<forall>n \<in> set names. required_ok cat rs es n)" "gv_passing v \<Longrightarrow> sd_world s' = sd_world s" by blast
  have "thread_inv (w_threads (sd_world s))" using inv(2) by (simp add: world_inv_def)
  from required_passed [OF s _ assms(1) g(1,2) this] g(3) assms(2)
  have "gv_passing v \<longrightarrow> (\<forall>n \<in> set names. passed_now en cat ci d (ran m0) s t ph n)" by auto
  moreover have "sd_results s' = sd_results s" "sd_draws s \<le> sd_draws s'"
    using run by (auto simp: score_checks_def bind_act_def draw_block_def on_sd_world_def zoom_def split: prod.splits)
  ultimately show "gv_passing v \<longrightarrow> (\<forall>n \<in> set names. passed_now en cat ci d (ran m0) s' t ph n)"
    using g(4) passed_now_later by blast
qed simp

definition harmless :: "(scheduler \<Rightarrow> scheduler) \<Rightarrow> bool" where
  \<comment> \<open>what others do meanwhile keeps the stores well formed and adds no result of a check\<close>
  "harmless f \<longleftrightarrow> (\<forall>s. sd_results (f s) = sd_results s \<and> sd_draws (f s) = sd_draws s \<and> (world_inv (sd_world s) \<longrightarrow> world_inv (sd_world (f s))))"

lemma checks_recorded_meanwhile: "harmless f \<Longrightarrow> checks_recorded en cat ci t ph d old ns s \<Longrightarrow> checks_recorded en cat ci t ph d old ns (f s)"
  unfolding harmless_def by (rule checks_recorded_later) (auto simp: checks_recorded_def)

lemma run_and_score_triple:
  assumes "\<forall>r \<in> ran m0. \<forall>k \<ge> d. cr_created_at r < en_now en k" "harmless (ci_during ci)"
  shows "triple (checks_recorded en cat ci t ph d (ran m0) []) (run_and_score en cat ci t ph names)
     (\<lambda>v s. gv_passing v \<longrightarrow> (\<forall>n \<in> set names. passed_now en cat ci d (ran m0) s t ph n)) (\<lambda>_. True)"
  unfolding run_and_score_def
proof (rule triple_bind [OF run_checks_triple], rule triple_some)
  fix ns assume ns: "set ns = set names"
  show "triple (checks_recorded en cat ci t ph d (ran m0) ns) (bind_act (modify (ci_during ci)) (\<lambda>_. score_checks en cat t ph names))
      (\<lambda>v s. gv_passing v \<longrightarrow> (\<forall>n \<in> set names. passed_now en cat ci d (ran m0) s t ph n)) (\<lambda>_. True)"
    by (rule triple_step [OF _ score_triple [OF assms(1) ns]]) (simp add: modify_def checks_recorded_meanwhile [OF assms(2)])
qed

lemma gate_of_handoff:
  assumes "run_handoff_gate en cat flow ci hid s = (Inr v, s')" "world_inv (sd_world s)"
  obtains e h p where "tmap (sd_world s) hid = Some e" "te_body e = Handoff h" "h_acceptance_state h = Pending"
    "p \<in> set (wf_phases flow)" "ph_name p = h_phase h"
    "run_and_score en cat ci (te_ticket_id e) (h_phase h) (ph_automated_checks p) s = (Inr v, s')"
proof -
  have "thread_inv (w_threads (sd_world s))" using assms(2) by (simp add: world_inv_def)
  then have entry: "on_sd_world (get_entry en hid) s = (Inr (tmap (sd_world s) hid), s)"
    by (simp add: on_sd_world_def zoom_def get_entry_def thread_get_refines)
  obtain e where e: "tmap (sd_world s) hid = Some e"
    using assms(1) by (auto simp: run_handoff_gate_def bind_act_def entry raise_def split: option.splits)
  obtain h where h: "te_body e = Handoff h"
    using assms(1) by (auto simp: run_handoff_gate_def bind_act_def entry e raise_def split: body.splits)
  obtain x where x: "on_sd_world (get_ticket en (te_ticket_id e)) s = (x, s)"
    by (simp add: on_sd_world_def zoom_def get_ticket_def)
  obtain p where p: "List.find (\<lambda>p. ph_name p = h_phase h) (wf_phases flow) = Some p" "\<not> is_resolved e"
    "run_and_score en cat ci (te_ticket_id e) (h_phase h) (ph_automated_checks p) s = (Inr v, s')"
    using assms(1) by (auto simp: run_handoff_gate_def bind_act_def entry e h x raise_def split: if_splits sum.splits option.splits)
  with that [OF e h _ _ _ p(3)] find_Some_in [OF p(1)] handoff_open [OF h] show thesis by blast
qed

text \<open>
  C21: The gate of a handoff passes on runs of its own.  Whatever results are stored, when it passes then
  every check of the phase is in the catalog, and for every required one the store holds a result it did not hold before,
  which is the record of a run of this very check, for this ticket and phase, that began and ended during this call: it has
  the verdict this run came to, which is a pass, or its failure on the commit it ran on has been waived on
  the thread.  The clock is assumed not to run backwards: a result of before is older than those the call makes.  What
  others do while the checks run may change anything but the results of checks, and leaves the stores well formed.
\<close>
theorem gate_passes_on_its_own_runs:
  assumes "run_handoff_gate en cat flow ci hid s = (Inr v, s')" "gv_passing v"
    and "results_inv (sd_results s)" "world_inv (sd_world s)" "harmless (ci_during ci)"
    and "\<forall>r \<in> ran (result_map (sd_results s)). \<forall>k \<ge> sd_draws s. cr_created_at r < en_now en k"
  shows "\<exists>e h p. tmap (sd_world s) hid = Some e \<and> te_body e = Handoff h \<and> h_acceptance_state h = Pending \<and>
    p \<in> set (wf_phases flow) \<and> ph_name p = h_phase h \<and>
    (\<forall>n \<in> set (ph_automated_checks p). passed_now en cat ci (sd_draws s) (ran (result_map (sd_results s))) s' (te_ticket_id e) (h_phase h) n)"
proof -
  obtain e h p where p: "tmap (sd_world s) hid = Some e" "te_body e = Handoff h" "h_acceptance_state h = Pending"
    "p \<in> set (wf_phases flow)" "ph_name p = h_phase h"
    and run: "run_and_score en cat ci (te_ticket_id e) (h_phase h) (ph_automated_checks p) s = (Inr v, s')"
    by (rule gate_of_handoff [OF assms(1,4)])
  have "checks_recorded en cat ci (te_ticket_id e) (h_phase h) (sd_draws s) (ran (result_map (sd_results s))) [] s"
    using assms(3,4) by (simp add: checks_recorded_def)
  from tripleD [OF run_and_score_triple [OF assms(6,5)] this run] assms(2)
  have "\<forall>n \<in> set (ph_automated_checks p). passed_now en cat ci (sd_draws s) (ran (result_map (sd_results s))) s' (te_ticket_id e) (h_phase h) n" by simp
  with p show ?thesis by blast
qed

section \<open>An agent whose first answer is not a verdict\<close>

lemma later_calls: "1 \<le> ca_calls c \<Longrightarrow> ca_verdict (verdict_calls as c) = ca_verdict c \<and> 1 \<le> ca_calls (verdict_calls as c)"
proof (induction as arbitrary: c)
  case (Cons a as)
  then have "snd (check_verdict a c) = c\<lparr>ca_calls := ca_calls c + 1\<rparr>" by (simp add: check_verdict_def Let_def)
  with Cons.IH [of "c\<lparr>ca_calls := ca_calls c + 1\<rparr>"] show ?case by simp
qed simp

lemma refused_call: "fst (check_verdict a fresh_slot) = Inl x \<Longrightarrow> ca_verdict (snd (check_verdict a fresh_slot)) = None \<and> ca_calls (snd (check_verdict a fresh_slot)) = 1"
  by (auto simp: check_verdict_def fresh_slot_def Let_def split: option.splits json.splits if_splits)

lemma short_output: "trim_output ''agent did not record a verdict before timeout'' = ''agent did not record a verdict before timeout''"
  by (simp add: trim_output_def max_output_bytes_def)

text \<open>
  C23: A check agent whose first call of the verdict tool is refused can never give a verdict: every later call
  raises, a correct one too.  When the agent then ends by itself, its check is not recorded as failed, but
  the runner raises, and so does the gate.  When it is stopped by the time limit or crashes, the run is recorded as a timeout
  or an error, with the message of the crash.
\<close>
theorem refused_verdict_breaks_the_check:
  assumes "fst (check_verdict a fresh_slot) = Inl x" "ci_agent ci n (sd_draws s) = (a # calls, e)"
  shows "run_agent_check en ci t ph n c s =
    (case e of
      CheckEnded \<Rightarrow> (Inl (ValidationError ''check result''), s\<lparr>sd_draws := sd_draws s + 3\<rparr>)
    | CheckTimedOut \<Rightarrow> record_check en (check_record en ci ''check-agent'' t ph n c (sd_draws s) VTimeout
        ''agent did not record a verdict before timeout'') (s\<lparr>sd_draws := sd_draws s + 3\<rparr>)
    | CheckCrashed msg \<Rightarrow> record_check en (check_record en ci ''check-agent'' t ph n c (sd_draws s) VError
        (trim_output msg)) (s\<lparr>sd_draws := sd_draws s + 3\<rparr>))"
proof (cases e)
  case CheckEnded
  have "ca_verdict (verdict_calls (a # calls) fresh_slot) = None" "ca_calls (verdict_calls (a # calls) fresh_slot) \<noteq> 0"
    using later_calls [of "snd (check_verdict a fresh_slot)" calls] refused_call [OF assms(1)] by auto
  then have "fst (agent_verdict (a # calls) CheckEnded) = None" by (simp add: agent_verdict_def Let_def del: verdict_calls.simps)
  then show ?thesis
    by (simp add: run_agent_check_def bind_act_def draw_block_def assms(2) CheckEnded raise_def split_beta del: verdict_calls.simps)
qed (simp_all add: run_agent_check_def bind_act_def draw_block_def assms(2) agent_verdict_def Let_def short_output del: show_verdict.simps)

theorem refused_verdict_breaks_the_check_witness:
  "\<exists>ci. ci_agent ci ''n'' 0 = ([[(''verdict'', JStr ''PASS'')], [(''verdict'', JStr ''pass'')]], CheckEnded) \<and>
     (\<forall>s en t ph c. fst (run_agent_check en ci t ph ''n'' c (s\<lparr>sd_draws := 0\<rparr>)) = Inl (ValidationError ''check result''))"
proof -
  let ?ci = "\<lparr>ci_script = (\<lambda>_ _. ScriptExit 0 []), ci_agent = (\<lambda>_ _. ([[(''verdict'', JStr ''PASS'')], [(''verdict'', JStr ''pass'')]], CheckEnded)),
    ci_head = (\<lambda>_. []), ci_during = (\<lambda>s. s)\<rparr>"
  have "fst (check_verdict [(''verdict'', JStr ''PASS'')] fresh_slot) = Inl (ValueError ''verdict'')" by (simp add: check_verdict_def fresh_slot_def Let_def)
  from refused_verdict_breaks_the_check [OF this, of ?ci] show ?thesis by (intro exI [of _ ?ci]) simp
qed

section \<open>Witness of the gate\<close>

lemma single_result:
  assumes "results_inv st" "result_map st = [i \<mapsto> r]"
  shows "results_for_phase cx (cr_ticket_id r) (cr_phase r) st = Inr [r]"
proof -
  obtain rs where rs: "results_for_phase cx (cr_ticket_id r) (cr_phase r) st = Inr rs" "distinct (map cr_id rs)"
    "set rs = {x. \<exists>j. result_map st j = Some x \<and> cr_ticket_id x = cr_ticket_id r \<and> cr_phase x = cr_phase r}"
    by (rule results_for_phase_refines [OF assms(1)])
  have "set rs = {r}" unfolding rs(3) assms(2) by (auto split: if_splits)
  moreover have "distinct rs" using rs(2) by (simp add: distinct_map)
  ultimately have "rs = [r]" by (cases rs; cases "tl rs") auto
  with rs(1) show ?thesis by simp
qed

definition tests_flow :: workflow where
  "tests_flow = \<lparr>wf_name = ''f'', wf_phases = [\<lparr>ph_name = ''dev'', ph_role = ''dev'', ph_automated_checks = [''tests''], ph_evaluator = None,
     ph_questions_to = [], ph_escalation_targets = [], ph_writes = []\<rparr>]\<rparr>"

definition green_checks :: check_inputs where
  "green_checks = \<lparr>ci_script = (\<lambda>_ _. ScriptExit 0 ''ok''), ci_agent = (\<lambda>_ _. ([], CheckEnded)), ci_head = (\<lambda>_. ''abc''), ci_during = (\<lambda>s. s)\<rparr>"

definition green_result :: check_result where
  "green_result = check_record demo_env green_checks ''harness'' ''t'' ''dev'' ''tests'' (snd (hd demo_catalog)) 0 VPass ''ok''"

definition idle_scheduler :: "world \<Rightarrow> scheduler" where
  "idle_scheduler w = \<lparr>sd_world = w, sd_running = [], sd_live = [], sd_events = [], sd_analytics = [], sd_analyses = 0, sd_terminal = {},
     sd_stuck_since = None, sd_stuck_for = None, sd_survival = [], sd_prev_keys = [], sd_results = new_results_store (\<lambda>xs. xs) [], sd_draws = 0\<rparr>"

lemma green_result_recorded:
  obtains st where "results_post [] green_result (new_results_store (\<lambda>xs. xs) []) = (Inr (JStr (cr_id green_result)), st)"
    "results_inv st" "result_map st = [cr_id green_result \<mapsto> green_result]"
proof -
  let ?st0 = "new_results_store (\<lambda>xs. xs) []"
  have inv: "results_inv ?st0" "result_map ?st0 = Map.empty"
    by (simp_all add: new_results_store_def result_map_def model_inv_empty)
  have fits: "dumps_len (JObj (insert_record [] (dump_result green_result))) \<le> st_max_record_bytes ?st0"
    by (simp add: green_result_def check_record_def green_checks_def demo_catalog_def demo_env_def check_type_of_def insert_record_def stored_doc_def
        dump_result_def new_results_store_def new_store_def default_max_record_bytes_def dump_str_len_def dump_char_len_def)
  show thesis
    using crs.insert_succeeds [where m = green_result, OF inv(1) TrueI _ fits, of "\<lambda>_. \<lparr>cx_now = 0, cx_uuid = \<lambda>_. []\<rparr>"] inv(2) that
    unfolding result_map_def results_post_def by auto
qed

theorem gate_passes_on_its_own_runs_witness:
  "\<exists>w v s'. run_handoff_gate demo_env demo_catalog tests_flow green_checks ''h'' (idle_scheduler w) = (Inr v, s') \<and> gv_passing v \<and>
     passed_now demo_env demo_catalog green_checks 0 {} s' ''t'' ''dev'' ''tests''"
proof -
  obtain w where w: "world_inv w" "tmap w = [''h'' \<mapsto> demo_handoff]" "kmap w = [''t'' \<mapsto> demo_ticket]"
    by (rule demo_handoff_world)
  obtain st where st: "results_post [] green_result (new_results_store (\<lambda>xs. xs) []) = (Inr (JStr (cr_id green_result)), st)"
    "results_inv st" "result_map st = [cr_id green_result \<mapsto> green_result]" by (rule green_result_recorded)
  let ?s = "idle_scheduler w" and ?s1 = "(idle_scheduler w)\<lparr>sd_results := st, sd_draws := 3\<rparr>"
  let ?s2 = "snd (publish_check_completed demo_env green_result ?s1)"
  have invs: "thread_inv (w_threads w)" "ticket_inv (ts_coll (w_tickets w))" using w(1) by (simp_all add: world_inv_def)
  have pub: "publish_check_completed demo_env green_result ?s1 = (Inr (), ?s2)" "sd_results ?s2 = st"
    by (auto simp: publish_check_completed_def attempt_def bind_act_def draw_def on_sd_world_def zoom_def split: prod.split sum.split)
  have res: "results_for_phase cx ''t'' ''dev'' st = Inr [green_result]" for cx
    using single_result [OF st(2,3), of cx] by (simp add: green_result_def check_record_def)
  have script: "check_type_of (snd (hd demo_catalog)) = TScripted" "catalog_get demo_catalog ''tests'' = Some (snd (hd demo_catalog))"
    by (simp_all add: demo_catalog_def check_type_of_def catalog_get_def)
  have "run_script_check demo_env green_checks ''t'' ''dev'' ''tests'' (snd (hd demo_catalog)) ?s = (Inr (), ?s2)"
    using st(1) pub(1) by (simp add: run_script_check_def bind_act_def draw_block_def record_check_def on_results_def zoom_def idle_scheduler_def
        green_checks_def trim_output_def max_output_bytes_def green_result_def)
  then have checks: "run_checks demo_env demo_catalog green_checks ''t'' ''dev'' [''tests''] ?s = (Inr (), ?s2)"
    by (simp add: run_checks_def bind_act_def script ret_def)
  have "cr_check_name green_result = ''tests''" "cr_verdict green_result = VPass" by (simp_all add: green_result_def check_record_def)
  then have "\<exists>v s'. score_checks demo_env demo_catalog ''t'' ''dev'' [''tests''] ?s2 = (Inr v, s') \<and> gv_passing v"
    by (simp add: score_checks_def bind_act_def draw_block_def on_sd_world_def zoom_def evaluate_handoff_gate_def lift_res_def latest_batch_def res pub(2)
        script latest_of_def ret_def)
  then obtain v s' where score: "score_checks demo_env demo_catalog ''t'' ''dev'' [''tests''] ?s2 = (Inr v, s')" "gv_passing v" by blast
  have gate: "run_handoff_gate demo_env demo_catalog tests_flow green_checks ''h'' ?s = (Inr v, s')"
    using checks score(1) by (simp add: run_handoff_gate_def bind_act_def on_sd_world_def zoom_def get_entry_def thread_get_refines [OF invs(1)]
        get_ticket_def ticket_get_refines [OF invs(2)] w(2,3) idle_scheduler_def demo_handoff_def is_resolved_def tests_flow_def run_and_score_def
        modify_def green_checks_def)
  have "results_inv (sd_results ?s)" "result_map (sd_results ?s) = Map.empty"
    by (simp_all add: idle_scheduler_def new_results_store_def result_map_def model_inv_empty)
  from gate_passes_on_its_own_runs [OF gate score(2) this(1)] this(2) w(1,2) have "passed_now demo_env demo_catalog green_checks 0 {} s' ''t'' ''dev'' ''tests''"
    by (auto simp: idle_scheduler_def harmless_def green_checks_def tests_flow_def demo_handoff_def split: if_splits)
  with gate score(2) show ?thesis by blast
qed

end
