(* ===== verification/Findings.thy ===== *)
theory Findings
  imports FixRoute CheckResults
begin

text \<open>
  The findings of the reviewers of a ticket: their stable names (\<open>jig/finding_ids.py\<close>), what was
  said about each of them since (\<open>jig/store/finding_acks.py\<close> and the tools of
  \<open>jig/finding_ack_mcp.py\<close>), the bundles handed to the next agent (\<open>jig/fix_loop_bundle.py\<close>), the
  view of them in the interface (\<open>jig/ws_server.py\<close>), and the verdicts of the adjudicator
  (\<open>handle_sa_adjudicate_finding\<close> of \<open>jig/mcp_server.py\<close>).  The order of comments and of
  acknowledgements is that of their files.
\<close>

section \<open>Names\<close>

text \<open>The fourth part of a signature: a string, a number or nothing.\<close>

datatype discriminator = ByUri string | ByLine int | Unanchored

type_synonym finding_signature = "string \<times> string \<times> string option \<times> discriminator"

definition normalize_contract_uri :: "string option \<Rightarrow> string option" where
  "normalize_contract_uri u = map_option (\<lambda>s. let x = lower s in
     if starts_with x ''docs/'' then drop 5 x else if starts_with x ''./'' then drop 2 x else x) u"

definition signature_of :: "review_comment \<Rightarrow> finding_signature" where
  "signature_of c = (rc_reviewer c, rc_type c, rc_file c,
     (case normalize_contract_uri (rc_contract_uri c) of Some u \<Rightarrow> ByUri u
      | None \<Rightarrow> (case rc_line c of Some n \<Rightarrow> ByLine n | None \<Rightarrow> Unanchored)))"

definition assign_id :: "review_comment \<Rightarrow> (finding_signature \<times> string) list \<Rightarrow> (finding_signature \<times> string) list" where
  "assign_id c ids = (if signature_of c \<in> set (keys ids) then ids
     else AList.update (signature_of c) (''RC-'' @ show_nat (length ids + 1)) ids)"

definition compute_finding_ids :: "review_comment list \<Rightarrow> (finding_signature \<times> string) list" where
  "compute_finding_ids cs = fold assign_id cs []"

definition id_in :: "(finding_signature \<times> string) list \<Rightarrow> review_comment \<Rightarrow> string option" where
  \<comment> \<open>\<open>ids.get(signature_of(c))\<close>\<close>
  "id_in ids c = map_of ids (signature_of c)"

definition find_by_id :: "review_comment list \<Rightarrow> string \<Rightarrow> review_comment option" where
  "find_by_id cs fid = List.find (\<lambda>c. id_in (compute_finding_ids cs) c = Some fid) cs"

section \<open>Acknowledgements\<close>

datatype ack_kind = AckAddressed | AckResolved | AckReraised | AckReject | AckDismissed

fun show_ack_kind :: "ack_kind \<Rightarrow> string" where
  "show_ack_kind AckAddressed = ''addressed''"
| "show_ack_kind AckResolved = ''resolved''"
| "show_ack_kind AckReraised = ''reraised''"
| "show_ack_kind AckReject = ''reject''"
| "show_ack_kind AckDismissed = ''dismissed''"

definition read_ack_kind :: "string \<Rightarrow> ack_kind option" where
  "read_ack_kind s = List.find (\<lambda>k. show_ack_kind k = s) [AckAddressed, AckResolved, AckReraised, AckReject, AckDismissed]"

record finding_ack =
  fa_ticket_id :: string
  fa_finding_id :: string
  fa_kind :: ack_kind
  fa_author :: string
  fa_cycle :: int
  fa_prose :: string
  fa_persistence_key :: "string option"
  fa_created_at :: int

definition created_at_sentinel :: int where
  \<comment> \<open>\<open>datetime(1, 1, 1, tzinfo=timezone.utc)\<close> in microseconds\<close>
  "created_at_sentinel = -62135596800000000"

definition ack_ok :: "finding_ack \<Rightarrow> bool" where
  "ack_ok a \<longleftrightarrow> fa_ticket_id a \<noteq> [] \<and> fa_finding_id a \<noteq> [] \<and> fa_author a \<noteq> [] \<and> 0 \<le> fa_cycle a"

definition new_ack :: "string \<Rightarrow> string \<Rightarrow> ack_kind \<Rightarrow> string \<Rightarrow> int \<Rightarrow> string \<Rightarrow> finding_ack result" where
  "new_ack t fid k author cycle prose =
    (let a = \<lparr>fa_ticket_id = t, fa_finding_id = fid, fa_kind = k, fa_author = author, fa_cycle = cycle,
       fa_prose = prose, fa_persistence_key = None, fa_created_at = created_at_sentinel\<rparr>
     in if ack_ok a then Inr a else Inl (ValidationError ''ack''))"

definition dump_ack :: "finding_ack \<Rightarrow> doc" where
  "dump_ack a = [(''ticket_id'', JStr (fa_ticket_id a)), (''finding_id'', JStr (fa_finding_id a)), (''kind'', JStr (show_ack_kind (fa_kind a))),
     (''author'', JStr (fa_author a)), (''cycle'', JInt (fa_cycle a)), (''prose'', JStr (fa_prose a)),
     (''persistence_key'', jopt (fa_persistence_key a)), (''created_at'', JTime (fa_created_at a))]"

definition parse_ack :: "doc \<Rightarrow> finding_ack option" where
  "parse_ack d = do {
     t \<leftarrow> fld_str ''ticket_id'' d;
     f \<leftarrow> fld_str ''finding_id'' d;
     k \<leftarrow> Option.bind (fld_str ''kind'' d) read_ack_kind;
     a \<leftarrow> fld_str ''author'' d;
     c \<leftarrow> fld_int_or ''cycle'' 0 d;
     p \<leftarrow> fld_str ''prose'' d;
     pk \<leftarrow> fld_opt ''persistence_key'' d;
     at \<leftarrow> fld_time_or ''created_at'' created_at_sentinel d;
     let x = \<lparr>fa_ticket_id = t, fa_finding_id = f, fa_kind = k, fa_author = a, fa_cycle = c, fa_prose = p,
       fa_persistence_key = pk, fa_created_at = at\<rparr>;
     guard (ack_ok x);
     Some x }"

definition acks_index :: "string list" where
  "acks_index = [''ticket_id'', ''finding_id'']"

definition new_acks_store :: "(json list \<Rightarrow> json list) \<Rightarrow> line list \<Rightarrow> jsonl_store" where
  "new_acks_store ord fl = new_store ord fl acks_index default_max_record_bytes"

definition append_ack :: "string \<Rightarrow> int \<Rightarrow> finding_ack \<Rightarrow> jsonl_store \<Rightarrow> json result \<times> jsonl_store" where
  \<comment> \<open>\<open>now\<close> is read where the record is not stamped yet\<close>
  "append_ack fresh now a st = insert_doc fresh
     (dump_ack (if fa_created_at a = created_at_sentinel then a\<lparr>fa_created_at := now\<rparr> else a)) st"

definition load_ack :: "doc \<Rightarrow> finding_ack result" where
  "load_ack d = (case parse_ack (dict_without [''_id''] d) of None \<Rightarrow> Inl (ValidationError ''ack'') | Some a \<Rightarrow> Inr a)"

definition get_ack :: "string \<Rightarrow> jsonl_store \<Rightarrow> finding_ack option result" where
  "get_ack i st = (case get_doc (JStr i) st of None \<Rightarrow> Inr None
     | Some d \<Rightarrow> (case load_ack d of Inl e \<Rightarrow> Inl e | Inr a \<Rightarrow> Inr (Some a)))"

definition acks_for_ticket :: "string \<Rightarrow> jsonl_store \<Rightarrow> finding_ack list result" where
  "acks_for_ticket t st = map_res load_ack (find_docs (Some (field_eq ''ticket_id'' (JStr t))) st)"

definition acks_for_finding :: "string \<Rightarrow> string \<Rightarrow> jsonl_store \<Rightarrow> finding_ack list result" where
  "acks_for_finding t fid st = map_res load_ack
     (find_docs (Some (\<lambda>d. field_eq ''ticket_id'' (JStr t) d \<and> field_eq ''finding_id'' (JStr fid) d)) st)"

definition find_id_for :: "string \<Rightarrow> string \<Rightarrow> string \<Rightarrow> string \<Rightarrow> int \<Rightarrow> jsonl_store \<Rightarrow> json option" where
  \<comment> \<open>\<open>str(raws[0]["_id"])\<close>, where every id is a string\<close>
  "find_id_for t fid k author cycle st =
    (case find_docs (Some (\<lambda>d. field_eq ''ticket_id'' (JStr t) d \<and> field_eq ''finding_id'' (JStr fid) d \<and>
         field_eq ''kind'' (JStr k) d \<and> field_eq ''author'' (JStr author) d \<and> field_eq ''cycle'' (JInt cycle) d)) st of
       [] \<Rightarrow> None | d # _ \<Rightarrow> Some (doc_id d))"

section \<open>The tools of developers and reviewers\<close>

definition max_ack_prose :: nat where
  "max_ack_prose = 500"

definition write_ack ::
  "string \<Rightarrow> int \<Rightarrow> string \<Rightarrow> string \<Rightarrow> ack_kind \<Rightarrow> string \<Rightarrow> int \<Rightarrow> string \<Rightarrow> jsonl_store \<Rightarrow> json result \<times> jsonl_store" where
  "write_ack fresh now t fid k author cycle prose st =
    (case find_id_for t fid (show_ack_kind k) author cycle st of
       Some i \<Rightarrow> (Inr i, st)
     | None \<Rightarrow> (case new_ack t fid k author cycle prose of Inl e \<Rightarrow> (Inl e, st) | Inr a \<Rightarrow> append_ack fresh now a st))"

definition checked_ack ::
  "string \<Rightarrow> int \<Rightarrow> review_comment list \<Rightarrow> string \<Rightarrow> string \<Rightarrow> ack_kind \<Rightarrow> string \<Rightarrow> int \<Rightarrow> string \<Rightarrow> jsonl_store \<Rightarrow> json result \<times> jsonl_store" where
  \<comment> \<open>\<open>_validate_prose\<close>, \<open>_validate_finding_id\<close> against the comments of the ticket, \<open>_write_ack\<close>\<close>
  "checked_ack fresh now cs t fid k author cycle prose st =
    (if length prose > max_ack_prose then (Inl (ValueError ''prose too long''), st)
     else if fid \<notin> set (map snd (compute_finding_ids cs)) then (Inl (ValueError ''unknown finding''), st)
     else write_ack fresh now t fid k author cycle prose st)"

definition mark_finding_addressed ::
  "string \<Rightarrow> int \<Rightarrow> review_comment list \<Rightarrow> string \<Rightarrow> string \<Rightarrow> string \<Rightarrow> int \<Rightarrow> string \<Rightarrow> string \<Rightarrow> jsonl_store \<Rightarrow> json result \<times> jsonl_store" where
  "mark_finding_addressed fresh now cs t fid author cycle how kind st =
    (if kind = ''reject'' \<and> blank how then (Inl (ValueError ''no rationale''), st)
     else if kind \<notin> {''addressed'', ''reject''} then (Inl (ValueError ''invalid kind''), st)
     else checked_ack fresh now cs t fid (if kind = ''reject'' then AckReject else AckAddressed) author cycle how st)"

definition mark_finding_resolved ::
  "string \<Rightarrow> int \<Rightarrow> review_comment list \<Rightarrow> string \<Rightarrow> string \<Rightarrow> string \<Rightarrow> int \<Rightarrow> string \<Rightarrow> jsonl_store \<Rightarrow> json result \<times> jsonl_store" where
  "mark_finding_resolved fresh now cs t fid author cycle confirmation st =
     checked_ack fresh now cs t fid AckResolved author cycle confirmation st"

section \<open>Bundles\<close>

fun first_by_id :: "(finding_signature \<times> string) list \<Rightarrow> string set \<Rightarrow> review_comment list \<Rightarrow> (string \<times> review_comment) list" where
  \<comment> \<open>the first comment of each name that was not seen yet\<close>
  "first_by_id ids seen [] = []"
| "first_by_id ids seen (c # cs) = (case id_in ids c of
     None \<Rightarrow> first_by_id ids seen cs
   | Some fid \<Rightarrow> if fid \<in> seen then first_by_id ids seen cs else (fid, c) # first_by_id ids (insert fid seen) cs)"

definition compute_reraised_acks :: "review_comment list \<Rightarrow> review_comment list \<Rightarrow> finding_ack list \<Rightarrow> string \<Rightarrow> finding_ack list result" where
  "compute_reraised_acks prior new acks t =
     map_res (\<lambda>(fid, c). new_ack t fid AckReraised ''orchestrator'' (rc_cycle c) (rc_prose c))
       (first_by_id (compute_finding_ids (prior @ new)) (fa_finding_id ` {a \<in> set acks. fa_kind a = AckResolved})
          (filter (\<lambda>c. signature_of c \<in> signature_of ` set prior) new))"

definition acks_of :: "finding_ack list \<Rightarrow> string \<Rightarrow> finding_ack list" where
  "acks_of acks fid = filter (\<lambda>a. fa_finding_id a = fid) acks"

definition ack_to_dict :: "finding_ack \<Rightarrow> doc" where
  "ack_to_dict a = [(''kind'', JStr (show_ack_kind (fa_kind a))), (''author'', JStr (fa_author a)),
     (''cycle'', JInt (fa_cycle a)), (''prose'', JStr (fa_prose a))]"

record bundle_finding =
  bf_finding_id :: string
  bf_file :: "string option"
  bf_line :: "int option"
  bf_severity :: finding_severity
  bf_reviewer :: string
  bf_prose :: string

definition bundle_entry :: "string \<times> review_comment \<Rightarrow> bundle_finding" where
  "bundle_entry e = (case e of (fid, c) \<Rightarrow> \<lparr>bf_finding_id = fid, bf_file = rc_file c, bf_line = rc_line c,
     bf_severity = rc_severity c, bf_reviewer = rc_reviewer c, bf_prose = rc_prose c\<rparr>)"

definition max_rendered_findings :: nat where
  "max_rendered_findings = 30"

definition routed_findings :: "(string \<Rightarrow> string option) \<Rightarrow> phase list \<Rightarrow> nat \<Rightarrow> nat \<Rightarrow> review_comment list \<Rightarrow> (string \<times> review_comment) list" where
  \<comment> \<open>\<open>_route_one\<close> is called without the project here, so the scope of the reviewer is not looked at\<close>
  "routed_findings touched ps b target cs = first_by_id (compute_finding_ids cs) {}
     (filter (\<lambda>c. fst (route_one (\<lambda>_. False) touched ps b c) = Some target) (latest_blocking cs))"

definition build_fix_loop_bundle ::
  "(string \<Rightarrow> string option) \<Rightarrow> phase list \<Rightarrow> nat \<Rightarrow> nat \<Rightarrow> review_comment list \<Rightarrow> finding_ack list \<Rightarrow> (bundle_finding \<times> doc list) list \<times> nat" where
  \<comment> \<open>the findings with their history, and how many are left out\<close>
  "build_fix_loop_bundle touched ps b target cs acks =
    (let fs = map (\<lambda>(fid, c). (bundle_entry (fid, c), map ack_to_dict (acks_of acks fid))) (routed_findings touched ps b target cs)
     in (take max_rendered_findings fs, length fs - max_rendered_findings))"

definition verify_status :: "finding_ack list \<Rightarrow> string" where
  \<comment> \<open>of the acknowledgements of one finding, by cycle\<close>
  "verify_status acks = (if list_ex (\<lambda>a. fa_kind a = AckResolved) acks then ''resolved''
     else if acks = [] then ''open'' else show_ack_kind (fa_kind (last acks)))"

definition latest_dev_claim :: "finding_ack list \<Rightarrow> finding_ack option" where
  "latest_dev_claim acks = fold (\<lambda>a x. if fa_kind a \<in> {AckAddressed, AckReject} then Some a else x) acks None"

record verify_finding =
  vf_entry :: bundle_finding
  vf_dev_claim :: "(int \<times> string \<times> string \<times> ack_kind) option"
  vf_status :: string

definition verify_entry :: "review_comment list \<Rightarrow> finding_ack list \<Rightarrow> string \<Rightarrow> verify_finding" where
  \<comment> \<open>from the first comment with the name\<close>
  "verify_entry cs acks fid =
    (let as = sort_key fa_cycle (acks_of acks fid)
     in \<lparr>vf_entry = bundle_entry (fid, the (find_by_id cs fid)),
         vf_dev_claim = map_option (\<lambda>a. (fa_cycle a, fa_author a, fa_prose a, fa_kind a)) (latest_dev_claim as),
         vf_status = verify_status as\<rparr>)"

definition build_verify_bundle :: "review_comment list \<Rightarrow> finding_ack list \<Rightarrow> verify_finding list option" where
  "build_verify_bundle cs acks =
    (if acks = [] \<or> cs = [] then None
     else (let fs = map (\<lambda>(fid, _). verify_entry cs acks fid)
             (first_by_id (compute_finding_ids cs) {} (filter (\<lambda>c. rc_severity c \<noteq> Notable) cs))
           in if fs = [] then None else Some fs))"

section \<open>The view of the interface\<close>

definition view_status :: "finding_ack list \<Rightarrow> string" where
  \<comment> \<open>of the acknowledgements of one finding, as they were appended\<close>
  "view_status acks = (if list_ex (\<lambda>a. fa_kind a = AckResolved) acks then ''resolved''
     else if acks \<noteq> [] \<and> fa_kind (last acks) \<in> {AckAddressed, AckReraised, AckReject} then show_ack_kind (fa_kind (last acks))
     else ''open'')"

definition get_findings_for_ticket :: "review_comment list \<Rightarrow> finding_ack list \<Rightarrow> (bundle_finding \<times> string \<times> doc list) list" where
  "get_findings_for_ticket cs acks = map (\<lambda>(fid, c). (bundle_entry (fid, c), view_status (acks_of acks fid),
       map (\<lambda>a. ack_to_dict a @ [(''created_at'', JTime (fa_created_at a))]) (acks_of acks fid)))
     (first_by_id (compute_finding_ids cs) {} cs)"

section \<open>Adjudication\<close>

datatype sa_verdict = UpholdFail | Dismissed | UpholdGuidance

definition read_sa_verdict :: "string \<Rightarrow> sa_verdict option" where
  "read_sa_verdict s = (if s = ''dismissed'' then Some Dismissed else if s = ''uphold_guidance'' then Some UpholdGuidance
     else if s = ''uphold_fail'' then Some UpholdFail else None)"

definition escalated_map :: "review_comment list \<Rightarrow> string list \<Rightarrow> (string \<times> string) list" where
  \<comment> \<open>the name of the latest blocking comment of each key, for the keys that have one\<close>
  "escalated_map cs ks = fold (\<lambda>k m. case rev (filter (\<lambda>c. blocks_review c \<and> persistence_key c = k) cs) of
       [] \<Rightarrow> m
     | c # _ \<Rightarrow> (case id_in (compute_finding_ids cs) c of None \<Rightarrow> m | Some fid \<Rightarrow> AList.update fid k m)) ks []"

definition sa_adjudicate_finding ::
  "(string \<times> string) list \<Rightarrow> string \<times> string \<Rightarrow> (string \<times> sa_verdict) list \<Rightarrow> unit result \<times> (string \<times> sa_verdict) list" where
  \<comment> \<open>one call; the rationale and the guidance are left out\<close>
  "sa_adjudicate_finding escalated call vs = (case call of (fid, v) \<Rightarrow>
     if fid \<notin> set (keys escalated) then (Inl (ValueError ''not escalated''), vs)
     else (case read_sa_verdict v of None \<Rightarrow> (Inl (ValueError ''unknown verdict''), vs)
       | Some x \<Rightarrow> if fid \<in> set (keys vs) then (Inl (ValueError ''already recorded''), vs) else (Inr (), AList.update fid x vs)))"

definition recorded_verdicts :: "(string \<times> string) list \<Rightarrow> (string \<times> string) list \<Rightarrow> (string \<times> sa_verdict) list" where
  "recorded_verdicts escalated calls = fold (\<lambda>call vs. snd (sa_adjudicate_finding escalated call vs)) calls []"

end
