(* ===== verification/Scope.thy ===== *)
theory Scope
  imports FixRoute SafePath
begin

text \<open>
  What a reviewer may read: \<open>jig/scope.py\<close>, whose globs are compiled to regular expressions, and the
  findings on files outside of it (\<open>_filter_out_of_scope_comments\<close> of \<open>jig/orchestrator.py\<close>).  The
  \<open>reads_glob\<close> and \<open>reads_exclude\<close> of the role files are a parameter, \<open>None\<close> for a reviewer without a
  file.  A bracket expression that does not translate to one of its own (an empty one, a
  range that goes down, an escape) has no meaning here: the regular expression it ends up in depends on the text
  around it, or does not compile.
\<close>

section \<open>Globs\<close>

text \<open>The fragments that \<open>_translate\<close> emits.\<close>

datatype piece =
    AnyDirs \<comment> \<open>\<open>(?:.*/)?\<close>\<close>
  | AllBelow \<comment> \<open>\<open>(?:/.*)?\<close>\<close>
  | AnyText \<comment> \<open>\<open>.*\<close>\<close>
  | PartText \<comment> \<open>\<open>[^/]*\<close>\<close>
  | PartChar \<comment> \<open>\<open>[^/]\<close>\<close>
  | Literal char
  | CharClass bool string

fun class_ranges_ok :: "string \<Rightarrow> bool" where
  "class_ranges_ok (a # d # b # rest) =
    (if d = CHR ''-'' then (of_char a :: nat) \<le> of_char b \<and> class_ranges_ok rest else class_ranges_ok (d # b # rest))"
| "class_ranges_ok _ = True"

definition class_piece :: "string \<Rightarrow> piece option" where
  \<comment> \<open>\<open>!\<close> is translated to \<open>^\<close>, which is also taken as it is\<close>
  "class_piece body =
    (let neg = body \<noteq> [] \<and> hd body \<in> {CHR ''!'', CHR ''^''}; cs = (if neg then tl body else body)
     in if cs = [] \<or> CHR 0x5C \<in> set cs \<or> \<not> class_ranges_ok cs then None else Some (CharClass neg cs))"

function (sequential) translate :: "piece list \<Rightarrow> string \<Rightarrow> piece list option" where
  \<comment> \<open>the pieces so far, last first\<close>
  "translate acc [] = Some (rev acc)"
| "translate acc (c # cs) =
    (if c = CHR ''*'' then (case cs of
       d # rest \<Rightarrow> if d \<noteq> CHR ''*'' then translate (PartText # acc) cs
         else (case rest of
           [] \<Rightarrow> (case acc of Literal s # acc' \<Rightarrow> if s = CHR ''/'' then Some (rev (AllBelow # acc')) else Some (rev (AnyText # acc))
             | _ \<Rightarrow> Some (rev (AnyText # acc)))
         | e # rest' \<Rightarrow> if e = CHR ''/'' then translate (AnyDirs # acc) rest' else translate (AnyText # acc) rest)
     | [] \<Rightarrow> translate (PartText # acc) [])
     else if c = CHR ''?'' then translate (PartChar # acc) cs
     else if c = CHR ''['' then (case class_body [] cs of
       None \<Rightarrow> translate (Literal c # acc) cs
     | Some (body, rest) \<Rightarrow> (case class_piece body of None \<Rightarrow> None | Some p \<Rightarrow> translate (p # acc) rest))
     else translate (Literal c # acc) cs)"
  by pat_completeness auto
termination
  by (relation "measure (\<lambda>(acc, p). length p)") (auto dest!: class_body_shorter)

function (sequential) full_match :: "piece list \<Rightarrow> string \<Rightarrow> bool" where
  "full_match [] s = (s = [])"
| "full_match (AnyDirs # ps) s = (full_match ps s \<or>
     list_ex (\<lambda>i. s ! i = CHR ''/'' \<and> newline \<notin> set (take i s) \<and> full_match ps (drop (i + 1) s)) [0..<length s])"
| "full_match (AllBelow # ps) s = (full_match ps s \<or> (case s of [] \<Rightarrow> False | c # s' \<Rightarrow> c = CHR ''/'' \<and>
     list_ex (\<lambda>i. newline \<notin> set (take i s') \<and> full_match ps (drop i s')) [0..<length s' + 1]))"
| "full_match (AnyText # ps) s = (full_match ps s \<or> (case s of [] \<Rightarrow> False | c # s' \<Rightarrow> c \<noteq> newline \<and> full_match (AnyText # ps) s'))"
| "full_match (PartText # ps) s = (full_match ps s \<or> (case s of [] \<Rightarrow> False | c # s' \<Rightarrow> c \<noteq> CHR ''/'' \<and> full_match (PartText # ps) s'))"
| "full_match (PartChar # ps) s = (case s of [] \<Rightarrow> False | c # s' \<Rightarrow> c \<noteq> CHR ''/'' \<and> full_match ps s')"
| "full_match (Literal d # ps) s = (case s of [] \<Rightarrow> False | c # s' \<Rightarrow> c = d \<and> full_match ps s')"
| "full_match (CharClass neg b # ps) s = (case s of [] \<Rightarrow> False | c # s' \<Rightarrow> in_class c b \<noteq> neg \<and> full_match ps s')"
  by pat_completeness auto
termination
  by (relation "measures [\<lambda>(ps, s). length ps, \<lambda>(ps, s). length s]") auto

definition glob_match :: "string \<Rightarrow> string \<Rightarrow> bool option" where
  "glob_match path pat = map_option (\<lambda>ps. full_match ps path) (translate [] pat)"

section \<open>Scope\<close>

definition path_parts :: "string \<Rightarrow> string list" where
  \<comment> \<open>\<open>PurePosixPath(path).parts\<close> of a relative path\<close>
  "path_parts path = filter (\<lambda>w. w \<noteq> [] \<and> w \<noteq> ''.'') (split_on (CHR ''/'') path)"

fun any_match :: "string \<Rightarrow> string list \<Rightarrow> bool option" where
  "any_match path [] = Some False"
| "any_match path (p # ps) = do { b \<leftarrow> glob_match path p; if b then Some True else any_match path ps }"

definition path_in_scope :: "string \<Rightarrow> string list \<Rightarrow> string list \<Rightarrow> bool option" where
  \<comment> \<open>the path, \<open>include\<close>, \<open>exclude\<close>\<close>
  "path_in_scope path inc exc =
    (if path = [] \<or> hd path = CHR ''/'' \<or> path_parts path = [] \<or> ''..'' \<in> set (path_parts path) \<or> ''.'' \<in> set (path_parts path) then Some False
     else do {
       included \<leftarrow> (if inc = [] then Some True else any_match path inc);
       if \<not> included then Some False else do {
         excluded \<leftarrow> any_match path exc;
         Some (\<not> excluded) } })"

definition glob_to_git_pathspec :: "string list \<Rightarrow> string list \<Rightarrow> string list" where
  "glob_to_git_pathspec inc exc = map (\<lambda>p. '':(glob)'' @ p) inc @ map (\<lambda>p. '':(exclude,glob)'' @ p) exc"

definition out_of_scope :: "(string \<Rightarrow> (string list \<times> string list) option) \<Rightarrow> review_comment \<Rightarrow> bool" where
  \<comment> \<open>the file of the comment is one its reviewer may not read\<close>
  "out_of_scope roles c = (case roles (rc_reviewer c) of
     None \<Rightarrow> False
   | Some (inc, exc) \<Rightarrow> inc \<noteq> [] \<and> path_in_scope (the_default [] (rc_file c)) inc exc = Some False)"

section \<open>Lemmas\<close>

definition plain :: "string \<Rightarrow> bool" where
  \<comment> \<open>no character of the text has a meaning in a glob\<close>
  "plain p \<longleftrightarrow> set p \<inter> {CHR ''*'', CHR ''?'', CHR ''[''} = {}"

lemma translate_plain: "plain p \<Longrightarrow> translate acc (p @ q) = translate (rev (map Literal p) @ acc) q"
  by (induction p arbitrary: acc) (auto simp: plain_def)

lemma match_literals: "full_match (map Literal p @ ps) s \<longleftrightarrow> (\<exists>t. s = p @ t \<and> full_match ps t)"
proof (induction p arbitrary: s)
  case (Cons c p)
  then show ?case by (cases s) auto
qed simp

lemma match_below: "full_match [AllBelow] s \<longleftrightarrow> s = [] \<or> (\<exists>t. s = CHR ''/'' # t \<and> newline \<notin> set t)"
proof (cases s)
  case (Cons c t)
  have "list_ex (\<lambda>i. newline \<notin> set (take i t) \<and> drop i t = []) [0..<length t + 1] \<longleftrightarrow> newline \<notin> set t"
    unfolding list_ex_iff by (auto intro!: bexI [of _ "length t"])
  with Cons show ?thesis by simp
qed simp

lemma glob_below: "plain p \<Longrightarrow> glob_match path (p @ ''/**'') = Some (path = p \<or> (\<exists>t. path = p @ ''/'' @ t \<and> newline \<notin> set t))"
  by (auto simp: glob_match_def translate_plain match_literals match_below simp del: full_match.simps)

lemma glob_plain: "plain p \<Longrightarrow> glob_match path p = Some (path = p)"
  using translate_plain [of p "[]" "[]"] match_literals [of p "[]" path] by (simp add: glob_match_def)

text \<open>A single star stays within a component.\<close>

lemma match_part: "full_match [PartText] s \<longleftrightarrow> CHR ''/'' \<notin> set s"
  by (induction s) auto

lemma glob_files: "plain p \<Longrightarrow> glob_match path (p @ ''/*'') = Some (\<exists>t. path = p @ ''/'' @ t \<and> CHR ''/'' \<notin> set t)"
proof -
  assume "plain p"
  then have "translate [] (p @ ''/*'') = Some (map Literal (p @ ''/'') @ [PartText])" by (simp add: translate_plain)
  then show ?thesis by (auto simp: glob_match_def match_literals match_part simp del: map_append full_match.simps)
qed

lemma any_match_below: "list_all plain ds \<Longrightarrow>
    any_match path (map (\<lambda>d. d @ ''/**'') ds) = Some (\<exists>d \<in> set ds. path = d \<or> (\<exists>t. path = d @ ''/'' @ t \<and> newline \<notin> set t))"
  by (induction ds) (auto simp: glob_below)

text \<open>
  C36: A reviewer that may read some directories and is kept out of others, all named without
  special characters and followed by \<open>/**\<close>, may read exactly those paths without a \<open>..\<close> component that are one
  of the former or lie below it at any depth, and neither are one of the latter nor below it.  The path is
  a relative one without empty components, \<open>.\<close> components and line breaks; other spellings are not covered.
\<close>
theorem directory_scope_exact:
  assumes "list_all plain ds" "list_all plain es" "ds \<noteq> []" "newline \<notin> set path"
    and "[] \<notin> set (split_on (CHR ''/'') path)" "''.'' \<notin> set (split_on (CHR ''/'') path)"
  shows "path_in_scope path (map (\<lambda>d. d @ ''/**'') ds) (map (\<lambda>d. d @ ''/**'') es) = Some
    (''..'' \<notin> set (split_on (CHR ''/'') path) \<and>
     (\<exists>d \<in> set ds. path = d \<or> (\<exists>t. path = d @ ''/'' @ t)) \<and> \<not> (\<exists>e \<in> set es. path = e \<or> (\<exists>t. path = e @ ''/'' @ t)))"
proof -
  have parts: "path_parts path = split_on (CHR ''/'') path" unfolding path_parts_def using assms(5,6) by (auto simp: filter_id_conv)
  have ne: "path \<noteq> []" using assms(5) by auto
  have "hd path \<noteq> CHR ''/''" using ne assms(5) by (cases path) auto
  moreover note ne
  moreover have "(\<exists>d \<in> set xs. path = d \<or> (\<exists>t. path = d @ ''/'' @ t \<and> newline \<notin> set t)) \<longleftrightarrow>
      (\<exists>d \<in> set xs. path = d \<or> (\<exists>t. path = d @ ''/'' @ t))" for xs :: "string list"
    by (rule bex_cong [OF refl]) (use assms(4) in auto)
  ultimately show ?thesis
    using assms(3,6) unfolding path_in_scope_def parts any_match_below [OF assms(1)] any_match_below [OF assms(2)] by simp
qed

theorem directory_scope_exact_witness:
  "path_in_scope ''src/a/b.py'' [''src/**''] [''src/gen/**''] = Some True \<and>
   path_in_scope ''src/gen/b.py'' [''src/**''] [''src/gen/**''] = Some False"
  using directory_scope_exact [of "[''src'']" "[''src/gen'']" "''src/a/b.py''"]
    directory_scope_exact [of "[''src'']" "[''src/gen'']" "''src/gen/b.py''"]
  by (simp add: plain_def newline_def)

text \<open>
  A \<open>.\<close> component is removed by \<open>PurePosixPath\<close> before it is looked for, while the globs are matched
  on the text: another spelling of an excluded path is in scope.
\<close>

lemma dotted_spelling_escapes:
  "path_in_scope ''src/./gen/b.py'' [''src/**''] [''src/gen/**''] = Some True \<and>
   path_in_scope ''src//gen/b.py'' [''src/**''] [''src/gen/**''] = Some True"
proof -
  have "any_match p [''src/**''] = Some (p = ''src'' \<or> (\<exists>t. p = ''src/'' @ t \<and> newline \<notin> set t))"
    "any_match p [''src/gen/**''] = Some (p = ''src/gen'' \<or> (\<exists>t. p = ''src/gen/'' @ t \<and> newline \<notin> set t))" for p
    using any_match_below [of "[''src'']" p] any_match_below [of "[''src/gen'']" p] by (simp_all add: plain_def)
  then show ?thesis by (simp add: path_in_scope_def path_parts_def newline_def)
qed

end
