(* ===== verification/Notables.thy ===== *)
theory Notables
  imports CheckRunner Findings Scope
begin

text \<open>
  Notable findings never block: \<open>_file_notable_issues\<close> of \<open>jig/orchestrator.py\<close> turns each into a proposed
  ticket for the operator, once, by a label that is computed from the signature of the finding.
  The digest in the label (SHA-1 of the printed signature, cut to twelve characters) is a parameter.
  The event of analytics is left out.
\<close>

type_synonym sig_digest = "finding_signature \<Rightarrow> string"

definition notable_sig_label :: "sig_digest \<Rightarrow> finding_signature \<Rightarrow> string" where
  "notable_sig_label digest s = ''sig:'' @ digest s"

definition notable_location :: "review_comment \<Rightarrow> string" where
  "notable_location c = (if the_default [] (rc_file c) = [] then ''n/a''
     else the_default [] (rc_file c) @ '':'' @ (case rc_line c of None \<Rightarrow> ''None'' | Some n \<Rightarrow> show_int n))"

definition notable_title :: "review_comment \<Rightarrow> string" where
  "notable_title c = (let t = ''[review] '' @ rc_prose c in if length t > 100 then take 97 t @ ''...'' else t)"

definition notable_description :: "string \<Rightarrow> review_comment \<Rightarrow> string" where
  "notable_description i c = ''Non-blocking finding from '' @ rc_reviewer c @ '' on ticket '' @ i @ '' ('' @ rc_type c @
     '', severity notable).'' @ [newline, newline] @ ''Location: '' @ notable_location c @ [newline, newline] @ rc_prose c @ [newline, newline] @
     ''## Acceptance criteria'' @ [newline] @ ''- The concern described above ('' @ notable_location c @
     '') is addressed and the change passes review.'' @ [newline]"

definition notable_ticket :: "env \<Rightarrow> nat \<Rightarrow> string \<Rightarrow> string \<Rightarrow> review_comment \<Rightarrow> ticket option" where
  "notable_ticket en n i label c = validate_ticket \<lparr>cx_now = en_now en n, cx_uuid = (\<lambda>_. en_uuid en n)\<rparr>
     [(''work_type'', JStr (show_work_type WRefactor)), (''title'', JStr (notable_title c)), (''description'', JStr (notable_description i c)),
      (''status'', JStr (show_status StProposed)), (''parent_id'', JStr i), (''labels'', jstrs [''review-notable'', label]),
      (''created_by'', JStr ''review-federation'')]"

definition filed_labels :: "string \<Rightarrow> ticket \<Rightarrow> string list" where
  "filed_labels i t = (if tk_parent_id t = Some i \<and> ''review-notable'' \<in> set (tk_labels t)
     then filter (\<lambda>l. starts_with l ''sig:'') (tk_labels t) else [])"

fun file_each :: "env \<Rightarrow> sig_digest \<Rightarrow> string \<Rightarrow> review_comment list \<Rightarrow> string set \<Rightarrow> nat \<Rightarrow> nat sact" where
  \<comment> \<open>the labels that have a ticket, and the number filed\<close>
  "file_each en dg i [] seen filed = ret filed"
| "file_each en dg i (c # cs) seen filed = (let label = notable_sig_label dg (signature_of c) in
     if label \<in> seen then file_each en dg i cs seen filed
     else bind_act draw (\<lambda>n. case notable_ticket en n i label c of
       None \<Rightarrow> raise (ValidationError ''ticket'')
     | Some t \<Rightarrow> bind_act (on_sd_world (create_ticket t)) (\<lambda>_. file_each en dg i cs (insert label seen) (filed + 1))))"

definition file_notable_issues :: "env \<Rightarrow> (review_comment \<Rightarrow> bool) \<Rightarrow> sig_digest \<Rightarrow> string \<Rightarrow> review_comment list \<Rightarrow> nat sact" where
  "file_notable_issues en out dg i cs = (let notables = in_scope_comments out cs in
     if notables = [] then ret 0
     else bind_act (on_sd_world (list_tickets en)) (\<lambda>ts. file_each en dg i notables (set (concat (map (filed_labels i) ts))) 0))"

end
