(* ===== verification/PhaseLoop.thy ===== *)
theory PhaseLoop
  imports CheckRunner Notables
begin

text \<open>
  The life of one ticket in \<open>jig/orchestrator.py\<close> (\<open>_run_ticket\<close>): its phases in order, the gate of a
  phase, the rounds of fixes a blocked phase is sent back for, and the adjudication of findings
  that persist.  What happens outside the loop is an input of each round: how the agent ended,
  what the reviewers found, the verdicts, whether the commit worked, and what everybody else
  did to the stores in the meantime.  What the next agent is told is left out.
\<close>

section \<open>Inputs\<close>

datatype agent_end = AgentRaised | AgentEnded string

datatype review_end = ReviewMisconfigured | ReviewCrashed | ReviewFound "review_comment list"

text \<open>The first line of a hash that was committed, and the warnings of a check that could not run.\<close>

datatype commit_end = CommitFailed string | CommitDone "string option" "string list"

text \<open>
  The calls of the adjudicator name a finding and a verdict, \<open>None\<close> where it could not be spawned.
\<close>

record round_input =
  ri_during :: "scheduler \<Rightarrow> scheduler"
  ri_agent :: agent_end
  ri_review :: review_end
  ri_checks :: check_inputs
  ri_waits :: "(scheduler \<Rightarrow> scheduler) list"
  ri_comments :: "review_comment list"
  ri_verdicts :: "(string \<times> string) list option"
  ri_commit :: commit_end
  ri_resume :: "scheduler \<Rightarrow> scheduler"
  ri_duration :: int

record loop_config =
  lc_sched :: sched_config
  lc_env :: env
  lc_federation :: bool
  lc_catalog :: "catalog result"
  lc_roles :: "string \<Rightarrow> (string list \<times> string list) option"
  lc_touched :: "string \<Rightarrow> string option"
  lc_digest :: sig_digest

definition lc_out :: "loop_config \<Rightarrow> review_comment \<Rightarrow> bool" where
  "lc_out lc = out_of_scope (lc_roles lc)"

section \<open>State\<close>

text \<open>
  The locals of \<open>_run_ticket\<close> and the binding dismissals of the ticket (\<open>finding_acks.jsonl\<close>).
\<close>

record ticket_task =
  tt_sched :: scheduler
  tt_ticket :: "ticket option"
  tt_idx :: nat
  tt_fix :: "nat \<Rightarrow> nat"
  tt_sa :: "nat \<Rightarrow> nat"
  tt_cycle :: nat
  tt_result :: "string option"
  tt_dismissed :: "string list"

type_synonym 'a tact = "(ticket_task, 'a) action"

definition on_sched :: "'a sact \<Rightarrow> 'a tact" where
  "on_sched = zoom tt_sched (\<lambda>x s. s\<lparr>tt_sched := x\<rparr>)"

definition set_task :: "(ticket_task \<Rightarrow> ticket_task) \<Rightarrow> unit tact" where
  "set_task f s = (Inr (), f s)"

definition look :: "(ticket_task \<Rightarrow> 'a) \<Rightarrow> 'a tact" where
  "look f s = (Inr (f s), s)"

definition others :: "(scheduler \<Rightarrow> scheduler) \<Rightarrow> unit tact" where
  "others f = on_sched (modify f)"

definition with_finally :: "('a \<Rightarrow> bool) \<Rightarrow> 'a tact \<Rightarrow> unit tact \<Rightarrow> 'a tact" where
  \<comment> \<open>\<open>try: m; finally: fin\<close>, where \<open>m\<close> may be left waiting\<close>
  "with_finally waits m fin s = (case m s of (r, s1) \<Rightarrow>
     if (case r of Inl _ \<Rightarrow> False | Inr x \<Rightarrow> waits x) then (r, s1)
     else (case fin s1 of (Inl e, s2) \<Rightarrow> (Inl e, s2) | (Inr _, s2) \<Rightarrow> (r, s2)))"

section \<open>Thread entries and events\<close>

definition event_body :: "string \<Rightarrow> string \<Rightarrow> string option \<Rightarrow> string option \<Rightarrow> doc \<Rightarrow> body" where
  "event_body ty content res branch payload = SystemEvent \<lparr>se_event_type = ty, se_content = content,
     se_commit_sha = None, se_phase_result = res, se_phase_branch = branch, se_check_name = None,
     se_check_severity = None, se_check_verdict = None, se_excerpt = [], se_waived = False, se_payload = payload\<rparr>"

definition post_event :: "env \<Rightarrow> string \<Rightarrow> string \<Rightarrow> body \<Rightarrow> unit sact" where
  "post_event en i author b =
    bind_act draw (\<lambda>n. bind_act (on_sd_world (post_entry en n i author b)) (\<lambda>_. ret ()))"

definition emit_phase_event :: "sched_config \<Rightarrow> string \<Rightarrow> string \<Rightarrow> phase \<Rightarrow> nat \<Rightarrow> nat \<Rightarrow> string option \<Rightarrow> unit sact" where
  "emit_phase_event cf ty i ph idx size_of res =
     emit cf ty ([(''kind'', JStr ty), (''ticket_id'', JStr i), (''phase_name'', JStr (ph_name ph)), (''phase_role'', JStr (ph_role ph)),
       (''phase_index'', JInt (int idx)), (''total_phases'', JInt (int size_of))] @
       (case res of None \<Rightarrow> [] | Some r \<Rightarrow> [(''result'', JStr r)]))"

definition write_phase_run_comment :: "env \<Rightarrow> string \<Rightarrow> phase \<Rightarrow> string \<Rightarrow> unit sact" where
  "write_phase_run_comment en i ph status = post_event en i ''orchestrator''
     (event_body ''phase_run'' (''phase '' @ ph_name ph @ '': '' @ status)
       (Some (if status \<in> {''success'', ''failed'', ''blocked'', ''needs_info''} then status else ''failed'')) (Some (''jig/'' @ i)) [])"

definition current_phase_index :: "thread_entry list \<Rightarrow> workflow \<Rightarrow> nat" where
  \<comment> \<open>\<open>content.removeprefix("phase ").split(":")[0]\<close>\<close>
  "current_phase_index es flow =
    (let runs = concat (map (\<lambda>e. case te_body e of
           SystemEvent v \<Rightarrow> if se_event_type v = ''phase_run'' \<and> se_phase_result v = Some ''success'' then [se_content v] else []
         | _ \<Rightarrow> []) es);
         name = (\<lambda>c. takeWhile (\<lambda>x. x \<noteq> CHR '':'') (if take 6 c = ''phase '' then drop 6 c else c))
     in length (takeWhile (\<lambda>p. ph_name p \<in> set (map name runs)) (wf_phases flow)))"

section \<open>The end of a ticket\<close>

datatype round_end = Again | Failed | Waits

definition fail_ticket :: "loop_config \<Rightarrow> string \<Rightarrow> round_end tact" where
  "fail_ticket lc i =
    bind_act (on_sched (update_ticket_status (lc_env lc) i StFailed)) (\<lambda>_.
    bind_act (look tt_ticket) (\<lambda>t. case t of
      None \<Rightarrow> raise (TypeError ''NoneType'')
    | Some t \<Rightarrow> bind_act (on_sched (on_ticket_failed (lc_sched lc) (lc_env lc) i t)) (\<lambda>_. ret Failed)))"

definition reread_ticket :: "loop_config \<Rightarrow> string \<Rightarrow> unit tact" where
  "reread_ticket lc i = bind_act (on_sched (on_sd_world (get_ticket (lc_env lc) i))) (\<lambda>t. set_task (\<lambda>s. s\<lparr>tt_ticket := t\<rparr>))"

definition try_post :: "loop_config \<Rightarrow> string \<Rightarrow> body \<Rightarrow> unit tact" where
  \<comment> \<open>a failed post is swallowed\<close>
  "try_post lc i b = attempt (on_sched (post_event (lc_env lc) i ''orchestrator'' b))"

definition leftover_event :: "string \<Rightarrow> body" where
  "leftover_event sha = SystemEvent \<lparr>se_event_type = ''commit'', se_content = ''auto-committed leftover changes: '' @ take 7 sha,
     se_commit_sha = Some sha, se_phase_result = None, se_phase_branch = None, se_check_name = None,
     se_check_severity = None, se_check_verdict = None, se_excerpt = [], se_waived = False, se_payload = []\<rparr>"

definition auto_commit :: "loop_config \<Rightarrow> string \<Rightarrow> phase \<Rightarrow> commit_end \<Rightarrow> bool tact" where
  "auto_commit lc i ph c = (case c of
     CommitFailed msg \<Rightarrow>
       bind_act (try_post lc i (event_body ''auto_commit_failed'' (''auto-commit after '' @ py_repr (ph_name ph) @ '' failed: '' @ msg) None None []))
         (\<lambda>_. ret False)
   | CommitDone sha warnings \<Rightarrow>
       bind_act (if the_default [] sha \<noteq> [] then on_sched (post_event (lc_env lc) i ''orchestrator'' (leftover_event (the sha))) else ret ()) (\<lambda>_.
       bind_act (if warnings \<noteq> [] then try_post lc i (event_body ''boundary_check_degraded'' (join_with ''; '' warnings) None None []) else ret ()) (\<lambda>_.
       ret True)))"

section \<open>The review\<close>

definition phase_counts :: "string \<times> string \<Rightarrow> scheduler \<Rightarrow> (string \<times> nat) list" where
  "phase_counts key s = the_default [] (map_of (sd_survival s) key)"

definition set_counts :: "string \<times> string \<Rightarrow> (string \<times> nat) list \<Rightarrow> scheduler \<Rightarrow> scheduler" where
  "set_counts key c s = s\<lparr>sd_survival := AList.update key c (sd_survival s)\<rparr>"

definition prev_keys :: "string \<times> string \<Rightarrow> scheduler \<Rightarrow> string set" where
  "prev_keys key s = the_default {} (map_of (sd_prev_keys s) key)"

definition record_blocking_persistence :: "string \<times> string \<Rightarrow> review_comment list \<Rightarrow> scheduler \<Rightarrow> scheduler" where
  \<comment> \<open>the events of analytics are left out\<close>
  "record_blocking_persistence key cs s =
    (let cur = map persistence_key cs in
     (set_counts key (record_blocking (prev_keys key s) cur (phase_counts key s)) s)
       \<lparr>sd_prev_keys := AList.update key (set cur) (sd_prev_keys s)\<rparr>)"

definition file_notables :: "loop_config \<Rightarrow> string \<Rightarrow> review_comment list \<Rightarrow> unit tact" where
  \<comment> \<open>they never change the gate, not even by failing\<close>
  "file_notables lc i cs = (let notables = filter (\<lambda>c. rc_severity c = Notable) cs in
     if notables = [] then ret ()
     else attempt (on_sched (file_notable_issues (lc_env lc) (lc_out lc) (lc_digest lc) i notables)))"

definition review_phase :: "loop_config \<Rightarrow> string \<Rightarrow> phase \<Rightarrow> review_end \<Rightarrow> string tact" where
  "review_phase lc i ph r = (case r of
     ReviewMisconfigured \<Rightarrow> raise (ValueError ''unknown reviewer'')
   | ReviewCrashed \<Rightarrow> bind_act (others (clear_phase_persistence (i, ph_name ph))) (\<lambda>_. ret ''success'')
   | ReviewFound cs \<Rightarrow> bind_act (file_notables lc i cs) (\<lambda>_. bind_act (look tt_dismissed) (\<lambda>gone.
       let blocking = filter (\<lambda>c. persistence_key c \<notin> set gone) (in_scope_comments (lc_out lc) (filter blocks_review cs)) in
       if blocking = [] then bind_act (others (clear_phase_persistence (i, ph_name ph))) (\<lambda>_. ret ''success'')
       else bind_act (others (record_blocking_persistence (i, ph_name ph) blocking)) (\<lambda>_. ret ''blocked''))))"

section \<open>Adjudication\<close>

record adjudication =
  ad_fail :: bool
  ad_dismissed :: "string list"
  ad_guidance :: "string list"

definition fail_closed :: adjudication where
  "fail_closed = \<lparr>ad_fail = True, ad_dismissed = [], ad_guidance = []\<rparr>"

fun apply_verdicts :: "string \<times> string \<Rightarrow> (string \<times> sa_verdict) list \<Rightarrow> (string \<times> string) list \<Rightarrow> adjudication \<Rightarrow> adjudication tact" where
  \<comment> \<open>over the escalated findings, each a name and a persistence key\<close>
  "apply_verdicts key vs [] a = ret a"
| "apply_verdicts key vs ((fid, k) # ks) a = (case the_default UpholdGuidance (map_of vs fid) of
     UpholdFail \<Rightarrow> apply_verdicts key vs ks (a\<lparr>ad_fail := True\<rparr>)
   | Dismissed \<Rightarrow>
       bind_act (set_task (\<lambda>s. s\<lparr>tt_dismissed := tt_dismissed s @ [k]\<rparr>)) (\<lambda>_.
       bind_act (others (\<lambda>s. if map_of (sd_survival s) key = None then s else set_counts key (AList.delete k (phase_counts key s)) s)) (\<lambda>_.
       apply_verdicts key vs ks (a\<lparr>ad_dismissed := ad_dismissed a @ [k]\<rparr>)))
   | UpholdGuidance \<Rightarrow>
       bind_act (others (\<lambda>s. if map_of (phase_counts key s) k = None then s else set_counts key (AList.update k 0 (phase_counts key s)) s)) (\<lambda>_.
       apply_verdicts key vs ks (a\<lparr>ad_guidance := ad_guidance a @ [fid]\<rparr>)))"

definition presented_findings :: "review_comment list \<Rightarrow> string set \<Rightarrow> (string \<times> string) list" where
  \<comment> \<open>the keys in order, each under the name of its latest blocking comment\<close>
  "presented_findings cs ks = escalated_map cs (filter (\<lambda>k. k \<in> ks) (sort (remdups (map persistence_key (filter blocks_review cs)))))"

definition run_sa_adjudication :: "string \<times> string \<Rightarrow> round_input \<Rightarrow> string list \<Rightarrow> bool \<Rightarrow> adjudication tact" where
  "run_sa_adjudication key r escalated cap_trip =
    bind_act (look (\<lambda>s. prev_keys key (tt_sched s))) (\<lambda>prev.
    let m = presented_findings (ri_comments r) (set escalated \<union> (if cap_trip then prev else {})) in
    if m = [] then ret fail_closed
    else (case ri_verdicts r of
      None \<Rightarrow> ret fail_closed
    | Some calls \<Rightarrow> let vs = recorded_verdicts m calls in
        if vs = [] then ret fail_closed
        else apply_verdicts key vs m \<lparr>ad_fail = False, ad_dismissed = [], ad_guidance = []\<rparr>))"

section \<open>A blocked phase\<close>

definition max_fix_cycles :: nat where
  "max_fix_cycles = 3"

definition max_sa_escalations :: nat where
  "max_sa_escalations = 2"

datatype escalation_end = EscFail | EscRerun | EscGranted | EscNone

definition escalate :: "loop_config \<Rightarrow> string \<Rightarrow> phase \<Rightarrow> round_input \<Rightarrow> nat \<Rightarrow> bool \<Rightarrow> escalation_end tact" where
  "escalate lc i ph r idx cap_tripped =
    bind_act (look (\<lambda>s. if ph_role ph = ''review'' then past_threshold (phase_counts (i, ph_name ph) (tt_sched s)) else [])) (\<lambda>escalated.
    bind_act (look (\<lambda>s. tt_sa s idx)) (\<lambda>used.
    if \<not> ((cap_tripped \<or> escalated \<noteq> []) \<and> ph_role ph = ''review'' \<and> used < max_sa_escalations) then ret EscNone
    else bind_act (set_task (\<lambda>s. s\<lparr>tt_sa := (tt_sa s)(idx := used + 1)\<rparr>)) (\<lambda>_.
    bind_act (run_sa_adjudication (i, ph_name ph) r escalated cap_tripped) (\<lambda>a.
    if ad_fail a then ret EscFail
    else if ad_dismissed a \<noteq> [] \<and> ad_guidance a = [] then
      bind_act (others (\<lambda>s. s\<lparr>sd_prev_keys := AList.update (i, ph_name ph) {} (sd_prev_keys s)\<rparr>)) (\<lambda>_.
      bind_act (set_task (\<lambda>s. s\<lparr>tt_cycle := tt_cycle s + 1\<rparr>)) (\<lambda>_.
      bind_act (reread_ticket lc i) (\<lambda>_. ret EscRerun)))
    else ret EscGranted))))"

definition route_event :: "phase \<Rightarrow> phase \<Rightarrow> string \<Rightarrow> body" where
  "route_event blocked target reason = event_body ''fix_loop_route''
     (''Routing blocked phase '' @ py_repr (ph_name blocked) @ '' back to '' @ py_repr (ph_name target) @ '' (reason: '' @ reason @ '')'') None None []"

definition route_back :: "loop_config \<Rightarrow> workflow \<Rightarrow> string \<Rightarrow> phase \<Rightarrow> round_input \<Rightarrow> nat \<Rightarrow> round_end tact" where
  "route_back lc flow i ph r idx = (case blocked_route (lc_out lc) (lc_touched lc) (wf_phases flow) idx (ri_comments r) of
     None \<Rightarrow> fail_ticket lc i
   | Some (target, reason) \<Rightarrow>
       bind_act (try_post lc i (route_event ph (wf_phases flow ! target) reason)) (\<lambda>_.
       bind_act (set_task (\<lambda>s. s\<lparr>tt_cycle := tt_cycle s + 1\<rparr>)) (\<lambda>_.
       bind_act (on_sched (update_ticket_status (lc_env lc) i StInProgress)) (\<lambda>_.
       bind_act (auto_commit lc i ph (ri_commit r)) (\<lambda>_.
       bind_act (set_task (\<lambda>s. s\<lparr>tt_idx := target\<rparr>)) (\<lambda>_.
       bind_act (reread_ticket lc i) (\<lambda>_. ret Again)))))))"

definition blocked_phase :: "loop_config \<Rightarrow> workflow \<Rightarrow> string \<Rightarrow> phase \<Rightarrow> round_input \<Rightarrow> nat \<Rightarrow> round_end tact" where
  "blocked_phase lc flow i ph r idx =
    bind_act (set_task (\<lambda>s. s\<lparr>tt_fix := (tt_fix s)(idx := tt_fix s idx + 1)\<rparr>)) (\<lambda>_.
    bind_act (look (\<lambda>s. tt_fix s idx > max_fix_cycles)) (\<lambda>cap_tripped.
    bind_act (escalate lc i ph r idx cap_tripped) (\<lambda>e. case e of
      EscFail \<Rightarrow> fail_ticket lc i
    | EscRerun \<Rightarrow> ret Again
    | EscGranted \<Rightarrow> route_back lc flow i ph r idx
    | EscNone \<Rightarrow> if cap_tripped then fail_ticket lc i else route_back lc flow i ph r idx)))"

section \<open>A successful phase\<close>

definition phase_handoff_rejected :: "thread_entry list \<Rightarrow> string \<Rightarrow> bool" where
  "phase_handoff_rejected es name =
    (case rev (filter (\<lambda>e. case te_body e of Handoff h \<Rightarrow> h_phase h = name | _ \<Rightarrow> False) es) of
       [] \<Rightarrow> False
     | e # _ \<Rightarrow> (case te_body e of Handoff h \<Rightarrow> h_acceptance_state h = Rejected | _ \<Rightarrow> False))"

definition publish_blocked :: "loop_config \<Rightarrow> string \<Rightarrow> phase \<Rightarrow> thread_entry list \<Rightarrow> unit sact" where
  "publish_blocked lc i ph bs = bind_act draw (\<lambda>n.
     bind_act (on_sd_world (publish_msg (lc_env lc) n ''orchestrator'' ''broadcast'' MContextUpdate
       [(''kind'', JStr ''phase_blocked_by_thread''), (''ticket_id'', JStr i), (''phase_name'', JStr (ph_name ph)),
        (''phase_role'', JStr (ph_role ph)),
        (''blocking'', JList (map (\<lambda>e. JObj [(''entry_id'', JStr (te_id e)), (''kind'', JStr (body_kind (te_body e))), (''author'', JStr (te_author e))]) bs))]
       ''orchestrator'')) (\<lambda>_. ret ()))"

definition open_blocking :: "loop_config \<Rightarrow> string \<Rightarrow> thread_entry list sact" where
  "open_blocking lc i = on_sd_world (\<lambda>w. (has_unresolved_blocking (en_draws (lc_env lc)) i (w_threads w), w))"

fun wait_unblocked :: "loop_config \<Rightarrow> string \<Rightarrow> phase \<Rightarrow> (scheduler \<Rightarrow> scheduler) list \<Rightarrow> bool sact" where
  \<comment> \<open>what happens during each wait; \<open>False\<close> where entries are open after the last one given\<close>
  "wait_unblocked lc i ph [] = bind_act (open_blocking lc i) (\<lambda>bs. ret (bs = []))"
| "wait_unblocked lc i ph (f # fs) = bind_act (open_blocking lc i) (\<lambda>bs.
     if bs = [] then ret True
     else bind_act (publish_blocked lc i ph bs) (\<lambda>_. bind_act (modify f) (\<lambda>_. wait_unblocked lc i ph fs)))"

definition thread_gate :: "loop_config \<Rightarrow> workflow \<Rightarrow> string \<Rightarrow> phase \<Rightarrow> round_input \<Rightarrow> bool tact" where
  \<comment> \<open>for a phase that succeeded; \<open>False\<close> while it still waits\<close>
  "thread_gate lc flow i ph r =
    bind_act (on_sched (run_handoff_gate_if_pending (lc_env lc) (lc_catalog lc) flow ph (ri_checks r) i)) (\<lambda>_.
    bind_act (on_sched (wait_unblocked lc i ph (ri_waits r))) (\<lambda>clear.
    if \<not> clear then ret False
    else bind_act (on_sched (on_sd_world (ticket_entries (lc_env lc) i))) (\<lambda>es.
    if phase_handoff_rejected es (ph_name ph) then bind_act (set_task (\<lambda>s. s\<lparr>tt_result := Some ''blocked''\<rparr>)) (\<lambda>_. ret True)
    else ret True)))"

definition passed_phase :: "loop_config \<Rightarrow> workflow \<Rightarrow> string \<Rightarrow> phase \<Rightarrow> round_input \<Rightarrow> nat \<Rightarrow> round_end tact" where
  "passed_phase lc flow i ph r idx =
    (let more = idx + 1 < length (wf_phases flow) in
     bind_act (set_task (\<lambda>s. s\<lparr>tt_idx := idx + 1\<rparr>)) (\<lambda>_.
     bind_act (if more then on_sched (update_ticket_status (lc_env lc) i StInProgress) else ret ()) (\<lambda>_.
     bind_act (auto_commit lc i ph (ri_commit r)) (\<lambda>committed.
     if \<not> committed then fail_ticket lc i
     else bind_act (if more then reread_ticket lc i else ret ()) (\<lambda>_. ret Again)))))"

section \<open>One round\<close>

definition agent_phase :: "loop_config \<Rightarrow> workflow \<Rightarrow> string \<Rightarrow> phase \<Rightarrow> round_input \<Rightarrow> nat \<Rightarrow> string option tact" where
  \<comment> \<open>\<open>None\<close>: the agent raised and the ticket has failed\<close>
  "agent_phase lc flow i ph r idx =
    bind_act (others (ri_during r)) (\<lambda>_.
    if ph_role ph = ''review'' \<and> lc_federation lc then bind_act (review_phase lc i ph (ri_review r)) (\<lambda>x. ret (Some x))
    else case ri_agent r of
      AgentEnded status \<Rightarrow> ret (Some status)
    | AgentRaised \<Rightarrow>
        bind_act (on_sched (emit_phase_event (lc_sched lc) ''phase_complete'' i ph idx (length (wf_phases flow)) (Some ''failed''))) (\<lambda>_.
        bind_act (fail_ticket lc i) (\<lambda>_. ret None)))"

definition settle_phase :: "loop_config \<Rightarrow> workflow \<Rightarrow> string \<Rightarrow> phase \<Rightarrow> round_input \<Rightarrow> nat \<Rightarrow> string \<Rightarrow> round_end tact" where
  "settle_phase lc flow i ph r idx status =
    bind_act (on_sched (write_phase_run_comment (lc_env lc) i ph status)) (\<lambda>_.
    if status = ''success'' then passed_phase lc flow i ph r idx
    else if status = ''needs_info'' then
      bind_act (others (ri_resume r)) (\<lambda>_. bind_act (reread_ticket lc i) (\<lambda>_. ret Again))
    else if status = ''blocked'' then blocked_phase lc flow i ph r idx
    else fail_ticket lc i)"

definition phase_body :: "loop_config \<Rightarrow> workflow \<Rightarrow> string \<Rightarrow> phase \<Rightarrow> round_input \<Rightarrow> nat \<Rightarrow> round_end tact" where
  "phase_body lc flow i ph r idx =
    bind_act (on_sched (post_event (lc_env lc) i ''orchestrator'' (event_body ''phase_start'' (ph_name ph) None None
      [(''phase'', JStr (ph_name ph)), (''role'', JStr (ph_role ph)), (''spawn_reason'', JStr ''phase_primary'')]))) (\<lambda>_.
    bind_act (on_sched (emit_phase_event (lc_sched lc) ''phase_started'' i ph idx (length (wf_phases flow)) None)) (\<lambda>_.
    bind_act (agent_phase lc flow i ph r idx) (\<lambda>res. case res of
      None \<Rightarrow> ret Failed
    | Some status \<Rightarrow>
        bind_act (set_task (\<lambda>s. s\<lparr>tt_result := Some status\<rparr>)) (\<lambda>_.
        bind_act (on_sched (emit_phase_event (lc_sched lc) ''phase_complete'' i ph idx (length (wf_phases flow)) (Some status))) (\<lambda>_.
        bind_act (if status = ''success'' then thread_gate lc flow i ph r else ret True) (\<lambda>go.
        if \<not> go then ret Waits
        else bind_act (look (\<lambda>s. the_default status (tt_result s))) (settle_phase lc flow i ph r idx)))))))"

definition phase_end :: "loop_config \<Rightarrow> string \<Rightarrow> phase \<Rightarrow> round_input \<Rightarrow> unit tact" where
  "phase_end lc i ph r = bind_act (look (\<lambda>s. the_default ''failed'' (tt_result s))) (\<lambda>outcome.
     on_sched (post_event (lc_env lc) i ''orchestrator'' (event_body ''phase_end'' outcome None None
       [(''phase'', JStr (ph_name ph)), (''role'', JStr (ph_role ph)), (''duration_ms'', JInt (ri_duration r)), (''outcome'', JStr outcome)])))"

definition phase_round :: "loop_config \<Rightarrow> workflow \<Rightarrow> string \<Rightarrow> round_input \<Rightarrow> round_end tact" where
  "phase_round lc flow i r =
    bind_act (look tt_idx) (\<lambda>idx. let ph = wf_phases flow ! idx in
    bind_act (set_task (\<lambda>s. s\<lparr>tt_result := None\<rparr>)) (\<lambda>_.
    with_finally (\<lambda>e. e = Waits) (phase_body lc flow i ph r idx) (phase_end lc i ph r)))"

section \<open>The loop\<close>

datatype ticket_end = Completed | Abandoned | HeldByThread | Unfinished

fun run_phases :: "loop_config \<Rightarrow> workflow \<Rightarrow> string \<Rightarrow> merge_outcome \<Rightarrow> round_input list \<Rightarrow> ticket_end tact" where
  \<comment> \<open>the inputs of the rounds; \<open>Unfinished\<close> where the loop goes on after the last one\<close>
  "run_phases lc flow i m rs =
    bind_act (look tt_idx) (\<lambda>idx.
    if length (wf_phases flow) \<le> idx then
      bind_act (look tt_ticket) (\<lambda>t. case t of
        None \<Rightarrow> raise (TypeError ''NoneType'')
      | Some t \<Rightarrow> bind_act (on_sched (on_ticket_completed (lc_sched lc) (lc_env lc) i t m)) (\<lambda>_. ret Completed))
    else case rs of [] \<Rightarrow> ret Unfinished
    | r # rs' \<Rightarrow> bind_act (phase_round lc flow i r) (\<lambda>e. case e of
        Again \<Rightarrow> run_phases lc flow i m rs' | Failed \<Rightarrow> ret Abandoned | Waits \<Rightarrow> ret HeldByThread))"

declare run_phases.simps [simp del]

datatype provision = Provisioned | DepMergeFailed string string | SetupFailed string

definition provision_failed :: "loop_config \<Rightarrow> string \<Rightarrow> string \<Rightarrow> string \<Rightarrow> ticket_end tact" where
  "provision_failed lc i ty content =
    bind_act (on_sched (post_event (lc_env lc) i ''harness'' (event_body ty content None None []))) (\<lambda>_.
    bind_act (fail_ticket lc i) (\<lambda>_. ret Abandoned))"

definition run_ticket ::
  "loop_config \<Rightarrow> workflow option \<Rightarrow> provision \<Rightarrow> (scheduler \<Rightarrow> scheduler) \<Rightarrow> string \<Rightarrow> merge_outcome \<Rightarrow> round_input list \<Rightarrow> ticket_end tact" where
  \<comment> \<open>the workflow, if there is one; how the worktree was set up; what happens until an answer, if the ticket waits for one\<close>
  "run_ticket lc flow prov resume i m rs =
    bind_act (on_sched (on_sd_world (get_ticket (lc_env lc) i))) (\<lambda>x. case x of
      None \<Rightarrow> ret Abandoned
    | Some t \<Rightarrow> bind_act (set_task (\<lambda>s. s\<lparr>tt_ticket := Some t\<rparr>)) (\<lambda>_. case flow of
        None \<Rightarrow> bind_act (on_sched (update_ticket_status (lc_env lc) i StFailed)) (\<lambda>_.
          bind_act (on_sched (forget_running i)) (\<lambda>_. ret Abandoned))
      | Some flow \<Rightarrow> (case prov of
          DepMergeFailed branch dep \<Rightarrow> provision_failed lc i ''dep_merge_failed''
            (''Dependency branch '' @ py_repr branch @ '' (from ticket '' @ py_repr dep @
             '') could not be merged into the worktree. Resolve manually and retry.'')
        | SetupFailed msg \<Rightarrow> provision_failed lc i ''provisioning_failed'' (''Worktree setup failed: '' @ msg)
        | Provisioned \<Rightarrow>
            bind_act (on_sched (on_sd_world (ticket_entries (lc_env lc) i))) (\<lambda>es.
            bind_act (set_task (\<lambda>s. s\<lparr>tt_idx := current_phase_index es flow\<rparr>)) (\<lambda>_.
            if tk_status t \<noteq> StNeedsInfo then run_phases lc flow i m rs
            else bind_act (others resume) (\<lambda>_.
              bind_act (reread_ticket lc i) (\<lambda>_.
              bind_act (look tt_ticket) (\<lambda>x. if x = None then ret Abandoned else run_phases lc flow i m rs))))))))"

end
