(* ===== verification/PhaseRules.thy ===== *)
theory PhaseRules
  imports PhaseLoop
begin

text \<open>
  Rules for the phase loop.  Most of what a round does leaves the counters of the loop alone
  (\<open>untouched\<close>); with the rest they give, for every step of a round, that it ends the ticket or
  leaves fewer rounds to go (\<open>progress\<close>).
\<close>

section \<open>Counters\<close>

text \<open>The counters of the loop: the phase, the rounds and the adjudications of each phase.\<close>

definition counters :: "ticket_task \<Rightarrow> nat \<times> (nat \<Rightarrow> nat) \<times> (nat \<Rightarrow> nat)" where
  "counters s = (tt_idx s, tt_fix s, tt_sa s)"

abbreviation ctl :: "nat \<times> (nat \<Rightarrow> nat) \<times> (nat \<Rightarrow> nat) \<Rightarrow> 'a tact \<Rightarrow> ('a \<Rightarrow> ticket_task \<Rightarrow> bool) \<Rightarrow> bool" where
  "ctl c m Q \<equiv> triple (\<lambda>s. counters s = c) m Q (\<lambda>_. True)"

definition untouched :: "'a tact \<Rightarrow> bool" where
  "untouched m \<longleftrightarrow> (\<forall>s. counters (snd (m s)) = counters s)"

named_theorems untouched

lemma ctl_untouched: "untouched m \<Longrightarrow> (\<And>x. ctl c (f x) Q) \<Longrightarrow> ctl c (bind_act m f) Q"
  unfolding untouched_def by (rule triple_step [where R = "\<lambda>_. True" and P' = "\<lambda>s. counters s = c"]) (auto split: prod.split sum.split, metis snd_conv)

lemma ctl_set: "(\<And>s. counters s = c \<Longrightarrow> counters (g s) = c') \<Longrightarrow> ctl c' (f ()) Q \<Longrightarrow> ctl c (bind_act (set_task g) f) Q"
  by (rule triple_step [where R = "\<lambda>_. True" and P' = "\<lambda>s. counters s = c'"]) (auto simp: set_task_def)

lemma ctl_look: "(\<And>s. counters s = c \<Longrightarrow> ctl c (f (g s)) Q) \<Longrightarrow> ctl c (bind_act (look g) f) Q"
  by (rule triple_step [where R = "\<lambda>x. \<exists>s. counters s = c \<and> x = g s" and P' = "\<lambda>s. counters s = c"]) (auto simp: look_def)

lemma ctl_ret: "(\<And>s. counters s = c \<Longrightarrow> Q x s) \<Longrightarrow> ctl c (ret x) Q"
  by (rule triple_ret)

lemma untouched_bind [untouched]: "untouched m \<Longrightarrow> (\<And>x. untouched (f x)) \<Longrightarrow> untouched (bind_act m f)"
  unfolding untouched_def bind_act_def by (auto split: prod.split sum.split) (metis snd_conv)+

lemma untouched_basic [untouched]: "untouched (ret x)" "untouched (raise e)" "untouched (look g)" "untouched (on_sched a)" "untouched (others h)"
  by (simp_all add: untouched_def ret_def raise_def look_def others_def on_sched_def zoom_def counters_def split: prod.split)

lemma untouched_set [untouched]: "(\<And>s. counters (g s) = counters s) \<Longrightarrow> untouched (set_task g)"
  by (simp add: untouched_def set_task_def)

lemma untouched_try [untouched]: "untouched (try_post lc i b)"
  by (simp add: untouched_def try_post_def attempt_def on_sched_def zoom_def counters_def split: prod.split)

lemma untouched_notables [untouched]: "untouched (file_notables lc i cs)"
  by (simp add: untouched_def file_notables_def Let_def ret_def attempt_def on_sched_def zoom_def counters_def split: prod.split)

lemma untouched_cases [untouched]:
  "(x = None \<Longrightarrow> untouched a) \<Longrightarrow> (\<And>y. x = Some y \<Longrightarrow> untouched (f y)) \<Longrightarrow> untouched (case x of None \<Rightarrow> a | Some y \<Rightarrow> f y)"
  "(b \<Longrightarrow> untouched a) \<Longrightarrow> (\<not> b \<Longrightarrow> untouched d) \<Longrightarrow> untouched (if b then a else d)"
  by (cases x) simp_all

lemma untouched_fail [untouched]: "untouched (fail_ticket lc i)"
  unfolding fail_ticket_def by (intro untouched)

lemma untouched_reread [untouched]: "untouched (reread_ticket lc i)"
  unfolding reread_ticket_def by (intro untouched) (simp add: counters_def)

lemma untouched_commit [untouched]: "untouched (auto_commit lc i ph c)"
  unfolding auto_commit_def by (cases c; simp only: commit_end.case; intro untouched)

lemma untouched_review [untouched]: "untouched (review_phase lc i ph r)"
  unfolding review_phase_def Let_def by (cases r; simp only: review_end.case; intro untouched)

lemma untouched_verdicts [untouched]: "untouched (apply_verdicts key vs ks a)"
proof (induction ks arbitrary: a)
  case (Cons p ks)
  obtain fid k where p: "p = (fid, k)" by (cases p)
  show ?case unfolding p
    by (cases "the_default UpholdGuidance (map_of vs fid)") (auto intro!: untouched Cons.IH simp: counters_def)
qed (simp add: untouched)

lemma untouched_adjudication [untouched]: "untouched (run_sa_adjudication key r es cap)"
  unfolding run_sa_adjudication_def Let_def by (intro untouched)

lemma untouched_gate [untouched]: "untouched (thread_gate lc flow i ph r)"
  unfolding thread_gate_def by (intro untouched) (simp_all add: counters_def)

lemma untouched_agent [untouched]: "untouched (agent_phase lc flow i ph r idx)"
  unfolding agent_phase_def by (intro untouched) (cases "ri_agent r"; simp only: agent_end.case; intro untouched)

lemma untouched_end [untouched]: "untouched (phase_end lc i ph r)"
  unfolding phase_end_def by (intro untouched)

text \<open>What is left: of each phase, the rounds it can still be sent back for, and the phases to go.\<close>

definition rounds_left :: "(nat \<Rightarrow> nat) \<Rightarrow> (nat \<Rightarrow> nat) \<Rightarrow> nat \<Rightarrow> nat" where
  "rounds_left fx sa j = (max_fix_cycles - min max_fix_cycles (fx j)) + (max_sa_escalations - min max_sa_escalations (sa j))"

definition left_over :: "nat \<Rightarrow> nat \<times> (nat \<Rightarrow> nat) \<times> (nat \<Rightarrow> nat) \<Rightarrow> nat" where
  "left_over n c = (case c of (idx, fx, sa) \<Rightarrow> (\<Sum>j<n. rounds_left fx sa j) * (n + 1) + (n - idx))"

lemma rounds_left_same: "rounds_left (fx(idx := a)) (sa(idx := b)) j = (if j = idx then rounds_left (\<lambda>_. a) (\<lambda>_. b) j else rounds_left fx sa j)"
  by (simp add: rounds_left_def)

lemma sent_back_less:
  assumes "idx < n" "target \<le> n" "rounds_left (\<lambda>_. a) (\<lambda>_. b) idx < rounds_left fx sa idx"
  shows "left_over n (target, fx(idx := a), sa(idx := b)) < left_over n (idx, fx, sa)"
proof -
  have "(\<Sum>j<n. rounds_left (fx(idx := a)) (sa(idx := b)) j) < (\<Sum>j<n. rounds_left fx sa j)"
    by (rule sum_strict_mono_ex1) (use assms in \<open>auto simp: rounds_left_same\<close>)
  then have "((\<Sum>j<n. rounds_left (fx(idx := a)) (sa(idx := b)) j) + 1) * (n + 1) \<le> (\<Sum>j<n. rounds_left fx sa j) * (n + 1)"
    by (intro mult_right_mono) simp_all
  with assms(1,2) show ?thesis by (simp add: left_over_def)
qed

lemma left_over_start: "left_over n (idx, \<lambda>_. 0, \<lambda>_. 0) \<le> 5 * n * (n + 1) + n"
  by (simp add: left_over_def rounds_left_def max_fix_cycles_def max_sa_escalations_def)

definition progress :: "nat \<Rightarrow> nat \<times> (nat \<Rightarrow> nat) \<times> (nat \<Rightarrow> nat) \<Rightarrow> round_end \<Rightarrow> ticket_task \<Rightarrow> bool" where
  "progress n c e s \<longleftrightarrow> (e = Again \<longrightarrow> left_over n (counters s) < left_over n c)"

lemma ctl_fail: "ctl c (fail_ticket lc i) (\<lambda>e s. progress n c' e s)"
  unfolding fail_ticket_def
  by (intro ctl_untouched ctl_look untouched triple_option triple_raise) (auto intro!: ctl_untouched untouched ctl_ret simp: progress_def)

lemma ctl_route:
  assumes "idx < length (wf_phases flow)" "\<And>target. target < idx \<Longrightarrow> left_over n (target, fx, sa) < left_over n c'"
  shows "ctl (idx, fx, sa) (route_back lc flow i ph r idx) (\<lambda>e s. progress n c' e s)"
proof (cases "blocked_route (lc_out lc) (lc_touched lc) (wf_phases flow) idx (ri_comments r)")
  case None
  then show ?thesis by (simp add: route_back_def ctl_fail)
next
  case (Some x)
  obtain target reason where x: "x = (target, reason)" by (cases x)
  then have "target < idx" using Some blocked_route_before by simp
  from assms(2) [OF this] show ?thesis
    unfolding route_back_def Some x option.case prod.case
    by (intro ctl_untouched untouched ctl_set [where c' = "(target, fx, sa)" and c = "(idx, fx, sa)"]
        ctl_set [where c' = "(idx, fx, sa)" and c = "(idx, fx, sa)"] ctl_ret)
      (auto simp: counters_def progress_def)
qed

definition escalated_to :: "nat \<Rightarrow> (nat \<Rightarrow> nat) \<Rightarrow> (nat \<Rightarrow> nat) \<Rightarrow> escalation_end \<Rightarrow> ticket_task \<Rightarrow> bool" where
  "escalated_to idx fx sa e s \<longleftrightarrow>
     (if e = EscNone then counters s = (idx, fx, sa) else sa idx < max_sa_escalations \<and> counters s = (idx, fx, sa(idx := sa idx + 1)))"

lemma escalated_to_cases:
  "escalated_to idx fx sa EscNone = (\<lambda>s. counters s = (idx, fx, sa))"
  "e \<noteq> EscNone \<Longrightarrow> escalated_to idx fx sa e = (\<lambda>s. sa idx < max_sa_escalations \<and> counters s = (idx, fx, sa(idx := sa idx + 1)))"
  by (simp_all add: escalated_to_def fun_eq_iff)

lemma ctl_escalate: "ctl (idx, fx, sa) (escalate lc i ph r idx cap) (escalated_to idx fx sa)"
proof -
  have rerun: "ctl (idx, fx, sa(idx := sa idx + 1)) (bind_act (others h) (\<lambda>_. bind_act (set_task (\<lambda>s. s\<lparr>tt_cycle := tt_cycle s + 1\<rparr>)) (\<lambda>_.
      bind_act (reread_ticket lc i) (\<lambda>_. ret EscRerun)))) (escalated_to idx fx sa)" if "sa idx < max_sa_escalations" for h
    by (intro ctl_untouched untouched ctl_ret) (auto simp: counters_def escalated_to_def that)
  have go: "ctl (idx, fx, sa) (bind_act (set_task (\<lambda>s. s\<lparr>tt_sa := (tt_sa s)(idx := sa idx + 1)\<rparr>)) (\<lambda>_.
      bind_act (run_sa_adjudication key r es cap) (\<lambda>a. if ad_fail a then ret EscFail
        else if ad_dismissed a \<noteq> [] \<and> ad_guidance a = [] then bind_act (others h) (\<lambda>_.
          bind_act (set_task (\<lambda>s. s\<lparr>tt_cycle := tt_cycle s + 1\<rparr>)) (\<lambda>_. bind_act (reread_ticket lc i) (\<lambda>_. ret EscRerun)))
        else ret EscGranted))) (escalated_to idx fx sa)" if "sa idx < max_sa_escalations" for key es h
  proof (rule ctl_set [where c' = "(idx, fx, sa(idx := sa idx + 1))"])
    show "ctl (idx, fx, sa(idx := sa idx + 1)) (bind_act (run_sa_adjudication key r es cap) (\<lambda>a. if ad_fail a then ret EscFail
        else if ad_dismissed a \<noteq> [] \<and> ad_guidance a = [] then bind_act (others h) (\<lambda>_.
          bind_act (set_task (\<lambda>s. s\<lparr>tt_cycle := tt_cycle s + 1\<rparr>)) (\<lambda>_. bind_act (reread_ticket lc i) (\<lambda>_. ret EscRerun)))
        else ret EscGranted)) (escalated_to idx fx sa)"
      by (intro ctl_untouched [OF untouched_adjudication] triple_if rerun that ctl_ret) (simp_all add: escalated_to_def that)
  qed (simp add: counters_def)
  show ?thesis
    unfolding escalate_def
  proof (rule ctl_look, rule ctl_look)
    fix s assume "counters s = (idx, fx, sa)"
    then have used: "tt_sa s idx = sa idx" by (simp add: counters_def)
    show "ctl (idx, fx, sa) (if \<not> ((cap \<or> es \<noteq> []) \<and> ph_role ph = ''review'' \<and> tt_sa s idx < max_sa_escalations) then ret EscNone
        else bind_act (set_task (\<lambda>x. x\<lparr>tt_sa := (tt_sa x)(idx := tt_sa s idx + 1)\<rparr>)) (\<lambda>_.
          bind_act (run_sa_adjudication (i, ph_name ph) r es cap) (\<lambda>a. if ad_fail a then ret EscFail
            else if ad_dismissed a \<noteq> [] \<and> ad_guidance a = [] then
              bind_act (others (\<lambda>s. s\<lparr>sd_prev_keys := AList.update (i, ph_name ph) {} (sd_prev_keys s)\<rparr>)) (\<lambda>_.
              bind_act (set_task (\<lambda>s. s\<lparr>tt_cycle := tt_cycle s + 1\<rparr>)) (\<lambda>_. bind_act (reread_ticket lc i) (\<lambda>_. ret EscRerun)))
            else ret EscGranted))) (escalated_to idx fx sa)" for es
      unfolding used by (intro triple_if go ctl_ret) (auto simp: escalated_to_def)
  qed
qed

lemma ctl_blocked:
  assumes idx: "idx < length (wf_phases flow)"
  shows "ctl (idx, fx, sa) (blocked_phase lc flow i ph r idx) (\<lambda>e s. progress (length (wf_phases flow)) (idx, fx, sa) e s)"
    (is "ctl ?c _ ?Q")
proof -
  let ?n = "length (wf_phases flow)" and ?fx = "fx(idx := fx idx + 1)" and ?sa = "sa(idx := sa idx + 1)"
  have granted: "left_over ?n (t, ?fx, ?sa) < left_over ?n ?c" if "t \<le> ?n" "sa idx < max_sa_escalations" for t
    by (rule sent_back_less [OF idx that(1)]) (use that(2) in \<open>auto simp: rounds_left_def\<close>)
  have plain: "left_over ?n (t, ?fx, sa) < left_over ?n ?c" if "t \<le> ?n" "\<not> fx idx + 1 > max_fix_cycles" for t
    using sent_back_less [OF idx that(1), of "fx idx + 1" "sa idx" fx sa] that(2)
    by (auto simp: rounds_left_def)
  have next_step: "triple (escalated_to idx ?fx sa e) (case e of EscFail \<Rightarrow> fail_ticket lc i | EscRerun \<Rightarrow> ret Again
      | EscGranted \<Rightarrow> route_back lc flow i ph r idx
      | EscNone \<Rightarrow> if cap then fail_ticket lc i else route_back lc flow i ph r idx) ?Q (\<lambda>_. True)"
    if cap: "cap = (fx idx + 1 > max_fix_cycles)" for e cap
  proof (cases "e = EscNone")
    case True
    have "ctl (idx, ?fx, sa) (if cap then fail_ticket lc i else route_back lc flow i ph r idx) ?Q"
      by (intro triple_if ctl_fail ctl_route idx plain) (use idx cap in simp_all)
    then show ?thesis unfolding True escalation_end.case escalated_to_cases(1) .
  next
    case False
    have "ctl (idx, ?fx, ?sa) (case e of EscFail \<Rightarrow> fail_ticket lc i | EscRerun \<Rightarrow> ret Again
        | EscGranted \<Rightarrow> route_back lc flow i ph r idx
        | EscNone \<Rightarrow> if cap then fail_ticket lc i else route_back lc flow i ph r idx) ?Q" if "sa idx < max_sa_escalations"
    proof (cases e)
      case EscRerun
      show ?thesis unfolding EscRerun escalation_end.case
        by (rule ctl_ret) (use granted [OF _ that, of idx] idx in \<open>simp add: progress_def\<close>)
    next
      case EscGranted
      show ?thesis unfolding EscGranted escalation_end.case
        by (rule ctl_route [OF idx granted [OF _ that]]) (use idx in simp)
    qed (use False in \<open>simp_all add: ctl_fail\<close>)
    then show ?thesis unfolding escalated_to_cases(2) [OF False] by (cases "sa idx < max_sa_escalations") (simp_all add: triple_def)
  qed
  show ?thesis
    unfolding blocked_phase_def
  proof (rule ctl_set [where c' = "(idx, ?fx, sa)"])
    show "ctl (idx, ?fx, sa) (bind_act (look (\<lambda>s. tt_fix s idx > max_fix_cycles)) (\<lambda>cap_tripped.
        bind_act (escalate lc i ph r idx cap_tripped) (\<lambda>e. case e of EscFail \<Rightarrow> fail_ticket lc i | EscRerun \<Rightarrow> ret Again
          | EscGranted \<Rightarrow> route_back lc flow i ph r idx
          | EscNone \<Rightarrow> if cap_tripped then fail_ticket lc i else route_back lc flow i ph r idx))) ?Q"
    proof (rule ctl_look, rule triple_bind [OF ctl_escalate])
      fix s e assume "counters s = (idx, ?fx, sa)"
      then have "(tt_fix s idx > max_fix_cycles) = (fx idx + 1 > max_fix_cycles)" by (simp add: counters_def)
      from next_step [OF this] show "triple (escalated_to idx ?fx sa e) (case e of EscFail \<Rightarrow> fail_ticket lc i | EscRerun \<Rightarrow> ret Again
          | EscGranted \<Rightarrow> route_back lc flow i ph r idx
          | EscNone \<Rightarrow> if tt_fix s idx > max_fix_cycles then fail_ticket lc i else route_back lc flow i ph r idx) ?Q (\<lambda>_. True)" .
    qed
  qed (simp add: counters_def)
qed

lemma ctl_passed:
  assumes "idx < length (wf_phases flow)"
  shows "ctl (idx, fx, sa) (passed_phase lc flow i ph r idx) (\<lambda>e s. progress (length (wf_phases flow)) (idx, fx, sa) e s)"
proof -
  have less: "left_over (length (wf_phases flow)) (idx + 1, fx, sa) < left_over (length (wf_phases flow)) (idx, fx, sa)"
    using assms by (simp add: left_over_def)
  show ?thesis
    unfolding passed_phase_def Let_def
    by (intro ctl_set [where c' = "(idx + 1, fx, sa)"] ctl_untouched untouched triple_if ctl_fail ctl_ret)
      (use less in \<open>auto simp: counters_def progress_def\<close>)
qed

lemma ctl_settle:
  assumes "idx < length (wf_phases flow)" "status \<noteq> ''needs_info''"
  shows "ctl (idx, fx, sa) (settle_phase lc flow i ph r idx status) (\<lambda>e s. progress (length (wf_phases flow)) (idx, fx, sa) e s)"
  unfolding settle_phase_def
  by (intro ctl_untouched untouched triple_if ctl_passed ctl_blocked ctl_fail) (use assms in simp_all)

section \<open>A round\<close>

lemma keep_sched:
  "(\<And>s x. P s \<Longrightarrow> P (s\<lparr>tt_sched := x\<rparr>)) \<Longrightarrow> (\<And>x. triple P (f x) Q (\<lambda>_. True)) \<Longrightarrow> triple P (bind_act (on_sched m) f) Q (\<lambda>_. True)"
  by (rule triple_step [where R = "\<lambda>_. True" and P' = P]) (auto simp: on_sched_def zoom_def split: prod.split sum.split)

definition status_is :: "nat \<times> (nat \<Rightarrow> nat) \<times> (nat \<Rightarrow> nat) \<Rightarrow> string \<Rightarrow> ticket_task \<Rightarrow> bool" where
  "status_is c status s \<longleftrightarrow> counters s = c \<and> tt_result s \<in> {Some status, Some ''blocked''}"

lemma status_is_sched: "status_is c status s \<Longrightarrow> status_is c status (s\<lparr>tt_sched := x\<rparr>)"
  by (simp add: status_is_def counters_def)

lemma gate_status: "triple (status_is c status) (thread_gate lc flow i ph r) (\<lambda>_. status_is c status) (\<lambda>_. True)"
proof -
  have rejected: "triple (status_is c status) (bind_act (set_task (\<lambda>s. s\<lparr>tt_result := Some ''blocked''\<rparr>)) (\<lambda>_. ret True))
      (\<lambda>_. status_is c status) (\<lambda>_. True)"
    by (rule triple_step [where R = "\<lambda>_. True" and P' = "status_is c status"])
      (auto simp: set_task_def status_is_def counters_def intro!: triple_ret)
  show ?thesis
    unfolding thread_gate_def others_def
    by (intro keep_sched status_is_sched triple_if triple_ret rejected)
qed

lemma agent_status:
  assumes "ri_agent r \<noteq> AgentEnded ''needs_info''"
  shows "ctl c (agent_phase lc flow i ph r idx) (\<lambda>res s. counters s = c \<and> res \<noteq> Some ''needs_info'')"
proof -
  have review: "ctl c (review_phase lc i ph x) (\<lambda>res s. counters s = c \<and> res \<noteq> ''needs_info'')" for x
    unfolding review_phase_def Let_def
    by (cases x; simp only: review_end.case; intro ctl_untouched untouched ctl_look triple_if ctl_ret triple_raise) simp_all
  have agent: "ctl c (case ri_agent r of AgentRaised \<Rightarrow>
        bind_act (on_sched (emit_phase_event (lc_sched lc) ''phase_complete'' i ph idx (length (wf_phases flow)) (Some ''failed'')))
          (\<lambda>_. bind_act (fail_ticket lc i) (\<lambda>_. ret None))
      | AgentEnded status \<Rightarrow> ret (Some status)) (\<lambda>res s. counters s = c \<and> res \<noteq> Some ''needs_info'')"
    by (cases "ri_agent r"; simp only: agent_end.case; intro ctl_untouched untouched ctl_ret) (use assms in auto)
  show ?thesis
    unfolding agent_phase_def
    by (intro ctl_untouched untouched triple_if agent triple_bind [OF review])
      (auto simp: triple_def ret_def)
qed

lemma ctl_body:
  assumes idx: "idx < length (wf_phases flow)" and r: "ri_agent r \<noteq> AgentEnded ''needs_info''"
  shows "ctl (idx, fx, sa) (phase_body lc flow i ph r idx) (\<lambda>e s. progress (length (wf_phases flow)) (idx, fx, sa) e s)"
    (is "ctl ?c _ ?Q")
proof -
  have tail: "triple (status_is ?c status) (bind_act (if status = ''success'' then thread_gate lc flow i ph r else ret True) (\<lambda>go.
      if \<not> go then ret Waits else bind_act (look (\<lambda>s. the_default status (tt_result s))) (settle_phase lc flow i ph r idx))) ?Q (\<lambda>_. True)"
    if "status \<noteq> ''needs_info''" for status
  proof (rule triple_bind [where R = "\<lambda>_. status_is ?c status"])
    show "triple (status_is ?c status) (if status = ''success'' then thread_gate lc flow i ph r else ret True) (\<lambda>_. status_is ?c status) (\<lambda>_. True)"
      by (intro triple_if gate_status triple_ret)
    have settle: "triple (status_is ?c status) (bind_act (look (\<lambda>s. the_default status (tt_result s))) (settle_phase lc flow i ph r idx)) ?Q (\<lambda>_. True)"
    proof (rule triple_step [where R = "\<lambda>x. x \<noteq> ''needs_info''" and P' = "\<lambda>s. counters s = ?c"])
      show "ctl ?c (settle_phase lc flow i ph r idx x) ?Q" if "x \<noteq> ''needs_info''" for x by (rule ctl_settle [OF idx that])
    qed (use that in \<open>auto simp: look_def status_is_def\<close>)
    show "triple (status_is ?c status) (if \<not> go then ret Waits
        else bind_act (look (\<lambda>s. the_default status (tt_result s))) (settle_phase lc flow i ph r idx)) ?Q (\<lambda>_. True)" for go
      by (intro triple_if settle triple_ret) (simp add: progress_def)
  qed
  have found: "ctl ?c (case res of None \<Rightarrow> ret Failed | Some status \<Rightarrow> bind_act (set_task (\<lambda>s. s\<lparr>tt_result := Some status\<rparr>)) (\<lambda>_.
      bind_act (on_sched (emit_phase_event (lc_sched lc) ''phase_complete'' i ph idx (length (wf_phases flow)) (Some status))) (\<lambda>_.
      bind_act (if status = ''success'' then thread_gate lc flow i ph r else ret True) (\<lambda>go.
      if \<not> go then ret Waits else bind_act (look (\<lambda>s. the_default status (tt_result s))) (settle_phase lc flow i ph r idx))))) ?Q"
    if "res \<noteq> Some ''needs_info''" for res
  proof (cases res)
    case (Some status)
    have "triple (status_is ?c status) (bind_act (on_sched (emit_phase_event (lc_sched lc) ''phase_complete'' i ph idx (length (wf_phases flow)) (Some status))) (\<lambda>_.
      bind_act (if status = ''success'' then thread_gate lc flow i ph r else ret True) (\<lambda>go.
      if \<not> go then ret Waits else bind_act (look (\<lambda>s. the_default status (tt_result s))) (settle_phase lc flow i ph r idx)))) ?Q (\<lambda>_. True)"
      by (rule keep_sched [OF status_is_sched tail]) (use that Some in simp_all)
    from this show ?thesis unfolding Some option.case
      by (rule triple_step [where R = "\<lambda>_. True" and P' = "status_is ?c status", rotated])
        (simp add: set_task_def status_is_def counters_def)
  qed (simp add: ctl_ret progress_def)
  have cond: "triple (\<lambda>s. counters s = ?c \<and> res \<noteq> Some ''needs_info'') (case res of None \<Rightarrow> ret Failed
      | Some status \<Rightarrow> bind_act (set_task (\<lambda>s. s\<lparr>tt_result := Some status\<rparr>)) (\<lambda>_.
      bind_act (on_sched (emit_phase_event (lc_sched lc) ''phase_complete'' i ph idx (length (wf_phases flow)) (Some status))) (\<lambda>_.
      bind_act (if status = ''success'' then thread_gate lc flow i ph r else ret True) (\<lambda>go.
      if \<not> go then ret Waits else bind_act (look (\<lambda>s. the_default status (tt_result s))) (settle_phase lc flow i ph r idx))))) ?Q (\<lambda>_. True)" for res
  proof (cases "res = Some ''needs_info''")
    case False
    show ?thesis by (rule triple_weaken [OF found [OF False]]) simp_all
  qed (simp add: triple_def)
  show ?thesis
    unfolding phase_body_def
    by (intro ctl_untouched untouched triple_bind [OF agent_status [OF r]] cond)
qed

text \<open>A round in which the agent asks for information leaves the counters alone.\<close>

definition no_loss :: "nat \<Rightarrow> nat \<times> (nat \<Rightarrow> nat) \<times> (nat \<Rightarrow> nat) \<Rightarrow> round_end \<Rightarrow> ticket_task \<Rightarrow> bool" where
  "no_loss n c e s \<longleftrightarrow> (e = Again \<longrightarrow> left_over n (counters s) \<le> left_over n c)"

lemma settle_no_loss:
  assumes "idx < length (wf_phases flow)"
  shows "ctl (idx, fx, sa) (settle_phase lc flow i ph r idx status) (\<lambda>e s. no_loss (length (wf_phases flow)) (idx, fx, sa) e s)"
proof (cases "status = ''needs_info''")
  case True
  then have other: "(status = ''success'') = False" "(status = ''needs_info'') = True" by simp_all
  show ?thesis
    unfolding settle_phase_def other if_False if_True
    by (intro ctl_untouched untouched ctl_ret) (simp_all add: write_phase_run_comment_def no_loss_def)
next
  case False
  show ?thesis by (rule triple_weaken [OF ctl_settle [OF assms False]]) (auto simp: progress_def no_loss_def)
qed

lemma body_no_loss:
  assumes idx: "idx < length (wf_phases flow)"
  shows "ctl (idx, fx, sa) (phase_body lc flow i ph r idx) (\<lambda>e s. no_loss (length (wf_phases flow)) (idx, fx, sa) e s)"
proof -
  have tail: "ctl (idx, fx, sa) (bind_act (set_task (\<lambda>s. s\<lparr>tt_result := Some status\<rparr>)) (\<lambda>_.
      bind_act (on_sched (emit_phase_event (lc_sched lc) ''phase_complete'' i ph idx (length (wf_phases flow)) (Some status))) (\<lambda>_.
      bind_act (if status = ''success'' then thread_gate lc flow i ph r else ret True) (\<lambda>go.
      if \<not> go then ret Waits else bind_act (look (\<lambda>s. the_default status (tt_result s))) (settle_phase lc flow i ph r idx)))))
      (\<lambda>e s. no_loss (length (wf_phases flow)) (idx, fx, sa) e s)" for status
    by (intro ctl_set [where c' = "(idx, fx, sa)"] ctl_untouched ctl_look untouched triple_if ctl_ret settle_no_loss idx)
      (simp_all add: counters_def no_loss_def)
  show ?thesis
    unfolding phase_body_def
    by (intro ctl_untouched untouched triple_option tail ctl_ret) (simp add: no_loss_def)
qed

lemma round_of_body:
  assumes "ctl (tt_idx s, tt_fix s, tt_sa s) (phase_body lc flow i (wf_phases flow ! tt_idx s) r (tt_idx s)) (\<lambda>e s. e = Again \<longrightarrow> R (counters s))"
  shows "case phase_round lc flow i r s of (Inl _, _) \<Rightarrow> True | (Inr e, s') \<Rightarrow> e = Again \<longrightarrow> R (counters s')"
proof -
  let ?ph = "wf_phases flow ! tt_idx s" and ?s = "s\<lparr>tt_result := None\<rparr>"
  obtain x s1 where x: "phase_body lc flow i ?ph r (tt_idx s) ?s = (x, s1)" by fastforce
  have body: "case x of Inl _ \<Rightarrow> True | Inr e \<Rightarrow> e = Again \<longrightarrow> R (counters s1)"
    using tripleD [OF assms _ x] by (simp add: counters_def)
  have fin: "counters (snd (phase_end lc i ?ph r s1)) = counters s1" using untouched_end unfolding untouched_def by blast
  show ?thesis
    using body fin unfolding phase_round_def
    by (auto simp: bind_act_def look_def set_task_def with_finally_def Let_def x split: sum.splits prod.splits)
qed

lemma ctl_round:
  assumes "tt_idx s < length (wf_phases flow)" "ri_agent r \<noteq> AgentEnded ''needs_info''"
  shows "case phase_round lc flow i r s of (Inl _, _) \<Rightarrow> True | (Inr e, s') \<Rightarrow> progress (length (wf_phases flow)) (counters s) e s'"
proof -
  have c: "counters s = (tt_idx s, tt_fix s, tt_sa s)" by (simp add: counters_def)
  show ?thesis unfolding progress_def c by (rule round_of_body [OF ctl_body [OF assms, unfolded progress_def]])
qed

lemma round_no_loss:
  assumes "tt_idx s < length (wf_phases flow)"
  shows "case phase_round lc flow i r s of (Inl _, _) \<Rightarrow> True | (Inr e, s') \<Rightarrow> no_loss (length (wf_phases flow)) (counters s) e s'"
proof -
  have c: "counters s = (tt_idx s, tt_fix s, tt_sa s)" by (simp add: counters_def)
  show ?thesis unfolding no_loss_def c by (rule round_of_body [OF body_no_loss [OF assms, unfolded no_loss_def]])
qed

end
