(* ===== verification/FixRouteProps.thy ===== *)
theory FixRouteProps
  imports PhaseLoop TicketToolProps
begin

text \<open>
  Findings that persist over the rounds of a review and are adjudicated, where a blocked phase is sent back to, and
  what is lost of it when the process restarts.
\<close>

section \<open>Findings over rounds\<close>








text \<open>
  What the orchestrator does to the counts of a phase, operation by operation: a review that blocks, one that does not, or a
  crash of it; the verdicts of the adjudicator over the findings put to it; the rerun after all of them were dismissed.
\<close>

datatype review_event = BlockedBy "review_comment list" | PhaseCleared
  | Adjudicated "(string \<times> sa_verdict) list" "(string \<times> string) list" | RunAgain


fun finds :: "string \<Rightarrow> review_event \<Rightarrow> bool" where
  "finds k (BlockedBy cs) = (k \<in> persistence_key ` set cs)"
| "finds k _ = False"

definition found_before :: "string \<Rightarrow> review_event list \<Rightarrow> bool" where
  \<comment> \<open>the last review found it, with no rerun since\<close>
  "found_before k es = (case dropWhile (\<lambda>e. \<exists>vs ks. e = Adjudicated vs ks) (rev es) of [] \<Rightarrow> False | e # _ \<Rightarrow> finds k e)"

fun starts_over :: "string \<Rightarrow> review_event \<Rightarrow> bool" where
  \<comment> \<open>a review without it, or a verdict on it that does not fail the ticket\<close>
  "starts_over k (BlockedBy cs) = (k \<notin> persistence_key ` set cs)"
| "starts_over k PhaseCleared = True"
| "starts_over k (Adjudicated vs ks) = (\<exists>p \<in> set ks. snd p = k \<and> the_default UpholdGuidance (map_of vs (fst p)) \<noteq> UpholdFail)"
| "starts_over k RunAgain = False"

definition survived :: "string \<Rightarrow> review_event list \<Rightarrow> nat set" where
  \<comment> \<open>the reviews that found it again, since it last started over\<close>
  "survived k es = {i. i < length es \<and> finds k (es ! i) \<and> found_before k (take i es) \<and> (\<forall>e \<in> set (drop (Suc i) es). \<not> starts_over k e)}"




lemma survived_finite [simp]: "finite (survived k es)"
  by (simp add: survived_def)




















section \<open>Where a blocked phase goes\<close>

text \<open>
  C28: A blocked phase is only sent back to an earlier phase.  With blocking findings of the latest
  cycle in scope, that is the earliest of the phases they are routed to; without, the last
  \<open>dev\<close> phase before it.
\<close>
theorem route_goes_back:
  assumes "blocked_route out touched ps b cs = Some (i, reason)"
  shows "i < b \<and>
    (let found = in_scope_comments out (latest_blocking cs) in
     if found = [] then ph_role (ps ! i) = ''dev'' \<and> (\<forall>j. i < j \<longrightarrow> j < b \<longrightarrow> ph_role (ps ! j) \<noteq> ''dev'')
     else (\<exists>c \<in> set found. fst (route_one out touched ps b c) = Some i) \<and>
       (\<forall>c \<in> set found. \<forall>j. fst (route_one out touched ps b c) = Some j \<longrightarrow> i \<le> j))"
proof -
  have last: "most_recent_phase_with_role ps b r = Some i \<Longrightarrow> i < j \<Longrightarrow> j < b \<Longrightarrow> ph_role (ps ! j) \<noteq> r" for r j
    by (induction b) (auto split: if_splits simp: less_Suc_eq)
  show ?thesis
    using assms blocked_route_before [OF assms] last most_recent_before routes_before(2,3)
    by (auto simp: blocked_route_def Let_def split: if_splits)
qed

text \<open>
  A phase that is blocked without blocking findings, as by a bounced handoff, and has no
  \<open>dev\<close> phase before it, a first \<open>dev\<close> phase above all, is not tried again: the ticket fails.
\<close>
theorem first_dev_phase_fails:
  assumes "in_scope_comments (lc_out lc) (latest_blocking (ri_comments r)) = []" "\<forall>j < idx. ph_role (wf_phases flow ! j) \<noteq> ''dev''"
  shows "route_back lc flow i ph r idx = fail_ticket lc i"
proof -
  have "most_recent_phase_with_role (wf_phases flow) idx ''dev'' = None" using assms(2) by (simp add: most_recent_none)
  with assms(1) show ?thesis by (simp add: route_back_def blocked_route_def)
qed

section \<open>What a restart forgets\<close>

lemma takeWhile_mono: "(\<And>x. P x \<Longrightarrow> Q x) \<Longrightarrow> length (takeWhile P xs) \<le> length (takeWhile Q xs)"
  by (induction xs) auto

text \<open>
  The phase at which a ticket resumes is read off the phases that ever succeeded, and never
  goes back, whatever is written to the thread afterwards: that a later phase was blocked and sent the
  ticket back for a fix is forgotten by a restart.
\<close>
theorem resume_never_goes_back:
  "current_phase_index es flow \<le> current_phase_index (es @ fs) flow"
  unfolding current_phase_index_def Let_def by (rule takeWhile_mono) auto

section \<open>Witnesses\<close>

definition demo_phase :: "string \<Rightarrow> string \<Rightarrow> string list \<Rightarrow> phase" where
  "demo_phase n role globs = \<lparr>ph_name = n, ph_role = role, ph_automated_checks = [], ph_evaluator = None, ph_questions_to = [],
     ph_escalation_targets = [], ph_writes = globs\<rparr>"

definition demo_flow :: workflow where
  "demo_flow = \<lparr>wf_name = ''f'', wf_phases =
     [demo_phase ''api'' ''dev'' [''*.py''], demo_phase ''ui'' ''dev'' [''*.ts''], demo_phase ''check'' ''review'' []]\<rparr>"

definition demo_finding :: review_comment where
  "demo_finding = \<lparr>rc_type = ''bug'', rc_severity = Critical, rc_reviewer = ''sec'', rc_prose = ''unchecked'', rc_contract_uri = None,
     rc_file = Some ''a.py'', rc_line = Some 3, rc_target_role = None, rc_cycle = 1\<rparr>"

definition demo_checks :: check_inputs where
  "demo_checks = \<lparr>ci_script = (\<lambda>_ _. ScriptExit 0 ''ok''), ci_agent = (\<lambda>_ _. ([], CheckEnded)), ci_head = (\<lambda>_. ''abc''), ci_during = (\<lambda>s. s)\<rparr>"

definition demo_round :: "review_comment list \<Rightarrow> round_input" where
  "demo_round cs = \<lparr>ri_during = (\<lambda>s. s), ri_agent = AgentEnded ''blocked'', ri_review = ReviewFound cs, ri_checks = demo_checks, ri_waits = [],
     ri_comments = cs, ri_verdicts = Some [(''RC-1'', ''dismissed'')], ri_commit = CommitDone None [], ri_resume = (\<lambda>s. s), ri_duration = 1\<rparr>"

definition demo_loop :: loop_config where
  "demo_loop = \<lparr>lc_sched = \<lparr>sg_emitter = True, sg_analytics = False, sg_max_parallel = None, sg_per_merge = False, sg_work_types = []\<rparr>,
     lc_env = named_env CHR ''e'', lc_federation = True, lc_catalog = Inr [], lc_roles = (\<lambda>_. None), lc_touched = (\<lambda>_. None),
     lc_digest = (\<lambda>_. [])\<rparr>"

theorem route_goes_back_witness:
  "blocked_route (\<lambda>_. False) (\<lambda>_. None) (wf_phases demo_flow) 2 [demo_finding] = Some (0, ''writes-glob api'') \<and> (0::nat) < 2"
proof -
  have r: "blocked_route (\<lambda>_. False) (\<lambda>_. None) (wf_phases demo_flow) 2 [demo_finding] = Some (0, ''writes-glob api'')" by code_simp
  from r conjunct1 [OF route_goes_back [OF r]] show ?thesis by (rule conjI)
qed

theorem first_dev_phase_fails_witness:
  "route_back demo_loop demo_flow ''t'' (hd (wf_phases demo_flow)) (demo_round []) 0 = fail_ticket demo_loop ''t''"
  by (rule first_dev_phase_fails) (simp_all add: demo_round_def latest_blocking_def in_scope_comments_def)

end
