(* ===== verification/FindingProps.thy ===== *)
theory FindingProps
  imports Findings
begin

text \<open>
  The names of findings, what is said about them, and how the bundle of the reviewers and the view
  of the interface agree.
\<close>

section \<open>Names\<close>

definition rc_name :: "nat \<Rightarrow> string" where
  "rc_name n = ''RC-'' @ show_nat (n + 1)"

lemma rc_name_inj: "inj rc_name"
  by (rule injI) (simp add: rc_name_def)

lemma compute_snoc: "compute_finding_ids (cs @ [c]) = assign_id c (compute_finding_ids cs)"
  by (simp add: compute_finding_ids_def)

lemma assign_id_cases: "assign_id c ids = (if signature_of c \<in> set (keys ids) then ids else ids @ [(signature_of c, rc_name (length ids))])"
  by (simp add: assign_id_def rc_name_def update_notin)

lemma ids_numbered: "map snd (compute_finding_ids cs) = map rc_name [0..<length (compute_finding_ids cs)]"
proof (induction cs rule: rev_induct)
  case (snoc c cs)
  then show ?case by (simp add: compute_snoc assign_id_cases)
qed (simp add: compute_finding_ids_def)

lemma ids_keys: "distinct (keys (compute_finding_ids cs)) \<and> set (keys (compute_finding_ids cs)) = signature_of ` set cs"
proof (induction cs rule: rev_induct)
  case (snoc c cs)
  then show ?case by (auto simp: compute_snoc assign_id_cases)
qed (simp add: compute_finding_ids_def)

lemma ids_extend: "\<exists>more. compute_finding_ids (cs @ ds) = compute_finding_ids cs @ more"
proof (induction ds rule: rev_induct)
  case (snoc d ds)
  then obtain more where "compute_finding_ids (cs @ ds) = compute_finding_ids cs @ more" by blast
  then show ?case
    using compute_snoc [of "cs @ ds" d] by (simp add: assign_id_cases)
qed simp

lemma id_in_list: "c \<in> set cs \<Longrightarrow> \<exists>fid. id_in (compute_finding_ids cs) c = Some fid"
proof -
  assume "c \<in> set cs"
  then have "signature_of c \<in> set (keys (compute_finding_ids cs))" using ids_keys by blast
  then show ?thesis unfolding id_in_def using map_of_eq_None_iff [of "compute_finding_ids cs" "signature_of c"] by (auto simp: not_None_eq)
qed

lemma id_in_iff: "id_in (compute_finding_ids cs) c \<noteq> None \<longleftrightarrow> signature_of c \<in> signature_of ` set cs"
  unfolding id_in_def using ids_keys [of cs] map_of_eq_None_iff [of "compute_finding_ids cs" "signature_of c"] by simp

lemma id_in_later: "id_in (compute_finding_ids cs) c = Some fid \<Longrightarrow> id_in (compute_finding_ids (cs @ ds)) c = Some fid"
  using ids_extend [of cs ds] by (auto simp: id_in_def map_add_def)

lemma id_in_inj:
  assumes "id_in (compute_finding_ids cs) c = Some fid" "id_in (compute_finding_ids cs) d = Some fid"
  shows "signature_of c = signature_of d"
proof -
  let ?ids = "compute_finding_ids cs"
  have dist: "distinct (map snd ?ids)"
    unfolding ids_numbered using rc_name_inj by (simp add: distinct_map inj_on_def)
  have "(signature_of c, fid) \<in> set ?ids" "(signature_of d, fid) \<in> set ?ids"
    using assms unfolding id_in_def by (auto dest: map_of_SomeD)
  with dist have "(signature_of c, fid) = (signature_of d, fid)" unfolding distinct_map by (metis inj_onD snd_conv)
  then show ?thesis by simp
qed

lemma id_in_values: "fid \<in> set (map snd (compute_finding_ids cs)) \<longleftrightarrow> (\<exists>c \<in> set cs. id_in (compute_finding_ids cs) c = Some fid)"
proof -
  have "distinct (keys (compute_finding_ids cs))" "set (keys (compute_finding_ids cs)) = signature_of ` set cs"
    using ids_keys by auto
  then show ?thesis unfolding in_values_iff [OF \<open>distinct _\<close>] id_in_def
    by (metis (no_types, lifting) domI dom_map_of_conv_image_fst imageE list.set_map)
qed

text \<open>
  C29: A finding has a name from the round that first raised it, keeps it whatever is raised
  later, and shares it exactly with the comments that have its signature.
\<close>
theorem finding_ids_stable:
  assumes "c \<in> set cs"
  shows "\<exists>fid. id_in (compute_finding_ids cs) c = Some fid \<and> id_in (compute_finding_ids (cs @ ds)) c = Some fid \<and>
    (\<forall>d. id_in (compute_finding_ids (cs @ ds)) d = Some fid \<longleftrightarrow> signature_of d = signature_of c)"
proof -
  obtain fid where fid: "id_in (compute_finding_ids cs) c = Some fid" using id_in_list [OF assms] by blast
  then have later: "id_in (compute_finding_ids (cs @ ds)) c = Some fid" by (rule id_in_later)
  then have "id_in (compute_finding_ids (cs @ ds)) d = Some fid \<longleftrightarrow> signature_of d = signature_of c" for d
    using id_in_inj [OF later, of d] by (auto simp: id_in_def)
  with fid later show ?thesis by blast
qed

section \<open>The first of each name\<close>

lemma first_by_id_fst:
  "distinct (map fst (first_by_id ids seen cs)) \<and>
   set (map fst (first_by_id ids seen cs)) = {fid. \<exists>c \<in> set cs. id_in ids c = Some fid} - seen"
proof (induction cs arbitrary: seen)
  case (Cons c cs)
  show ?case
  proof (cases "id_in ids c")
    case (Some fid)
    with Cons [of seen] Cons [of "insert fid seen"] show ?thesis by auto
  qed (use Cons [of seen] in auto)
qed simp

lemma first_by_id_find: "(fid, c) \<in> set (first_by_id ids seen cs) \<Longrightarrow> fid \<notin> seen \<and> List.find (\<lambda>c. id_in ids c = Some fid) cs = Some c"
proof (induction cs arbitrary: seen)
  case (Cons d cs)
  show ?case
  proof (cases "id_in ids d")
    case None
    with Cons show ?thesis by simp
  next
    case (Some fid')
    with Cons.prems Cons.IH [of seen] Cons.IH [of "insert fid' seen"] show ?thesis by (auto split: if_splits)
  qed
qed simp

section \<open>Raised again\<close>

text \<open>
  C31: After a review, the findings that were raised before and are found again, except those a
  reviewer has confirmed as fixed, are recorded as raised again: once each, under the name they had
  before, with the cycle and the words of the first comment that found them again.
\<close>
theorem reraised_exactly:
  assumes "t \<noteq> []" "\<forall>c \<in> set new. 0 \<le> rc_cycle c"
  shows "\<exists>out. compute_reraised_acks prior new acks t = Inr out \<and> distinct (map fa_finding_id out) \<and>
    (\<forall>fid. fid \<in> set (map fa_finding_id out) \<longleftrightarrow> (\<exists>c \<in> set new. id_in (compute_finding_ids prior) c = Some fid) \<and>
       \<not> (\<exists>a \<in> set acks. fa_kind a = AckResolved \<and> fa_finding_id a = fid)) \<and>
    (\<forall>a \<in> set out. fa_kind a = AckReraised \<and> fa_author a = ''orchestrator'' \<and> fa_ticket_id a = t \<and>
       (\<exists>c. List.find (\<lambda>c. id_in (compute_finding_ids prior) c = Some (fa_finding_id a)) new = Some c \<and>
          fa_cycle a = rc_cycle c \<and> fa_prose a = rc_prose c))"
proof -
  let ?ids = "compute_finding_ids (prior @ new)" and ?old = "\<lambda>c. id_in (compute_finding_ids prior) c"
  let ?again = "filter (\<lambda>c. signature_of c \<in> signature_of ` set prior) new"
  let ?solved = "fa_finding_id ` {a \<in> set acks. fa_kind a = AckResolved}"
  let ?fs = "first_by_id ?ids ?solved ?again"
  have old: "id_in ?ids c = ?old c" if "signature_of c \<in> signature_of ` set prior" for c
    using that id_in_iff [of prior c] id_in_later [of prior c _ new] by (auto simp: not_None_eq)
  have named: "signature_of c \<in> signature_of ` set prior \<and> id_in ?ids c = Some fid \<longleftrightarrow> ?old c = Some fid" for c fid
    using old [of c] id_in_iff [of prior c] by auto
  define mk where "mk = (\<lambda>(fid, c :: review_comment). \<lparr>fa_ticket_id = t, fa_finding_id = fid, fa_kind = AckReraised, fa_author = ''orchestrator'',
    fa_cycle = rc_cycle c, fa_prose = rc_prose c, fa_persistence_key = None, fa_created_at = created_at_sentinel\<rparr>)"
  have fs: "List.find (\<lambda>c. ?old c = Some fid) new = Some c \<and> fid \<notin> ?solved" if "(fid, c) \<in> set ?fs" for fid c
    using first_by_id_find [OF that] by (simp add: find_filter named)
  have made: "new_ack t (fst p) AckReraised ''orchestrator'' (rc_cycle (snd p)) (rc_prose (snd p)) = Inr (mk p)" if "p \<in> set ?fs" for p
  proof -
    obtain fid c where p: "p = (fid, c)" by (cases p)
    from fs that p have c: "c \<in> set new" "?old c = Some fid" by (auto dest: find_Some_in)
    then have "(signature_of c, fid) \<in> set (compute_finding_ids prior)" by (simp add: id_in_def map_of_SomeD)
    then have "fid \<in> set (map snd (compute_finding_ids prior))" by force
    then have "fid \<noteq> []" unfolding ids_numbered by (auto simp: rc_name_def)
    with c assms show ?thesis by (simp add: p new_ack_def ack_ok_def mk_def)
  qed
  have out: "compute_reraised_acks prior new acks t = Inr (map mk ?fs)"
    unfolding compute_reraised_acks_def by (rule map_res_total) (use made in \<open>auto split: prod.split\<close>)
  have names: "map fa_finding_id (map mk ?fs) = map fst ?fs" by (auto simp: mk_def)
  have d: "distinct (map fa_finding_id (map mk ?fs))" unfolding names using first_by_id_fst by blast
  have "fid \<in> set (map fst ?fs) \<longleftrightarrow> (\<exists>c \<in> set new. ?old c = Some fid) \<and> fid \<notin> ?solved" for fid
    using first_by_id_fst [of ?ids ?solved ?again] named by auto
  then have n: "\<forall>fid. fid \<in> set (map fa_finding_id (map mk ?fs)) \<longleftrightarrow> (\<exists>c \<in> set new. ?old c = Some fid) \<and>
      \<not> (\<exists>a \<in> set acks. fa_kind a = AckResolved \<and> fa_finding_id a = fid)" unfolding names by blast
  have parts: "\<forall>a \<in> set (map mk ?fs). fa_kind a = AckReraised \<and> fa_author a = ''orchestrator'' \<and> fa_ticket_id a = t \<and>
       (\<exists>c. List.find (\<lambda>c. ?old c = Some (fa_finding_id a)) new = Some c \<and> fa_cycle a = rc_cycle c \<and> fa_prose a = rc_prose c)"
  proof
    fix a assume "a \<in> set (map mk ?fs)"
    then obtain fid c where p: "(fid, c) \<in> set ?fs" "a = mk (fid, c)" by auto
    then show "fa_kind a = AckReraised \<and> fa_author a = ''orchestrator'' \<and> fa_ticket_id a = t \<and>
       (\<exists>c. List.find (\<lambda>c. ?old c = Some (fa_finding_id a)) new = Some c \<and> fa_cycle a = rc_cycle c \<and> fa_prose a = rc_prose c)"
      using fs [OF p(1)] by (simp add: mk_def)
  qed
  show ?thesis by (intro exI [of _ "map mk ?fs"] conjI out d n parts)
qed

section \<open>The bundle and the view\<close>

definition latest_by_cycle :: "finding_ack list \<Rightarrow> finding_ack" where
  \<comment> \<open>the last one appended in the highest cycle\<close>
  "latest_by_cycle as = last (filter (\<lambda>a. fa_cycle a = Max (fa_cycle ` set as)) as)"

lemma sorted_last: "sorted (map f xs) \<Longrightarrow> x \<in> set xs \<Longrightarrow> f x \<le> f (last xs)"
  by (induction xs) auto

lemma last_sorted:
  assumes "as \<noteq> []"
  shows "last (sort_key fa_cycle as) = latest_by_cycle as"
proof -
  let ?s = "sort_key fa_cycle as" and ?m = "Max (fa_cycle ` set as)"
  have ne: "?s \<noteq> []" using assms by (metis set_empty set_sort)
  have top: "x \<in> set ?s \<Longrightarrow> fa_cycle x \<le> fa_cycle (last ?s)" for x by (rule sorted_last) simp_all
  have "fa_cycle (last ?s) = ?m"
  proof (rule antisym)
    show "fa_cycle (last ?s) \<le> ?m" using last_in_set [OF ne] by simp
    show "?m \<le> fa_cycle (last ?s)" using assms top by (subst Max_le_iff) auto
  qed
  moreover have "last (filter P xs) = last xs" if "P (last xs)" "xs \<noteq> []" for P and xs :: "finding_ack list"
    using that by (induction xs) (auto split: if_splits simp: filter_empty_conv)
  ultimately have "last ?s = last (filter (\<lambda>a. fa_cycle a = ?m) ?s)" using ne by simp
  then show ?thesis unfolding latest_by_cycle_def by (simp add: sort_key_stable)
qed

text \<open>
  C34: Every finding of the bundle of the reviewers is one of the view of the interface, and both call it
  resolved once a reviewer has confirmed it, and open while nothing is recorded for it.  Otherwise the bundle shows the kind of the
  latest acknowledgement by cycle, and the view that of the last one appended, or open where this is a dismissal: they
  agree exactly when these two are of the same kind and it is not a dismissal.
\<close>
theorem views_agree:
  assumes "build_verify_bundle cs acks = Some fs" "f \<in> set fs"
  shows "\<exists>state history. (vf_entry f, state, history) \<in> set (get_findings_for_ticket cs acks) \<and>
    (let as = acks_of acks (bf_finding_id (vf_entry f)) in
     if AckResolved \<in> fa_kind ` set as then vf_status f = ''resolved'' \<and> state = ''resolved''
     else if as = [] then vf_status f = ''open'' \<and> state = ''open''
     else vf_status f = show_ack_kind (fa_kind (latest_by_cycle as)) \<and>
       state = (if fa_kind (last as) = AckDismissed then ''open'' else show_ack_kind (fa_kind (last as))) \<and>
       (vf_status f = state \<longleftrightarrow> fa_kind (latest_by_cycle as) = fa_kind (last as) \<and> fa_kind (last as) \<noteq> AckDismissed))"
proof -
  let ?ids = "compute_finding_ids cs"
  from assms obtain fid d where e: "(fid, d) \<in> set (first_by_id ?ids {} (filter (\<lambda>c. rc_severity c \<noteq> Notable) cs))"
    and f: "f = verify_entry cs acks fid"
    by (auto simp: build_verify_bundle_def Let_def split: if_splits)
  from first_by_id_find [OF e] have "d \<in> set cs" "id_in ?ids d = Some fid" by (auto dest: find_Some_in)
  then have "fid \<in> set (map fst (first_by_id ?ids {} cs))" using first_by_id_fst [of ?ids "{}" cs] by blast
  then obtain c where c: "(fid, c) \<in> set (first_by_id ?ids {} cs)" by force
  then have first: "find_by_id cs fid = Some c" using first_by_id_find [OF c] by (simp add: find_by_id_def)
  let ?as = "acks_of acks fid"
  have v: "vf_entry f = bundle_entry (fid, c)" "vf_status f = verify_status (sort_key fa_cycle ?as)" "bf_finding_id (vf_entry f) = fid"
    by (simp_all add: f verify_entry_def Let_def first bundle_entry_def)
  have mem: "(bundle_entry (fid, c), view_status ?as, map (\<lambda>a. ack_to_dict a @ [(''created_at'', JTime (fa_created_at a))]) ?as)
      \<in> set (get_findings_for_ticket cs acks)"
    unfolding get_findings_for_ticket_def set_map by (rule rev_image_eqI [OF c]) simp
  have solved: "list_ex (\<lambda>a. fa_kind a = AckResolved) xs \<longleftrightarrow> AckResolved \<in> fa_kind ` set xs" for xs
    unfolding list_ex_iff by force
  have empty: "sort_key fa_cycle ?as = [] \<longleftrightarrow> ?as = []" by (metis set_empty set_sort)
  have state: "view_status ?as = (if AckResolved \<in> fa_kind ` set ?as then ''resolved'' else if ?as = [] \<or> fa_kind (last ?as) = AckDismissed then ''open''
      else show_ack_kind (fa_kind (last ?as)))"
  proof -
    have "?as \<noteq> [] \<Longrightarrow> fa_kind (last ?as) \<in> fa_kind ` set ?as" by simp
    then show ?thesis unfolding view_status_def solved by (cases "fa_kind (last ?as)"; cases "?as = []") simp_all
  qed
  have status: "verify_status (sort_key fa_cycle ?as) = (if AckResolved \<in> fa_kind ` set ?as then ''resolved'' else if ?as = [] then ''open''
      else show_ack_kind (fa_kind (latest_by_cycle ?as)))"
    unfolding verify_status_def solved empty by (simp add: last_sorted)
  have "vf_status f = view_status ?as \<longleftrightarrow> fa_kind (latest_by_cycle ?as) = fa_kind (last ?as) \<and> fa_kind (last ?as) \<noteq> AckDismissed"
    if "AckResolved \<notin> fa_kind ` set ?as" "?as \<noteq> []"
    unfolding v status state using that by (cases "fa_kind (last ?as)"; cases "fa_kind (latest_by_cycle ?as)") simp_all
  then have "if AckResolved \<in> fa_kind ` set ?as then vf_status f = ''resolved'' \<and> view_status ?as = ''resolved''
     else if ?as = [] then vf_status f = ''open'' \<and> view_status ?as = ''open''
     else vf_status f = show_ack_kind (fa_kind (latest_by_cycle ?as)) \<and>
       view_status ?as = (if fa_kind (last ?as) = AckDismissed then ''open'' else show_ack_kind (fa_kind (last ?as))) \<and>
       (vf_status f = view_status ?as \<longleftrightarrow> fa_kind (latest_by_cycle ?as) = fa_kind (last ?as) \<and> fa_kind (last ?as) \<noteq> AckDismissed)"
    unfolding v(2) status state by auto
  with mem show ?thesis unfolding v(3) Let_def unfolding v(1) by blast
qed

lemma routed_to:
  assumes "blocked_route out touched ps b cs = Some (i, reason)" "in_scope_comments out (latest_blocking cs) \<noteq> []"
  obtains c where "c \<in> set (latest_blocking cs)" "fst (route_one (\<lambda>_. False) touched ps b c) = Some i"
proof -
  let ?found = "in_scope_comments out (latest_blocking cs)"
  define rs where "rs = filter (\<lambda>(i, _). i \<noteq> None) (map (route_one out touched ps b) ?found)"
  from assms have "rs \<noteq> []" "i = Min (set (map (the \<circ> fst) rs))"
    by (auto simp: rs_def blocked_route_def Let_def route_blocking_comments_def split: if_splits)
  then have "i \<in> set (map (the \<circ> fst) rs)" by (auto intro!: Min_in)
  then obtain x where x: "x \<in> set rs" "i = the (fst x)" by auto
  from x(1) have "fst x \<noteq> None" unfolding rs_def by (simp add: split_beta)
  with x(2) have "fst x = Some i" by auto
  with x(1) obtain c where c: "c \<in> set ?found" "fst (route_one out touched ps b c) = Some i" by (auto simp: rs_def)
  then have "c \<in> set (latest_blocking cs)" "rc_file c = None \<or> \<not> out c" by (auto simp: in_scope_comments_def)
  moreover from this(2) have "route_one out touched ps b c = route_one (\<lambda>_. False) touched ps b c" by (auto simp: route_one_def)
  ultimately show thesis using c(2) that by simp
qed

text \<open>
  C30: The phase that a review is sent back to is told of some finding: of at most thirty, each once
  and with everything that was said about it, and of how many are left out of those that are routed to it.
\<close>
theorem fix_bundle_complete:
  assumes "blocked_route out touched ps b cs = Some (i, reason)" "in_scope_comments out (latest_blocking cs) \<noteq> []"
    and "build_fix_loop_bundle touched ps b i cs acks = (fs, left)"
  shows "fs \<noteq> [] \<and> length fs \<le> max_rendered_findings \<and> distinct (map (bf_finding_id \<circ> fst) fs) \<and>
    length fs + left = card {fid. \<exists>c \<in> set (latest_blocking cs). id_in (compute_finding_ids cs) c = Some fid \<and>
      fst (route_one (\<lambda>_. False) touched ps b c) = Some i} \<and>
    (\<forall>(f, history) \<in> set fs. history = map ack_to_dict (filter (\<lambda>a. fa_finding_id a = bf_finding_id f) acks))"
proof -
  let ?fs = "routed_findings touched ps b i cs"
  let ?ids = "{fid. \<exists>c \<in> set (latest_blocking cs). id_in (compute_finding_ids cs) c = Some fid \<and> fst (route_one (\<lambda>_. False) touched ps b c) = Some i}"
  have d: "distinct (map fst ?fs)" and s: "set (map fst ?fs) = ?ids"
    unfolding routed_findings_def
    using first_by_id_fst [of "compute_finding_ids cs" "{}" "filter (\<lambda>c. fst (route_one (\<lambda>_. False) touched ps b c) = Some i) (latest_blocking cs)"] by auto
  have n: "length ?fs = card ?ids" using distinct_card [OF d] unfolding s by simp
  obtain c where c: "c \<in> set (latest_blocking cs)" "fst (route_one (\<lambda>_. False) touched ps b c) = Some i" by (rule routed_to [OF assms(1,2)])
  then have "c \<in> set cs" by (simp add: latest_blocking_def)
  then obtain fid where "id_in (compute_finding_ids cs) c = Some fid" using id_in_list by blast
  with c have "fid \<in> set (map fst ?fs)" unfolding s by blast
  then have some: "?fs \<noteq> []" by auto
  let ?es = "map (\<lambda>(fid, c). (bundle_entry (fid, c), map ack_to_dict (acks_of acks fid))) ?fs"
  have fs: "fs = take max_rendered_findings ?es" "left = length ?es - max_rendered_findings"
    using assms(3) by (simp_all add: build_fix_loop_bundle_def Let_def)
  have names: "map (bf_finding_id \<circ> fst) ?es = map fst ?fs" by (auto simp: bundle_entry_def)
  have "map (bf_finding_id \<circ> fst) fs = take max_rendered_findings (map fst ?fs)" unfolding fs(1) take_map [symmetric] names ..
  then have "distinct (map (bf_finding_id \<circ> fst) fs)" using d by simp
  moreover have "history = map ack_to_dict (filter (\<lambda>a. fa_finding_id a = bf_finding_id f) acks)" if "(f, history) \<in> set fs" for f history
    using in_set_takeD [OF that [unfolded fs(1)]] by (auto simp: bundle_entry_def acks_of_def)
  moreover have "fs \<noteq> []" "length fs \<le> max_rendered_findings" "length fs + left = length ?fs"
    using some by (simp_all add: fs max_rendered_findings_def)
  ultimately show ?thesis unfolding n by auto
qed

section \<open>The tools\<close>

definition acks_inv :: "jsonl_store \<Rightarrow> bool" where
  "acks_inv st \<longleftrightarrow> store_inv st \<and> st_index_fields st = acks_index \<and>
     (\<forall>d \<in> set (map snd (st_docs st)). \<exists>a i. ack_ok a \<and> d = dump_ack a @ [(''_id'', i)])"

lemma read_ack_kind_show [simp]: "read_ack_kind (show_ack_kind k) = Some k"
  by (cases k) (simp_all add: read_ack_kind_def)

lemma load_ack_dump: "ack_ok a \<Longrightarrow> load_ack (dump_ack a @ [(''_id'', i)]) = Inr a"
  by (simp add: load_ack_def parse_ack_def dict_without_def dump_ack_def codec fld_int_or_def Let_def ack_ok_def)

lemma acks_for_ticket_total: "acks_inv st \<Longrightarrow> \<exists>as. acks_for_ticket t st = Inr as"
proof -
  assume inv: "acks_inv st"
  define g where "g = (\<lambda>d. projr (load_ack d))"
  have "load_ack d = Inr (g d)" if "d \<in> set (find_docs (Some (field_eq ''ticket_id'' (JStr t))) st)" for d
    using that inv by (auto simp: g_def find_docs_def acks_inv_def load_ack_dump)
  then have "acks_for_ticket t st = Inr (map g (find_docs (Some (field_eq ''ticket_id'' (JStr t))) st))"
    unfolding acks_for_ticket_def by (rule map_res_total)
  then show ?thesis by blast
qed

definition same_ack :: "string \<Rightarrow> string \<Rightarrow> ack_kind \<Rightarrow> string \<Rightarrow> int \<Rightarrow> doc \<Rightarrow> bool" where
  "same_ack t fid k author cycle d \<longleftrightarrow> field_eq ''ticket_id'' (JStr t) d \<and> field_eq ''finding_id'' (JStr fid) d \<and>
     field_eq ''kind'' (JStr (show_ack_kind k)) d \<and> field_eq ''author'' (JStr author) d \<and> field_eq ''cycle'' (JInt cycle) d"

lemma find_id_for_same: "find_id_for t fid (show_ack_kind k) author cycle st =
    (case filter (same_ack t fid k author cycle) (map snd (st_docs st)) of [] \<Rightarrow> None | d # _ \<Rightarrow> Some (doc_id d))"
  by (simp add: find_id_for_def find_docs_def same_ack_def [abs_def])

lemma append_ack_effect:
  assumes "acks_inv st" "JStr fresh \<notin> set (keys (st_docs st))" "ack_ok a" "append_ack fresh now a st = (Inr i, st')"
  shows "\<exists>at. st_docs st' = st_docs st @ [(JStr fresh, dump_ack (a\<lparr>fa_created_at := at\<rparr>) @ [(''_id'', JStr fresh)])] \<and> i = JStr fresh \<and> acks_inv st'"
proof -
  define b where "b = (if fa_created_at a = created_at_sentinel then a\<lparr>fa_created_at := now\<rparr> else a)"
  have b: "ack_ok b" "b = a\<lparr>fa_created_at := fa_created_at b\<rparr>" using assms(3) by (simp_all add: b_def ack_ok_def)
  have app: "append_ack fresh now a st = insert_doc fresh (dump_ack b) st" by (simp add: append_ack_def b_def)
  have st: "store_inv st" "st_index_fields st = acks_index" using assms(1) by (simp_all add: acks_inv_def)
  have stored: "stored_doc fresh (dump_ack b) = dump_ack b @ [(''_id'', JStr fresh)]"
    by (simp add: stored_doc_def dump_ack_def)
  have id: "doc_id (stored_doc fresh (dump_ack b)) = JStr fresh" by (simp add: doc_id_def stored_doc_id dump_ack_def)
  have ins: "insertable st (dump_ack b)" by (auto simp: insertable_def dump_ack_def st acks_index_def)
  have le: "dumps_len (JObj (insert_record fresh (dump_ack b))) \<le> st_max_record_bytes st"
  proof (rule ccontr)
    assume "\<not> ?thesis"
    then have "insert_doc fresh (dump_ack b) st = (Inl RecordTooLargeError, st)"
      by (intro insert_doc_too_large ins) (use assms(2) id in simp_all)
    with assms(4) app show False by simp
  qed
  obtain st2 where st2: "insert_doc fresh (dump_ack b) st = (Inr (JStr fresh), st2)" "store_inv st2"
    "st_docs st2 = st_docs st @ [(JStr fresh, stored_doc fresh (dump_ack b))]" "st_index_fields st2 = st_index_fields st"
    by (rule insert_doc_ok [OF st(1) ins id assms(2) le])
  then have eq: "st2 = st'" "i = JStr fresh" using assms(4) app by simp_all
  have docs: "st_docs st' = st_docs st @ [(JStr fresh, dump_ack b @ [(''_id'', JStr fresh)])]" using st2(3) eq(1) stored by simp
  have "acks_inv st'" using assms(1) st2(2,4) eq(1) b(1) unfolding acks_inv_def docs by auto
  with docs eq(2) b(2) show ?thesis by metis
qed

lemma write_ack_again:
  assumes "acks_inv st" "JStr fresh \<notin> set (keys (st_docs st))" "write_ack fresh now t fid k author cycle prose st = (Inr i, st')"
  shows "acks_inv st' \<and> (\<forall>fresh' now' prose'. write_ack fresh' now' t fid k author cycle prose' st' = (Inr i, st')) \<and>
    (\<exists>as. acks_for_ticket t st = Inr as \<and> (st' = st \<or>
       (\<exists>a. acks_for_ticket t st' = Inr (as @ [a]) \<and> fa_finding_id a = fid \<and> fa_kind a = k \<and> fa_author a = author \<and> fa_cycle a = cycle \<and> fa_prose a = prose)))"
proof (cases "find_id_for t fid (show_ack_kind k) author cycle st")
  case (Some j)
  with assms acks_for_ticket_total [OF assms(1), of t] show ?thesis by (auto simp: write_ack_def)
next
  case None
  then have none: "filter (same_ack t fid k author cycle) (map snd (st_docs st)) = []"
    unfolding find_id_for_same by (simp split: list.splits)
  obtain a where a: "new_ack t fid k author cycle prose = Inr a" "append_ack fresh now a st = (Inr i, st')"
    using assms(3) None by (auto simp: write_ack_def split: sum.splits)
  then have ok: "ack_ok a" and parts: "fa_ticket_id a = t" "fa_finding_id a = fid" "fa_kind a = k" "fa_author a = author" "fa_cycle a = cycle" "fa_prose a = prose"
    by (auto simp: new_ack_def Let_def split: if_splits)
  obtain at where new: "st_docs st' = st_docs st @ [(JStr fresh, dump_ack (a\<lparr>fa_created_at := at\<rparr>) @ [(''_id'', JStr fresh)])]" "i = JStr fresh"
    and inv: "acks_inv st'" using append_ack_effect [OF assms(1,2) ok a(2)] by blast
  let ?d = "dump_ack (a\<lparr>fa_created_at := at\<rparr>) @ [(''_id'', JStr fresh)]"
  have same: "same_ack t fid k author cycle ?d" by (simp add: same_ack_def field_eq_def dump_ack_def parts)
  have id: "doc_id ?d = JStr fresh" by (simp add: doc_id_def dump_ack_def)
  have "find_id_for t fid (show_ack_kind k) author cycle st' = Some i"
    unfolding find_id_for_same new(1) using none same id new(2) by simp
  then have again: "write_ack fresh' now' t fid k author cycle prose' st' = (Inr i, st')" for fresh' now' prose'
    by (simp add: write_ack_def)
  obtain as where as: "acks_for_ticket t st = Inr as" using acks_for_ticket_total [OF assms(1)] by blast
  have "field_eq ''ticket_id'' (JStr t) ?d" using same by (simp add: same_ack_def)
  moreover have "load_ack ?d = Inr (a\<lparr>fa_created_at := at\<rparr>)" by (rule load_ack_dump) (use ok in \<open>simp add: ack_ok_def\<close>)
  ultimately have "acks_for_ticket t st' = Inr (as @ [a\<lparr>fa_created_at := at\<rparr>])"
    using as unfolding acks_for_ticket_def find_docs_def new(1) by (simp add: map_res_snoc)
  with as inv again parts show ?thesis by auto
qed

text \<open>
  C32: A reviewer that confirms a fix records it once: the acknowledgement is appended to those of
  the ticket, and confirming again in the same cycle, in other words and after further comments,
  returns the same id and leaves the store as it is.
\<close>
theorem confirmation_is_idempotent:
  assumes "acks_inv st" "JStr fresh \<notin> set (keys (st_docs st))"
    and "mark_finding_resolved fresh now cs t fid author cycle text st = (Inr i, st')"
  shows "acks_inv st' \<and>
    (\<exists>as. acks_for_ticket t st = Inr as \<and> (st' = st \<or> (\<exists>a. acks_for_ticket t st' = Inr (as @ [a]) \<and> fa_finding_id a = fid \<and>
       fa_kind a = AckResolved \<and> fa_author a = author \<and> fa_cycle a = cycle \<and> fa_prose a = text))) \<and>
    (\<forall>fresh' now' ds text'. length text' \<le> max_ack_prose \<longrightarrow>
       mark_finding_resolved fresh' now' (cs @ ds) t fid author cycle text' st' = (Inr i, st'))"
proof -
  have w: "write_ack fresh now t fid AckResolved author cycle text st = (Inr i, st')" and fid: "fid \<in> set (map snd (compute_finding_ids cs))"
    using assms(3) by (auto simp: mark_finding_resolved_def checked_ack_def split: if_splits)
  from fid obtain c where "c \<in> set cs" "id_in (compute_finding_ids cs) c = Some fid" unfolding id_in_values by blast
  then have "fid \<in> set (map snd (compute_finding_ids (cs @ ds)))" for ds
    unfolding id_in_values using id_in_later [of cs c fid ds] by auto
  then show ?thesis
    using write_ack_again [OF assms(1,2) w] by (auto simp: mark_finding_resolved_def checked_ack_def)
qed

section \<open>Adjudicated findings\<close>

lemma id_in_key:
  assumes "id_in (compute_finding_ids cs) c = Some fid" "id_in (compute_finding_ids cs) d = Some fid"
  shows "persistence_key c = persistence_key d"
  using id_in_inj [OF assms] by (simp add: signature_of_def persistence_key_def)

definition names_key :: "review_comment list \<Rightarrow> string \<times> string \<Rightarrow> bool" where
  \<comment> \<open>a blocking comment with the name has the key\<close>
  "names_key cs p \<longleftrightarrow> (\<exists>c \<in> set cs. blocks_review c \<and> persistence_key c = snd p \<and> id_in (compute_finding_ids cs) c = Some (fst p))"

lemma escalated_map_snoc: "escalated_map cs (ks @ [k]) = (case rev (filter (\<lambda>c. blocks_review c \<and> persistence_key c = k) cs) of
       [] \<Rightarrow> escalated_map cs ks
     | c # _ \<Rightarrow> AList.update (the (id_in (compute_finding_ids cs) c)) k (escalated_map cs ks))"
proof (cases "rev (filter (\<lambda>c. blocks_review c \<and> persistence_key c = k) cs)")
  case (Cons c r)
  then have "c \<in> set (filter (\<lambda>c. blocks_review c \<and> persistence_key c = k) cs)" by (metis list.set_intros(1) set_rev)
  then have "c \<in> set cs" by simp
  then obtain fid where "id_in (compute_finding_ids cs) c = Some fid" using id_in_list by blast
  with Cons show ?thesis by (simp add: escalated_map_def)
qed (simp add: escalated_map_def)

lemma escalated_names:
  "(\<forall>p \<in> set (escalated_map cs ks). names_key cs p) \<and>
   snd ` set (escalated_map cs ks) = {k \<in> set ks. \<exists>c \<in> set cs. blocks_review c \<and> persistence_key c = k}"
proof (induction ks rule: rev_induct)
  case (snoc k ks)
  let ?occ = "filter (\<lambda>c. blocks_review c \<and> persistence_key c = k) cs"
  show ?case
  proof (cases "rev ?occ")
    case Nil
    then have "\<not> (\<exists>c \<in> set cs. blocks_review c \<and> persistence_key c = k)" by (auto simp: filter_empty_conv)
    with Nil snoc show ?thesis unfolding escalated_map_snoc by auto
  next
    case (Cons c r)
    then have "c \<in> set ?occ" by (metis list.set_intros(1) set_rev)
    then have c: "c \<in> set cs" "blocks_review c" "persistence_key c = k" by auto
    obtain fid where fid: "id_in (compute_finding_ids cs) c = Some fid" using id_in_list [OF c(1)] by blast
    let ?m = "escalated_map cs ks"
    have eq: "escalated_map cs (ks @ [k]) = AList.update fid k ?m" unfolding escalated_map_snoc Cons using fid by simp
    have same: "k' = k" if "(fid, k') \<in> set ?m" for k'
      using that snoc id_in_key [OF _ fid] c(3) by (fastforce simp: names_key_def)
    from same have upd: "set (AList.update fid k ?m) = insert (fid, k) (set ?m)" by (rule alist_update_same)
    have "names_key cs (fid, k)" using c fid by (auto simp: names_key_def)
    with snoc c show ?thesis unfolding eq upd by auto
  qed
qed (simp add: escalated_map_def)

section \<open>Witnesses\<close>

definition demo_comment :: "int \<Rightarrow> int \<Rightarrow> review_comment" where
  "demo_comment line cycle = \<lparr>rc_type = ''error-handling'', rc_severity = Important, rc_reviewer = ''sec'', rc_prose = ''unchecked'',
     rc_contract_uri = None, rc_file = Some ''a.py'', rc_line = Some line, rc_target_role = None, rc_cycle = cycle\<rparr>"

definition demo_ack :: "ack_kind \<Rightarrow> finding_ack" where
  "demo_ack k = \<lparr>fa_ticket_id = ''t'', fa_finding_id = ''RC-1'', fa_kind = k, fa_author = ''sa'', fa_cycle = 1, fa_prose = ''wrong'',
     fa_persistence_key = None, fa_created_at = 7\<rparr>"

theorem finding_ids_stable_witness:
  "id_in (compute_finding_ids [demo_comment 3 1, demo_comment 8 1]) (demo_comment 8 1) = Some ''RC-2'' \<and>
   id_in (compute_finding_ids ([demo_comment 3 1, demo_comment 8 1] @ [demo_comment 5 2, demo_comment 8 2])) (demo_comment 8 2) = Some ''RC-2''"
proof -
  let ?cs = "[demo_comment 3 1, demo_comment 8 1]"
  have now: "id_in (compute_finding_ids ?cs) (demo_comment 8 1) = Some ''RC-2''" by code_simp
  have "signature_of (demo_comment 8 2) = signature_of (demo_comment 8 1)" by (simp add: signature_of_def normalize_contract_uri_def demo_comment_def)
  with finding_ids_stable [of "demo_comment 8 1" ?cs "[demo_comment 5 2, demo_comment 8 2]"] now show ?thesis by simp
qed

theorem reraised_exactly_witness:
  "\<exists>out. compute_reraised_acks [demo_comment 3 1, demo_comment 8 1] [demo_comment 9 2, demo_comment 8 2] [] ''t'' = Inr out \<and>
     set (map fa_finding_id out) = {''RC-2''}"
proof -
  let ?prior = "[demo_comment 3 1, demo_comment 8 1]"
  have ids: "id_in (compute_finding_ids ?prior) (demo_comment 9 2) = None" "id_in (compute_finding_ids ?prior) (demo_comment 8 2) = Some ''RC-2''"
    by code_simp+
  have "\<forall>c \<in> set [demo_comment 9 2, demo_comment 8 2]. 0 \<le> rc_cycle c" by (simp add: demo_comment_def)
  from reraised_exactly [of "''t''", OF _ this, of ?prior "[]"] obtain out where
    out: "compute_reraised_acks ?prior [demo_comment 9 2, demo_comment 8 2] [] ''t'' = Inr out"
    "\<forall>fid. fid \<in> set (map fa_finding_id out) \<longleftrightarrow> (\<exists>c \<in> set [demo_comment 9 2, demo_comment 8 2]. id_in (compute_finding_ids ?prior) c = Some fid)"
    by auto
  then have "set (map fa_finding_id out) = {''RC-2''}" using ids by (intro set_eqI) auto
  with out show ?thesis by blast
qed

definition demo_phases :: "phase list" where
  "demo_phases = [\<lparr>ph_name = ''api'', ph_role = ''dev'', ph_automated_checks = [], ph_evaluator = None, ph_questions_to = [],
     ph_escalation_targets = [], ph_writes = [''*.py'']\<rparr>]"

theorem fix_bundle_complete_witness:
  "\<exists>f. build_fix_loop_bundle (\<lambda>_. None) demo_phases 1 0 [demo_comment 3 1] [demo_ack AckAddressed] = ([(f, [ack_to_dict (demo_ack AckAddressed)])], 0)"
proof -
  let ?out = "build_fix_loop_bundle (\<lambda>_. None) demo_phases 1 0 [demo_comment 3 1] [demo_ack AckAddressed]"
  have r: "blocked_route (\<lambda>_. False) (\<lambda>_. None) demo_phases 1 [demo_comment 3 1] = Some (0, ''writes-glob api'')" by code_simp
  have "in_scope_comments (\<lambda>_. False) (latest_blocking [demo_comment 3 1]) \<noteq> []" by code_simp
  note told = fix_bundle_complete [OF r this, of "[demo_ack AckAddressed]" "fst ?out" "snd ?out"]
  have one: "map (bf_finding_id \<circ> fst) (fst ?out) = [''RC-1'']" "snd ?out = 0" by code_simp+
  then obtain f h where b: "fst ?out = [(f, h)]" "bf_finding_id f = ''RC-1''" by (cases "fst ?out") auto
  with told have "h = map ack_to_dict (filter (\<lambda>a. fa_finding_id a = ''RC-1'') [demo_ack AckAddressed])" by simp
  then have "h = [ack_to_dict (demo_ack AckAddressed)]" by (simp add: demo_ack_def)
  with b one(2) show ?thesis by (metis prod.collapse)
qed

theorem views_agree_witness:
  "\<exists>f h. build_verify_bundle [demo_comment 3 1] [demo_ack AckDismissed] = Some [f] \<and> vf_status f = ''dismissed'' \<and>
     (vf_entry f, ''open'', h) \<in> set (get_findings_for_ticket [demo_comment 3 1] [demo_ack AckDismissed])"
proof -
  let ?acks = "[demo_ack AckDismissed]"
  define f where "f = verify_entry [demo_comment 3 1] ?acks ''RC-1''"
  have b: "build_verify_bundle [demo_comment 3 1] ?acks = Some [f]" unfolding f_def by code_simp
  have as: "acks_of ?acks (bf_finding_id (vf_entry f)) = ?acks" unfolding f_def by code_simp
  have "latest_by_cycle ?acks = demo_ack AckDismissed" by (simp add: latest_by_cycle_def)
  with views_agree [OF b, of f] as b show ?thesis by (auto simp: demo_ack_def)
qed

theorem confirmation_is_idempotent_witness:
  "\<exists>st'. mark_finding_resolved ''u1'' 5 [demo_comment 3 1] ''t'' ''RC-1'' ''sec'' 2 ''fixed'' (new_acks_store (\<lambda>xs. xs) []) = (Inr (JStr ''u1''), st') \<and>
     mark_finding_resolved ''u2'' 6 [demo_comment 3 1, demo_comment 8 2] ''t'' ''RC-1'' ''sec'' 2 ''yes'' st' = (Inr (JStr ''u1''), st')"
proof -
  let ?st = "new_acks_store (\<lambda>xs. xs) []"
  have known: "''RC-1'' \<in> set (map snd (compute_finding_ids [demo_comment 3 1]))" by code_simp
  have "fst (mark_finding_resolved ''u1'' 5 [demo_comment 3 1] ''t'' ''RC-1'' ''sec'' 2 ''fixed'' ?st) = Inr (JStr ''u1'')"
    unfolding mark_finding_resolved_def checked_ack_def eqTrueI [OF known] not_True_eq_False if_False
    by (simp add: max_ack_prose_def write_ack_def find_id_for_def find_docs_def new_ack_def ack_ok_def append_ack_def insert_doc_def insert_body_def
        append_line_def index_insert_def bucket_add_def doc_id_def dump_ack_def new_acks_store_def new_store_def acks_index_def
        empty_indexes_def jopt_def decimal_len.simps default_max_record_bytes_def dump_str_len_def dump_char_len_def Let_def)
  then obtain st' where st': "mark_finding_resolved ''u1'' 5 [demo_comment 3 1] ''t'' ''RC-1'' ''sec'' 2 ''fixed'' ?st = (Inr (JStr ''u1''), st')"
    by (metis prod.collapse)
  have "acks_inv ?st" using store_inv_empty [of "\<lambda>xs. xs" acks_index default_max_record_bytes] by (simp add: acks_inv_def new_acks_store_def new_store_def)
  moreover have "JStr ''u1'' \<notin> set (keys (st_docs ?st))" by (simp add: new_acks_store_def new_store_def)
  ultimately have "\<forall>fresh' now' ds text'. length text' \<le> max_ack_prose \<longrightarrow>
      mark_finding_resolved fresh' now' ([demo_comment 3 1] @ ds) ''t'' ''RC-1'' ''sec'' 2 text' st' = (Inr (JStr ''u1''), st')"
    using confirmation_is_idempotent [OF _ _ st'] by blast
  from spec [OF this, of "''u2''"] have "mark_finding_resolved ''u2'' 6 ([demo_comment 3 1] @ [demo_comment 8 2]) ''t'' ''RC-1'' ''sec'' 2 ''yes'' st' = (Inr (JStr ''u1''), st')"
    by (simp add: max_ack_prose_def)
  with st' show ?thesis by simp
qed

end
