(* ===== verification/PhaseProps.thy ===== *)
theory PhaseProps
  imports PhaseRules FixRouteProps FindingProps
begin

text \<open>
  The properties of the phase loop: that it ends, what it takes to pass a phase, and what it takes to
  get another round when there are none left.
\<close>

section \<open>The loop ends\<close>

abbreviation asks :: "round_input \<Rightarrow> bool" where
  "asks r \<equiv> ri_agent r = AgentEnded ''needs_info''"

lemma phases_end_within:
  "left_over (length (wf_phases flow)) (counters s) \<le> length (filter (\<lambda>r. \<not> asks r) rs) \<Longrightarrow>
     fst (run_phases lc flow i m rs s) \<noteq> Inr Unfinished"
proof (induction rs arbitrary: s)
  case Nil
  then have "length (wf_phases flow) \<le> tt_idx s" by (simp add: left_over_def counters_def)
  then show ?case
    by (auto simp: run_phases.simps [of _ _ _ _ "[]"] bind_act_def look_def raise_def ret_def split: option.split prod.split sum.split)
next
  case (Cons r rs)
  show ?case
  proof (cases "length (wf_phases flow) \<le> tt_idx s")
    case True
    then show ?thesis
      by (auto simp: run_phases.simps [of _ _ _ _ "_ # _"] bind_act_def look_def raise_def ret_def split: option.split prod.split sum.split)
  next
    case False
    obtain x s' where x: "phase_round lc flow i r s = (x, s')" by fastforce
    have "left_over (length (wf_phases flow)) (counters s') \<le> length (filter (\<lambda>r. \<not> asks r) rs)" if "x = Inr Again"
      using ctl_round [of s flow r lc i] round_no_loss [of s flow lc i r] Cons.prems False x that
      by (cases "asks r") (auto simp: progress_def no_loss_def)
    then have "x = Inr Again \<Longrightarrow> fst (run_phases lc flow i m rs s') \<noteq> Inr Unfinished" by (rule Cons.IH)
    then show ?thesis using False
      by (auto simp: run_phases.simps [of _ _ _ _ "_ # _"] bind_act_def look_def x ret_def split: sum.split round_end.split)
  qed
qed

text \<open>
  C24: The loop over the phases ends.  The number of rounds in which the agent does not end by asking for information
  is bounded by the length of the workflow, whatever the agents, the reviewers, the
  adjudicator and everybody else do, and wherever the rounds in which it asks come in between: a phase is sent back at
  most three times, and twice more when the adjudicator grants it.
\<close>
theorem phases_end:
  assumes "tt_fix s = (\<lambda>_. 0)" "tt_sa s = (\<lambda>_. 0)" "n = length (wf_phases flow)"
    and "5 * n * (n + 1) + n \<le> length (filter (\<lambda>r. ri_agent r \<noteq> AgentEnded ''needs_info'') rs)"
  shows "fst (run_phases lc flow i m rs s) \<noteq> Inr Unfinished"
proof (rule phases_end_within)
  show "left_over (length (wf_phases flow)) (counters s) \<le> length (filter (\<lambda>r. \<not> asks r) rs)"
    using left_over_start [of n "tt_idx s"] assms by (simp add: counters_def)
qed

section \<open>What it takes to pass a phase\<close>

lemma ctl_keep: "untouched m \<Longrightarrow> (\<And>x s. counters s = c \<Longrightarrow> Q x s) \<Longrightarrow> ctl c m Q"
  unfolding triple_def untouched_def by (auto split: prod.split sum.split) (metis snd_conv)+

lemma fail_stays: "ctl (idx, fx, sa) (fail_ticket lc i) (\<lambda>e s. tt_idx s \<le> idx)"
  by (rule ctl_keep [OF untouched_fail]) (simp add: counters_def)

lemma route_stays: "ctl (idx, fx, sa) (route_back lc flow i ph r idx) (\<lambda>e s. tt_idx s \<le> idx)"
proof (cases "blocked_route (lc_out lc) (lc_touched lc) (wf_phases flow) idx (ri_comments r)")
  case None
  then show ?thesis by (simp add: route_back_def fail_stays)
next
  case (Some x)
  obtain target reason where x: "x = (target, reason)" by (cases x)
  then have "target < idx" using Some blocked_route_before by simp
  then show ?thesis
    unfolding route_back_def Some x option.case prod.case
    by (intro ctl_untouched untouched ctl_set [where c' = "(target, fx, sa)" and c = "(idx, fx, sa)"]
        ctl_set [where c' = "(idx, fx, sa)" and c = "(idx, fx, sa)"] ctl_ret)
      (auto simp: counters_def)
qed

lemma blocked_stays: "ctl (idx, fx, sa) (blocked_phase lc flow i ph r idx) (\<lambda>e s. tt_idx s \<le> idx)"
  unfolding blocked_phase_def
proof (rule ctl_set [where c' = "(idx, fx(idx := fx idx + 1), sa)"])
  show "ctl (idx, fx(idx := fx idx + 1), sa) (bind_act (look (\<lambda>s. tt_fix s idx > max_fix_cycles)) (\<lambda>cap_tripped.
      bind_act (escalate lc i ph r idx cap_tripped) (\<lambda>e. case e of EscFail \<Rightarrow> fail_ticket lc i | EscRerun \<Rightarrow> ret Again
        | EscGranted \<Rightarrow> route_back lc flow i ph r idx
        | EscNone \<Rightarrow> if cap_tripped then fail_ticket lc i else route_back lc flow i ph r idx))) (\<lambda>e s. tt_idx s \<le> idx)"
  proof (rule ctl_look, rule triple_bind [OF ctl_escalate])
    fix s e
    let ?m = "\<lambda>cap. case e of EscFail \<Rightarrow> fail_ticket lc i | EscRerun \<Rightarrow> ret Again | EscGranted \<Rightarrow> route_back lc flow i ph r idx
        | EscNone \<Rightarrow> if cap then fail_ticket lc i else route_back lc flow i ph r idx"
    have stays: "ctl (idx, fx', sa') (?m cap) (\<lambda>e s. tt_idx s \<le> idx)" for fx' sa' cap
      by (cases e; simp only: escalation_end.case; intro triple_if fail_stays route_stays ctl_ret) (simp_all add: counters_def)
    show "triple (escalated_to idx (fx(idx := fx idx + 1)) sa e) (?m (tt_fix s idx > max_fix_cycles)) (\<lambda>e s. tt_idx s \<le> idx) (\<lambda>_. True)"
      by (cases "e = EscNone"; rule triple_weaken [OF stays]) (auto simp: escalated_to_def)
  qed
qed (simp add: counters_def)

definition committed :: "round_input \<Rightarrow> bool" where
  "committed r = (case ri_commit r of CommitDone _ _ \<Rightarrow> True | CommitFailed _ \<Rightarrow> False)"

definition work_accepted :: "loop_config \<Rightarrow> phase \<Rightarrow> round_input \<Rightarrow> string list \<Rightarrow> bool" where
  \<comment> \<open>the agent reported success; or the reviewers found nothing in scope that blocks and is not dismissed\<close>
  "work_accepted lc ph r gone =
    (if ph_role ph = ''review'' \<and> lc_federation lc then
       (case ri_review r of ReviewMisconfigured \<Rightarrow> False | ReviewCrashed \<Rightarrow> True
        | ReviewFound cs \<Rightarrow> list_all (\<lambda>c. blocks_review c \<longrightarrow> persistence_key c \<in> set gone) (in_scope_comments (lc_out lc) cs))
     else ri_agent r = AgentEnded ''success'')"

lemma commit_value:
  "ctl c (auto_commit lc i ph (ri_commit r)) (\<lambda>x s. counters s = c \<and> (x \<longrightarrow> committed r))"
  unfolding auto_commit_def
  by (cases "ri_commit r"; simp only: commit_end.case; intro ctl_untouched untouched ctl_ret) (simp_all add: committed_def)

lemma passed_commits: "ctl (idx, fx, sa) (passed_phase lc flow i ph r idx) (\<lambda>e s. e = Again \<longrightarrow> tt_idx s = Suc idx \<and> committed r)"
proof -
  have tail: "triple (\<lambda>s. counters s = (Suc idx, fx, sa) \<and> (x \<longrightarrow> committed r))
      (if \<not> x then fail_ticket lc i else bind_act (if b then reread_ticket lc i else ret ()) (\<lambda>_. ret Again))
      (\<lambda>e s. e = Again \<longrightarrow> tt_idx s = Suc idx \<and> committed r) (\<lambda>_. True)" for x b
  proof (cases "x \<and> committed r")
    case True
    have "ctl (Suc idx, fx, sa) (bind_act (if b then reread_ticket lc i else ret ()) (\<lambda>_. ret Again))
        (\<lambda>e s. e = Again \<longrightarrow> tt_idx s = Suc idx \<and> committed r)"
      by (intro ctl_untouched untouched ctl_ret) (use True in \<open>simp add: counters_def\<close>)
    with True show ?thesis by simp
  next
    case False
    have "ctl (Suc idx, fx, sa) (fail_ticket lc i) (\<lambda>e s. e = Again \<longrightarrow> tt_idx s = Suc idx \<and> committed r)"
      unfolding fail_ticket_def by (intro ctl_untouched ctl_look untouched triple_option triple_raise ctl_ret) simp_all
    with False show ?thesis by (cases x) (simp_all add: triple_def)
  qed
  show ?thesis
    unfolding passed_phase_def Let_def
    by (rule ctl_set [where c' = "(Suc idx, fx, sa)"])
      (simp add: counters_def, intro ctl_untouched untouched triple_bind [OF commit_value] tail)
qed

definition earned :: "loop_config \<Rightarrow> phase \<Rightarrow> round_input \<Rightarrow> string list \<Rightarrow> nat \<Rightarrow> ticket_task \<Rightarrow> bool" where
  "earned lc ph r gone idx s \<longleftrightarrow> tt_idx s \<le> idx \<or> tt_idx s = Suc idx \<and> committed r \<and> work_accepted lc ph r gone"

lemma settle_earned:
  assumes "status = ''success'' \<longrightarrow> work_accepted lc ph r gone"
  shows "ctl (idx, fx, sa) (settle_phase lc flow i ph r idx status) (\<lambda>e s. e = Again \<longrightarrow> earned lc ph r gone idx s)"
proof -
  have passed: "ctl (idx, fx, sa) (passed_phase lc flow i ph r idx) (\<lambda>e s. e = Again \<longrightarrow> earned lc ph r gone idx s)"
    if "status = ''success''"
    using assms that by (intro triple_weaken [OF passed_commits]) (simp_all add: earned_def)
  have stays: "ctl (idx, fx, sa) (fail_ticket lc i) (\<lambda>e s. e = Again \<longrightarrow> earned lc ph r gone idx s)"
    "ctl (idx, fx, sa) (blocked_phase lc flow i ph r idx) (\<lambda>e s. e = Again \<longrightarrow> earned lc ph r gone idx s)"
    by (rule triple_weaken [OF fail_stays], auto simp: earned_def) (rule triple_weaken [OF blocked_stays], auto simp: earned_def)
  show ?thesis
    unfolding settle_phase_def
    by (intro ctl_untouched untouched triple_if passed stays ctl_ret) (simp_all add: earned_def counters_def)
qed

abbreviation round_start :: "nat \<times> (nat \<Rightarrow> nat) \<times> (nat \<Rightarrow> nat) \<Rightarrow> string list \<Rightarrow> ticket_task \<Rightarrow> bool" where
  "round_start c gone s \<equiv> counters s = c \<and> tt_dismissed s = gone"

lemma agent_accepted:
  "triple (round_start c gone) (agent_phase lc flow i ph r idx)
     (\<lambda>res s. counters s = c \<and> (res = Some ''success'' \<longrightarrow> work_accepted lc ph r gone)) (\<lambda>_. True)"
proof -
  have scope: "(filter (\<lambda>c. persistence_key c \<notin> set ks) (in_scope_comments out (filter blocks_review cs)) = []) =
      list_all (\<lambda>c. blocks_review c \<longrightarrow> persistence_key c \<in> set ks) (in_scope_comments out cs)" for ks out cs
    by (auto simp: in_scope_comments_def filter_empty_conv list_all_iff)
  have review: "triple (round_start c gone) (review_phase lc i ph x)
      (\<lambda>res s. counters s = c \<and> (res = ''success'' \<longrightarrow> (case x of ReviewMisconfigured \<Rightarrow> False | ReviewCrashed \<Rightarrow> True
        | ReviewFound cs \<Rightarrow> list_all (\<lambda>c. blocks_review c \<longrightarrow> persistence_key c \<in> set gone) (in_scope_comments (lc_out lc) cs)))) (\<lambda>_. True)" for x
    unfolding review_phase_def Let_def
    by (cases x) (auto simp: triple_def file_notables_def attempt_def Let_def bind_act_def raise_def look_def others_def on_sched_def zoom_def
      modify_def ret_def counters_def scope split: prod.splits)
  have agent: "ctl c (case ri_agent r of AgentRaised \<Rightarrow>
        bind_act (on_sched (emit_phase_event (lc_sched lc) ''phase_complete'' i ph idx (length (wf_phases flow)) (Some ''failed'')))
          (\<lambda>_. bind_act (fail_ticket lc i) (\<lambda>_. ret None))
      | AgentEnded status \<Rightarrow> ret (Some status)) (\<lambda>res s. counters s = c \<and> (res = Some ''success'' \<longrightarrow> ri_agent r = AgentEnded ''success''))"
    by (cases "ri_agent r"; simp only: agent_end.case; intro ctl_untouched untouched ctl_ret) simp_all
  show ?thesis
  proof (cases "ph_role ph = ''review'' \<and> lc_federation lc")
    case True
    show ?thesis
      unfolding agent_phase_def others_def if_P [OF True]
      by (intro keep_sched triple_bind [OF review] triple_ret) (use True in \<open>simp_all add: counters_def work_accepted_def\<close>)
  next
    case False
    show ?thesis
      unfolding agent_phase_def others_def if_not_P [OF False]
      by (intro keep_sched triple_weaken [OF agent]) (use False in \<open>auto simp: counters_def work_accepted_def\<close>)
  qed
qed

lemma rest_earned:
  assumes "status = ''success'' \<longrightarrow> work_accepted lc ph r gone"
  shows "ctl (idx, fx, sa) (bind_act (set_task (\<lambda>s. s\<lparr>tt_result := Some status\<rparr>)) (\<lambda>_.
      bind_act (on_sched (emit_phase_event (lc_sched lc) ''phase_complete'' i ph idx (length (wf_phases flow)) (Some status))) (\<lambda>_.
      bind_act (if status = ''success'' then thread_gate lc flow i ph r else ret True) (\<lambda>go.
      if \<not> go then ret Waits else bind_act (look (\<lambda>s. the_default status (tt_result s))) (settle_phase lc flow i ph r idx)))))
    (\<lambda>e s. e = Again \<longrightarrow> earned lc ph r gone idx s)" (is "ctl ?c _ ?Q")
proof -
  have settle: "triple (status_is ?c status) (bind_act (look (\<lambda>s. the_default status (tt_result s))) (settle_phase lc flow i ph r idx)) ?Q (\<lambda>_. True)"
    by (rule triple_step [where R = "\<lambda>x. x \<in> {status, ''blocked''}" and P' = "\<lambda>s. counters s = ?c", OF _ settle_earned])
      (use assms in \<open>auto simp: look_def status_is_def\<close>)
  have gated: "triple (status_is ?c status) (if status = ''success'' then thread_gate lc flow i ph r else ret True) (\<lambda>_. status_is ?c status) (\<lambda>_. True)"
    by (intro triple_if gate_status triple_ret)
  have rest: "triple (status_is ?c status) (bind_act (on_sched (emit_phase_event (lc_sched lc) ''phase_complete'' i ph idx (length (wf_phases flow)) (Some status))) (\<lambda>_.
      bind_act (if status = ''success'' then thread_gate lc flow i ph r else ret True) (\<lambda>go.
      if \<not> go then ret Waits else bind_act (look (\<lambda>s. the_default status (tt_result s))) (settle_phase lc flow i ph r idx)))) ?Q (\<lambda>_. True)"
    by (intro keep_sched status_is_sched triple_bind [OF gated] triple_if settle triple_ret) simp_all
  from rest show ?thesis
    by (rule triple_step [where R = "\<lambda>_. True" and P' = "status_is ?c status", rotated])
      (simp add: set_task_def status_is_def counters_def)
qed

lemma body_earned:
  "triple (round_start (idx, fx, sa) gone) (phase_body lc flow i ph r idx) (\<lambda>e s. e = Again \<longrightarrow> earned lc ph r gone idx s) (\<lambda>_. True)"
    (is "triple _ _ ?Q _")
proof -
  have cond: "triple (\<lambda>s. counters s = (idx, fx, sa) \<and> (res = Some ''success'' \<longrightarrow> work_accepted lc ph r gone))
      (case res of None \<Rightarrow> ret Failed | Some status \<Rightarrow> bind_act (set_task (\<lambda>s. s\<lparr>tt_result := Some status\<rparr>)) (\<lambda>_.
      bind_act (on_sched (emit_phase_event (lc_sched lc) ''phase_complete'' i ph idx (length (wf_phases flow)) (Some status))) (\<lambda>_.
      bind_act (if status = ''success'' then thread_gate lc flow i ph r else ret True) (\<lambda>go.
      if \<not> go then ret Waits else bind_act (look (\<lambda>s. the_default status (tt_result s))) (settle_phase lc flow i ph r idx))))) ?Q (\<lambda>_. True)" for res
  proof (cases "res = Some ''success'' \<longrightarrow> work_accepted lc ph r gone")
    case True
    show ?thesis
    proof (cases res)
      case (Some status)
      have "status = ''success'' \<longrightarrow> work_accepted lc ph r gone" using True Some by simp
      from rest_earned [OF this] show ?thesis unfolding Some option.case by (rule triple_weaken) simp_all
    qed (simp add: triple_ret)
  qed (simp add: triple_def)
  show ?thesis
    unfolding phase_body_def
    by (intro keep_sched triple_bind [OF agent_accepted] cond) (simp_all add: counters_def)
qed

text \<open>
  C25: A ticket gets past a phase only one phase at a time, and only when the work of the phase was committed and
  accepted: the agent reported success, or, in a review by reviewers, no finding in scope
  blocks that is not bindingly dismissed.  (Reviewers that crash count as having found nothing.)
\<close>
theorem advance_is_earned:
  "case phase_round lc flow i r s of
     (Inr Again, s') \<Rightarrow> tt_idx s' \<le> tt_idx s \<or>
       tt_idx s' = Suc (tt_idx s) \<and> committed r \<and> work_accepted lc (wf_phases flow ! tt_idx s) r (tt_dismissed s)
   | _ \<Rightarrow> True"
proof -
  let ?ph = "wf_phases flow ! tt_idx s" and ?s = "s\<lparr>tt_result := None\<rparr>"
  obtain x s1 where x: "phase_body lc flow i ?ph r (tt_idx s) ?s = (x, s1)" by fastforce
  have start: "round_start (tt_idx s, tt_fix s, tt_sa s) (tt_dismissed s) ?s" by (simp add: counters_def)
  have body: "case x of Inl _ \<Rightarrow> True | Inr e \<Rightarrow> e = Again \<longrightarrow> earned lc ?ph r (tt_dismissed s) (tt_idx s) s1"
    using tripleD [OF body_earned start x] .
  have fin: "tt_idx (snd (phase_end lc i ?ph r s1)) = tt_idx s1"
    using untouched_end [of lc i ?ph r] unfolding untouched_def counters_def by blast
  show ?thesis
    using body fin unfolding phase_round_def
    by (auto simp: bind_act_def look_def set_task_def with_finally_def Let_def x earned_def split: sum.splits prod.splits round_end.splits)
qed

section \<open>The gate of the thread\<close>

lemma waited_clear:
  "wait_unblocked lc i ph fs x = (Inr True, x') \<Longrightarrow> has_unresolved_blocking (en_draws (lc_env lc)) i (w_threads (sd_world x')) = Inr []"
proof (induction fs arbitrary: x)
  case Nil
  then show ?case by (auto simp: bind_act_def open_blocking_def on_sd_world_def zoom_def ret_def split: sum.splits)
next
  case (Cons f fs)
  have step: "open_blocking lc i x = (has_unresolved_blocking (en_draws (lc_env lc)) i (w_threads (sd_world x)), x)"
    by (simp add: open_blocking_def on_sd_world_def zoom_def)
  show ?case
  proof (cases "has_unresolved_blocking (en_draws (lc_env lc)) i (w_threads (sd_world x)) = Inr []")
    case True
    with Cons.prems show ?thesis by (simp add: bind_act_def step ret_def)
  next
    case False
    then obtain y where "wait_unblocked lc i ph fs y = (Inr True, x')"
      using Cons.prems by (auto simp: bind_act_def step modify_def split: sum.splits prod.splits if_splits)
    then show ?thesis by (rule Cons.IH)
  qed
qed

text \<open>
  C22: When a phase that succeeded has got through the gate, no entry of the thread of its ticket is open and blocking;
  and the phase counts as a success only if its latest handoff has not been rejected, else as blocked.
\<close>
theorem gate_is_clear:
  assumes "thread_gate lc flow i ph r s = (Inr True, s')"
  shows "\<exists>es. has_unresolved_blocking (en_draws (lc_env lc)) i (w_threads (sd_world (tt_sched s'))) = Inr [] \<and>
    for_ticket (en_draws (lc_env lc)) i (w_threads (sd_world (tt_sched s'))) = Inr es \<and>
    tt_result s' = (if phase_handoff_rejected es (ph_name ph) then Some ''blocked'' else tt_result s)"
proof -
  obtain x sc where x: "run_handoff_gate_if_pending (lc_env lc) (lc_catalog lc) flow ph (ri_checks r) i (tt_sched s) = (Inr x, sc)"
    using assms by (auto simp: thread_gate_def bind_act_def on_sched_def zoom_def split: prod.splits sum.splits)
  obtain sd where sd: "wait_unblocked lc i ph (ri_waits r) sc = (Inr True, sd)"
    using assms by (auto simp: thread_gate_def bind_act_def on_sched_def zoom_def x ret_def split: prod.splits sum.splits if_splits)
  obtain es where "for_ticket (en_draws (lc_env lc)) i (w_threads (sd_world sd)) = Inr es" "sd_world (tt_sched s') = sd_world sd"
    "tt_result s' = (if phase_handoff_rejected es (ph_name ph) then Some ''blocked'' else tt_result s)"
    using assms by (auto simp: thread_gate_def bind_act_def on_sched_def zoom_def x sd ret_def set_task_def on_sd_world_def ticket_entries_def
        split: sum.splits if_splits)
  with waited_clear [OF sd] show ?thesis by auto
qed

section \<open>After the last round\<close>

lemma apply_verdicts_fail:
  "fst (apply_verdicts key vs ks a s) = Inr b \<Longrightarrow> ad_fail b \<longleftrightarrow> ad_fail a \<or> (\<exists>fid \<in> fst ` set ks. map_of vs fid = Some UpholdFail)"
proof (induction ks arbitrary: a s)
  case (Cons p ks)
  obtain fid k where p: "p = (fid, k)" by (cases p)
  show ?case
    using Cons.prems unfolding p
    by (cases "map_of vs fid"; cases "the (map_of vs fid)")
      (auto simp: bind_act_def set_task_def others_def on_sched_def zoom_def modify_def dest: Cons.IH)
qed (simp add: ret_def)

definition presented_keys :: "string \<times> string \<Rightarrow> round_input \<Rightarrow> bool \<Rightarrow> scheduler \<Rightarrow> string set" where
  \<comment> \<open>the findings of the ticket that persist, or were found by the last round when there are no rounds left\<close>
  "presented_keys key r cap s = {k \<in> persistence_key ` {c \<in> set (ri_comments r). blocks_review c}.
     k \<in> set (past_threshold (phase_counts key s)) \<or> cap \<and> k \<in> prev_keys key s}"

definition upheld :: "round_input \<Rightarrow> string set \<Rightarrow> bool" where
  \<comment> \<open>each key was presented under the name of a finding, and no recorded verdict fails the ticket\<close>
  "upheld r ks \<longleftrightarrow> ks \<noteq> {} \<and> (\<exists>m calls. snd ` set m = ks \<and> (\<forall>p \<in> set m. names_key (ri_comments r) p) \<and> ri_verdicts r = Some calls \<and>
     recorded_verdicts m calls \<noteq> [] \<and> UpholdFail \<notin> snd ` set (recorded_verdicts m calls))"

lemma recorded_verdicts_known:
  "distinct (keys (recorded_verdicts m calls)) \<and> fst ` set (recorded_verdicts m calls) \<subseteq> fst ` set m"
proof (induction calls rule: rev_induct)
  case (snoc call calls)
  obtain fid v where c: "call = (fid, v)" by (cases call)
  have "recorded_verdicts m (calls @ [call]) = snd (sa_adjudicate_finding m call (recorded_verdicts m calls))"
    by (simp add: recorded_verdicts_def)
  with snoc show ?case
    by (auto simp: c sa_adjudicate_finding_def distinct_update update_notin split: option.split)
qed (simp add: recorded_verdicts_def)

lemma adjudication_verdict:
  assumes "run_sa_adjudication key r (past_threshold (phase_counts key (tt_sched s))) cap s = (Inr a, s')" "\<not> ad_fail a"
  shows "upheld r (presented_keys key r cap (tt_sched s))"
proof -
  let ?keys = "set (past_threshold (phase_counts key (tt_sched s))) \<union> (if cap then prev_keys key (tt_sched s) else {})"
  define m where "m = presented_findings (ri_comments r) ?keys"
  have named: "\<forall>p \<in> set m. names_key (ri_comments r) p" and mem: "snd ` set m = presented_keys key r cap (tt_sched s)"
    using escalated_names [of "ri_comments r"] unfolding m_def presented_findings_def by (auto simp: presented_keys_def)
  have run: "run_sa_adjudication key r (past_threshold (phase_counts key (tt_sched s))) cap s =
      (if m = [] then ret fail_closed else (case ri_verdicts r of None \<Rightarrow> ret fail_closed
       | Some calls \<Rightarrow> if recorded_verdicts m calls = [] then ret fail_closed
           else apply_verdicts key (recorded_verdicts m calls) m \<lparr>ad_fail = False, ad_dismissed = [], ad_guidance = []\<rparr>)) s"
    unfolding run_sa_adjudication_def Let_def bind_act_def look_def prod.case sum.case m_def by (rule refl)
  obtain calls where calls: "m \<noteq> []" "ri_verdicts r = Some calls" "recorded_verdicts m calls \<noteq> []"
    and "apply_verdicts key (recorded_verdicts m calls) m \<lparr>ad_fail = False, ad_dismissed = [], ad_guidance = []\<rparr> s = (Inr a, s')"
    using assms unfolding run by (auto simp: ret_def fail_closed_def split: if_splits option.splits)
  then have "fst (apply_verdicts key (recorded_verdicts m calls) m \<lparr>ad_fail = False, ad_dismissed = [], ad_guidance = []\<rparr> s) = Inr a" by simp
  from apply_verdicts_fail [OF this] assms(2) have none: "\<forall>fid \<in> fst ` set m. map_of (recorded_verdicts m calls) fid \<noteq> Some UpholdFail" by simp
  have "UpholdFail \<notin> snd ` set (recorded_verdicts m calls)"
  proof
    assume "UpholdFail \<in> snd ` set (recorded_verdicts m calls)"
    then obtain fid where f: "(fid, UpholdFail) \<in> set (recorded_verdicts m calls)" by force
    then have "map_of (recorded_verdicts m calls) fid = Some UpholdFail" using recorded_verdicts_known [of m calls] by (intro map_of_is_SomeI) simp_all
    moreover have "fid \<in> fst ` set m" using f recorded_verdicts_known [of m calls] by force
    ultimately show False using none by blast
  qed
  moreover from calls(1) mem have "presented_keys key r cap (tt_sched s) \<noteq> {}" by auto
  ultimately show ?thesis unfolding upheld_def
    by (intro conjI exI [of _ m] exI [of _ calls]) (rule mem named calls | assumption)+
qed

lemma fail_ends: "fst (fail_ticket lc i s) \<noteq> Inr Again"
proof -
  have "triple (\<lambda>_. True) (fail_ticket lc i) (\<lambda>e _. e \<noteq> Again) (\<lambda>_. True)"
    unfolding fail_ticket_def
    by (rule triple_bind [where R = "\<lambda>_ _. True"] triple_option triple_raise triple_ret | simp add: triple_def split: sum.split)+
  from tripleD [OF this TrueI prod.collapse [symmetric], of s] show ?thesis by (auto split: sum.splits)
qed

text \<open>
  C26: A phase that was blocked more than three times, or in which findings persist, is given another round only
  by the adjudicator: it is a review that was adjudicated less than twice before, findings were
  presented, verdicts were recorded for some of them, and none of these fails the ticket.  An adjudicator that cannot be
  started or answers nothing never lets the ticket go on.
\<close>
theorem another_round_is_granted:
  assumes "fst (blocked_phase lc flow i ph r idx s) = Inr Again"
    and "max_fix_cycles \<le> tt_fix s idx \<or>
      ph_role ph = ''review'' \<and> tt_sa s idx < max_sa_escalations \<and> past_threshold (phase_counts (i, ph_name ph) (tt_sched s)) \<noteq> []"
  shows "ph_role ph = ''review'' \<and> tt_sa s idx < max_sa_escalations \<and>
    upheld r (presented_keys (i, ph_name ph) r (max_fix_cycles \<le> tt_fix s idx) (tt_sched s))"
proof -
  let ?key = "(i, ph_name ph)" and ?cap = "max_fix_cycles \<le> tt_fix s idx"
  let ?s = "s\<lparr>tt_fix := (tt_fix s)(idx := tt_fix s idx + 1)\<rparr>"
  have cap: "(tt_fix ?s idx > max_fix_cycles) = ?cap" by auto
  have out: "blocked_phase lc flow i ph r idx s = (case escalate lc i ph r idx ?cap ?s of
      (Inl e, s') \<Rightarrow> (Inl e, s')
    | (Inr e, s') \<Rightarrow> (case e of EscFail \<Rightarrow> fail_ticket lc i | EscRerun \<Rightarrow> ret Again | EscGranted \<Rightarrow> route_back lc flow i ph r idx
        | EscNone \<Rightarrow> if ?cap then fail_ticket lc i else route_back lc flow i ph r idx) s')"
    unfolding blocked_phase_def bind_act_def look_def set_task_def prod.case sum.case cap by (rule refl)
  obtain e s' where e: "escalate lc i ph r idx ?cap ?s = (Inr e, s')" "e \<noteq> EscFail" "\<not> (e = EscNone \<and> ?cap)"
    using assms(1) fail_ends [of lc i] unfolding out by (auto split: prod.splits sum.splits escalation_end.splits if_splits)
  let ?may = "(?cap \<or> past_threshold (phase_counts ?key (tt_sched s)) \<noteq> []) \<and> ph_role ph = ''review'' \<and> tt_sa s idx < max_sa_escalations"
  have may: ?may
  proof (rule ccontr)
    assume no: "\<not> ?may"
    then have "e = EscNone" using e(1) by (auto simp: escalate_def bind_act_def look_def ret_def split: if_splits)
    with e(3) assms(2) no show False by auto
  qed
  let ?t = "?s\<lparr>tt_sa := (tt_sa ?s)(idx := tt_sa s idx + 1)\<rparr>"
  obtain a s2 where a: "run_sa_adjudication ?key r (past_threshold (phase_counts ?key (tt_sched s))) ?cap ?t = (Inr a, s2)" "\<not> ad_fail a"
    using e(1,2) may
    by (auto simp: escalate_def bind_act_def look_def set_task_def ret_def split: if_splits prod.splits sum.splits)
  have same: "tt_sched ?t = tt_sched s" by simp
  from adjudication_verdict [of ?key r ?t ?cap a s2] a may show ?thesis unfolding same by simp
qed

section \<open>Witnesses of the loop\<close>

definition demo_task :: "nat \<Rightarrow> ticket_task" where
  "demo_task rounds = \<lparr>tt_sched = \<lparr>sd_world = small_world, sd_running = [''t''], sd_live = [''t''], sd_events = [], sd_analytics = [],
     sd_analyses = 0, sd_terminal = {}, sd_stuck_since = None, sd_stuck_for = None, sd_survival = [],
     sd_prev_keys = [((''t'', ''check''), {''sec|bug|a.py''})], sd_results = small_store results_index, sd_draws = 0\<rparr>,
     tt_ticket = None, tt_idx = 2, tt_fix = (\<lambda>_. rounds), tt_sa = (\<lambda>_. 0), tt_cycle = 0, tt_result = None, tt_dismissed = []\<rparr>"

theorem phases_end_witness:
  "fst (run_phases demo_loop demo_flow ''t'' NoProject
     ((demo_round [])\<lparr>ri_agent := AgentEnded ''needs_info''\<rparr> # replicate 63 (demo_round [demo_finding])) (demo_task 0)) \<noteq> Inr Unfinished"
  by (rule phases_end [where n = 3]) (simp_all add: demo_task_def demo_round_def demo_flow_def)

theorem another_round_is_granted_witness:
  "fst (blocked_phase demo_loop demo_flow ''t'' (wf_phases demo_flow ! 2) (demo_round [demo_finding]) 2 (demo_task 3)) = Inr Again \<and>
   upheld (demo_round [demo_finding])
     (presented_keys (''t'', ''check'') (demo_round [demo_finding]) True (tt_sched (demo_task 3)))"
proof -
  have ph: "wf_phases demo_flow ! 2 = demo_phase ''check'' ''review'' []" by (simp add: demo_flow_def)
  have "ticket_map (w_tickets small_world) ''t'' = None"
    by (simp add: ticket_map_def models_def small_world_def small_store_def new_store_def)
  then have "ticket_get cx ''t'' (w_tickets small_world) = Inr None" for cx
    using ticket_get_refines [OF small_tickets_inv] by simp
  moreover have p: "presented_findings [demo_finding] {''sec|bug|a.py''} = [(''RC-1'', ''sec|bug|a.py'')]"
    "recorded_verdicts [(''RC-1'', ''sec|bug|a.py'')] [(''RC-1'', ''dismissed'')] = [(''RC-1'', Dismissed)]" by code_simp+
  ultimately have go: "fst (blocked_phase demo_loop demo_flow ''t'' (wf_phases demo_flow ! 2) (demo_round [demo_finding]) 2 (demo_task 3)) = Inr Again"
    unfolding ph
    by (simp add: blocked_phase_def escalate_def run_sa_adjudication_def demo_task_def demo_round_def demo_phase_def
        bind_act_def set_task_def look_def ret_def others_def on_sched_def zoom_def modify_def Let_def max_fix_cycles_def max_sa_escalations_def
        prev_keys_def phase_counts_def past_threshold_def reread_ticket_def on_sd_world_def get_ticket_def set_counts_def)
  have "max_fix_cycles \<le> tt_fix (demo_task 3) 2" by (simp add: max_fix_cycles_def demo_task_def)
  with another_round_is_granted [OF go] go show ?thesis unfolding ph by (simp add: demo_phase_def)
qed

theorem gate_is_clear_witness:
  "\<exists>s'. thread_gate demo_loop demo_flow ''t'' (demo_phase ''api'' ''dev'' []) (demo_round []) (demo_task 0) = (Inr True, s') \<and>
     has_unresolved_blocking (en_draws (lc_env demo_loop)) ''t'' (w_threads (sd_world (tt_sched s'))) = Inr []"
proof -
  have inv: "thread_inv (w_threads small_world)" "tmap small_world = Map.empty"
    by (simp_all add: small_world_def small_store_def model_inv_empty thread_map_def)
  have es: "for_ticket cx ''t'' (w_threads small_world) = Inr []" for cx
    by (rule for_ticket_refines [OF inv(1), of cx "''t''"]) (use inv(2) in simp)
  then have "has_unresolved_blocking cx ''t'' (w_threads small_world) = Inr []" for cx by (simp add: has_unresolved_blocking_def)
  with es obtain s' where "thread_gate demo_loop demo_flow ''t'' (demo_phase ''api'' ''dev'' []) (demo_round []) (demo_task 0) = (Inr True, s')"
    by (simp add: thread_gate_def bind_act_def on_sched_def zoom_def run_handoff_gate_if_pending_def on_sd_world_def ticket_entries_def demo_task_def
        pending_handoff_of_def ret_def demo_round_def open_blocking_def phase_handoff_rejected_def)
  with gate_is_clear [OF this] show ?thesis by blast
qed

end
