(* ===== verification/NotableProps.thy ===== *)
theory NotableProps
  imports Notables SchedulerProps FindingProps
begin

text \<open>Notable findings are filed once, over any number of reviews and whatever fails in between.\<close>

definition issues_for :: "(string \<Rightarrow> ticket option) \<Rightarrow> string \<Rightarrow> string \<Rightarrow> string set" where
  \<comment> \<open>the tickets that were filed for a ticket under a label\<close>
  "issues_for m i l = {j. \<exists>t. m j = Some t \<and> l \<in> set (filed_labels i t)}"

abbreviation sched_tickets :: "scheduler \<Rightarrow> string \<Rightarrow> ticket option" where
  "sched_tickets s \<equiv> kmap (sd_world s)"

abbreviation tickets_ok :: "scheduler \<Rightarrow> bool" where
  "tickets_ok s \<equiv> ticket_inv (ts_coll (w_tickets (sd_world s)))"

lemma proposed_only: "''proposed'' = show_status x \<longleftrightarrow> x = StProposed"
  by (cases x) simp_all

lemma notable_ticket_fields:
  assumes "notable_ticket en n i label c = Some t"
  shows "tk_parent_id t = Some i" "tk_labels t = [''review-notable'', label]" "tk_status t = StProposed" "tk_key t = []" "ticket_valid t"
proof -
  show "ticket_valid t" using assms unfolding notable_ticket_def by (rule validate_ticket_valid)
  show "tk_parent_id t = Some i" "tk_labels t = [''review-notable'', label]" "tk_status t = StProposed" "tk_key t = []"
    using assms by (auto simp: notable_ticket_def validate_ticket_Some migrate_legacy_fields_def read_ticket_def fld_opt_def fld_strs_def jstrs_def
      fld_status_def fld_str_or_def read_status_of proposed_only split: Option.bind_splits option.splits)
qed

lemma sig_label [simp]: "starts_with (notable_sig_label dg x) ''sig:''" "\<not> starts_with ''review-notable'' ''sig:''"
  by (simp_all add: notable_sig_label_def starts_with_def)

lemma created:
  assumes inv: "ticket_inv (ts_coll (w_tickets w))" and ok: "ticket_valid t"
  obtains (refused) e w' where "create_ticket t w = (Inl e, w')" "kmap w' = kmap w" "ticket_inv (ts_coll (w_tickets w'))"
  | (stored) w' t' where "create_ticket t w = (Inr (tk_id t), w')" "kmap w (tk_id t) = None" "kmap w' = (kmap w)(tk_id t \<mapsto> t')"
      "tk_parent_id t' = tk_parent_id t" "tk_labels t' = tk_labels t" "tk_status t' = tk_status t" "ticket_inv (ts_coll (w_tickets w'))"
proof (rule create_refines [OF inv ok, of "[]" True])
  fix e assume e: "ticket_create [] t True (w_tickets w) = (Inl e, (w_tickets w)\<lparr>ts_seq := ts_seq (snd (ticket_create [] t True (w_tickets w)))\<rparr>)"
  then obtain q where "ticket_create [] t True (w_tickets w) = (Inl e, (w_tickets w)\<lparr>ts_seq := q\<rparr>)" by blast
  then have "create_ticket t w = (Inl e, w\<lparr>w_tickets := (w_tickets w)\<lparr>ts_seq := q\<rparr>\<rparr>)" by (simp add: create_ticket_def)
  then show thesis by (rule refused) (use inv in \<open>simp_all add: ticket_map_def fun_eq_iff\<close>)
next
  fix st' t' assume a: "ticket_create [] t True (w_tickets w) = (Inr (JStr (tk_id t)), st')" "ticket_inv (ts_coll st')"
    "t' = (if tk_key t = [] then t\<lparr>tk_key := issue_key (read_seq (w_tickets w) + 1)\<rparr> else t)"
    "ticket_map (w_tickets w) (tk_id t) = None" "ticket_map st' = (ticket_map (w_tickets w))(tk_id t \<mapsto> t')"
  show thesis
    by (rule stored [of "w\<lparr>w_tickets := st'\<rparr>" t']) (use a in \<open>simp_all add: create_ticket_def\<close>)
qed

definition filed_once :: "string \<Rightarrow> (string \<Rightarrow> ticket option) \<Rightarrow> (string \<Rightarrow> ticket option) \<Rightarrow> bool" where
  \<comment> \<open>what filing may change: new proposed tickets, and no second one for a label\<close>
  "filed_once i m m' \<longleftrightarrow> (\<forall>j t. m j = Some t \<longrightarrow> m' j = Some t) \<and>
     (\<forall>j t. m j = None \<longrightarrow> m' j = Some t \<longrightarrow> tk_status t = StProposed \<and> tk_parent_id t = Some i) \<and>
     (\<forall>l. starts_with l ''sig:'' \<longrightarrow> (if issues_for m i l \<noteq> {} then issues_for m' i l = issues_for m i l else \<exists>j. issues_for m' i l \<subseteq> {j}))"

lemma filed_once_refl: "filed_once i m m"
  by (auto simp: filed_once_def)

lemma filed_once_step:
  assumes "m j = None" "tk_parent_id t = Some i" "tk_labels t = [''review-notable'', l]" "tk_status t = StProposed"
    and "starts_with l ''sig:''" "issues_for m i l = {}" "filed_once i (m(j \<mapsto> t)) m'"
  shows "filed_once i m m'" "issues_for m' i l \<noteq> {}"
    "starts_with l' ''sig:'' \<Longrightarrow> issues_for (m(j \<mapsto> t)) i l' = (if l' = l then {j} else issues_for m i l')"
proof -
  have labels: "filed_labels i t = [l]" using assms(2-5) by (simp add: filed_labels_def)
  have new: "issues_for (m(j \<mapsto> t)) i l' = (if l' = l then {j} else issues_for m i l')" if "starts_with l' ''sig:''" for l'
    using assms(1,6) labels by (auto simp: issues_for_def)
  then show "starts_with l' ''sig:'' \<Longrightarrow> issues_for (m(j \<mapsto> t)) i l' = (if l' = l then {j} else issues_for m i l')" .
  have step: "\<forall>l. starts_with l ''sig:'' \<longrightarrow> (if issues_for (m(j \<mapsto> t)) i l \<noteq> {} then issues_for m' i l = issues_for (m(j \<mapsto> t)) i l else \<exists>j. issues_for m' i l \<subseteq> {j})"
    using assms(7) by (simp add: filed_once_def)
  show "issues_for m' i l \<noteq> {}" using spec [OF step, of l] new [OF assms(5)] assms(5) by simp
  have "if issues_for m i x \<noteq> {} then issues_for m' i x = issues_for m i x else \<exists>j. issues_for m' i x \<subseteq> {j}" if "starts_with x ''sig:''" for x
    using spec [OF step, of x] new [OF that] that assms(6) by (cases "x = l") auto
  moreover have "m' x = Some u" if "m x = Some u" for x u
    using assms(1,7) that unfolding filed_once_def by (metis fun_upd_apply option.distinct(1))
  moreover have "tk_status u = StProposed \<and> tk_parent_id u = Some i" if "m x = None" "m' x = Some u" for x u
    using assms(2,4,7) that unfolding filed_once_def by (metis fun_upd_apply option.inject)
  ultimately show "filed_once i m m'" unfolding filed_once_def by blast
qed

lemma file_each_effect:
  assumes "tickets_ok s" "\<forall>l. starts_with l ''sig:'' \<longrightarrow> l \<in> seen \<longleftrightarrow> issues_for (sched_tickets s) i l \<noteq> {}"
    and "file_each en dg i cs seen n s = (r, s')"
  shows "tickets_ok s' \<and> filed_once i (sched_tickets s) (sched_tickets s') \<and>
    (is_ok r \<longrightarrow> (\<forall>c \<in> set cs. issues_for (sched_tickets s') i (notable_sig_label dg (signature_of c)) \<noteq> {}))"
  using assms
proof (induction cs arbitrary: seen n s)
  case Nil
  then show ?case by (auto simp: ret_def filed_once_refl)
next
  case (Cons c cs)
  let ?l = "notable_sig_label dg (signature_of c)"
  show ?case
  proof (cases "?l \<in> seen")
    case True
    then have rec: "file_each en dg i cs seen n s = (r, s')" using Cons.prems(3) by simp
    from True Cons.prems(2) have "issues_for (sched_tickets s) i ?l \<noteq> {}" by simp
    with Cons.IH [OF Cons.prems(1,2) rec] show ?thesis by (auto simp: filed_once_def split: if_splits)
  next
    case False
    then have empty: "issues_for (sched_tickets s) i ?l = {}" using Cons.prems(2) by simp
    let ?s1 = "s\<lparr>sd_draws := sd_draws s + 1\<rparr>"
    show ?thesis
    proof (cases "notable_ticket en (sd_draws s) i ?l c")
      case None
      with Cons.prems(1,3) False show ?thesis by (auto simp: draw_def bind_act_def raise_def filed_once_refl Let_def)
    next
      case (Some t)
      note t = notable_ticket_fields [OF Some]
      have run: "(case create_ticket t (sd_world s) of
          (Inl e, w) \<Rightarrow> (Inl e, ?s1\<lparr>sd_world := w\<rparr>)
        | (Inr x, w) \<Rightarrow> file_each en dg i cs (insert ?l seen) (n + 1) (?s1\<lparr>sd_world := w\<rparr>)) = (r, s')"
        using Cons.prems(3) False Some
        by (simp add: draw_def bind_act_def on_sd_world_def zoom_def Let_def split: prod.split sum.split prod.split_asm sum.split_asm)
      from Cons.prems(1) t(5) show ?thesis
      proof (cases rule: created)
        case (refused e w')
        with run have "r = Inl e" "s' = ?s1\<lparr>sd_world := w'\<rparr>" by simp_all
        with refused show ?thesis by (simp add: filed_once_refl)
      next
        case (stored w' t')
        let ?s2 = "?s1\<lparr>sd_world := w'\<rparr>"
        from run stored(1) have rec: "file_each en dg i cs (insert ?l seen) (n + 1) ?s2 = (r, s')" by simp
        have t': "tk_parent_id t' = Some i" "tk_labels t' = [''review-notable'', ?l]" "tk_status t' = StProposed"
          using stored t by simp_all
        have m: "sched_tickets ?s2 = (sched_tickets s)(tk_id t \<mapsto> t')" using stored by simp
        note step = filed_once_step [OF stored(2) t' sig_label(1) empty]
        have "\<forall>l. starts_with l ''sig:'' \<longrightarrow> l \<in> insert ?l seen \<longleftrightarrow> issues_for (sched_tickets ?s2) i l \<noteq> {}"
          unfolding m using step(3) [OF filed_once_refl] Cons.prems(2) by simp
        with Cons.IH [OF _ _ rec] stored(7) have ih: "tickets_ok s' \<and> filed_once i (sched_tickets ?s2) (sched_tickets s') \<and>
          (is_ok r \<longrightarrow> (\<forall>c \<in> set cs. issues_for (sched_tickets s') i (notable_sig_label dg (signature_of c)) \<noteq> {}))" by simp
        then have "filed_once i ((sched_tickets s)(tk_id t \<mapsto> t')) (sched_tickets s')" unfolding m by blast
        from step(1,2) [OF this] ih show ?thesis by simp
      qed
    qed
  qed
qed

lemma file_each_again:
  "\<forall>c \<in> set cs. notable_sig_label dg (signature_of c) \<in> seen \<Longrightarrow> file_each en dg i cs seen n s = (Inr n, s)"
  by (induction cs) (simp_all add: ret_def)

lemma seen_labels:
  assumes "set ts = ran m" "starts_with l ''sig:''"
  shows "l \<in> set (concat (map (filed_labels i) ts)) \<longleftrightarrow> issues_for m i l \<noteq> {}"
  using assms by (auto simp: issues_for_def ran_def)

text \<open>
  C33: Filing the notable findings of a review only adds proposed tickets under the reviewed one, never a
  second one for a finding that was filed, whether or not it ends with an exception.  When it returns, each
  finding in scope has a ticket, and filing the same findings again, in another process too, files none.
\<close>
theorem notables_filed_once:
  assumes "tickets_ok s" "file_notable_issues en out dg i cs s = (r, s')"
  shows "tickets_ok s' \<and> filed_once i (sched_tickets s) (sched_tickets s') \<and>
    (is_ok r \<longrightarrow> (\<forall>c \<in> set (in_scope_comments out cs). issues_for (sched_tickets s') i (notable_sig_label dg (signature_of c)) \<noteq> {}) \<and>
       (\<forall>en'. file_notable_issues en' out dg i cs s' = (Inr 0, s')))"
proof (cases "in_scope_comments out cs = []")
  case True
  with assms show ?thesis by (auto simp: file_notable_issues_def ret_def filed_once_refl)
next
  case False
  let ?cs = "in_scope_comments out cs"
  have run: "file_notable_issues e out dg i cs x = file_each e dg i ?cs (set (concat (map (filed_labels i) ts))) 0 x"
    if "list_tickets e (sd_world x) = (Inr ts, sd_world x)" for e x ts
    using that False by (simp add: file_notable_issues_def bind_act_def on_sd_world_def zoom_def)
  obtain ts where ts: "list_tickets en (sd_world s) = (Inr ts, sd_world s)" "set ts = ran (sched_tickets s)"
    by (rule listed_tickets [OF assms(1)])
  from assms(2) run [OF ts(1)] have each: "file_each en dg i ?cs (set (concat (map (filed_labels i) ts))) 0 s = (r, s')" by simp
  have "\<forall>l. starts_with l ''sig:'' \<longrightarrow> l \<in> set (concat (map (filed_labels i) ts)) \<longleftrightarrow> issues_for (sched_tickets s) i l \<noteq> {}"
    using seen_labels [OF ts(2)] by blast
  note effect = file_each_effect [OF assms(1) this each]
  have "file_notable_issues en' out dg i cs s' = (Inr 0, s')" if ok: "is_ok r" for en'
  proof -
    obtain ts' where ts': "list_tickets en' (sd_world s') = (Inr ts', sd_world s')" "set ts' = ran (sched_tickets s')"
      using listed_tickets effect by blast
    have "\<forall>c \<in> set ?cs. notable_sig_label dg (signature_of c) \<in> set (concat (map (filed_labels i) ts'))"
      using effect ok seen_labels [OF ts'(2) sig_label(1)] by blast
    then show ?thesis unfolding run [OF ts'(1)] by (rule file_each_again)
  qed
  with effect show ?thesis by blast
qed

definition demo_notable :: review_comment where
  "demo_notable = (demo_comment 3 1)\<lparr>rc_severity := Notable\<rparr>"

definition demo_reviewed :: scheduler where
  "demo_reviewed = (let s = demo_scheduler StOpen StOpen []; w = sd_world s; c = ts_coll (w_tickets w) in
     s\<lparr>sd_world := w\<lparr>w_tickets := (w_tickets w)\<lparr>ts_coll := c\<lparr>st_max_record_bytes := 10000\<rparr>\<rparr>\<rparr>\<rparr>)"

lemma max_bytes_inv: "ticket_inv (c\<lparr>st_max_record_bytes := n\<rparr>) \<longleftrightarrow> ticket_inv c"
  by (simp add: ticket_inv_def coll_inv_def store_inv_def)

lemma demo_notables_run:
  "case file_notable_issues (named_env CHR ''w'') (\<lambda>_. False) (\<lambda>_. ''0'') ''u'' [demo_notable] demo_reviewed of
     (Inl _, _) \<Rightarrow> False | (Inr n, _) \<Rightarrow> n = 1"
  by code_simp

theorem notables_filed_once_witness:
  "\<exists>s'. file_notable_issues (named_env CHR ''w'') (\<lambda>_. False) (\<lambda>_. ''0'') ''u'' [demo_notable] demo_reviewed = (Inr 1, s') \<and>
     file_notable_issues (named_env CHR ''x'') (\<lambda>_. False) (\<lambda>_. ''0'') ''u'' [demo_notable] s' = (Inr 0, s')"
proof -
  let ?s = "demo_reviewed"
  obtain s' where run: "file_notable_issues (named_env CHR ''w'') (\<lambda>_. False) (\<lambda>_. ''0'') ''u'' [demo_notable] ?s = (Inr 1, s')"
    using demo_notables_run by (auto split: prod.splits sum.splits)
  have "tickets_ok ?s" using demo_jobs_inv by (simp add: demo_reviewed_def demo_scheduler_def max_bytes_inv Let_def)
  from notables_filed_once [OF this run] run show ?thesis by simp
qed

end
