(* ===== verification/StallDetector.thy ===== *)
theory StallDetector
  imports PyText "HOL-Library.List_Lexorder" "HOL-Library.Char_ord"
begin

text \<open>
  Stalled agents: \<open>jig/stall_detector.py\<close> and the parts of \<open>jig/orchestrator.py\<close> that feed it
  (\<open>_run_agent_with_analytics\<close>, \<open>_on_ticket_status_change\<close>), ask it (\<open>_run_stall_loop\<close>) and
  show it (\<open>list_active_agents\<close>).  Times are whole microseconds of the monotonic clock; the
  thresholds are given in the same unit.
\<close>

section \<open>The detector\<close>

datatype stall_signal = HeartbeatGap | WallTime | UnansweredNeedsInfo

record stall_thresholds =
  heartbeat_gap :: int
  agent_wall_time :: int
  unanswered_needs_info :: int
  poll_interval :: int
  cooldown :: int

definition default_thresholds :: stall_thresholds where
  "default_thresholds = \<lparr>heartbeat_gap = 90000000, agent_wall_time = 1800000000, unanswered_needs_info = 1800000000,
     poll_interval = 10000000, cooldown = 120000000\<rparr>"

record stall_verdict =
  sv_signal :: stall_signal
  sv_since :: int
  sv_detail :: string

record stall_detector =
  dt_thresholds :: stall_thresholds
  last_heartbeat_at :: "int option"
  in_flight_agents :: "(string \<times> int) list"
  needs_info_since :: "(string \<times> int) list"

definition new_detector :: "stall_thresholds \<Rightarrow> stall_detector" where
  "new_detector t = \<lparr>dt_thresholds = t, last_heartbeat_at = None, in_flight_agents = [], needs_info_since = []\<rparr>"

definition first_seen :: "string \<Rightarrow> int \<Rightarrow> (string \<times> int) list \<Rightarrow> (string \<times> int) list" where
  \<comment> \<open>\<open>d.setdefault(k, now)\<close>\<close>
  "first_seen k now d = (if k \<in> set (map fst d) then d else AList.update k now d)"

definition record_heartbeat :: "string \<Rightarrow> int \<Rightarrow> stall_detector \<Rightarrow> stall_detector" where
  "record_heartbeat k now d = d\<lparr>last_heartbeat_at := Some now, in_flight_agents := first_seen k now (in_flight_agents d)\<rparr>"

definition record_agent_start :: "string \<Rightarrow> int \<Rightarrow> stall_detector \<Rightarrow> stall_detector" where
  "record_agent_start k now d = d\<lparr>in_flight_agents := first_seen k now (in_flight_agents d), last_heartbeat_at := Some now\<rparr>"

definition record_agent_done :: "string \<Rightarrow> stall_detector \<Rightarrow> stall_detector" where
  "record_agent_done k d = d\<lparr>in_flight_agents := AList.delete k (in_flight_agents d)\<rparr>"

definition record_needs_info :: "string \<Rightarrow> int \<Rightarrow> stall_detector \<Rightarrow> stall_detector" where
  "record_needs_info i now d = d\<lparr>needs_info_since := first_seen i now (needs_info_since d)\<rparr>"

definition clear_needs_info :: "string \<Rightarrow> stall_detector \<Rightarrow> stall_detector" where
  "clear_needs_info i d = d\<lparr>needs_info_since := AList.delete i (needs_info_since d)\<rparr>"

definition whole_seconds :: "int \<Rightarrow> string" where
  \<comment> \<open>\<open>:.0f\<close>, half to even\<close>
  "whole_seconds us = (let q = us div 1000000; r = us mod 1000000
     in show_int (if 2 * r < 1000000 \<or> 2 * r = 1000000 \<and> even q then q else q + 1))"

definition gap_verdict :: "int \<Rightarrow> stall_detector \<Rightarrow> stall_verdict option" where
  "gap_verdict now d = (case last_heartbeat_at d of
     None \<Rightarrow> None
   | Some at \<Rightarrow> (if in_flight_agents d \<noteq> [] \<and> now - at > heartbeat_gap (dt_thresholds d)
       then Some \<lparr>sv_signal = HeartbeatGap, sv_since = now - at, sv_detail = ''no heartbeat for '' @ whole_seconds (now - at) @
         ''s; in-flight: '' @ join_with '', '' (sort (map fst (in_flight_agents d)))\<rparr>
       else None))"

definition check_stall :: "int \<Rightarrow> stall_detector \<Rightarrow> stall_verdict option" where
  "check_stall now d = (case gap_verdict now d of
     Some v \<Rightarrow> Some v
   | None \<Rightarrow> (case List.find (\<lambda>(_, at). now - at > agent_wall_time (dt_thresholds d)) (in_flight_agents d) of
       Some (role, at) \<Rightarrow> Some \<lparr>sv_signal = WallTime, sv_since = now - at,
         sv_detail = role @ '' has been running '' @ whole_seconds (now - at) @ ''s''\<rparr>
     | None \<Rightarrow> (case List.find (\<lambda>(_, at). now - at > unanswered_needs_info (dt_thresholds d)) (needs_info_since d) of
         Some (i, at) \<Rightarrow> Some \<lparr>sv_signal = UnansweredNeedsInfo, sv_since = now - at,
           sv_detail = ''ticket '' @ take 8 i @ '' in needs_info for '' @ whole_seconds (now - at) @ ''s''\<rparr>
       | None \<Rightarrow> None)))"

section \<open>What feeds it\<close>

datatype stall_event = AgentStarts string string | AgentThinks string string | AgentFinishes string string | StatusChanges string string

definition agent_key :: "string \<Rightarrow> string \<Rightarrow> string" where
  "agent_key ticket role = ticket @ '':'' @ role"

definition on_status_change :: "string \<Rightarrow> string \<Rightarrow> int \<Rightarrow> stall_detector \<Rightarrow> stall_detector" where
  "on_status_change i to now d = (if to = ''needs_info'' then record_needs_info i now d else clear_needs_info i d)"

fun stall_event_step :: "int \<times> stall_event \<Rightarrow> stall_detector \<Rightarrow> stall_detector" where
  "stall_event_step (now, AgentStarts i r) d = record_agent_start (agent_key i r) now d"
| "stall_event_step (now, AgentThinks i r) d = record_heartbeat (agent_key i r) now d"
| "stall_event_step (now, AgentFinishes i r) d = record_agent_done (agent_key i r) d"
| "stall_event_step (now, StatusChanges i to) d = on_status_change i to now d"

definition watched :: "stall_thresholds \<Rightarrow> (int \<times> stall_event) list \<Rightarrow> stall_detector" where
  \<comment> \<open>the detector after the events\<close>
  "watched t es = fold stall_event_step es (new_detector t)"

definition list_active_agents :: "int \<Rightarrow> stall_detector \<Rightarrow> (string \<times> string \<times> int) list" where
  \<comment> \<open>ticket, role and whole seconds; the key is split at its first colon\<close>
  "list_active_agents now d = map (\<lambda>(k, at). (takeWhile (\<lambda>c. c \<noteq> CHR '':'') k, drop 1 (dropWhile (\<lambda>c. c \<noteq> CHR '':'') k),
     (now - at) div 1000000)) (in_flight_agents d)"

section \<open>What acts on it\<close>

definition stall_tick :: "int \<Rightarrow> stall_detector \<Rightarrow> int option \<Rightarrow> stall_verdict option \<times> int option" where
  \<comment> \<open>one poll: the verdict acted on, and the time of the last action\<close>
  "stall_tick now d last_action = (case check_stall now d of
     None \<Rightarrow> (None, last_action)
   | Some v \<Rightarrow> (if (case last_action of None \<Rightarrow> False | Some at \<Rightarrow> now - at < cooldown (dt_thresholds d)) then (None, last_action)
       else (Some v, Some now)))"

definition kills_agents :: "stall_verdict \<Rightarrow> bool" where
  "kills_agents v \<longleftrightarrow> sv_signal v = HeartbeatGap"

fun run_stall_loop :: "(int \<times> stall_detector) list \<Rightarrow> int option \<Rightarrow> (int \<times> stall_verdict) list" where
  \<comment> \<open>the polls, each with the detector as it is then; the actions taken\<close>
  "run_stall_loop [] la = []"
| "run_stall_loop ((now, d) # ps) la = (case stall_tick now d la of
     (None, la') \<Rightarrow> run_stall_loop ps la'
   | (Some v, la') \<Rightarrow> (now, v) # run_stall_loop ps la')"

section \<open>Agents in flight\<close>

fun shows_life :: "stall_event \<Rightarrow> bool" where
  "shows_life (AgentStarts i r) = True"
| "shows_life (AgentThinks i r) = True"
| "shows_life (AgentFinishes i r) = False"
| "shows_life (StatusChanges i to) = False"

fun concerns :: "string \<Rightarrow> stall_event \<Rightarrow> bool" where
  "concerns k (AgentStarts i r) = (agent_key i r = k)"
| "concerns k (AgentThinks i r) = (agent_key i r = k)"
| "concerns k (AgentFinishes i r) = (agent_key i r = k)"
| "concerns k (StatusChanges i to) = False"

fun status_of :: "string \<Rightarrow> stall_event \<Rightarrow> bool" where
  "status_of i (StatusChanges j to) = (j = i)"
| "status_of i _ = False"

fun asks :: "stall_event \<Rightarrow> bool" where
  "asks (StatusChanges j to) = (to = ''needs_info'')"
| "asks _ = False"

text \<open>The start of the last run of events: of those it is about, the latest ones that keep it on.\<close>

definition since :: "('e \<Rightarrow> bool) \<Rightarrow> ('e \<Rightarrow> bool) \<Rightarrow> (int \<times> 'e) list \<Rightarrow> int option" where
  "since about on es = (let run = takeWhile (\<lambda>(_, e). on e) (rev (filter (\<lambda>(_, e). about e) es))
     in if run = [] then None else Some (fst (last run)))"

abbreviation running_since :: "string \<Rightarrow> (int \<times> stall_event) list \<Rightarrow> int option" where
  "running_since k \<equiv> since (concerns k) shows_life"

abbreviation waiting_since :: "string \<Rightarrow> (int \<times> stall_event) list \<Rightarrow> int option" where
  "waiting_since i \<equiv> since (status_of i) asks"

lemma since_Nil [simp]: "since about on [] = None"
  by (simp add: since_def)

lemma since_snoc [simp]: "since about on (es @ [(t, e)]) =
    (if \<not> about e then since about on es else if on e then Some (the_default t (since about on es)) else None)"
  by (simp add: since_def Let_def)

lemma watched_snoc: "watched t (es @ [e]) = stall_event_step e (watched t es)"
  by (simp add: watched_def)

lemma watched_Nil: "watched t [] = new_detector t"
  by (simp add: watched_def)

lemmas stall_steps = record_agent_start_def record_heartbeat_def record_agent_done_def on_status_change_def
  record_needs_info_def clear_needs_info_def

lemma first_seen_map: "map_of (first_seen k now d) j = (if j = k then Some (the_default now (map_of d k)) else map_of d j)"
  using map_of_eq_None_iff [of d k] by (cases "map_of d k") (auto simp: first_seen_def update_conv')

lemma first_seen_distinct: "distinct (keys d) \<Longrightarrow> distinct (keys (first_seen k now d))"
  by (simp add: first_seen_def distinct_update)

lemma watched_thresholds [simp]: "dt_thresholds (watched t es) = t"
proof (induction es rule: rev_induct)
  case (snoc e es)
  then show ?case by (cases e; cases "snd e") (simp_all add: watched_snoc stall_steps)
qed (simp add: watched_Nil new_detector_def)

lemma watched_state:
  "distinct (keys (in_flight_agents (watched t es))) \<and> distinct (keys (needs_info_since (watched t es))) \<and>
   (\<forall>k. map_of (in_flight_agents (watched t es)) k = running_since k es) \<and>
   (\<forall>i. map_of (needs_info_since (watched t es)) i = waiting_since i es)"
proof (induction es rule: rev_induct)
  case (snoc e es)
  obtain now x where e: "e = (now, x)" by (cases e)
  with snoc show ?case
    by (cases x) (auto simp: watched_snoc stall_steps first_seen_map first_seen_distinct delete_conv' distinct_delete)
qed (simp add: watched_Nil new_detector_def)

lemma watched_heartbeat:
  "last_heartbeat_at (watched t es) = map_option fst (List.find (\<lambda>(_, e). shows_life e) (rev es))"
proof (induction es rule: rev_induct)
  case (snoc e es)
  obtain now x where e: "e = (now, x)" by (cases e)
  with snoc show ?case by (cases x) (simp_all add: watched_snoc stall_steps)
qed (simp add: watched_Nil new_detector_def)

lemma since_on: "since about on es = Some at \<Longrightarrow> \<exists>e. (at, e) \<in> set es \<and> about e \<and> on e"
proof (induction es arbitrary: at rule: rev_induct)
  case (snoc p es)
  obtain now x where "p = (now, x)" by (cases p)
  with snoc show ?case by (cases "since about on es") (auto split: if_splits)
qed simp

definition silent_for :: "int \<Rightarrow> int \<Rightarrow> (int \<times> stall_event) list \<Rightarrow> bool" where
  \<comment> \<open>no agent has shown life in that time\<close>
  "silent_for gap now es \<longleftrightarrow> (\<forall>(at, e) \<in> set es. shows_life e \<longrightarrow> now - at > gap)"

lemma nonempty_map_of: "d \<noteq> [] \<longleftrightarrow> (\<exists>k at. map_of d k = Some at)"
proof (cases d)
  case (Cons p d')
  then have "map_of d (fst p) = Some (snd p)" by simp
  with Cons show ?thesis by blast
qed simp

lemma gap_verdict_iff:
  assumes "sorted (map fst es)"
  shows "gap_verdict now (watched t es) \<noteq> None \<longleftrightarrow> (\<exists>k at. running_since k es = Some at) \<and> silent_for (heartbeat_gap t) now es"
proof (cases "List.find (\<lambda>(_, e). shows_life e) (rev es)")
  case None
  then have "since (concerns k) shows_life es = None" for k
    using since_on [of "concerns k" shows_life es] by (cases "since (concerns k) shows_life es") (auto simp: find_None)
  with None show ?thesis by (simp add: gap_verdict_def watched_heartbeat)
next
  case (Some p)
  obtain at e where p: "p = (at, e)" by (cases p)
  from find_rev_split [OF Some] obtain as bs where es: "es = as @ p # bs" and bs: "\<forall>x \<in> set bs. \<not> (\<lambda>(_, e). shows_life e) x"
    and e: "shows_life e" using find_Some_in [OF Some] p by auto
  have "silent_for (heartbeat_gap t) now es \<longleftrightarrow> now - at > heartbeat_gap t"
    using assms e bs unfolding silent_for_def es p by (fastforce simp: sorted_append)
  moreover have "in_flight_agents (watched t es) \<noteq> [] \<longleftrightarrow> (\<exists>k at. running_since k es = Some at)"
    using watched_state [of t es] nonempty_map_of [of "in_flight_agents (watched t es)"] by simp
  ultimately show ?thesis using Some p by (auto simp: gap_verdict_def watched_heartbeat)
qed

lemma found_overdue:
  assumes "distinct (keys d)"
  shows "List.find (\<lambda>(_, at). P at) d \<noteq> None \<longleftrightarrow> (\<exists>k at. map_of d k = Some at \<and> P at)"
  using assms by (force simp: find_None_iff map_of_eq_Some_iff)

section \<open>Properties\<close>

text \<open>
  C35: What the detector reports after any history of starts, heartbeats, finishes and status
  changes: a silence when some agent is in flight and none of them, in flight or not, has shown life
  within the threshold; otherwise an agent that has run too long since its first sign of life; otherwise a
  ticket that has been waiting too long since it first asked.
\<close>
theorem stall_reported_exactly:
  assumes "sorted (map fst es)"
  shows "map_option sv_signal (check_stall now (watched t es)) =
    (if (\<exists>k at. running_since k es = Some at) \<and> silent_for (heartbeat_gap t) now es then Some HeartbeatGap
     else if \<exists>k at. running_since k es = Some at \<and> now - at > agent_wall_time t then Some WallTime
     else if \<exists>i at. waiting_since i es = Some at \<and> now - at > unanswered_needs_info t then Some UnansweredNeedsInfo
     else None)"
proof -
  let ?d = "watched t es"
  have gap: "gap_verdict now ?d = Some v \<Longrightarrow> sv_signal v = HeartbeatGap" for v
    by (auto simp: gap_verdict_def split: option.splits if_splits)
  have d: "distinct (keys (in_flight_agents ?d))" "distinct (keys (needs_info_since ?d))"
    and m: "map_of (in_flight_agents ?d) k = running_since k es" "map_of (needs_info_since ?d) k = waiting_since k es" for k
    using watched_state [of t es] by simp_all
  note long = found_overdue [OF d(1), of "\<lambda>at. now - at > agent_wall_time t", unfolded m]
    and wait = found_overdue [OF d(2), of "\<lambda>at. now - at > unanswered_needs_info t", unfolded m]
  show ?thesis
    unfolding gap_verdict_iff [OF assms, of now t, symmetric] long [symmetric] wait [symmetric]
    by (auto simp: check_stall_def gap split: option.split)
qed

theorem stall_reported_exactly_witness:
  "map_option sv_signal (check_stall 100000000 (watched default_thresholds
     [(0, AgentStarts ''t'' ''dev''), (5000000, StatusChanges ''u'' ''needs_info''), (9000000, AgentThinks ''t'' ''dev'')])) = Some HeartbeatGap \<and>
   map_option sv_signal (check_stall 100000000 (watched default_thresholds
     [(0, AgentStarts ''t'' ''dev''), (50000000, AgentThinks ''v'' ''qa'')])) = None"
proof -
  let ?a = "[(0, AgentStarts ''t'' ''dev''), (5000000, StatusChanges ''u'' ''needs_info''), (9000000, AgentThinks ''t'' ''dev'')]"
  let ?b = "[(0, AgentStarts ''t'' ''dev''), (50000000, AgentThinks ''v'' ''qa'')]"
  have "running_since (agent_key ''t'' ''dev'') ?a = Some 0" by (simp add: since_def)
  then have r: "\<exists>k at. running_since k ?a = Some at" by blast
  have b: "at \<ge> 0" if "running_since k ?b = Some at" for k at using since_on [OF that] by auto
  have w: "waiting_since i ?b = None" for i
    using since_on [of "status_of i" asks ?b] by (cases "waiting_since i ?b") auto
  have "map_option sv_signal (check_stall 100000000 (watched default_thresholds ?a)) = Some HeartbeatGap"
    by (subst stall_reported_exactly) (use r in \<open>simp_all add: silent_for_def default_thresholds_def\<close>)
  moreover have "map_option sv_signal (check_stall 100000000 (watched default_thresholds ?b)) = None"
    by (subst stall_reported_exactly) (use w in \<open>auto simp: silent_for_def default_thresholds_def dest: b\<close>)
  ultimately show ?thesis ..
qed

lemma stall_actions_after:
  "list_all (\<lambda>(now, d). cooldown (dt_thresholds d) = c) ps \<Longrightarrow> run_stall_loop ps (Some at) = (b, v) # as \<Longrightarrow> c \<le> b - at"
  by (induction ps) (auto simp: stall_tick_def split: prod.splits option.splits if_splits)

lemma stall_actions_apart:
  "list_all (\<lambda>(now, d). cooldown (dt_thresholds d) = c) ps \<Longrightarrow> successively (\<lambda>a b. c \<le> fst b - fst a) (run_stall_loop ps la)"
proof (induction ps arbitrary: la)
  case (Cons p ps)
  obtain now d where p: "p = (now, d)" by (cases p)
  have "c \<le> fst (hd as) - now" if "run_stall_loop ps (Some now) = as" "as \<noteq> []" for as
    using stall_actions_after [of c ps now "fst (hd as)" "snd (hd as)" "tl as"] Cons.prems that by simp
  with Cons p show ?case by (auto simp: stall_tick_def successively_Cons split: option.split)
qed simp

lemma stall_acted:
  "list_all (\<lambda>(now, d). cooldown (dt_thresholds d) = c) ps \<Longrightarrow> (now, d) \<in> set ps \<Longrightarrow> check_stall now d \<noteq> None \<Longrightarrow>
     (\<exists>(at, _) \<in> set (run_stall_loop ps la). at = now \<or> now - at < c) \<or> (\<exists>at. la = Some at \<and> now - at < c)"
proof (induction ps arbitrary: la)
  case (Cons p ps)
  obtain now' d' where p: "p = (now', d')" by (cases p)
  show ?case
    using Cons.prems Cons.IH [of la] Cons.IH [of "Some now'"] p
    by (auto simp: stall_tick_def split: option.splits if_splits)
qed simp

text \<open>
  The loop acts on stalls at least the cooldown apart, whatever it finds at its polls, and a
  stall it does not act on was preceded by an action less than the cooldown ago.
\<close>
lemma stall_actions_spaced:
  "let actions = run_stall_loop (map (\<lambda>(now, es). (now, watched t es)) ps) None in
     successively (\<lambda>a b. cooldown t \<le> fst b - fst a) actions \<and>
     list_all (\<lambda>(now, es). check_stall now (watched t es) = None \<or> list_ex (\<lambda>(at, _). at = now \<or> now - at < cooldown t) actions) ps"
proof -
  let ?ps = "map (\<lambda>(now, es). (now, watched t es)) ps"
  have c: "list_all (\<lambda>(now, d). cooldown (dt_thresholds d) = cooldown t) ?ps" by (auto simp: list_all_iff)
  show ?thesis
    unfolding Let_def list_all_iff list_ex_iff
    using stall_actions_apart [OF c, of None] stall_acted [OF c, where la = None] by fastforce
qed

end
