(* ===== verification/Spec2Isabelle.thy ===== *)
theory Spec2Isabelle
  imports StoreProps TicketProps ConsoleRuns CheckpointToolProps SchedulerProps CheckRunnerProps PhaseProps NotableProps StallDetector
begin

text \<open>
  A verification library for the coordination core of jig (\<open>src/jig/\<close>): agents of several
  roles work on tickets, talk in typed threads, write checkpoints, pass gated handoffs,
  and are told of everything over a message bus.  What all of this rests on is an
  append-only JSONL document store.

  \<^bold>\<open>Parts and theories.\<close>

  \<^item> \<^verbatim>\<open>Prelude\<close>: JSON values and documents, dictionary operations of Python on association
    lists, strings (\<open>strip\<close>, \<open>lower\<close>, decimal digits), the exception classes and the result type.
    \<^verbatim>\<open>PyText\<close>: \<open>repr\<close>, \<open>join\<close> and decimal integers as they occur in messages.
  \<^item> \<^verbatim>\<open>JsonlStore\<close> (\<open>store/core.py\<close>): the store as a record of documents, hash indexes and the lines
    of the file; every operation with its errors.  \<^verbatim>\<open>JsonlStoreInv\<close>: its invariant and what each
    operation does to the documents, the indexes and the replay of the log.
    \<^verbatim>\<open>StoreCollection\<close> (\<open>store/collection.py\<close>, \<open>store/models.py\<close>): queries, upserts, typed
    collections, the cache of open collections.  \<^verbatim>\<open>StoreProps\<close>: durability, exact queries, the
    record cap, a document that corrupts the log.
  \<^item> \<^verbatim>\<open>Codec\<close>, \<^verbatim>\<open>ModelStore\<close>: fields of pydantic models, and the locale \<open>stored_model\<close>: what a store of
    models promises (insert, read, update, query) when dump and parse are inverse; it is
    interpreted for thread entries, tickets, checkpoints and check results.
  \<^item> \<^verbatim>\<open>ThreadEntry\<close>, \<^verbatim>\<open>ThreadCodec\<close> (\<open>thread.py\<close>), \<^verbatim>\<open>ThreadStore\<close> (\<open>store/threads.py\<close>): the twelve entry
    classes with their validators, dump and parse, legacy migration, the gating queries.
  \<^item> \<^verbatim>\<open>SafePath\<close> (\<open>safe_path.py\<close>, \<open>schemas/_validators.py\<close>), \<^verbatim>\<open>TicketText\<close> (the acceptance scan of
    \<open>ticket.py\<close>), \<^verbatim>\<open>Ticket\<close> (the model of \<open>ticket.py\<close>), \<^verbatim>\<open>TicketStore\<close> (\<open>store/tickets.py\<close>), \<^verbatim>\<open>TicketProps\<close>.
  \<^item> \<^verbatim>\<open>Bus\<close> (\<open>store/bus.py\<close>): queues are addresses into a store, so that two subscribers can share one.
  \<^item> \<^verbatim>\<open>Checkpoints\<close> (\<open>checkpoints.py\<close>, \<open>store/checkpoints.py\<close>): with the in-place writes through the
    shallow copies the store hands out.
  \<^item> \<^verbatim>\<open>Evaluator\<close> (\<open>models.py\<close>, \<open>evaluator_resolver.py\<close>): who may accept a handoff.
  \<^item> \<^verbatim>\<open>Actions\<close>: the effects of the code: a function from a state to a result and a state, where
    effects before an exception remain, and the rules of a Hoare triple with an exceptional
    postcondition.  \<^verbatim>\<open>World\<close>: the state the tools share.  \<^verbatim>\<open>ThreadHandlers\<close> (\<open>thread_mcp.py\<close>): the fifteen thread tools.
    \<^verbatim>\<open>ThreadProtocol\<close>: every handler's effect on the entries.  \<^verbatim>\<open>ThreadRuns\<close>: the tools as the server
    of \<open>mcp_server.py\<close> registers them, a step relation of agents, who may close what, and the waiver tokens.
  \<^item> \<^verbatim>\<open>CheckResults\<close> (\<open>checks.py\<close>, \<open>check_results.py\<close>, \<open>store/check_results.py\<close>), \<^verbatim>\<open>CheckGate\<close>
    (\<open>check_gate.py\<close>, \<open>handoff_gate.py\<close>), \<^verbatim>\<open>CheckGateProps\<close>: scoring, waivers, bounce, automatic accept, and
    runs of agents and gates.
  \<^item> \<^verbatim>\<open>Deadlock\<close> (\<open>deadlock.py\<close>), \<^verbatim>\<open>DeadlockProps\<close>: the sweep, with what it catches, and runs of
    agents, gates and other sweeps.
  \<^item> \<^verbatim>\<open>TicketHandlers\<close> (\<open>ticket_mcp.py\<close>, \<open>ticket_events.py\<close>, \<open>config.py\<close>), \<^verbatim>\<open>TicketToolProps\<close>: the ticket tools
    and what creating a ticket does.  \<^verbatim>\<open>CommitText\<close> (\<open>ticket_mcp.py\<close>, \<open>hooks/__init__.py\<close>): commit
    messages and the hook that checks them.  \<^verbatim>\<open>CheckpointHandlers\<close>, \<^verbatim>\<open>CheckpointToolProps\<close>
    (\<open>checkpoint_mcp.py\<close>): the checkpoint tools and hooks, the commit tool, promotion of deferred items.
  \<^item> \<^verbatim>\<open>Specs\<close> (\<open>specs.py\<close>, \<open>work_types.py\<close>, \<open>ownership.py\<close>, \<open>section_locks.py\<close>), \<^verbatim>\<open>Proposals\<close> (\<open>proposal_mcp.py\<close>),
    \<^verbatim>\<open>ProposalProps\<close>: spec files, owners and locks, proposals and what resolving them writes.
    \<^verbatim>\<open>ConsoleRuns\<close> (\<open>_prompt_for_needs_info\<close> of \<open>orchestrator.py\<close>): the operator who is prompted for an answer, and
    the runs of all who write thread entries, with what they can never undo.
  \<^item> \<^verbatim>\<open>Scheduler\<close> (\<open>orchestrator.py\<close>): the scheduling half of the orchestrator on the tickets and the
    bus of the world: starting tickets, the failure cascade, the end of a ticket, completion, the
    reconcile tick with its sweep and its watchdog, messages, startup and shutdown.
    \<^verbatim>\<open>SchedulerRules\<close>: the effect of each step on the map of tickets, and the search of the cascade.
    \<^verbatim>\<open>SchedulerProps\<close>: termination, exactness of the cascade, blame, what a sweep leaves behind, when a task starts for
    an open ticket, the capacity, and the messages that break it.
  \<^item> \<^verbatim>\<open>CheckRunner\<close> (\<open>check_runner.py\<close>, \<open>check_mcp.py\<close>, \<open>handoff_gate.py\<close>): running the checks of a phase, the
    verdict tool of check agents, the gate of a pending handoff with what follows its verdict.
    \<^verbatim>\<open>CheckRunnerProps\<close>: a gate passes on runs of its own; a refused verdict.
  \<^item> \<^verbatim>\<open>FixRoute\<close> (\<open>reviewer_routing.py\<close>, \<open>orchestrator.py\<close>): where a blocked phase is sent back to, with \<open>fnmatch\<close>, and
    which findings persist.  \<^verbatim>\<open>PhaseLoop\<close> (\<open>_run_ticket\<close> of \<open>orchestrator.py\<close>, \<open>phase.py\<close>): the life of a
    ticket over the scheduler: provisioning, the phases in order, their gates, fix rounds,
    adjudication, commits, and what the scheduler does at the end.  \<^verbatim>\<open>FixRouteProps\<close>: routing,
    escalation over reviews, verdicts and reruns, and what a restart forgets.  \<^verbatim>\<open>PhaseRules\<close>: what each step leaves of the counters of the
    loop.  \<^verbatim>\<open>PhaseProps\<close>: the loop ends, and what it takes to pass a phase or to get another round.
  \<^item> \<^verbatim>\<open>Scope\<close> (\<open>scope.py\<close>): the files a reviewer may read, by globs, and the findings dropped for it.
    \<^verbatim>\<open>Findings\<close> (\<open>finding_ids.py\<close>, \<open>fix_loop_bundle.py\<close>, \<open>finding_ack_mcp.py\<close>, \<open>store/finding_acks.py\<close>, parts of
    \<open>ws_server.py\<close> and \<open>mcp_server.py\<close>): the names of findings, their acknowledgements, the bundles made of
    both, and the verdicts of the adjudicator.  \<^verbatim>\<open>FindingProps\<close>: names are stable, what is raised again,
    what the bundles hold, where bundle and view agree, and that confirming twice is confirming once.  \<^verbatim>\<open>Notables\<close>, \<^verbatim>\<open>NotableProps\<close>
    (\<open>orchestrator.py\<close>): notable findings become proposed tickets, each once.
  \<^item> \<^verbatim>\<open>StallDetector\<close> (\<open>stall_detector.py\<close>, \<open>orchestrator.py\<close>): what is reported of agents that show no life, and when
    the loop acts on it.
\<close>

text \<open>
  \<^bold>\<open>How the model corresponds to the code.\<close>  A stored object is the JSON document the code
  writes; a handler is a definition of the same name whose guards, writes and messages
  stand in the order of the code.  Exceptions are values: the class, and the reason that
  tells the \<open>raise\<close> from others of its class.  An argument of a tool that does not have the type of
  the tool schema raises when it is read; the class of that exception is not tracked.
  Clock and \<open>uuid4\<close> are the fields \<open>en_now\<close> and \<open>en_uuid\<close> of the environment of a call: the objects a call
  constructs take draws 0, 1, 2 and so on, as the comments say; nothing is assumed of the
  draws, so an id that is not fresh is a case of every theorem.  \<open>en_draws\<close> is what a parse of an
  old record would draw.  Times are microseconds.  Strings are lists of Latin-1
  characters.

  \<^bold>\<open>Atomicity.\<close>  An operation of a store is one step: the code holds the lock of the store over it, or does
  not suspend in it.  A call of a tool, a gate, a sweep and a tick of the orchestrator are modelled as running to
  their end before the next one starts, and the runs of \<open>ConsoleRuns\<close> and the theories before it are sequences of whole
  calls, which is more than the locks of the code provide: they cover single operations only, so that a handler that
  checks and then awaits its write can be overtaken (\<open>_close_handoff\<close> and \<open>handle_resolve_proposal\<close>).  Nothing is shown
  of such overlapping calls.  Modelled as several steps are the prompt of the operator, whose reply
  is awaited while others work (\<open>ConsoleRuns\<close>), the checks of a gate, during which others change the stores (\<open>ci_during\<close>),
  the waits of a phase, and the creation of tickets by several processes (\<open>issue_keys_unique\<close>).

  \<^bold>\<open>What the lemmas show.\<close>  The refinement lemmas (\<open>..._refines\<close>) reduce a store to a map from ids to
  models (\<open>thread_map\<close>, \<open>ticket_map\<close>, \<open>checkpoint_map\<close>); on it, the triples of the handlers are
  stated, and the properties are about the map before and after.  A loop over a
  list is structural recursion.  Two loops follow the edges of the ticket graph and have fuel:
  the cascade one unit for each stored ticket and one for its root, the walk to the blamed
  failure one more; \<open>cascade_terminates\<close> and \<open>root_failure_found\<close> show that it never runs out.
  The loop over the phases takes one input a round; \<open>phases_end\<close> shows that \<open>5 n (n + 1) + n\<close> inputs
  in which the agent does not ask for information are enough for \<open>n\<close> phases: each can be sent back three times for a fix
  and adjudicated twice.  How often an agent asks for information is not bounded by the code.

  \<^bold>\<open>Parameters.\<close>  Set iteration order (\<open>st_order\<close>), path resolution (\<open>resolve\<close>), the workflow files, the
  configuration, the YAML parser and the schema files, the outcome of a commit, which runs git and the
  linters, and of merging the branch of a ticket; the role files of the reviewers and the phase that
  last touched a file (\<open>git log\<close>); the digest of the signature of a finding; for every round of a
  ticket, how its agent, checks, reviewers and adjudicator end and what others do meanwhile.

  \<^bold>\<open>Not modelled.\<close>  The agent processes and the part of the orchestrator that spawns them and waits
  on them, with its timers and the prompts it gives them; worktrees, hooks other than the commit message check, and
  containers; the command line, the servers and the user interface; the init and
  onboarding interviews; prompts; the simulator.  Of the
  modelled files: logging; the ticket specification that \<open>handle_create_ticket\<close> writes as a best
  effort (its code swallows every exception); learnings, file reading and package
  installation in \<open>ticket_mcp.py\<close>.

  \<^bold>\<open>Plan.\<close>  The advice over analytics events (\<open>auto_escalation.py\<close>) and the remaining stores.
\<close>

end
